(* ===== verification/Zenith_Prelude.thy ===== *)
theory Zenith_Prelude
  imports Complex_Main "HOL-Library.AList" "HOL-Library.Word"
begin

text \<open>
  Shared ground of the development: the exceptions the Python sources raise, the programs that
  read and change a state and may raise (\<open>prog\<close>) with the frame rules the components use
  (\<open>keeps\<close>), rounding of fractions, and the text helpers of the standard library the sources
  call, on characters below 256. Strings are \<open>char list\<close>.
\<close>

named_theorems prog_simps \<open>how programs with state and exceptions compute\<close>
named_theorems dir_simps \<open>lookups after directory updates\<close>

section \<open>Exceptions\<close>

text \<open>
  One constructor per exception class the sources raise or catch. \<open>is_OSError\<close>,
  \<open>is_ValueError\<close> and \<open>is_RuntimeError\<close> are the \<open>except\<close> clauses on those classes, with
  the subclasses Python and the sources declare.
\<close>

datatype exc =
    OSError string | FileNotFoundError | FileExistsError | IsADirectoryError
  | ConnectionError string | TimeoutError
  | ValueError string | CSVSchemaError string | ScopeValidationError string
  | DuplicateIdentityError string | CredentialTokenError string | CredentialConfigurationError string
  | LegacyDirectoryError string | AmbiguousDirectoryIdentityError string
  | DirectoryCredentialUnavailableError string | RemoteConfigError string
  | TypeError string | KeyError string | AttributeError string | NameError string
  | ZeroDivisionError | RuntimeError string | LeaseBusyError string | RemoteCollisionError
  | IntegrityConstraintError string | OperationFailure | SQLAlchemyError string
  | WebSocketDisconnect | CancelledError | HTTPException nat string | OtherError string

fun is_OSError :: "exc \<Rightarrow> bool" where
  "is_OSError (OSError _) = True"
| "is_OSError FileNotFoundError = True"
| "is_OSError FileExistsError = True"
| "is_OSError IsADirectoryError = True"
| "is_OSError (ConnectionError _) = True"
| "is_OSError TimeoutError = True"
| "is_OSError _ = False"

fun is_ValueError :: "exc \<Rightarrow> bool" where
  "is_ValueError (ValueError _) = True"
| "is_ValueError (CSVSchemaError _) = True"
| "is_ValueError (ScopeValidationError _) = True"
| "is_ValueError (DuplicateIdentityError _) = True"
| "is_ValueError (CredentialTokenError _) = True"
| "is_ValueError (CredentialConfigurationError _) = True"
| "is_ValueError (LegacyDirectoryError _) = True"
| "is_ValueError (AmbiguousDirectoryIdentityError _) = True"
| "is_ValueError (DirectoryCredentialUnavailableError _) = True"
| "is_ValueError _ = False"

fun is_RuntimeError :: "exc \<Rightarrow> bool" where
  "is_RuntimeError (RuntimeError _) = True"
| "is_RuntimeError (LeaseBusyError _) = True"
| "is_RuntimeError RemoteCollisionError = True"
| "is_RuntimeError _ = False"

text \<open>\<open>except Exception\<close> catches everything here but \<open>CancelledError\<close>, a \<open>BaseException\<close>.\<close>

fun is_Exception :: "exc \<Rightarrow> bool" where
  "is_Exception CancelledError = False"
| "is_Exception _ = True"

section \<open>Programs over a state\<close>

type_synonym ('s, 'a) prog = "'s \<Rightarrow> (exc + 'a) \<times> 's"

definition ret :: "'a \<Rightarrow> ('s, 'a) prog" where
  "ret a s = (Inr a, s)"

definition throw :: "exc \<Rightarrow> ('s, 'a) prog" where
  "throw e s = (Inl e, s)"

definition bindp :: "('s, 'a) prog \<Rightarrow> ('a \<Rightarrow> ('s, 'b) prog) \<Rightarrow> ('s, 'b) prog" where
  "bindp m f s = (case m s of (Inl e, s') \<Rightarrow> (Inl e, s') | (Inr a, s') \<Rightarrow> f a s')"

definition catchp :: "('s, 'a) prog \<Rightarrow> (exc \<Rightarrow> bool) \<Rightarrow> (exc \<Rightarrow> ('s, 'a) prog) \<Rightarrow> ('s, 'a) prog" where
  "catchp m p h s = (case m s of (Inl e, s') \<Rightarrow> if p e then h e s' else (Inl e, s') | (Inr a, s') \<Rightarrow> (Inr a, s'))"

definition lift_res :: "exc + 'a \<Rightarrow> ('s, 'a) prog" where
  "lift_res r s = (r, s)"

definition gets :: "('s \<Rightarrow> 'a) \<Rightarrow> ('s, 'a) prog" where
  "gets f s = (Inr (f s), s)"

definition modifyp :: "('s \<Rightarrow> 's) \<Rightarrow> ('s, unit) prog" where
  "modifyp f s = (Inr (), f s)"

lemma ret_apply [simp, prog_simps]: "ret a s = (Inr a, s)"
  by (simp add: ret_def)

lemma throw_apply [simp, prog_simps]: "throw e s = (Inl e, s)"
  by (simp add: throw_def)

lemma gets_apply [simp, prog_simps]: "gets f s = (Inr (f s), s)"
  by (simp add: gets_def)

lemma modifyp_apply [simp, prog_simps]: "modifyp f s = (Inr (), f s)"
  by (simp add: modifyp_def)

lemma lift_res_apply [simp, prog_simps]: "lift_res r s = (r, s)"
  by (simp add: lift_res_def)

lemma bindp_Inr [simp]: "m s = (Inr a, s') \<Longrightarrow> bindp m f s = f a s'"
  by (simp add: bindp_def)

lemma bindp_Inl [simp]: "m s = (Inl e, s') \<Longrightarrow> bindp m f s = (Inl e, s')"
  by (simp add: bindp_def)

lemma bindp_eq_Inr:
  "bindp m f s = (Inr b, s'') \<longleftrightarrow> (\<exists>a s'. m s = (Inr a, s') \<and> f a s' = (Inr b, s''))"
  by (auto simp: bindp_def split: prod.splits sum.splits)

lemma bindp_eq_Inl:
  "bindp m f s = (Inl e, s'') \<longleftrightarrow>
     m s = (Inl e, s'') \<or> (\<exists>a s'. m s = (Inr a, s') \<and> f a s' = (Inl e, s''))"
  by (auto simp: bindp_def split: prod.splits sum.splits)

text \<open>A \<open>for\<close> loop: the first exception of its body ends it.\<close>

fun for_p :: "('a \<Rightarrow> ('s, unit) prog) \<Rightarrow> 'a list \<Rightarrow> ('s, unit) prog" where
  "for_p f [] s = (Inr (), s)"
| "for_p f (x # xs) s = (case f x s of (Inl e, s') \<Rightarrow> (Inl e, s') | (Inr _, s') \<Rightarrow> for_p f xs s')"

lemma for_p_append:
  "for_p f (xs @ ys) s = (case for_p f xs s of (Inl e, s') \<Rightarrow> (Inl e, s') | (Inr _, s') \<Rightarrow> for_p f ys s')"
  by (induction xs arbitrary: s) (auto split: prod.splits sum.splits)

lemma for_p_inv:
  assumes "\<And>x s r s'. x \<in> set xs \<Longrightarrow> P s \<Longrightarrow> f x s = (r, s') \<Longrightarrow> P s'" and "P s"
    and "for_p f xs s = (r, s')"
  shows "P s'"
  using assms
proof (induction xs arbitrary: s)
  case Nil
  then show ?case by simp
next
  case (Cons x xs)
  obtain r1 s1 where 1: "f x s = (r1, s1)" by force
  with Cons.prems have "P s1" by (meson list.set_intros(1))
  with 1 Cons show ?case
    by (cases r1) (auto, metis list.set_intros(2))
qed

text \<open>A program that never changes the state (a read, a validation).\<close>

definition reads_only :: "('s, 'a) prog \<Rightarrow> bool" where
  "reads_only m \<longleftrightarrow> (\<forall>s. snd (m s) = s)"

lemma reads_only_ret [intro]: "reads_only (ret a)"
  by (simp add: reads_only_def)

lemma reads_only_throw [intro]: "reads_only (throw e)"
  by (simp add: reads_only_def)

lemma reads_only_gets [intro]: "reads_only (gets f)"
  by (simp add: reads_only_def)

lemma reads_only_lift [intro]: "reads_only (lift_res r)"
  by (simp add: reads_only_def)

lemma reads_only_bindp [intro]:
  "reads_only m \<Longrightarrow> (\<And>a. reads_only (f a)) \<Longrightarrow> reads_only (bindp m f)"
  unfolding reads_only_def bindp_def
  by (auto split: prod.splits sum.splits) (metis snd_conv)+

lemma reads_onlyD: "reads_only m \<Longrightarrow> m s = (r, s') \<Longrightarrow> s' = s"
  by (auto simp: reads_only_def) (metis snd_conv)

text \<open>A program that leaves a view of the state as it is, however it ends.\<close>

definition keeps :: "('s \<Rightarrow> 'v) \<Rightarrow> ('s, 'a) prog \<Rightarrow> bool" where
  "keeps f m \<longleftrightarrow> (\<forall>s. f (snd (m s)) = f s)"

named_theorems keep_rules \<open>what keeps a view of the state\<close>

lemma keepsD: "keeps f m \<Longrightarrow> m s = (r, s') \<Longrightarrow> f s' = f s"
  unfolding keeps_def by (metis snd_conv)

lemma keepsI: "(\<And>s r s'. m s = (r, s') \<Longrightarrow> f s' = f s) \<Longrightarrow> keeps f m"
  unfolding keeps_def by (metis prod.collapse)

lemma keeps_basic [keep_rules]:
  "keeps f (ret a)" "keeps f (throw e)" "keeps f (gets g)" "keeps f (lift_res r)"
  by (simp_all add: keeps_def)

lemma keeps_modifyp [keep_rules]: "(\<And>s. f (g s) = f s) \<Longrightarrow> keeps f (modifyp g)"
  by (simp add: keeps_def)

lemma keeps_bindp [keep_rules]: "keeps f m \<Longrightarrow> (\<And>a. keeps f (k a)) \<Longrightarrow> keeps f (bindp m k)"
  by (rule keepsI) (auto simp: bindp_def split: prod.splits sum.splits, (metis keepsD)+)

lemma keeps_catchp [keep_rules]: "keeps f m \<Longrightarrow> (\<And>e. keeps f (h e)) \<Longrightarrow> keeps f (catchp m p h)"
  by (rule keepsI) (auto simp: catchp_def split: prod.splits sum.splits if_splits, (metis keepsD)+)

lemma keeps_if [keep_rules]: "keeps f m \<Longrightarrow> keeps f n \<Longrightarrow> keeps f (if b then m else n)"
  by simp

lemma keeps_for_p [keep_rules]: "(\<And>x. keeps f (g x)) \<Longrightarrow> keeps f (for_p g xs)"
proof (rule keepsI)
  fix s r s' assume g: "\<And>x. keeps f (g x)" and r: "for_p g xs s = (r, s')"
  show "f s' = f s" by (rule for_p_inv[OF _ refl r]) (use keepsD[OF g] in metis)
qed

section \<open>Rounding\<close>

text \<open>\<open>round(q)\<close>: to the nearest integer, a half to the even one.\<close>

definition py_round :: "rat \<Rightarrow> int" where
  "py_round q =
     (let n = \<lfloor>q\<rfloor>; r = q - of_int n
      in if r < 1 / 2 then n else if r > 1 / 2 then n + 1 else if even n then n else n + 1)"

lemma py_round_of_int [simp]: "py_round (of_int n) = n"
  by (simp add: py_round_def)

lemma py_round_near: "\<bar>of_int (py_round q) - q\<bar> \<le> 1 / 2"
proof -
  have "of_int \<lfloor>q\<rfloor> \<le> q" "q < of_int \<lfloor>q\<rfloor> + 1"
    by linarith+
  then show ?thesis
    by (auto simp: py_round_def Let_def)
qed

section \<open>Text\<close>

definition is_digit :: "char \<Rightarrow> bool" where
  "is_digit c \<longleftrightarrow> (48::nat) \<le> of_char c \<and> of_char c \<le> (57::nat)"

definition is_upper :: "char \<Rightarrow> bool" where
  "is_upper c \<longleftrightarrow> (65::nat) \<le> of_char c \<and> of_char c \<le> (90::nat)"

definition is_lower :: "char \<Rightarrow> bool" where
  "is_lower c \<longleftrightarrow> (97::nat) \<le> of_char c \<and> of_char c \<le> (122::nat)"

definition is_alpha :: "char \<Rightarrow> bool" where
  "is_alpha c \<longleftrightarrow> is_upper c \<or> is_lower c"

definition is_alnum :: "char \<Rightarrow> bool" where
  "is_alnum c \<longleftrightarrow> is_alpha c \<or> is_digit c"

text \<open>\<open>str.isalnum\<close>: beside letters and digits of ASCII the ordinal signs, the numerals that are no
  digits, the micro sign and the letters from 192 on.\<close>

definition py_alnum :: "char \<Rightarrow> bool" where
  "py_alnum c \<longleftrightarrow> is_alnum c
     \<or> (let n = of_char c :: nat in n \<in> {170, 178, 179, 181, 185, 186, 188, 189, 190} \<or> (192 \<le> n \<and> n \<noteq> 215 \<and> n \<noteq> 247))"

text \<open>\<open>str.isspace\<close>: tab to carriage return, the separators 28 to 31, the blank, next line and the
  no-break space.\<close>

definition is_space :: "char \<Rightarrow> bool" where
  "is_space c \<longleftrightarrow> (let n = of_char c :: nat in (9 \<le> n \<and> n \<le> 13) \<or> (28 \<le> n \<and> n \<le> 32) \<or> n = 133 \<or> n = 160)"

text \<open>\<open>str.lower\<close> on the capitals of ASCII: the sources compare its result with ASCII words, or use it
  on text that holds nothing else.\<close>

definition to_lower :: "char \<Rightarrow> char" where
  "to_lower c = (if is_upper c then char_of (of_char c + (32::nat)) else c)"

definition py_lower :: "string \<Rightarrow> string" where
  "py_lower = map to_lower"

abbreviation LF :: char where
  "LF \<equiv> CHR 0x0A"

definition strip_if :: "(char \<Rightarrow> bool) \<Rightarrow> string \<Rightarrow> string" where
  "strip_if p s = rev (dropWhile p (rev (dropWhile p s)))"

definition py_strip :: "string \<Rightarrow> string" where
  "py_strip = strip_if is_space"

definition starts_with :: "string \<Rightarrow> string \<Rightarrow> bool" where
  "starts_with p s \<longleftrightarrow> take (length p) s = p"

definition ends_with :: "string \<Rightarrow> string \<Rightarrow> bool" where
  "ends_with p s \<longleftrightarrow> starts_with (rev p) (rev s)"

fun contains_str :: "string \<Rightarrow> string \<Rightarrow> bool" where
  "contains_str p [] = (p = [])"
| "contains_str p (c # cs) = (starts_with p (c # cs) \<or> contains_str p cs)"

text \<open>\<open>s.find(p)\<close>: the first position, None for -1.\<close>

fun py_find :: "string \<Rightarrow> string \<Rightarrow> nat option" where
  "py_find p [] = (if p = [] then Some 0 else None)"
| "py_find p (c # cs) = (if starts_with p (c # cs) then Some 0 else map_option Suc (py_find p cs))"

fun py_replace :: "string \<Rightarrow> string \<Rightarrow> string \<Rightarrow> string" where
  "py_replace old new [] = []"
| "py_replace old new (c # cs) =
     (if old \<noteq> [] \<and> starts_with old (c # cs)
      then new @ py_replace old new (drop (length old - 1) cs)
      else c # py_replace old new cs)"

fun split_on :: "char \<Rightarrow> string \<Rightarrow> string list" where
  "split_on x [] = [[]]"
| "split_on x (c # cs) =
     (if c = x then [] # split_on x cs
      else case split_on x cs of [] \<Rightarrow> [[c]] | w # ws \<Rightarrow> (c # w) # ws)"

fun join_str :: "string \<Rightarrow> string list \<Rightarrow> string" where
  "join_str sep [] = []"
| "join_str sep [w] = w"
| "join_str sep (w # v # ws) = w @ sep @ join_str sep (v # ws)"

definition digit_char :: "nat \<Rightarrow> char" where
  "digit_char n = char_of (48 + n)"

fun nat_str :: "nat \<Rightarrow> string" where
  "nat_str n = (if n < 10 then [digit_char n] else nat_str (n div 10) @ [digit_char (n mod 10)])"

declare nat_str.simps [simp del]

definition int_str :: "int \<Rightarrow> string" where
  "int_str i = (if i < 0 then ''-'' @ nat_str (nat (- i)) else nat_str (nat i))"

text \<open>Zero padding to a width, as \<open>:02d\<close> and \<open>%m\<close> do.\<close>

definition pad_nat :: "nat \<Rightarrow> nat \<Rightarrow> string" where
  "pad_nat w n = (let s = nat_str n in replicate (w - length s) (CHR ''0'') @ s)"

lemma starts_with_append [simp]: "starts_with p (p @ s)"
  by (simp add: starts_with_def)

lemma starts_with_iff: "starts_with p s \<longleftrightarrow> (\<exists>t. s = p @ t)"
  unfolding starts_with_def by (metis append_eq_conv_conj append_take_drop_id)

lemma nat_str_not_Nil [simp]: "nat_str n \<noteq> []"
  by (subst nat_str.simps) simp

lemma digit_char_digit: "n < 10 \<Longrightarrow> is_digit (digit_char n)"
  by (simp add: is_digit_def digit_char_def)

lemma nat_str_digits: "\<forall>c\<in>set (nat_str n). is_digit c"
  by (induction n rule: nat_str.induct) (subst nat_str.simps, auto simp: digit_char_digit)

lemma split_on_not_Nil [simp]: "split_on x s \<noteq> []"
  by (induction s) (auto split: list.splits)

lemma strip_if_keeps: "(\<And>c. c \<in> set s \<Longrightarrow> \<not> p c) \<Longrightarrow> strip_if p s = s"
proof -
  assume np: "\<And>c. c \<in> set s \<Longrightarrow> \<not> p c"
  have "dropWhile p xs = xs" if "set xs \<subseteq> set s" for xs
    using that np by (cases xs) auto
  from this[of s] this[of "rev s"] show ?thesis
    by (simp add: strip_if_def)
qed

end
