(* ===== verification/Py_Data.thy ===== *)
theory Py_Data
  imports Zenith_Prelude
begin

text \<open>
  The data the standard library hands to the sources: datetimes and their ISO text
  (\<open>datetime.isoformat\<close>, \<open>fromisoformat\<close>), JSON documents as \<open>json.loads\<close> returns them
  and their text (\<open>json.dumps\<close>), \<open>str\<close> of a JSON value, and the UUID syntax of
  \<open>uuid.UUID\<close>. A JSON string whose text is an ISO datetime is kept as the datetime it denotes
  (\<open>JIso\<close>), so \<open>fromisoformat (isoformat d) = d\<close> holds by representation; a float keeps its
  literal next to its value.
\<close>

section \<open>Datetimes\<close>

text \<open>An aware datetime is an instant in microseconds since the epoch; a naive one has no zone.\<close>

datatype datetime = Aware int | Naive int

fun dt_instant :: "datetime \<Rightarrow> int" where
  "dt_instant (Aware t) = t"
| "dt_instant (Naive t) = t"

definition seconds :: "int \<Rightarrow> int" where
  "seconds n = n * 1000000"

definition days :: "int \<Rightarrow> int" where
  "days n = n * 86400000000"

text \<open>Year, month and day of a day number (day 0 is 1970-01-01), proleptic Gregorian.\<close>

definition civil :: "int \<Rightarrow> int \<times> int \<times> int" where
  "civil day =
     (let z = day + 719468; era = z div 146097; doe = z mod 146097;
          yoe = (doe - doe div 1460 + doe div 36524 - doe div 146096) div 365;
          doy = doe - (365 * yoe + yoe div 4 - yoe div 100);
          mp = (5 * doy + 2) div 153;
          d = doy - (153 * mp + 2) div 5 + 1;
          m = (if mp < 10 then mp + 3 else mp - 9);
          y = yoe + era * 400 + (if m \<le> 2 then 1 else 0)
      in (y, m, d))"

definition pad_int :: "nat \<Rightarrow> int \<Rightarrow> string" where
  "pad_int w i = pad_nat w (nat i)"

definition date_text :: "int \<Rightarrow> string" where
  "date_text t = (let (y, m, d) = civil (t div 86400000000)
     in pad_int 4 y @ ''-'' @ pad_int 2 m @ ''-'' @ pad_int 2 d)"

definition clock_fields :: "int \<Rightarrow> int \<times> int \<times> int \<times> int" where
  "clock_fields t = (let us = t mod 86400000000; s = us div 1000000
     in (s div 3600, s div 60 mod 60, s mod 60, us mod 1000000))"

definition time_text :: "string \<Rightarrow> int \<Rightarrow> string" where
  "time_text sep t = (let (h, m, s, _) = clock_fields t
     in pad_int 2 h @ sep @ pad_int 2 m @ sep @ pad_int 2 s)"

definition isoformat :: "datetime \<Rightarrow> string" where
  "isoformat d = (let t = dt_instant d; (_, _, _, us) = clock_fields t in
     date_text t @ ''T'' @ time_text '':'' t @
     (if us = 0 then [] else ''.'' @ pad_int 6 us) @
     (case d of Aware _ \<Rightarrow> ''+00:00'' | Naive _ \<Rightarrow> []))"

section \<open>JSON\<close>

datatype json =
    JNull | JBool bool | JInt int | JFloat rat string | JStr string | JIso datetime
  | JList "json list" | JObj "(string \<times> json) list"

fun jget :: "json \<Rightarrow> string \<Rightarrow> json option" where
  "jget (JObj kvs) k = map_of kvs k"
| "jget _ k = None"

fun is_dict :: "json \<Rightarrow> bool" where
  "is_dict (JObj _) = True"
| "is_dict _ = False"

fun truthy :: "json \<Rightarrow> bool" where
  "truthy JNull = False"
| "truthy (JBool b) = b"
| "truthy (JInt i) = (i \<noteq> 0)"
| "truthy (JFloat q _) = (q \<noteq> 0)"
| "truthy (JStr s) = (s \<noteq> [])"
| "truthy (JIso _) = True"
| "truthy (JList xs) = (xs \<noteq> [])"
| "truthy (JObj kvs) = (kvs \<noteq> [])"

text \<open>Python's \<open>v == n\<close> for an int: \<open>True == 1\<close> and \<open>1.0 == 1\<close> hold.\<close>

fun json_eq_int :: "json \<Rightarrow> int \<Rightarrow> bool" where
  "json_eq_int (JInt i) n = (i = n)"
| "json_eq_int (JBool b) n = ((if b then 1 else 0) = n)"
| "json_eq_int (JFloat q _) n = (q = of_int n)"
| "json_eq_int _ n = False"

definition hex_digit :: "nat \<Rightarrow> char" where
  "hex_digit n = (if n < 10 then char_of (48 + n) else char_of (87 + n))"

definition dumps_char :: "char \<Rightarrow> string" where
  "dumps_char c = (let n = of_char c :: nat in
     if n = 34 then [CHR 0x5C, CHR 0x22]
     else if n = 92 then [CHR 0x5C, CHR 0x5C]
     else if n = 8 then [CHR 0x5C, CHR ''b'']
     else if n = 9 then [CHR 0x5C, CHR ''t'']
     else if n = 10 then [CHR 0x5C, CHR ''n'']
     else if n = 12 then [CHR 0x5C, CHR ''f'']
     else if n = 13 then [CHR 0x5C, CHR ''r'']
     else if n < 32 \<or> n > 126 then [CHR 0x5C, CHR ''u'', CHR ''0'', CHR ''0'', hex_digit (n div 16), hex_digit (n mod 16)]
     else [c])"

definition dumps_str :: "string \<Rightarrow> string" where
  "dumps_str s = [CHR 0x22] @ concat (map dumps_char s) @ [CHR 0x22]"

text \<open>\<open>json.dumps\<close> with the default separators and escapes.\<close>

fun json_dumps :: "json \<Rightarrow> string" where
  "json_dumps JNull = ''null''"
| "json_dumps (JBool b) = (if b then ''true'' else ''false'')"
| "json_dumps (JInt i) = int_str i"
| "json_dumps (JFloat _ l) = l"
| "json_dumps (JStr s) = dumps_str s"
| "json_dumps (JIso d) = dumps_str (isoformat d)"
| "json_dumps (JList xs) = ''['' @ join_str '', '' (map json_dumps xs) @ '']''"
| "json_dumps (JObj kvs) =
     ''{'' @ join_str '', '' (map (\<lambda>kv. dumps_str (fst kv) @ '': '' @ json_dumps (snd kv)) kvs) @ ''}''"

definition repr_str :: "string \<Rightarrow> string" where
  "repr_str s = (let q = (if CHR 0x27 \<in> set s \<and> CHR 0x22 \<notin> set s then CHR 0x22 else CHR 0x27);
      esc = (\<lambda>c. let n = of_char c :: nat in
        if c = q \<or> n = 92 then [CHR 0x5C, c]
        else if n = 9 then [CHR 0x5C, CHR ''t''] else if n = 10 then [CHR 0x5C, CHR ''n'']
        else if n = 13 then [CHR 0x5C, CHR ''r'']
        else if n < 32 \<or> n = 127 then [CHR 0x5C, CHR ''x'', hex_digit (n div 16), hex_digit (n mod 16)]
        else [c])
    in [q] @ concat (map esc s) @ [q])"

text \<open>\<open>repr\<close> and \<open>str\<close> of a loaded value: they differ on a string only.\<close>

fun py_repr :: "json \<Rightarrow> string" where
  "py_repr JNull = ''None''"
| "py_repr (JBool b) = (if b then ''True'' else ''False'')"
| "py_repr (JInt i) = int_str i"
| "py_repr (JFloat _ l) = l"
| "py_repr (JStr s) = repr_str s"
| "py_repr (JIso d) = repr_str (isoformat d)"
| "py_repr (JList xs) = ''['' @ join_str '', '' (map py_repr xs) @ '']''"
| "py_repr (JObj kvs) =
     ''{'' @ join_str '', '' (map (\<lambda>kv. repr_str (fst kv) @ '': '' @ py_repr (snd kv)) kvs) @ ''}''"

definition py_str :: "json \<Rightarrow> string" where
  "py_str j = (case j of JStr s \<Rightarrow> s | JIso d \<Rightarrow> isoformat d | _ \<Rightarrow> py_repr j)"

lemma py_str_JStr [simp]: "py_str (JStr s) = s"
  by (simp add: py_str_def)

section \<open>UUID syntax\<close>

definition is_hex :: "char \<Rightarrow> bool" where
  "is_hex c \<longleftrightarrow> is_digit c \<or> (let n = of_char c :: nat in (65 \<le> n \<and> n \<le> 70) \<or> (97 \<le> n \<and> n \<le> 102))"

text \<open>
  \<open>int(s, 16)\<close> succeeds: blanks around, one sign, an optional \<open>0x\<close>, hex digits with single
  underscores between them.
\<close>

fun hex_groups :: "bool \<Rightarrow> string \<Rightarrow> bool" where
  "hex_groups seen [] = seen"
| "hex_groups seen (c # cs) =
     (if is_hex c then hex_groups True cs
      else c = CHR ''_'' \<and> seen \<and> cs \<noteq> [] \<and> is_hex (hd cs) \<and> hex_groups True cs)"

definition int16_ok :: "string \<Rightarrow> bool" where
  "int16_ok s = (let s1 = py_strip s;
      s2 = (case s1 of c # cs \<Rightarrow> if c = CHR ''+'' \<or> c = CHR ''-'' then cs else s1 | [] \<Rightarrow> []) in
    if starts_with ''0x'' s2 \<or> starts_with ''0X'' s2
    then (case drop 2 s2 of c # cs \<Rightarrow> hex_groups False (if c = CHR ''_'' then cs else c # cs) | [] \<Rightarrow> False)
    else hex_groups False s2)"

text \<open>\<open>uuid.UUID(s)\<close> does not raise.\<close>

definition uuid_ok :: "string \<Rightarrow> bool" where
  "uuid_ok s = (let h = py_replace ''uuid:'' [] (py_replace ''urn:'' [] s);
      h2 = py_replace ''-'' [] (strip_if (\<lambda>c. c = CHR ''{'' \<or> c = CHR ''}'') h)
    in length h2 = 32 \<and> int16_ok h2)"

section \<open>Lines\<close>

definition line_break :: "char \<Rightarrow> bool" where
  "line_break c \<longleftrightarrow> (of_char c :: nat) \<in> {10, 11, 12, 13, 28, 29, 30, 133}"

fun splitlines_from :: "string \<Rightarrow> string \<Rightarrow> string list" where
  "splitlines_from acc [] = (if acc = [] then [] else [rev acc])"
| "splitlines_from acc [c] = (if line_break c then [rev acc] else [rev (c # acc)])"
| "splitlines_from acc (c # d # t) =
     (if c = CHR 0x0D \<and> d = LF then rev acc # splitlines_from [] t
      else if line_break c then rev acc # splitlines_from [] (d # t)
      else splitlines_from (c # acc) (d # t))"

definition splitlines :: "string \<Rightarrow> string list" where
  "splitlines s = splitlines_from [] s"

end
