(* ===== verification/Call_Dir.thy ===== *)
theory Call_Dir
  imports Py_Data
begin

text \<open>
  The recordings directory of one call, the state that the capture, conversion, SMB,
  transcription and cleanup stages share: an association list from file names to files, in
  the order \<open>iterdir\<close> returns them. A file whose text is JSON holds the document
  (\<open>Doc\<close>); its size is the length of \<open>json.dumps\<close> of it.
  A write through a temporary and \<open>os.replace\<close>, with the temporary removed in a \<open>finally\<close>,
  is one update of the directory, or none when the disk refuses it.
\<close>

type_synonym byte = "8 word"

record wav_info =
  wav_comptype :: string
  wav_channels :: nat
  wav_sampwidth :: nat
  wav_framerate :: nat
  wav_frames :: "16 word list"

datatype content = Bytes "byte list" | Text string | Doc json | Wav wav_info | Directory

record fentry =
  f_size :: nat
  f_mtime :: int
  f_inode :: nat
  f_data :: content

type_synonym dir = "(string \<times> fentry) list"

text \<open>
  What the operating system supplies to one operation: the clock, the next random UUID, the
  next inode, and whether the disk takes a write.
\<close>

record os_env =
  env_now :: int
  env_uuid :: string
  env_inode :: nat
  env_disk :: bool

definition dget :: "dir \<Rightarrow> string \<Rightarrow> fentry option" where
  "dget d n = map_of d n"

definition dput :: "string \<Rightarrow> fentry \<Rightarrow> dir \<Rightarrow> dir" where
  "dput n f d = AList.update n f d"

definition ddel :: "string \<Rightarrow> dir \<Rightarrow> dir" where
  "ddel n d = AList.delete n d"

lemma dget_dput [simp, dir_simps]: "dget (dput n f d) m = (if m = n then Some f else dget d m)"
  by (simp add: dget_def dput_def AList.update_conv)

lemma dget_ddel [simp, dir_simps]: "dget (ddel n d) m = (if m = n then None else dget d m)"
  by (simp add: dget_def ddel_def AList.delete_conv)

lemma dget_Nil [simp]: "dget [] n = None"
  by (simp add: dget_def)

definition path_exists :: "dir \<Rightarrow> string \<Rightarrow> bool" where
  "path_exists d n \<longleftrightarrow> dget d n \<noteq> None"

definition is_file :: "dir \<Rightarrow> string \<Rightarrow> bool" where
  "is_file d n \<longleftrightarrow> (case dget d n of None \<Rightarrow> False | Some f \<Rightarrow> f_data f \<noteq> Directory)"

lemma path_exists_dput [simp]: "path_exists (dput n f d) m \<longleftrightarrow> m = n \<or> path_exists d m"
  by (simp add: path_exists_def)

lemma path_exists_ddel [simp]: "path_exists (ddel n d) m \<longleftrightarrow> m \<noteq> n \<and> path_exists d m"
  by (simp add: path_exists_def)

text \<open>\<open>path.unlink(missing_ok=True)\<close>: a directory refuses.\<close>

definition unlink_missing_ok :: "string \<Rightarrow> dir \<Rightarrow> exc + dir" where
  "unlink_missing_ok n d =
     (case dget d n of
        None \<Rightarrow> Inr d
      | Some f \<Rightarrow> if f_data f = Directory then Inl IsADirectoryError else Inr (ddel n d))"

definition new_file :: "os_env \<Rightarrow> nat \<Rightarrow> content \<Rightarrow> fentry" where
  "new_file env n c = \<lparr>f_size = n, f_mtime = env_now env * 1000, f_inode = env_inode env, f_data = c\<rparr>"

definition json_file :: "os_env \<Rightarrow> json \<Rightarrow> fentry" where
  "json_file env j = new_file env (length (json_dumps j)) (Doc j)"

lemma json_file_data [simp]: "f_data (json_file env j) = Doc j"
  by (simp add: json_file_def new_file_def)

text \<open>\<open>json.loads(path.read_text())\<close>: unreadable or not JSON is an exception of the read.\<close>

definition load_json :: "dir \<Rightarrow> string \<Rightarrow> exc + json" where
  "load_json d n =
     (case dget d n of
        None \<Rightarrow> Inl FileNotFoundError
      | Some f \<Rightarrow> (case f_data f of
          Doc j \<Rightarrow> Inr j
        | Directory \<Rightarrow> Inl IsADirectoryError
        | _ \<Rightarrow> Inl (ValueError ''not JSON'')))"

end
