(* ===== verification/Run_Laws.thy ===== *)
theory Run_Laws
  imports Zenith_Prelude
begin

text \<open>
  Runs of a component: a list of operations, each at the instant it happens. The locale
  \<open>timed_machine\<close> is the interface between a component whose invariant mentions the clock and
  the theorems about its histories: every operation keeps the invariant at its own instant,
  and the invariant survives waiting. Leases and the rate limiter are instances.
\<close>

fun run_timed :: "('op \<Rightarrow> int \<Rightarrow> 's \<Rightarrow> 's) \<Rightarrow> (int \<times> 'op) list \<Rightarrow> 's \<Rightarrow> 's" where
  "run_timed step [] s = s"
| "run_timed step ((t, x) # ops) s = run_timed step ops (step x t s)"

fun times_from :: "int \<Rightarrow> (int \<times> 'op) list \<Rightarrow> bool" where
  "times_from t [] = True"
| "times_from t ((t', x) # ops) = (t \<le> t' \<and> times_from t' ops)"

fun end_time :: "int \<Rightarrow> (int \<times> 'op) list \<Rightarrow> int" where
  "end_time t [] = t"
| "end_time t ((t', x) # ops) = end_time t' ops"

lemma end_time_ge: "times_from t ops \<Longrightarrow> t \<le> end_time t ops"
  by (induction t ops rule: end_time.induct) auto

lemma run_timed_append [simp]:
  "run_timed step (xs @ ys) s = run_timed step ys (run_timed step xs s)"
  by (induction step xs s rule: run_timed.induct) auto

locale timed_machine =
  fixes step :: "'op \<Rightarrow> int \<Rightarrow> 's \<Rightarrow> 's"
    and inv :: "int \<Rightarrow> 's \<Rightarrow> bool"
  assumes inv_later: "inv t s \<Longrightarrow> t \<le> t' \<Longrightarrow> inv t' s"
    and inv_step: "inv t s \<Longrightarrow> inv t (step x t s)"
begin

lemma run_inv: "inv t s \<Longrightarrow> times_from t ops \<Longrightarrow> inv (end_time t ops) (run_timed step ops s)"
proof (induction t ops arbitrary: s rule: end_time.induct)
  case (1 t)
  then show ?case by simp
next
  case (2 t t' x ops)
  from "2.prems" have "inv t' s" by (auto intro: inv_later)
  then have "inv t' (step x t' s)" by (rule inv_step)
  with "2" show ?case by simp
qed

lemma run_inv_after:
  assumes "inv t s" and "times_from t ops" and "end_time t ops \<le> t'"
  shows "inv t' (run_timed step ops s)"
  using run_inv[OF assms(1,2)] assms(3) by (rule inv_later)

end

text \<open>A machine without a clock: the same law for a list of operations.\<close>

fun run_ops :: "('op \<Rightarrow> 's \<Rightarrow> 's) \<Rightarrow> 'op list \<Rightarrow> 's \<Rightarrow> 's" where
  "run_ops step [] s = s"
| "run_ops step (x # xs) s = run_ops step xs (step x s)"

locale machine =
  fixes step :: "'op \<Rightarrow> 's \<Rightarrow> 's"
    and inv :: "'s \<Rightarrow> bool"
  assumes inv_step: "inv s \<Longrightarrow> inv (step x s)"
begin

lemma run_inv: "inv s \<Longrightarrow> inv (run_ops step xs s)"
  by (induction xs arbitrary: s) (auto intro: inv_step)

end

end
