(* ===== verification/Lease.thy ===== *)
theory Lease
  imports Call_Dir Run_Laws
begin

text \<open>
  \<open>audio/recording_lifecycle.py\<close>: the leases that the stages of a recording take on a call
  directory. A lease is the JSON file \<open>.<stage>-processing\<close>; it is valid until the instant it
  carries. Every operation runs under an exclusive \<open>flock\<close> on the directory, so each is one
  atomic step of the model; what the operating system chooses (clock, UUID, inode, a full
  disk) is in \<open>os_env\<close>. The settings' time to live is the argument \<open>ttl\<close>.
\<close>

definition LEASE_STAGES :: "string list" where
  "LEASE_STAGES = [''capture'', ''conversion'', ''smb'', ''transcription'']"

definition LIFECYCLE_LOCK_FILE :: string where
  "LIFECYCLE_LOCK_FILE = ''.recording-lifecycle.lock''"

record recording_lease =
  lease_stage :: string
  lease_call_id :: string
  lease_owner :: string
  lease_expires :: int

text \<open>\<open>with locked_call_directory(d)\<close>: creates the lock file, holds the lock around the body.\<close>

definition locked_call_directory :: "os_env \<Rightarrow> dir \<Rightarrow> (dir \<Rightarrow> 'a) \<Rightarrow> 'a" where
  "locked_call_directory env d body =
     body (if path_exists d LIFECYCLE_LOCK_FILE then d
           else dput LIFECYCLE_LOCK_FILE (new_file env 0 (Bytes [])) d)"

definition lease_path :: "string \<Rightarrow> exc + string" where
  "lease_path stage =
     (if stage \<notin> set LEASE_STAGES then Inl (ValueError ''invalid lease stage'')
      else Inr (''.'' @ stage @ ''-processing''))"

definition now_of :: "datetime option \<Rightarrow> int \<Rightarrow> int" where
  "now_of value clock = (case value of None \<Rightarrow> clock | Some d \<Rightarrow> dt_instant d)"

text \<open>\<open>_write\<close> and \<open>_write_exclusive\<close>: through a temporary, with \<open>os.replace\<close> and \<open>os.link\<close>.\<close>

definition write_doc :: "os_env \<Rightarrow> string \<Rightarrow> json \<Rightarrow> dir \<Rightarrow> exc + dir" where
  "write_doc env path payload d =
     (if \<not> env_disk env then Inl (OSError ''write failed'')
      else if dget d path \<noteq> None \<and> f_data (the (dget d path)) = Directory then Inl IsADirectoryError
      else Inr (dput path (json_file env payload) d))"

definition write_exclusive :: "os_env \<Rightarrow> string \<Rightarrow> json \<Rightarrow> dir \<Rightarrow> exc + dir" where
  "write_exclusive env path payload d =
     (if \<not> env_disk env then Inl (OSError ''write failed'')
      else if path_exists d path then Inl FileExistsError
      else Inr (dput path (json_file env payload) d))"

text \<open>
  \<open>_read\<close>. Reading and validating a lease file returns None on every exception it catches;
  \<open>payload.get\<close> on a document that is not an object raises AttributeError, which it does not.
\<close>

definition lease_of_doc :: "json \<Rightarrow> string option \<Rightarrow> recording_lease option" where
  "lease_of_doc payload expected_stage =
     (case (jget payload ''owner'', jget payload ''call_id'', jget payload ''expires_at'', jget payload ''stage'') of
        (Some ow, Some cid, Some ex, Some (JStr stage)) \<Rightarrow>
          (let owner = py_str ow; call_id = py_str cid in
           if \<not> uuid_ok owner then None
           else if (case jget payload ''version'' of None \<Rightarrow> True | Some v \<Rightarrow> \<not> json_eq_int v 1)
              \<or> stage \<notin> set LEASE_STAGES
              \<or> (expected_stage \<noteq> None \<and> Some stage \<noteq> expected_stage)
              \<or> call_id = []
           then None
           else (case ex of
               JIso (Aware t) \<Rightarrow> Some \<lparr>lease_stage = stage, lease_call_id = call_id,
                   lease_owner = owner, lease_expires = t\<rparr>
             | _ \<Rightarrow> None))
      | _ \<Rightarrow> None)"

definition read_lease :: "dir \<Rightarrow> string \<Rightarrow> string option \<Rightarrow> exc + recording_lease option" where
  "read_lease d path expected_stage =
     (case load_json d path of
        Inl _ \<Rightarrow> Inr None
      | Inr payload \<Rightarrow>
          if \<not> is_dict payload then Inl (AttributeError ''get'')
          else Inr (lease_of_doc payload expected_stage))"

text \<open>The loop of \<open>_acquire_lease_unlocked\<close> over the stages, and of \<open>has_valid_lease\<close>.\<close>

fun busy_scan :: "dir \<Rightarrow> string option \<Rightarrow> int \<Rightarrow> string list \<Rightarrow> exc + unit" where
  "busy_scan d owner current [] = Inr ()"
| "busy_scan d owner current (st # sts) =
     (case lease_path st of
        Inl e \<Rightarrow> Inl e
      | Inr p \<Rightarrow>
        (case read_lease d p (Some st) of
           Inl e \<Rightarrow> Inl e
         | Inr None \<Rightarrow> busy_scan d owner current sts
         | Inr (Some active) \<Rightarrow>
             if lease_expires active > current \<and> (owner = None \<or> Some (lease_owner active) \<noteq> owner)
             then Inl (LeaseBusyError st)
             else busy_scan d owner current sts))"

text \<open>
  The part between the scan and the write: an expired or unreadable file is removed, a valid
  lease of another owner is busy.
\<close>

definition reclaim ::
    "int \<Rightarrow> string option \<Rightarrow> recording_lease option \<Rightarrow> string \<Rightarrow> dir \<Rightarrow> exc + dir" where
  "reclaim current owner existing path d =
     (if existing \<noteq> None \<and> lease_expires (the existing) > current
      then (if owner = None \<or> Some (lease_owner (the existing)) \<noteq> owner
            then Inl (LeaseBusyError path) else Inr d)
      else if path_exists d path then unlink_missing_ok path d
      else Inr d)"

definition lease_payload :: "recording_lease \<Rightarrow> json" where
  "lease_payload l = JObj
     [(''call_id'', JStr (lease_call_id l)), (''expires_at'', JIso (Aware (lease_expires l))),
      (''owner'', JStr (lease_owner l)), (''stage'', JStr (lease_stage l)), (''version'', JInt 1)]"

text \<open>The lease \<open>_acquire_lease_unlocked\<close> writes: \<open>owner or uuid4()\<close>, \<open>ttl_seconds or ttl\<close>.\<close>

definition new_lease ::
    "os_env \<Rightarrow> int \<Rightarrow> string \<Rightarrow> string \<Rightarrow> string option \<Rightarrow> int \<Rightarrow> int option \<Rightarrow> recording_lease" where
  "new_lease env ttl stage call_id owner current ttl_seconds =
     \<lparr>lease_stage = stage, lease_call_id = call_id,
      lease_owner = (case owner of Some ow \<Rightarrow> if ow = [] then env_uuid env else ow | None \<Rightarrow> env_uuid env),
      lease_expires = current + seconds (case ttl_seconds of
          Some n \<Rightarrow> if n = 0 then ttl else n | None \<Rightarrow> ttl)\<rparr>"

definition acquire_lease_unlocked ::
    "os_env \<Rightarrow> int \<Rightarrow> dir \<Rightarrow> string \<Rightarrow> string \<Rightarrow> string option \<Rightarrow> datetime option \<Rightarrow> int option
     \<Rightarrow> (exc + recording_lease) \<times> dir" where
  "acquire_lease_unlocked env ttl d stage call_id owner now ttl_seconds =
     (let current = now_of now (env_now env) in
      case busy_scan d owner current LEASE_STAGES of
        Inl e \<Rightarrow> (Inl e, d)
      | Inr _ \<Rightarrow>
      (case lease_path stage of
        Inl e \<Rightarrow> (Inl e, d)
      | Inr path \<Rightarrow>
      (case read_lease d path (Some stage) of
        Inl e \<Rightarrow> (Inl e, d)
      | Inr existing \<Rightarrow>
      (case reclaim current owner existing path d of
        Inl e \<Rightarrow> (Inl e, d)
      | Inr d1 \<Rightarrow>
        (let lease = new_lease env ttl stage call_id owner current ttl_seconds in
         if existing \<noteq> None \<and> lease_owner (the existing) = lease_owner lease
         then (case write_doc env path (lease_payload lease) d1 of
                 Inl e \<Rightarrow> (Inl e, d1) | Inr d2 \<Rightarrow> (Inr lease, d2))
         else (case write_exclusive env path (lease_payload lease) d1 of
                 Inl e \<Rightarrow> (Inl (if e = FileExistsError then LeaseBusyError stage else e), d1)
               | Inr d2 \<Rightarrow> (Inr lease, d2)))))))"

definition acquire_lease ::
    "os_env \<Rightarrow> int \<Rightarrow> dir \<Rightarrow> string \<Rightarrow> string \<Rightarrow> string option \<Rightarrow> datetime option \<Rightarrow> int option
     \<Rightarrow> (exc + recording_lease) \<times> dir" where
  "acquire_lease env ttl d stage call_id owner now ttl_seconds =
     locked_call_directory env d (\<lambda>d1.
       acquire_lease_unlocked env ttl d1 stage call_id owner now ttl_seconds)"

fun valid_scan :: "dir \<Rightarrow> int \<Rightarrow> string list \<Rightarrow> exc + bool" where
  "valid_scan d current [] = Inr False"
| "valid_scan d current (st # sts) =
     (case lease_path st of
        Inl e \<Rightarrow> Inl e
      | Inr p \<Rightarrow>
        (case read_lease d p (Some st) of
           Inl e \<Rightarrow> Inl e
         | Inr (Some lease) \<Rightarrow> if lease_expires lease > current then Inr True else valid_scan d current sts
         | Inr None \<Rightarrow> valid_scan d current sts))"

definition has_valid_lease :: "os_env \<Rightarrow> dir \<Rightarrow> datetime option \<Rightarrow> exc + bool" where
  "has_valid_lease env d now = valid_scan d (now_of now (env_now env)) LEASE_STAGES"

text \<open>The bodies of the \<open>with\<close> blocks of \<open>renew_lease\<close> and \<open>release_lease\<close>.\<close>

definition renew_unlocked ::
    "os_env \<Rightarrow> int \<Rightarrow> string \<Rightarrow> string \<Rightarrow> datetime option \<Rightarrow> int option \<Rightarrow> dir \<Rightarrow> (exc + bool) \<times> dir" where
  "renew_unlocked env ttl stage owner now ttl_seconds d =
     (case lease_path stage of
        Inl e \<Rightarrow> (Inl e, d)
      | Inr path \<Rightarrow>
        (case read_lease d path (Some stage) of
           Inl e \<Rightarrow> (Inl e, d)
         | Inr lease \<Rightarrow>
            if lease = None \<or> lease_owner (the lease) \<noteq> owner then (Inr False, d)
            else (case acquire_lease_unlocked env ttl d stage (lease_call_id (the lease))
                         (Some owner) now ttl_seconds of
                    (Inl e, d2) \<Rightarrow> (Inl e, d2)
                  | (Inr _, d2) \<Rightarrow> (Inr True, d2))))"

definition renew_lease ::
    "os_env \<Rightarrow> int \<Rightarrow> dir \<Rightarrow> string \<Rightarrow> string \<Rightarrow> datetime option \<Rightarrow> int option \<Rightarrow> (exc + bool) \<times> dir" where
  "renew_lease env ttl d stage owner now ttl_seconds =
     locked_call_directory env d (renew_unlocked env ttl stage owner now ttl_seconds)"

definition release_unlocked :: "string \<Rightarrow> string \<Rightarrow> dir \<Rightarrow> (exc + bool) \<times> dir" where
  "release_unlocked stage owner d =
     (case lease_path stage of
        Inl e \<Rightarrow> (Inl e, d)
      | Inr path \<Rightarrow>
        (case read_lease d path (Some stage) of
           Inl e \<Rightarrow> (Inl e, d)
         | Inr lease \<Rightarrow>
            if lease = None \<or> lease_owner (the lease) \<noteq> owner then (Inr False, d)
            else if path_exists d path then (Inr True, ddel path d)
            else (Inr False, d)))"

definition release_lease :: "os_env \<Rightarrow> dir \<Rightarrow> string \<Rightarrow> string \<Rightarrow> (exc + bool) \<times> dir" where
  "release_lease env d stage owner = locked_call_directory env d (release_unlocked stage owner)"

text \<open>\<open>heartbeat_lease\<close>: sleeps for the interval, then renews.\<close>

definition heartbeat_lease ::
    "(int \<Rightarrow> os_env) \<Rightarrow> int \<Rightarrow> int \<Rightarrow> dir \<Rightarrow> string \<Rightarrow> string \<Rightarrow> int option \<Rightarrow> (exc + bool) \<times> dir" where
  "heartbeat_lease env_after ttl heartbeat d stage owner interval =
     (let delay = (case interval of None \<Rightarrow> heartbeat | Some n \<Rightarrow> n)
      in renew_lease (env_after delay) ttl d stage owner None None)"


section \<open>The table of leases a directory denotes\<close>

text \<open>
  The abstract view: for each stage the lease its file holds, if it holds one. Every
  operation is described on this view; the lock file and the other files do not matter to it.
\<close>

definition stage_file :: "string \<Rightarrow> string" where
  "stage_file st = ''.'' @ st @ ''-processing''"

definition lease_at :: "dir \<Rightarrow> string \<Rightarrow> recording_lease option" where
  "lease_at d st =
     (if st \<in> set LEASE_STAGES
      then (case read_lease d (stage_file st) (Some st) of Inr (Some l) \<Rightarrow> Some l | _ \<Rightarrow> None)
      else None)"

text \<open>No lease file holds a JSON document other than an object.\<close>

definition readable :: "dir \<Rightarrow> bool" where
  "readable d \<longleftrightarrow> (\<forall>st\<in>set LEASE_STAGES. \<exists>r. read_lease d (stage_file st) (Some st) = Inr r)"

definition active_lease :: "dir \<Rightarrow> int \<Rightarrow> string \<Rightarrow> recording_lease \<Rightarrow> bool" where
  "active_lease d t st l \<longleftrightarrow> lease_at d st = Some l \<and> lease_expires l > t"

definition single_owner :: "int \<Rightarrow> dir \<Rightarrow> bool" where
  "single_owner t d \<longleftrightarrow>
     (\<forall>s1 l1 s2 l2. active_lease d t s1 l1 \<longrightarrow> active_lease d t s2 l2 \<longrightarrow> lease_owner l1 = lease_owner l2)"

lemma lease_path_eq: "lease_path st = (if st \<in> set LEASE_STAGES then Inr (stage_file st) else Inl (ValueError ''invalid lease stage''))"
  by (simp add: lease_path_def stage_file_def)

lemma stage_file_inj [simp]: "stage_file a = stage_file b \<longleftrightarrow> a = b"
  by (simp add: stage_file_def)

lemma stage_file_not_lock [simp]: "stage_file st \<noteq> LIFECYCLE_LOCK_FILE" "LIFECYCLE_LOCK_FILE \<noteq> stage_file st"
proof -
  have "last (stage_file st) \<noteq> last LIFECYCLE_LOCK_FILE"
    by (simp add: stage_file_def LIFECYCLE_LOCK_FILE_def)
  then show "stage_file st \<noteq> LIFECYCLE_LOCK_FILE" "LIFECYCLE_LOCK_FILE \<noteq> stage_file st"
    by metis+
qed

lemma read_lease_cong: "dget d p = dget d' p \<Longrightarrow> read_lease d p e = read_lease d' p e"
  by (simp add: read_lease_def load_json_def)

lemma read_lease_dput_other [simp]: "p \<noteq> n \<Longrightarrow> read_lease (dput n f d) p e = read_lease d p e"
  by (rule read_lease_cong) simp

lemma read_lease_ddel_other [simp]: "p \<noteq> n \<Longrightarrow> read_lease (ddel n d) p e = read_lease d p e"
  by (rule read_lease_cong) simp

lemma read_lease_ddel_same [simp]: "read_lease (ddel n d) n e = Inr None"
  by (simp add: read_lease_def load_json_def)

lemma lease_at_dput_other [simp]: "stage_file st \<noteq> n \<Longrightarrow> lease_at (dput n f d) st = lease_at d st"
  by (simp add: lease_at_def)

lemma lease_at_ddel: "lease_at (ddel (stage_file s) d) st = (if st = s then None else lease_at d st)"
  by (simp add: lease_at_def)

lemma lease_of_doc_owner: "lease_of_doc j e = Some l \<Longrightarrow> uuid_ok (lease_owner l)"
  by (auto simp: lease_of_doc_def Let_def split: option.splits json.splits if_splits datetime.splits)

lemma lease_of_doc_stage: "lease_of_doc j (Some st) = Some l \<Longrightarrow> lease_stage l = st"
  by (auto simp: lease_of_doc_def Let_def split: option.splits json.splits if_splits datetime.splits)

lemma lease_at_SomeD:
  assumes "lease_at d st = Some l"
  shows "uuid_ok (lease_owner l)" and "lease_stage l = st" and "st \<in> set LEASE_STAGES"
  using assms
  by (auto simp: lease_at_def read_lease_def lease_of_doc_owner lease_of_doc_stage
      split: if_splits sum.splits option.splits)

lemma uuid_ok_Nil [simp]: "\<not> uuid_ok []"
  by (simp add: uuid_ok_def strip_if_def)

text \<open>Writing a lease and reading it back.\<close>

lemma lease_of_doc_payload:
  assumes "uuid_ok (lease_owner l)" and "lease_call_id l \<noteq> []" and "lease_stage l \<in> set LEASE_STAGES"
  shows "lease_of_doc (lease_payload l) (Some (lease_stage l)) = Some l"
  using assms by (simp add: lease_of_doc_def lease_payload_def)

lemma read_lease_payload:
  assumes "uuid_ok (lease_owner l)" and "lease_call_id l \<noteq> []" and "lease_stage l \<in> set LEASE_STAGES"
  shows "read_lease (dput p (json_file env (lease_payload l)) d) p (Some (lease_stage l)) = Inr (Some l)"
  using lease_of_doc_payload[OF assms] by (simp add: read_lease_def load_json_def lease_payload_def)

lemma lease_at_written:
  "lease_at (dput (stage_file s) (json_file env (lease_payload l)) d) st =
     (if st = s then lease_at (dput (stage_file s) (json_file env (lease_payload l)) []) s else lease_at d st)"
  by (auto simp: lease_at_def read_lease_def load_json_def)

lemma lease_at_written_cases:
  assumes "lease_at (dput (stage_file s) (json_file env (lease_payload l)) d) s = Some l'"
  shows "lease_owner l' = lease_owner l"
  using assms
  by (auto simp: lease_at_def read_lease_def load_json_def lease_payload_def lease_of_doc_def Let_def
      split: if_splits option.splits)

section \<open>What the scans decide\<close>

lemma busy_scan_ok_iff:
  assumes "set sts \<subseteq> set LEASE_STAGES"
    and "\<forall>st\<in>set sts. \<exists>r. read_lease d (stage_file st) (Some st) = Inr r"
  shows "busy_scan d owner t sts = Inr () \<longleftrightarrow>
     (\<forall>st\<in>set sts. \<forall>l. active_lease d t st l \<longrightarrow> Some (lease_owner l) = owner)"
  using assms
proof (induction sts)
  case Nil
  then show ?case by simp
next
  case (Cons st sts)
  obtain r where r: "read_lease d (stage_file st) (Some st) = Inr r"
    using Cons.prems(2) by auto
  have "active_lease d t st l \<longleftrightarrow> r = Some l \<and> lease_expires l > t" for l
    using r Cons.prems(1) by (auto simp: active_lease_def lease_at_def split: option.splits)
  with Cons r show ?case
    by (cases r) (auto simp: lease_path_eq)
qed

lemma busy_scan_okD:
  assumes "busy_scan d owner t sts = Inr ()" and "set sts \<subseteq> set LEASE_STAGES"
    and "st \<in> set sts" and "active_lease d t st l"
  shows "Some (lease_owner l) = owner"
  using assms
proof (induction sts)
  case Nil
  then show ?case by simp
next
  case (Cons a sts)
  from Cons.prems(1,2) obtain r where r: "read_lease d (stage_file a) (Some a) = Inr r"
    by (auto simp: lease_path_eq split: sum.splits)
  show ?case
  proof (cases "st = a")
    case True
    with Cons.prems(4) r have "r = Some l" "lease_expires l > t"
      by (auto simp: active_lease_def lease_at_def split: if_splits option.splits)
    with Cons.prems(1,2) r show ?thesis
      by (auto simp: lease_path_eq split: if_splits)
  next
    case False
    with Cons r show ?thesis
      by (auto simp: lease_path_eq split: if_splits option.splits)
  qed
qed

lemma busy_scan_readable_err:
  assumes "set sts \<subseteq> set LEASE_STAGES"
    and "\<forall>st\<in>set sts. \<exists>r. read_lease d (stage_file st) (Some st) = Inr r"
    and "busy_scan d owner t sts = Inl e"
  shows "\<exists>st. e = LeaseBusyError st"
  using assms by (induction sts) (fastforce simp: lease_path_eq split: option.splits if_splits)+

lemma valid_scan_iff:
  assumes "set sts \<subseteq> set LEASE_STAGES"
    and "\<forall>st\<in>set sts. \<exists>r. read_lease d (stage_file st) (Some st) = Inr r"
  shows "valid_scan d t sts = Inr (\<exists>st\<in>set sts. \<exists>l. active_lease d t st l)"
  using assms
proof (induction sts)
  case Nil
  then show ?case by simp
next
  case (Cons st sts)
  obtain r where r: "read_lease d (stage_file st) (Some st) = Inr r"
    using Cons.prems(2) by auto
  have "active_lease d t st l \<longleftrightarrow> r = Some l \<and> lease_expires l > t" for l
    using r Cons.prems(1) by (auto simp: active_lease_def lease_at_def split: option.splits)
  with Cons r show ?case
    by (cases r) (auto simp: lease_path_eq)
qed

lemma has_valid_lease_iff:
  assumes "readable d"
  shows "has_valid_lease env d now =
     Inr (\<exists>st l. active_lease d (now_of now (env_now env)) st l)"
proof -
  have "active_lease d t st l \<Longrightarrow> st \<in> set LEASE_STAGES" for t st l
    by (auto simp: active_lease_def dest: lease_at_SomeD)
  then show ?thesis
    using assms valid_scan_iff[of LEASE_STAGES d "now_of now (env_now env)"]
    by (fastforce simp: has_valid_lease_def readable_def)
qed


section \<open>Acquiring\<close>

text \<open>
  Under the lock the exclusive link never finds the file: a valid lease was busy, anything
  else was removed.
\<close>

lemma reclaim_ok:
  assumes "reclaim t owner existing path d = Inr d1"
  shows "(d1 = d \<and> existing \<noteq> None \<and> lease_expires (the existing) > t \<and> Some (lease_owner (the existing)) = owner)
       \<or> (d1 = ddel path d \<and> path_exists d path \<and> \<not> (existing \<noteq> None \<and> lease_expires (the existing) > t))
       \<or> (d1 = d \<and> \<not> path_exists d path \<and> \<not> (existing \<noteq> None \<and> lease_expires (the existing) > t))"
  using assms
  by (auto simp: reclaim_def unlink_missing_ok_def path_exists_def split: if_splits option.splits)

lemma acquire_unlocked_okE:
  assumes "acquire_lease_unlocked env ttl d stage cid owner now ttls = (Inr l, d')"
  obtains existing d1 where "stage \<in> set LEASE_STAGES"
    and "busy_scan d owner (now_of now (env_now env)) LEASE_STAGES = Inr ()"
    and "reclaim (now_of now (env_now env)) owner existing (stage_file stage) d = Inr d1"
    and "l = new_lease env ttl stage cid owner (now_of now (env_now env)) ttls"
    and "d' = dput (stage_file stage) (json_file env (lease_payload l)) d1"
proof -
  let ?t = "now_of now (env_now env)"
  have st: "stage \<in> set LEASE_STAGES" and scan: "busy_scan d owner ?t LEASE_STAGES = Inr ()"
    using assms by (auto simp: acquire_lease_unlocked_def Let_def lease_path_eq split: sum.splits if_splits)
  obtain ex where ex: "read_lease d (stage_file stage) (Some stage) = Inr ex"
    using assms st scan by (auto simp: acquire_lease_unlocked_def Let_def lease_path_eq split: sum.splits)
  obtain d1 where d1: "reclaim ?t owner ex (stage_file stage) d = Inr d1"
    using assms st scan ex by (auto simp: acquire_lease_unlocked_def Let_def lease_path_eq split: sum.splits)
  have "l = new_lease env ttl stage cid owner ?t ttls
      \<and> d' = dput (stage_file stage) (json_file env (lease_payload l)) d1"
    using assms st scan ex d1
    by (auto simp: acquire_lease_unlocked_def Let_def lease_path_eq write_doc_def write_exclusive_def
        split: if_splits)
  with st scan d1 that show thesis by blast
qed

lemma reclaim_dir:
  "reclaim t owner existing path d = Inr d1 \<Longrightarrow> d1 = d \<or> d1 = ddel path d"
  using reclaim_ok by blast

lemma acquire_unlocked_ok:
  assumes "acquire_lease_unlocked env ttl d stage cid owner now ttls = (Inr l, d')"
  shows "l = new_lease env ttl stage cid owner (now_of now (env_now env)) ttls"
    and "stage \<in> set LEASE_STAGES"
    and "busy_scan d owner (now_of now (env_now env)) LEASE_STAGES = Inr ()"
    and "\<exists>d1. (d1 = d \<or> d1 = ddel (stage_file stage) d)
           \<and> d' = dput (stage_file stage) (json_file env (lease_payload l)) d1"
  using assms by (auto elim!: acquire_unlocked_okE dest: reclaim_dir)

lemma acquire_unlocked_err:
  assumes "acquire_lease_unlocked env ttl d stage cid owner now ttls = (Inl e, d')"
  shows "d' = d \<or> d' = ddel (stage_file stage) d"
proof (cases "busy_scan d owner (now_of now (env_now env)) LEASE_STAGES")
  case (Inl e1)
  with assms show ?thesis by (simp add: acquire_lease_unlocked_def)
next
  case scan: (Inr u)
  show ?thesis
  proof (cases "lease_path stage")
    case (Inl e1)
    with scan assms show ?thesis by (simp add: acquire_lease_unlocked_def)
  next
    case path: (Inr p)
    show ?thesis
    proof (cases "read_lease d p (Some stage)")
      case (Inl e1)
      with scan path assms show ?thesis by (simp add: acquire_lease_unlocked_def)
    next
      case ex: (Inr existing)
      show ?thesis
      proof (cases "reclaim (now_of now (env_now env)) owner existing p d")
        case (Inl e1)
        with scan path ex assms show ?thesis by (simp add: acquire_lease_unlocked_def)
      next
        case d1: (Inr d1)
        have "d' = d1"
          using scan path ex d1 assms
          by (auto simp: acquire_lease_unlocked_def Let_def split: sum.splits if_splits)
        with reclaim_dir[OF d1] path show ?thesis
          by (auto simp: lease_path_eq split: if_splits)
      qed
    qed
  qed
qed

lemma lease_at_after_acquire:
  assumes "acquire_lease_unlocked env ttl d stage cid owner now ttls = (Inr l, d')"
  shows "lease_at d' st = (if st = stage
           then lease_at (dput (stage_file stage) (json_file env (lease_payload l)) []) stage
           else lease_at d st)"
proof -
  obtain d1 where d1: "d1 = d \<or> d1 = ddel (stage_file stage) d"
      "d' = dput (stage_file stage) (json_file env (lease_payload l)) d1"
    using acquire_unlocked_ok(4)[OF assms] by blast
  show ?thesis
    unfolding d1(2) by (subst lease_at_written) (use d1(1) in \<open>auto simp: lease_at_ddel\<close>)
qed

lemma lease_at_after_acquire_valid:
  assumes "acquire_lease_unlocked env ttl d stage cid owner now ttls = (Inr l, d')"
    and "uuid_ok (lease_owner l)" and "cid \<noteq> []"
  shows "lease_at d' = (lease_at d)(stage \<mapsto> l)"
proof
  fix st
  have l: "lease_call_id l = cid" "lease_stage l = stage"
    using acquire_unlocked_ok(1)[OF assms(1)] by (simp_all add: new_lease_def)
  have "lease_at (dput (stage_file stage) (json_file env (lease_payload l)) []) stage = Some l"
    using read_lease_payload[of l "stage_file stage" env "[]"] assms(2,3) l
      acquire_unlocked_ok(2)[OF assms(1)]
    by (simp add: lease_at_def)
  then show "lease_at d' st = ((lease_at d)(stage \<mapsto> l)) st"
    by (simp add: lease_at_after_acquire[OF assms(1)])
qed

lemma lease_at_after_err:
  assumes "acquire_lease_unlocked env ttl d stage cid owner now ttls = (Inl e, d')"
    and "lease_at d' st = Some l"
  shows "lease_at d st = Some l"
  using acquire_unlocked_err[OF assms(1)] assms(2) by (auto simp: lease_at_ddel split: if_splits)

text \<open>
  When nothing stands in the way, acquiring succeeds: no lease of another owner is active, the
  files are readable, none is a directory and the disk takes the write. No failure of the
  exclusive link is possible.
\<close>

definition no_conflict :: "dir \<Rightarrow> int \<Rightarrow> string option \<Rightarrow> bool" where
  "no_conflict d t owner \<longleftrightarrow> (\<forall>st l. active_lease d t st l \<longrightarrow> Some (lease_owner l) = owner)"

definition plain_files :: "dir \<Rightarrow> bool" where
  "plain_files d \<longleftrightarrow> (\<forall>st\<in>set LEASE_STAGES. \<forall>f. dget d (stage_file st) = Some f \<longrightarrow> f_data f \<noteq> Directory)"

lemma busy_scan_all_iff:
  assumes "readable d"
  shows "busy_scan d owner t LEASE_STAGES = Inr () \<longleftrightarrow> no_conflict d t owner"
proof -
  have "active_lease d t st l \<Longrightarrow> st \<in> set LEASE_STAGES" for st l
    by (auto simp: active_lease_def dest: lease_at_SomeD)
  then show ?thesis
    using busy_scan_ok_iff[of LEASE_STAGES d owner t] assms
    by (fastforce simp: readable_def no_conflict_def)
qed

lemma acquire_unlocked_succeeds:
  assumes "readable d" "plain_files d" "env_disk env" "stage \<in> set LEASE_STAGES"
    and "no_conflict d (now_of now (env_now env)) owner"
  shows "\<exists>d'. acquire_lease_unlocked env ttl d stage cid owner now ttls =
     (Inr (new_lease env ttl stage cid owner (now_of now (env_now env)) ttls), d')"
proof -
  let ?t = "now_of now (env_now env)"
  obtain r where r: "read_lease d (stage_file stage) (Some stage) = Inr r"
    using assms(1,4) by (auto simp: readable_def)
  have scan: "busy_scan d owner ?t LEASE_STAGES = Inr ()"
    using assms(1,5) by (simp add: busy_scan_all_iff)
  have own: "r = Some l \<Longrightarrow> lease_expires l > ?t \<Longrightarrow> Some (lease_owner l) = owner" for l
  proof -
    assume "r = Some l" "lease_expires l > ?t"
    then have "active_lease d ?t stage l"
      using assms(4) r by (simp add: active_lease_def lease_at_def)
    with assms(5) show ?thesis by (simp add: no_conflict_def)
  qed
  have ne: "r = Some l \<Longrightarrow> lease_owner l \<noteq> []" for l
    using assms(4) r lease_at_SomeD(1)[of d stage l] by (auto simp: lease_at_def)
  have "\<exists>d1. reclaim ?t owner r (stage_file stage) d = Inr d1"
    using assms(2,4) own
    by (cases r) (auto simp: reclaim_def unlink_missing_ok_def plain_files_def path_exists_def split: option.splits)
  then obtain d1 where d1: "reclaim ?t owner r (stage_file stage) d = Inr d1" by blast
  have keep: "d1 = d \<or> d1 = ddel (stage_file stage) d"
    and gone: "\<not> (\<exists>l. r = Some l \<and> lease_expires l > ?t) \<Longrightarrow> \<not> path_exists d1 (stage_file stage)"
    using reclaim_ok[OF d1] by auto
  have nodir: "dget d1 (stage_file stage) = Some f \<Longrightarrow> f_data f \<noteq> Directory" for f
    using assms(2,4) keep by (auto simp: plain_files_def)
  have same: "lease_owner (new_lease env ttl stage cid owner ?t ttls) = lease_owner l"
    if "r = Some l" "lease_expires l > ?t" for l
    using own[OF that] ne[OF that(1)] by (auto simp: new_lease_def)
  show ?thesis
  proof (cases "\<exists>l. r = Some l \<and> lease_expires l > ?t")
    case True
    with r scan d1 same nodir assms(3,4) show ?thesis
      by (auto simp: acquire_lease_unlocked_def Let_def lease_path_eq write_doc_def)
  next
    case False
    with gone have "\<not> path_exists d1 (stage_file stage)" by blast
    with r scan d1 assms(3,4) show ?thesis
      by (auto simp: acquire_lease_unlocked_def Let_def lease_path_eq write_doc_def write_exclusive_def
          path_exists_def)
  qed
qed

section \<open>Mutual exclusion\<close>

lemma single_owner_later: "single_owner t d \<Longrightarrow> t \<le> t' \<Longrightarrow> single_owner t' d"
  unfolding single_owner_def active_lease_def by (meson order_le_less_trans)

lemma single_owner_sub:
  assumes "single_owner t d" and "\<And>st l. lease_at d' st = Some l \<Longrightarrow> lease_at d st = Some l"
  shows "single_owner t d'"
  using assms unfolding single_owner_def active_lease_def by blast

lemma lease_at_lock [simp]: "lease_at (dput LIFECYCLE_LOCK_FILE f d) = lease_at d"
  by (rule ext) simp

lemma single_owner_cong: "lease_at d' = lease_at d \<Longrightarrow> single_owner t d' = single_owner t d"
  by (simp add: single_owner_def active_lease_def)

lemma acquire_unlocked_single_owner:
  assumes "single_owner t d" and "t = now_of now (env_now env)"
  shows "single_owner t (snd (acquire_lease_unlocked env ttl d stage cid owner now ttls))"
proof (cases "acquire_lease_unlocked env ttl d stage cid owner now ttls")
  case (Pair r d')
  show ?thesis
  proof (cases r)
    case (Inl e)
    with Pair assms(1) show ?thesis
      by (auto intro: single_owner_sub lease_at_after_err)
  next
    case (Inr l)
    note ok = Pair[unfolded Inr]
    have scan: "Some (lease_owner a) = owner" if "active_lease d t st a" for st a
      using busy_scan_okD[OF acquire_unlocked_ok(3)[OF ok] subset_refl _ that[unfolded assms(2)]] that
      by (auto simp: active_lease_def dest: lease_at_SomeD)
    have new: "lease_owner l = lease_owner a" if "active_lease d t st a" for st a
      using scan[OF that] acquire_unlocked_ok(1)[OF ok] lease_at_SomeD(1)[of d st a] that
      by (auto simp: new_lease_def active_lease_def split: option.splits)
    have "lease_owner a = lease_owner l" if "active_lease d' t st a" for st a
    proof (cases "st = stage")
      case True
      with that show ?thesis
        by (auto simp: active_lease_def lease_at_after_acquire[OF ok] dest: lease_at_written_cases)
    next
      case False
      with that have "active_lease d t st a"
        by (auto simp: active_lease_def lease_at_after_acquire[OF ok])
      then show ?thesis using new by simp
    qed
    then have "single_owner t d'"
      unfolding single_owner_def by metis
    then show ?thesis using Pair by simp
  qed
qed

text \<open>The operations as steps of one machine, each at the instant of the clock.\<close>

datatype lease_op =
    Acquire os_env string string "string option" "int option"
  | Renew os_env string string "int option"
  | Release os_env string string

fun lease_step :: "int \<Rightarrow> lease_op \<Rightarrow> int \<Rightarrow> dir \<Rightarrow> dir" where
  "lease_step ttl (Acquire env stage cid owner ttls) t d =
     snd (acquire_lease (env\<lparr>env_now := t\<rparr>) ttl d stage cid owner None ttls)"
| "lease_step ttl (Renew env stage owner ttls) t d =
     snd (renew_lease (env\<lparr>env_now := t\<rparr>) ttl d stage owner None ttls)"
| "lease_step ttl (Release env stage owner) t d =
     snd (release_lease (env\<lparr>env_now := t\<rparr>) d stage owner)"

lemma now_of_None [simp]: "now_of None t = t"
  by (simp add: now_of_def)

lemma locked_cases:
  obtains d1 where "locked_call_directory env d body = body d1" and "lease_at d1 = lease_at d"
    and "\<And>n. n \<noteq> LIFECYCLE_LOCK_FILE \<Longrightarrow> dget d1 n = dget d n"
  by (cases "path_exists d LIFECYCLE_LOCK_FILE") (auto simp: locked_call_directory_def)

lemma locked_single_owner:
  assumes "single_owner t d" and "\<And>d1. single_owner t d1 \<Longrightarrow> single_owner t (snd (body d1))"
  shows "single_owner t (snd (locked_call_directory env d body))"
proof -
  obtain d1 where "locked_call_directory env d body = body d1" "lease_at d1 = lease_at d"
    by (rule locked_cases)
  with assms show ?thesis by (metis single_owner_cong)
qed

lemma acquire_single_owner:
  assumes "single_owner t d" and "t = now_of now (env_now env)"
  shows "single_owner t (snd (acquire_lease env ttl d stage cid owner now ttls))"
  unfolding acquire_lease_def
  using assms by (auto intro: locked_single_owner acquire_unlocked_single_owner)

lemma renew_single_owner:
  assumes "single_owner t d" and "t = now_of now (env_now env)"
  shows "single_owner t (snd (renew_lease env ttl d stage owner now ttls))"
  unfolding renew_lease_def
proof (rule locked_single_owner[OF assms(1)])
  fix d1
  assume d1: "single_owner t d1"
  have acq: "single_owner t (snd (acquire_lease_unlocked env ttl d1 stage cid (Some owner) now ttls))" for cid
    using d1 assms(2) by (rule acquire_unlocked_single_owner)
  show "single_owner t (snd (renew_unlocked env ttl stage owner now ttls d1))"
  proof (cases "\<exists>path lease. lease_path stage = Inr path \<and> read_lease d1 path (Some stage) = Inr lease")
    case True
    then obtain path lease where *: "lease_path stage = Inr path" "read_lease d1 path (Some stage) = Inr lease"
      by blast
    obtain x d2 where x: "acquire_lease_unlocked env ttl d1 stage (lease_call_id (the lease))
        (Some owner) now ttls = (x, d2)" by fastforce
    then have "single_owner t d2" using acq[of "lease_call_id (the lease)"] by simp
    with * x d1 show ?thesis by (auto simp: renew_unlocked_def split: sum.split)
  next
    case False
    then show ?thesis using d1 by (auto simp: renew_unlocked_def split: sum.split)
  qed
qed

lemma release_single_owner:
  assumes "single_owner t d"
  shows "single_owner t (snd (release_lease env d stage owner))"
  unfolding release_lease_def
proof (rule locked_single_owner[OF assms])
  fix d1
  assume d1: "single_owner t d1"
  have del: "single_owner t (ddel p d1)" if "lease_path stage = Inr p" for p
    using that
    by (intro single_owner_sub[OF d1]) (auto simp: lease_path_eq lease_at_ddel split: if_splits)
  show "single_owner t (snd (release_unlocked stage owner d1))"
    using d1 del by (auto simp: release_unlocked_def split: sum.split)
qed

interpretation lm: timed_machine "lease_step ttl" single_owner
proof unfold_locales
  show "single_owner t s \<Longrightarrow> t \<le> t' \<Longrightarrow> single_owner t' s" for t t' s
    by (rule single_owner_later)
  show "single_owner t s \<Longrightarrow> single_owner t (lease_step ttl x t s)" for t s x
    by (cases x) (simp_all add: acquire_single_owner renew_single_owner release_single_owner)
qed


section \<open>The contracts of the operations\<close>

lemma read_lease_lock [simp]:
  "read_lease (dput LIFECYCLE_LOCK_FILE f d) (stage_file st) e = read_lease d (stage_file st) e"
  by simp

lemma locked_view:
  obtains d1 where "locked_call_directory env d body = body d1"
    and "lease_at d1 = lease_at d" and "readable d1 = readable d" and "plain_files d1 = plain_files d"
    and "\<And>t o'. no_conflict d1 t o' = no_conflict d t o'"
    and "\<And>st e. read_lease d1 (stage_file st) e = read_lease d (stage_file st) e"
    and "\<And>st. dget d1 (stage_file st) = dget d (stage_file st)"
  by (cases "path_exists d LIFECYCLE_LOCK_FILE")
    (auto simp: locked_call_directory_def readable_def plain_files_def no_conflict_def active_lease_def)

lemma new_lease_valid:
  assumes "uuid_ok (env_uuid env)" and "\<forall>ow. owner = Some ow \<longrightarrow> uuid_ok ow"
  shows "uuid_ok (lease_owner (new_lease env ttl stage cid owner t ttls))"
  using assms by (auto simp: new_lease_def split: option.splits)

lemma new_lease_fields [simp]:
  "lease_call_id (new_lease env ttl stage cid owner t ttls) = cid"
  "lease_stage (new_lease env ttl stage cid owner t ttls) = stage"
  by (simp_all add: new_lease_def)

lemma acquire_unlocked_conflict:
  assumes "readable d" and "\<not> no_conflict d (now_of now (env_now env)) owner"
  shows "\<exists>st. acquire_lease_unlocked env ttl d stage cid owner now ttls = (Inl (LeaseBusyError st), d)"
proof -
  let ?t = "now_of now (env_now env)"
  have "busy_scan d owner ?t LEASE_STAGES \<noteq> Inr ()"
    using assms by (simp add: busy_scan_all_iff)
  then obtain e where e: "busy_scan d owner ?t LEASE_STAGES = Inl e"
    by (cases "busy_scan d owner ?t LEASE_STAGES") auto
  have "\<exists>st. e = LeaseBusyError st"
    using busy_scan_readable_err[OF subset_refl _ e] assms(1) by (simp add: readable_def)
  with e show ?thesis by (auto simp: acquire_lease_unlocked_def)
qed

lemma acquire_unlocked_spec:
  assumes "readable d" "plain_files d" "env_disk env" "stage \<in> set LEASE_STAGES"
    and "no_conflict d (now_of now (env_now env)) owner"
    and "uuid_ok (env_uuid env)" and "\<forall>ow. owner = Some ow \<longrightarrow> uuid_ok ow" and "cid \<noteq> []"
  obtains d' where "acquire_lease_unlocked env ttl d stage cid owner now ttls =
       (Inr (new_lease env ttl stage cid owner (now_of now (env_now env)) ttls), d')"
    and "lease_at d' = (lease_at d)(stage \<mapsto> new_lease env ttl stage cid owner (now_of now (env_now env)) ttls)"
proof -
  obtain d' where d': "acquire_lease_unlocked env ttl d stage cid owner now ttls =
       (Inr (new_lease env ttl stage cid owner (now_of now (env_now env)) ttls), d')"
    using acquire_unlocked_succeeds[OF assms(1-5)] by blast
  from lease_at_after_acquire_valid[OF d' new_lease_valid[OF assms(6,7)] assms(8)] d' that
  show thesis by blast
qed

text \<open>C1. Over any history of acquisitions, renewals and releases at the instants of one clock,
  the leases that are valid at the same instant in a call directory, whatever their stages,
  all belong to one owner: two operations never work on a recording at the same time.\<close>

theorem lease_mutual_exclusion:
  assumes "single_owner t0 d" and "times_from t0 ops" and "end_time t0 ops \<le> t"
    and "active_lease (run_timed (lease_step ttl) ops d) t s1 l1"
    and "active_lease (run_timed (lease_step ttl) ops d) t s2 l2"
  shows "lease_owner l1 = lease_owner l2"
  using lm.run_inv_after[OF assms(1-3)] assms(4,5) unfolding single_owner_def by blast

lemma acquire_lease_refines_aux:
  assumes "readable d" "plain_files d" "env_disk env" "stage \<in> set LEASE_STAGES"
    and "uuid_ok (env_uuid env)" and "\<forall>ow. owner = Some ow \<longrightarrow> uuid_ok ow" and "cid \<noteq> []"
  shows "(let t = now_of now (env_now env); l = new_lease env ttl stage cid owner t ttls;
              (r, d') = acquire_lease env ttl d stage cid owner now ttls in
          if no_conflict d t owner then r = Inr l \<and> lease_at d' = (lease_at d)(stage \<mapsto> l)
          else (\<exists>st. r = Inl (LeaseBusyError st)) \<and> lease_at d' = lease_at d)"
proof -
  obtain d1 where d1: "acquire_lease env ttl d stage cid owner now ttls =
        acquire_lease_unlocked env ttl d1 stage cid owner now ttls"
      "lease_at d1 = lease_at d" "readable d1 = readable d" "plain_files d1 = plain_files d"
      "\<And>t o'. no_conflict d1 t o' = no_conflict d t o'"
    unfolding acquire_lease_def
    by (rule locked_view[of env d "\<lambda>d1. acquire_lease_unlocked env ttl d1 stage cid owner now ttls"]) blast
  show ?thesis
  proof (cases "no_conflict d (now_of now (env_now env)) owner")
    case True
    then have "no_conflict d1 (now_of now (env_now env)) owner" by (simp add: d1(5))
    from acquire_unlocked_spec[of d1 env stage now owner cid ttl ttls, OF _ _ assms(3,4) this assms(5-7)]
    obtain d' where "acquire_lease_unlocked env ttl d1 stage cid owner now ttls =
         (Inr (new_lease env ttl stage cid owner (now_of now (env_now env)) ttls), d')"
      and "lease_at d' = (lease_at d1)(stage \<mapsto> new_lease env ttl stage cid owner (now_of now (env_now env)) ttls)"
      using assms(1,2) d1(3,4) by auto
    then show ?thesis using True d1(1,2) by simp
  next
    case False
    with acquire_unlocked_conflict[of d1 now env owner ttl stage cid ttls] assms(1) d1
    show ?thesis by (auto simp: Let_def)
  qed
qed

text \<open>C11. \<open>acquire_lease\<close> refines an update of the table of leases: with readable files and a
  disk that takes the write it succeeds exactly when no valid lease belongs to another owner,
  and then the table holds the new lease at its stage and is otherwise unchanged; if one does,
  it raises LeaseBusyError and the table is unchanged.\<close>

theorem acquire_lease_refines:
  assumes "readable d" "plain_files d" "env_disk env" "stage \<in> set LEASE_STAGES"
    and "uuid_ok (env_uuid env)" and "\<forall>ow. owner = Some ow \<longrightarrow> uuid_ok ow" and "cid \<noteq> []"
  shows "(let t = now_of now (env_now env); l = new_lease env ttl stage cid owner t ttls;
              (r, d') = acquire_lease env ttl d stage cid owner now ttls in
          if no_conflict d t owner then r = Inr l \<and> lease_at d' = (lease_at d)(stage \<mapsto> l)
          else (\<exists>st. r = Inl (LeaseBusyError st)) \<and> lease_at d' = lease_at d)"
  using assms by (rule acquire_lease_refines_aux)

text \<open>\<open>renew_lease\<close> never takes a lease over. It answers False, and the table stays as it
  is, unless the stage's lease belongs to the caller. If it does, it extends that lease (even
  an expired one) unless another owner has become active meanwhile, in which case it raises
  LeaseBusyError, and the table stays as it is.\<close>

theorem renew_lease_refines:
  assumes "readable d" "plain_files d" "env_disk env" "stage \<in> set LEASE_STAGES"
    and "uuid_ok (env_uuid env)"
  shows "(let t = now_of now (env_now env);
              (r, d') = renew_lease env ttl d stage owner now ttls in
          case lease_at d stage of
            None \<Rightarrow> r = Inr False \<and> lease_at d' = lease_at d
          | Some l \<Rightarrow>
             if lease_owner l \<noteq> owner then r = Inr False \<and> lease_at d' = lease_at d
             else if no_conflict d t (Some owner)
             then r = Inr True \<and> lease_at d' = (lease_at d)
               (stage \<mapsto> new_lease env ttl stage (lease_call_id l) (Some owner) t ttls)
             else (\<exists>st. r = Inl (LeaseBusyError st)) \<and> lease_at d' = lease_at d)"
proof -
  obtain d1 where d1: "renew_lease env ttl d stage owner now ttls = renew_unlocked env ttl stage owner now ttls d1"
      "lease_at d1 = lease_at d" "readable d1 = readable d" "plain_files d1 = plain_files d"
      "\<And>t o'. no_conflict d1 t o' = no_conflict d t o'"
      "\<And>st e. read_lease d1 (stage_file st) e = read_lease d (stage_file st) e"
    unfolding renew_lease_def by (rule locked_view[of env d "renew_unlocked env ttl stage owner now ttls"]) blast
  obtain r where r: "read_lease d (stage_file stage) (Some stage) = Inr r"
    using assms(1,4) by (auto simp: readable_def)
  have la: "lease_at d stage = r"
    using r assms(4) by (simp add: lease_at_def split: option.splits)
  show ?thesis
  proof (cases "\<exists>l. r = Some l \<and> lease_owner l = owner")
    case False
    then show ?thesis
      using r la d1 assms(4) by (auto simp: renew_unlocked_def lease_path_eq split: option.splits)
  next
    case True
    then obtain l where l: "r = Some l" "lease_owner l = owner" by blast
    have ok: "uuid_ok owner" "lease_call_id l \<noteq> []"
      using la l lease_at_SomeD(1)[of d stage l] r
      by (auto simp: read_lease_def lease_of_doc_def Let_def
          split: sum.splits if_splits option.splits json.splits datetime.splits)
    show ?thesis
    proof (cases "no_conflict d (now_of now (env_now env)) (Some owner)")
      case nc: True
      then have nc1: "no_conflict d1 (now_of now (env_now env)) (Some owner)" by (simp add: d1(5))
      from acquire_unlocked_spec[of d1 env stage now "Some owner" "lease_call_id l" ttl ttls,
          OF _ _ assms(3,4) nc1 assms(5) _ ok(2)]
      obtain d' where "acquire_lease_unlocked env ttl d1 stage (lease_call_id l) (Some owner) now ttls =
           (Inr (new_lease env ttl stage (lease_call_id l) (Some owner) (now_of now (env_now env)) ttls), d')"
        and "lease_at d' = (lease_at d1)(stage \<mapsto>
           new_lease env ttl stage (lease_call_id l) (Some owner) (now_of now (env_now env)) ttls)"
        using assms(1,2) d1(3,4) ok(1) by auto
      then show ?thesis using nc l la r d1(1,2,6) assms(4) by (simp add: renew_unlocked_def lease_path_eq)
    next
      case nc: False
      then obtain st where "acquire_lease_unlocked env ttl d1 stage (lease_call_id l) (Some owner) now ttls
          = (Inl (LeaseBusyError st), d1)"
        using acquire_unlocked_conflict[of d1 now env "Some owner" ttl stage "lease_call_id l" ttls]
          assms(1) d1(3,5) by auto
      then show ?thesis using nc l la r d1(1,2,6) assms(4) by (simp add: renew_unlocked_def lease_path_eq)
    qed
  qed
qed

text \<open>Only the owner releases: \<open>release_lease\<close> answers True exactly when the stage's lease
  belongs to the caller, and then removes that lease and no other; otherwise nothing changes.\<close>

theorem release_lease_refines:
  assumes "readable d" "stage \<in> set LEASE_STAGES"
  shows "(let (r, d') = release_lease env d stage owner;
              mine = (\<exists>l. lease_at d stage = Some l \<and> lease_owner l = owner) in
          r = Inr mine \<and> lease_at d' = (if mine then (lease_at d)(stage := None) else lease_at d))"
proof -
  obtain d1 where d1: "release_lease env d stage owner = release_unlocked stage owner d1"
      "lease_at d1 = lease_at d"
      "\<And>st e. read_lease d1 (stage_file st) e = read_lease d (stage_file st) e"
      "\<And>st. dget d1 (stage_file st) = dget d (stage_file st)"
    unfolding release_lease_def by (rule locked_view[of env d "release_unlocked stage owner"]) blast
  obtain r where r: "read_lease d (stage_file stage) (Some stage) = Inr r"
    using assms by (auto simp: readable_def)
  have la: "lease_at d stage = r"
    using r assms(2) by (simp add: lease_at_def split: option.splits)
  have ex: "path_exists d1 (stage_file stage)" if "r \<noteq> None"
    using r that d1(4)[of stage] by (auto simp: path_exists_def read_lease_def load_json_def split: option.splits)
  show ?thesis
    using r la d1 ex assms(2)
    by (cases r) (auto simp: release_unlocked_def lease_path_eq lease_at_ddel fun_eq_iff)
qed

text \<open>A lease just acquired is seen: for every instant before its time to live has passed
  \<open>has_valid_lease\<close> answers True, and so the cleanup and the cycles of the workers, which ask
  it, leave the directory alone.\<close>

theorem acquired_lease_is_valid:
  assumes "acquire_lease env ttl d stage cid owner None None = (Inr l, d')"
    and "readable d'" and "uuid_ok (lease_owner l)" and "cid \<noteq> []"
    and "env_now env' < env_now env + seconds ttl"
  shows "has_valid_lease env' d' None = Inr True"
proof -
  obtain d1 where d1: "acquire_lease env ttl d stage cid owner None None =
        acquire_lease_unlocked env ttl d1 stage cid owner None None"
    unfolding acquire_lease_def
    by (rule locked_view[of env d "\<lambda>d1. acquire_lease_unlocked env ttl d1 stage cid owner None None"]) blast
  note ok = assms(1)[unfolded d1]
  have "lease_at d' stage = Some l"
    using lease_at_after_acquire_valid[OF ok assms(3,4)] by simp
  moreover have "lease_expires l = env_now env + seconds ttl"
    using acquire_unlocked_ok(1)[OF ok] by (simp add: new_lease_def)
  ultimately have "active_lease d' (env_now env') stage l"
    using assms(5) by (simp add: active_lease_def)
  then show ?thesis by (auto simp: has_valid_lease_iff[OF assms(2)])
qed

text \<open>A lease file that holds a JSON document other than an object is not treated as a corrupt
  lease: reading it raises AttributeError, which the list of caught exceptions omits, so
  \<open>has_valid_lease\<close> and \<open>acquire_lease\<close> fail where no other stage decides first.\<close>

theorem non_object_lease_raises:
  assumes "st \<in> set LEASE_STAGES" and "f_data f = Doc j" and "\<not> is_dict j"
  shows "has_valid_lease env [(stage_file st, f)] now = Inl (AttributeError ''get'') \<and>
    fst (acquire_lease env ttl [(stage_file st, f)] stage cid owner now ttls) = Inl (AttributeError ''get'')"
proof -
  let ?d = "[(stage_file st, f)]"
  let ?d1 = "dput LIFECYCLE_LOCK_FILE (new_file env 0 (Bytes [])) ?d"
  have here: "read_lease d (stage_file st) e = Inl (AttributeError ''get'')"
    if "dget d (stage_file st) = Some f" for d e
    using that assms(2,3) by (simp add: read_lease_def load_json_def)
  have other: "read_lease d (stage_file s) e = Inr None"
    if "dget d (stage_file s) = None" for d s e
    using that by (simp add: read_lease_def load_json_def)
  have one: "dget ?d (stage_file s) = (if s = st then Some f else None)" for s
    by (simp add: dget_def)
  have v: "valid_scan ?d t sts = Inl (AttributeError ''get'')" if "st \<in> set sts" "set sts \<subseteq> set LEASE_STAGES" for t sts
    using that
  proof (induction sts)
    case (Cons a sts)
    then show ?case
      using here[of ?d] other[of ?d a] one by (cases "a = st") (simp_all add: lease_path_eq)
  qed simp
  then have V: "has_valid_lease env ?d now = Inl (AttributeError ''get'')"
    using assms(1) by (simp add: has_valid_lease_def)
  have lk: "path_exists ?d LIFECYCLE_LOCK_FILE = False"
    by (simp add: path_exists_def dget_def)
  have b: "busy_scan ?d1 owner t sts = Inl (AttributeError ''get'')" if "st \<in> set sts" "set sts \<subseteq> set LEASE_STAGES" for t sts
    using that
  proof (induction sts)
    case (Cons a sts)
    then show ?case
      using here[of ?d1] other[of ?d1 a] one by (cases "a = st") (simp_all add: lease_path_eq)
  qed simp
  show ?thesis
    using V b[OF assms(1) subset_refl] lk
    by (simp add: acquire_lease_def locked_call_directory_def acquire_lease_unlocked_def)
qed


section \<open>Witnesses\<close>

definition uuid_a :: string where
  "uuid_a = ''aaaaaaaa-aaaa-4aaa-8aaa-aaaaaaaaaaaa''"

definition uuid_b :: string where
  "uuid_b = ''bbbbbbbb-bbbb-4bbb-8bbb-bbbbbbbbbbbb''"

definition env_a :: os_env where
  "env_a = \<lparr>env_now = 1000000, env_uuid = uuid_a, env_inode = 7, env_disk = True\<rparr>"

lemma uuid_a_ok [simp]: "uuid_ok uuid_a"
  by code_simp

lemma uuid_b_ok [simp]: "uuid_ok uuid_b"
  by code_simp

lemma uuid_a_b [simp]: "uuid_a \<noteq> uuid_b" "uuid_b \<noteq> uuid_a" "uuid_a \<noteq> []" "uuid_b \<noteq> []"
  by (simp_all add: uuid_a_def uuid_b_def)

lemma empty_dir_view [simp]: "lease_at [] st = None" "readable []" "plain_files []" "single_owner t []"
  by (simp_all add: lease_at_def readable_def plain_files_def single_owner_def active_lease_def
      read_lease_def load_json_def)

lemma stages_mem [simp]:
  "''capture'' \<in> set LEASE_STAGES" "''conversion'' \<in> set LEASE_STAGES"
  "''smb'' \<in> set LEASE_STAGES" "''transcription'' \<in> set LEASE_STAGES"
  by (simp_all add: LEASE_STAGES_def)

text \<open>The directory after one call acquired its capture lease at second 1 for 120 seconds.\<close>

definition held_dir :: dir where
  "held_dir = snd (acquire_lease env_a 120 [] ''capture'' ''call-1'' None None None)"

definition held_lease :: recording_lease where
  "held_lease = \<lparr>lease_stage = ''capture'', lease_call_id = ''call-1'', lease_owner = uuid_a,
     lease_expires = 121000000\<rparr>"

lemma held_acquire: "acquire_lease env_a 120 [] ''capture'' ''call-1'' None None None = (Inr held_lease, held_dir)"
  and held_view: "lease_at held_dir = [''capture'' \<mapsto> held_lease]"
proof -
  have nc: "no_conflict [] t ow" for t ow
    by (simp add: no_conflict_def active_lease_def)
  have nl: "new_lease env_a 120 ''capture'' ''call-1'' None 1000000 None = held_lease"
    by (simp add: new_lease_def held_lease_def env_a_def seconds_def)
  obtain r d' where *: "acquire_lease env_a 120 [] ''capture'' ''call-1'' None None None = (r, d')"
    by fastforce
  have "r = Inr held_lease \<and> lease_at d' = [''capture'' \<mapsto> held_lease]"
    using acquire_lease_refines_aux[of "[]" env_a "''capture''" None "''call-1''" None 120 None] nc nl *
    by (auto simp: env_a_def Let_def fun_eq_iff)
  with * show "acquire_lease env_a 120 [] ''capture'' ''call-1'' None None None = (Inr held_lease, held_dir)"
    and "lease_at held_dir = [''capture'' \<mapsto> held_lease]"
    by (simp_all add: held_dir_def)
qed


lemma dget_dput_eval: "dget (dput n f d) = (dget d)(n \<mapsto> f)"
  by (rule ext) simp

text \<open>Acquiring in a directory without lease files leaves just the lock and the lease.\<close>

lemma held_dir_get:
  "dget held_dir = [LIFECYCLE_LOCK_FILE \<mapsto> new_file env_a 0 (Bytes []),
                    stage_file ''capture'' \<mapsto> json_file env_a (lease_payload held_lease)]"
proof -
  obtain d1 where "locked_call_directory env_a [] (\<lambda>d1. acquire_lease_unlocked env_a 120 d1 ''capture'' ''call-1'' None None None)
      = acquire_lease_unlocked env_a 120 d1 ''capture'' ''call-1'' None None None"
      "d1 = dput LIFECYCLE_LOCK_FILE (new_file env_a 0 (Bytes [])) []"
    by (simp add: locked_call_directory_def path_exists_def)
  then have "acquire_lease_unlocked env_a 120 d1 ''capture'' ''call-1'' None None None = (Inr held_lease, held_dir)"
    using held_acquire by (simp add: acquire_lease_def)
  from acquire_unlocked_ok(4)[OF this] obtain d2 where d2: "d2 = d1 \<or> d2 = ddel (stage_file ''capture'') d1"
      and h: "held_dir = dput (stage_file ''capture'') (json_file env_a (lease_payload held_lease)) d2"
    by blast
  show ?thesis
    unfolding h using d2 \<open>d1 = _\<close> by (intro ext) auto
qed

lemma held_dir_ok [simp]: "readable held_dir" "plain_files held_dir"
  by (auto simp: readable_def plain_files_def read_lease_def load_json_def held_dir_get lease_payload_def
      split: if_splits)

lemma uuid_in_a [simp]: "env_uuid env_a = uuid_a" "env_now env_a = 1000000" "env_disk env_a"
  by (simp_all add: env_a_def)

text \<open>The same owner nests a conversion lease inside its capture lease.\<close>

definition nested_dir :: dir where
  "nested_dir = snd (acquire_lease env_a 120 held_dir ''conversion'' ''call-1'' (Some uuid_a) None None)"

lemma nested_view:
  "lease_at nested_dir = [''capture'' \<mapsto> held_lease,
     ''conversion'' \<mapsto> held_lease\<lparr>lease_stage := ''conversion''\<rparr>]"
proof -
  have nc: "no_conflict held_dir 1000000 (Some uuid_a)"
    by (auto simp: no_conflict_def active_lease_def held_view held_lease_def split: if_splits)
  have nl: "new_lease env_a 120 ''conversion'' ''call-1'' (Some uuid_a) 1000000 None
      = held_lease\<lparr>lease_stage := ''conversion''\<rparr>"
    by (simp add: new_lease_def held_lease_def seconds_def)
  obtain r d' where *: "acquire_lease env_a 120 held_dir ''conversion'' ''call-1'' (Some uuid_a) None None = (r, d')"
    by fastforce
  have "lease_at d' = [''capture'' \<mapsto> held_lease, ''conversion'' \<mapsto> held_lease\<lparr>lease_stage := ''conversion''\<rparr>]"
    using acquire_lease_refines_aux[of held_dir env_a "''conversion''" "Some uuid_a" "''call-1''" None 120 None] nc nl *
    by (auto simp: Let_def held_view)
  with * show ?thesis by (simp add: nested_dir_def)
qed

theorem lease_mutual_exclusion_witness:
  "lease_owner held_lease = lease_owner (held_lease\<lparr>lease_stage := ''conversion''\<rparr>)
   \<and> active_lease (run_timed (lease_step 120)
       [(1000000, Acquire env_a ''capture'' ''call-1'' None None),
        (1000000, Acquire env_a ''conversion'' ''call-1'' (Some uuid_a) None)] []) 2000000 ''conversion''
       (held_lease\<lparr>lease_stage := ''conversion''\<rparr>)"
proof -
  let ?ops = "[(1000000, Acquire env_a ''capture'' ''call-1'' None None),
        (1000000, Acquire env_a ''conversion'' ''call-1'' (Some uuid_a) None)]"
  have run: "run_timed (lease_step 120) ?ops [] = nested_dir"
    by (simp add: nested_dir_def held_dir_def env_a_def)
  have a1: "active_lease (run_timed (lease_step 120) ?ops []) 2000000 ''capture'' held_lease"
    and a2: "active_lease (run_timed (lease_step 120) ?ops []) 2000000 ''conversion''
        (held_lease\<lparr>lease_stage := ''conversion''\<rparr>)"
    unfolding run by (simp_all add: active_lease_def nested_view held_lease_def)
  show ?thesis
    using lease_mutual_exclusion[OF _ _ _ a1 a2, of 0] a2 by simp
qed

theorem acquire_lease_refines_witness:
  "fst (acquire_lease env_a 120 [] ''capture'' ''call-1'' None None None) = Inr held_lease
   \<and> (\<exists>st. fst (acquire_lease (env_a\<lparr>env_uuid := uuid_b\<rparr>) 120 held_dir ''smb'' ''call-1'' None None None)
        = Inl (LeaseBusyError st))"
proof -
  have nc: "no_conflict [] t ow" for t ow
    by (simp add: no_conflict_def active_lease_def)
  have busy: "\<not> no_conflict held_dir 1000000 None"
    by (auto simp: no_conflict_def active_lease_def held_view held_lease_def)
  have nl: "new_lease env_a 120 ''capture'' ''call-1'' None 1000000 None = held_lease"
    by (simp add: new_lease_def held_lease_def env_a_def seconds_def)
  show ?thesis
    using acquire_lease_refines[of "[]" env_a "''capture''" None "''call-1''" None 120 None] nc nl
      acquire_lease_refines[of held_dir "env_a\<lparr>env_uuid := uuid_b\<rparr>" "''smb''" None "''call-1''" None 120 None] busy
    by (auto simp: Let_def split: prod.splits)
qed

theorem renew_lease_refines_witness:
  "fst (renew_lease (env_a\<lparr>env_now := 61000000\<rparr>) 120 held_dir ''capture'' uuid_a None None) = Inr True
   \<and> fst (renew_lease (env_a\<lparr>env_now := 61000000\<rparr>) 120 held_dir ''capture'' uuid_b None None) = Inr False"
proof -
  have nc: "no_conflict held_dir 61000000 (Some uuid_a)"
    by (auto simp: no_conflict_def active_lease_def held_view held_lease_def split: if_splits)
  have hl: "lease_owner held_lease = uuid_a"
    by (simp add: held_lease_def)
  show ?thesis
    using renew_lease_refines[of held_dir "env_a\<lparr>env_now := 61000000\<rparr>" "''capture''" None 120 uuid_a None] nc
      renew_lease_refines[of held_dir "env_a\<lparr>env_now := 61000000\<rparr>" "''capture''" None 120 uuid_b None] hl
    by (simp add: Let_def held_view split: prod.splits)
qed

theorem release_lease_refines_witness:
  "fst (release_lease env_a held_dir ''capture'' uuid_a) = Inr True
   \<and> fst (release_lease env_a held_dir ''capture'' uuid_b) = Inr False"
proof -
  have hl: "lease_owner held_lease = uuid_a"
    by (simp add: held_lease_def)
  show ?thesis
    using release_lease_refines[of held_dir "''capture''" env_a uuid_a]
      release_lease_refines[of held_dir "''capture''" env_a uuid_b] hl
    by (simp add: Let_def held_view split: prod.splits)
qed

theorem acquired_lease_is_valid_witness:
  "has_valid_lease (env_a\<lparr>env_now := 120999999\<rparr>) held_dir None = Inr True"
  using acquired_lease_is_valid[OF held_acquire held_dir_ok(1), of "env_a\<lparr>env_now := 120999999\<rparr>"]
  by (simp add: held_lease_def seconds_def)

theorem non_object_lease_raises_witness:
  "has_valid_lease env_a [(stage_file ''smb'', json_file env_a (JList []))] None = Inl (AttributeError ''get'')"
  using non_object_lease_raises[of "''smb''" "json_file env_a (JList [])" "JList []" env_a None] by simp

end
