(* ===== verification/Consumers.thy ===== *)
theory Consumers
  imports Call_Dir
begin

text \<open>
  \<open>workers/recording_consumers.py\<close>: a worker that is done with a recording leaves the marker
  \<open>.consumed-<name>\<close> in the call directory; the cleanup asks whether every required consumer
  left one. \<open>_CONSUMER_RE.fullmatch\<close> accepts the non-empty names over \<open>[a-z0-9_-]\<close>.
\<close>

definition consumer_name_ok :: "string \<Rightarrow> bool" where
  "consumer_name_ok c \<longleftrightarrow>
     c \<noteq> [] \<and> list_all (\<lambda>x. is_lower x \<or> is_digit x \<or> x = CHR ''_'' \<or> x = CHR ''-'') c"

definition marker_file :: "string \<Rightarrow> string" where
  "marker_file consumer = ''.consumed-'' @ consumer"

definition marker :: "string \<Rightarrow> exc + string" where
  "marker consumer =
     (if consumer_name_ok consumer then Inr (marker_file consumer)
      else Inl (ValueError ''invalid consumer name''))"

definition consumed_doc :: "string \<Rightarrow> int \<Rightarrow> json" where
  "consumed_doc consumer now = JObj
     [(''consumed_at'', JIso (Aware now)), (''consumer'', JStr consumer), (''version'', JInt 1)]"

definition mark_consumed :: "os_env \<Rightarrow> string \<Rightarrow> dir \<Rightarrow> (exc + string) \<times> dir" where
  "mark_consumed env consumer d =
     (case marker consumer of
        Inl e \<Rightarrow> (Inl e, d)
      | Inr m \<Rightarrow>
         if \<not> env_disk env then (Inl (OSError ''write failed''), d)
         else if dget d m \<noteq> None \<and> f_data (the (dget d m)) = Directory then (Inl IsADirectoryError, d)
         else (Inr m, dput m (json_file env (consumed_doc consumer (env_now env))) d))"

fun all_marked :: "dir \<Rightarrow> string list \<Rightarrow> exc + bool" where
  "all_marked d [] = Inr True"
| "all_marked d (c # cs) =
     (case marker c of Inl e \<Rightarrow> Inl e | Inr m \<Rightarrow> if is_file d m then all_marked d cs else Inr False)"

definition is_fully_consumed :: "dir \<Rightarrow> string list \<Rightarrow> exc + bool" where
  "is_fully_consumed d required = (if required = [] then Inr False else all_marked d required)"

lemma marker_ok [simp]: "consumer_name_ok c \<Longrightarrow> marker c = Inr (marker_file c)"
  by (simp add: marker_def)

lemma marker_file_inj [simp]: "marker_file a = marker_file b \<longleftrightarrow> a = b"
  by (simp add: marker_file_def)

lemma all_marked_iff:
  "\<forall>c\<in>set cs. consumer_name_ok c \<Longrightarrow> all_marked d cs = Inr (\<forall>c\<in>set cs. is_file d (marker_file c))"
  by (induction cs) auto

lemma is_fully_consumed_iff:
  "\<forall>c\<in>set cs. consumer_name_ok c \<Longrightarrow>
   is_fully_consumed d cs = Inr (cs \<noteq> [] \<and> (\<forall>c\<in>set cs. is_file d (marker_file c)))"
  by (simp add: is_fully_consumed_def all_marked_iff)

lemma is_fully_consumed_True:
  assumes "is_fully_consumed d cs = Inr True"
  shows "cs \<noteq> []" and "\<forall>c\<in>set cs. consumer_name_ok c \<and> is_file d (marker_file c)"
proof -
  have "all_marked d cs = Inr True \<Longrightarrow> \<forall>c\<in>set cs. consumer_name_ok c \<and> is_file d (marker_file c)"
    by (induction cs) (auto simp: marker_def split: if_splits)
  with assms show "cs \<noteq> []" and "\<forall>c\<in>set cs. consumer_name_ok c \<and> is_file d (marker_file c)"
    by (auto simp: is_fully_consumed_def split: if_splits)
qed

lemma mark_consumed_get:
  assumes "mark_consumed env c d = (Inr m, d')"
  shows "m = marker_file c" and "consumer_name_ok c" and "is_file d' (marker_file c)"
    and "\<And>n. n \<noteq> marker_file c \<Longrightarrow> dget d' n = dget d n"
  using assms by (auto simp: mark_consumed_def marker_def is_file_def split: if_splits)

end
