(* ===== verification/Config.thy ===== *)
theory Config
  imports Zenith_Prelude
begin

text \<open>
  \<open>config.py\<close>: the settings the modelled components read, with the bounds their fields
  declare and the model validator. A float setting is a rational number. Settings that only
  name external hosts and files are strings no modelled operation looks into.
\<close>

record settings =
  INSTANCE_ID :: int
  TRUNK_CREDENTIAL_KEYS :: string
  FREESWITCH_DIRECTORY_BASIC_USERNAME :: string
  FREESWITCH_DIRECTORY_BASIC_PASSWORD :: string
  AUDIO_STREAM_CALLBACK_HOST :: string
  STT_FALLBACK_TIMEOUT_MS :: int
  AUDIO_RETENTION_DAYS :: rat
  RECORDING_REQUIRED_CONSUMERS :: "string list"
  RECORDING_MAX_CALL_SECONDS :: int
  RECORDING_MIN_FREE_PERCENT :: rat
  RECORDING_RESUME_FREE_PERCENT :: rat
  RECORDING_PROCESSING_HEADROOM_BYTES :: int
  RECORDING_LEASE_TTL_SECONDS :: int
  RECORDING_LEASE_HEARTBEAT_SECONDS :: int
  RECORDING_CLEANUP_ROUND_SECONDS :: int
  SMB_ENABLED :: bool
  SMB_HOST :: string
  SMB_PORT :: int
  SMB_IS_DIRECT_TCP :: bool
  SMB_CLIENT_NAME :: string
  SMB_SERVER_NAME :: string
  SMB_SIGN_OPTIONS :: int
  SMB_SHARE :: string
  SMB_PATH :: string
  SMB_USERNAME :: string
  SMB_PASSWORD :: string
  SMB_BANDWIDTH_LIMIT_MBS :: rat
  SMB_SYNC_INTERVAL_MINUTES :: int
  TRANSCRIPT_ENABLED :: bool
  TRANSCRIPT_CHUNK_SECONDS :: int
  TRANSCRIPT_CALL_TIMEOUT_SECONDS :: int
  TRANSCRIPT_CYCLE_TIMEOUT_SECONDS :: int
  TRANSCRIPT_SYNC_INTERVAL_MINUTES :: int
  WHISPER_CPP_THREADS :: int

definition default_settings :: settings where
  "default_settings = \<lparr>
     INSTANCE_ID = 1, TRUNK_CREDENTIAL_KEYS = [],
     FREESWITCH_DIRECTORY_BASIC_USERNAME = [], FREESWITCH_DIRECTORY_BASIC_PASSWORD = [],
     AUDIO_STREAM_CALLBACK_HOST = ''127.0.0.1:8001'', STT_FALLBACK_TIMEOUT_MS = 500,
     AUDIO_RETENTION_DAYS = 90, RECORDING_REQUIRED_CONSUMERS = [''smb''],
     RECORDING_MAX_CALL_SECONDS = 300, RECORDING_MIN_FREE_PERCENT = 20,
     RECORDING_RESUME_FREE_PERCENT = 30, RECORDING_PROCESSING_HEADROOM_BYTES = 134217728,
     RECORDING_LEASE_TTL_SECONDS = 120, RECORDING_LEASE_HEARTBEAT_SECONDS = 30,
     RECORDING_CLEANUP_ROUND_SECONDS = 900,
     SMB_ENABLED = False, SMB_HOST = [], SMB_PORT = 445, SMB_IS_DIRECT_TCP = True,
     SMB_CLIENT_NAME = ''ZENITH'', SMB_SERVER_NAME = [], SMB_SIGN_OPTIONS = 2, SMB_SHARE = [],
     SMB_PATH = [], SMB_USERNAME = [], SMB_PASSWORD = [], SMB_BANDWIDTH_LIMIT_MBS = 5,
     SMB_SYNC_INTERVAL_MINUTES = 5,
     TRANSCRIPT_ENABLED = False, TRANSCRIPT_CHUNK_SECONDS = 30,
     TRANSCRIPT_CALL_TIMEOUT_SECONDS = 3600, TRANSCRIPT_CYCLE_TIMEOUT_SECONDS = 86400,
     TRANSCRIPT_SYNC_INTERVAL_MINUTES = 2, WHISPER_CPP_THREADS = 1\<rparr>"

text \<open>The bounds of the \<open>Field(...)\<close> declarations.\<close>

definition field_bounds_ok :: "settings \<Rightarrow> bool" where
  "field_bounds_ok s \<longleftrightarrow>
     RECORDING_MAX_CALL_SECONDS s > 0
   \<and> 0 \<le> RECORDING_MIN_FREE_PERCENT s \<and> RECORDING_MIN_FREE_PERCENT s < 100
   \<and> 0 < RECORDING_RESUME_FREE_PERCENT s \<and> RECORDING_RESUME_FREE_PERCENT s \<le> 100
   \<and> 0 \<le> RECORDING_PROCESSING_HEADROOM_BYTES s
   \<and> RECORDING_LEASE_TTL_SECONDS s > 0 \<and> RECORDING_LEASE_HEARTBEAT_SECONDS s > 0
   \<and> RECORDING_CLEANUP_ROUND_SECONDS s > 0
   \<and> 1 \<le> SMB_PORT s \<and> SMB_PORT s \<le> 65535
   \<and> 1 \<le> length (SMB_CLIENT_NAME s) \<and> length (SMB_CLIENT_NAME s) \<le> 15
   \<and> length (SMB_SERVER_NAME s) \<le> 15
   \<and> 0 \<le> SMB_SIGN_OPTIONS s \<and> SMB_SIGN_OPTIONS s \<le> 2
   \<and> SMB_BANDWIDTH_LIMIT_MBS s > 0
   \<and> 1 \<le> SMB_SYNC_INTERVAL_MINUTES s \<and> SMB_SYNC_INTERVAL_MINUTES s \<le> 59
   \<and> 5 \<le> TRANSCRIPT_CHUNK_SECONDS s \<and> TRANSCRIPT_CHUNK_SECONDS s \<le> 300
   \<and> 30 \<le> TRANSCRIPT_CALL_TIMEOUT_SECONDS s \<and> TRANSCRIPT_CALL_TIMEOUT_SECONDS s \<le> 7200
   \<and> 3600 \<le> TRANSCRIPT_CYCLE_TIMEOUT_SECONDS s \<and> TRANSCRIPT_CYCLE_TIMEOUT_SECONDS s \<le> 172800
   \<and> 1 \<le> TRANSCRIPT_SYNC_INTERVAL_MINUTES s \<and> TRANSCRIPT_SYNC_INTERVAL_MINUTES s \<le> 59
   \<and> 1 \<le> WHISPER_CPP_THREADS s \<and> WHISPER_CPP_THREADS s \<le> 8"

definition smb_missing :: "settings \<Rightarrow> string list" where
  "smb_missing s = map fst (filter (\<lambda>(n, v). v = [])
     [(''SMB_HOST'', SMB_HOST s), (''SMB_SERVER_NAME'', SMB_SERVER_NAME s),
      (''SMB_SHARE'', SMB_SHARE s), (''SMB_USERNAME'', SMB_USERNAME s),
      (''SMB_PASSWORD'', SMB_PASSWORD s)])"

definition validate_smb_configuration :: "settings \<Rightarrow> exc + settings" where
  "validate_smb_configuration s =
     (if RECORDING_RESUME_FREE_PERCENT s \<le> RECORDING_MIN_FREE_PERCENT s
      then Inl (ValueError ''resume margin'')
      else if \<not> SMB_ENABLED s then Inr s
      else if smb_missing s \<noteq> [] then Inl (ValueError (join_str '', '' (smb_missing s)))
      else if SMB_IS_DIRECT_TCP s \<and> SMB_PORT s = 139 then Inl (ValueError ''direct tcp port 139'')
      else Inr s)"

text \<open>Building \<open>Settings\<close>: the fields are checked, then the model validator runs.\<close>

definition load_settings :: "settings \<Rightarrow> exc + settings" where
  "load_settings s =
     (if field_bounds_ok s then validate_smb_configuration s else Inl (ValueError ''field bounds''))"

lemma load_settings_ok:
  assumes "load_settings s = Inr s'"
  shows "s' = s" and "field_bounds_ok s"
    and "RECORDING_MIN_FREE_PERCENT s < RECORDING_RESUME_FREE_PERCENT s"
    and "SMB_ENABLED s \<Longrightarrow> SMB_HOST s \<noteq> [] \<and> SMB_SERVER_NAME s \<noteq> [] \<and> SMB_SHARE s \<noteq> []
       \<and> SMB_USERNAME s \<noteq> [] \<and> SMB_PASSWORD s \<noteq> []"
  using assms
  by (auto simp: load_settings_def validate_smb_configuration_def smb_missing_def split: if_splits)

lemma default_settings_load: "load_settings default_settings = Inr default_settings"
  by (simp add: load_settings_def validate_smb_configuration_def field_bounds_ok_def default_settings_def)

end
