(* ===== verification/Telemetry.thy ===== *)
theory Telemetry
  imports Zenith_Prelude
begin

text \<open>
  \<open>utils/telemetry.py\<close>: the counters and gauges the workers report, as a table from a metric
  and its labels to its value. A histogram keeps the sum and the number of its observations.
\<close>

type_synonym metric_key = "string \<times> string list"
type_synonym metrics = "(metric_key \<times> rat) list"

definition metric_value :: "metrics \<Rightarrow> metric_key \<Rightarrow> rat" where
  "metric_value m k = (case map_of m k of None \<Rightarrow> 0 | Some v \<Rightarrow> v)"

definition metric_set :: "metric_key \<Rightarrow> rat \<Rightarrow> metrics \<Rightarrow> metrics" where
  "metric_set k v m = AList.update k v m"

definition metric_inc :: "metric_key \<Rightarrow> rat \<Rightarrow> metrics \<Rightarrow> metrics" where
  "metric_inc k q m = metric_set k (metric_value m k + q) m"

definition metric_observe :: "metric_key \<Rightarrow> rat \<Rightarrow> metrics \<Rightarrow> metrics" where
  "metric_observe k q m =
     metric_inc (fst k @ ''_count'', snd k) 1 (metric_inc (fst k @ ''_sum'', snd k) q m)"

lemma metric_value_set [simp]: "metric_value (metric_set k v m) k' = (if k' = k then v else metric_value m k')"
  by (simp add: metric_value_def metric_set_def AList.update_conv)

lemma metric_value_inc [simp]:
  "metric_value (metric_inc k q m) k' = metric_value m k' + (if k' = k then q else 0)"
  by (simp add: metric_inc_def)

definition set_active_tenant_schemas :: "int \<Rightarrow> metrics \<Rightarrow> metrics" where
  "set_active_tenant_schemas n = metric_set (''tenant_schemas_active'', []) (of_int n)"

definition inc_redis_stream_events :: "string \<Rightarrow> string \<Rightarrow> metrics \<Rightarrow> metrics" where
  "inc_redis_stream_events stream tenant_id =
     metric_inc (''redis_stream_events_total'', [stream, tenant_id]) 1"

definition set_sip_mappings :: "int \<Rightarrow> metrics \<Rightarrow> metrics" where
  "set_sip_mappings n = metric_set (''sip_mappings_active'', []) (of_int n)"

definition set_ws_connections :: "int \<Rightarrow> string \<Rightarrow> metrics \<Rightarrow> metrics" where
  "set_ws_connections n tenant_id = metric_set (''websocket_connections_active'', [tenant_id]) (of_int n)"

definition set_db_pool_connections :: "int \<Rightarrow> metrics \<Rightarrow> metrics" where
  "set_db_pool_connections n = metric_set (''db_pool_connections'', []) (of_int n)"

definition observe_schema_query :: "string \<Rightarrow> rat \<Rightarrow> metrics \<Rightarrow> metrics" where
  "observe_schema_query schema q = metric_observe (''multi_schema_query_duration_seconds'', [schema]) q"

definition record_cleanup_deleted :: "string \<Rightarrow> nat \<Rightarrow> nat \<Rightarrow> metrics \<Rightarrow> metrics" where
  "record_cleanup_deleted tenant_id n bytes m =
     metric_inc (''audio_cleanup_bytes_freed_total'', [tenant_id]) (of_nat bytes)
       (metric_inc (''audio_cleanup_files_deleted_total'', [tenant_id]) (of_nat n) m)"

definition record_cleanup_error :: "string \<Rightarrow> metrics \<Rightarrow> metrics" where
  "record_cleanup_error tenant_id = metric_inc (''audio_cleanup_errors_total'', [tenant_id]) 1"

definition observe_cleanup_duration :: "rat \<Rightarrow> metrics \<Rightarrow> metrics" where
  "observe_cleanup_duration q = metric_observe (''audio_cleanup_duration_seconds'', []) q"

definition record_smb_success :: "metrics \<Rightarrow> metrics" where
  "record_smb_success = metric_inc (''smb_backup_success_total'', []) 1"

definition record_smb_failure :: "metrics \<Rightarrow> metrics" where
  "record_smb_failure = metric_inc (''smb_backup_failed_total'', []) 1"

definition observe_smb_latency :: "rat \<Rightarrow> metrics \<Rightarrow> metrics" where
  "observe_smb_latency q = metric_observe (''smb_backup_latency_seconds'', []) q"

definition set_smb_queue_size :: "int \<Rightarrow> metrics \<Rightarrow> metrics" where
  "set_smb_queue_size n = metric_set (''smb_backup_queue_size'', []) (of_int n)"

definition set_smb_conversion_pending :: "int \<Rightarrow> metrics \<Rightarrow> metrics" where
  "set_smb_conversion_pending n = metric_set (''smb_conversion_pending'', []) (of_int n)"

definition set_recording_capacity :: "int \<Rightarrow> int \<Rightarrow> int \<Rightarrow> bool \<Rightarrow> metrics \<Rightarrow> metrics" where
  "set_recording_capacity used_bytes res_bytes tot_bytes deg m =
     metric_set (''recording_degraded_mode'', []) (if deg then 1 else 0)
       (metric_set (''recording_storage_total_bytes'', []) (of_int tot_bytes)
         (metric_set (''recording_reserved_bytes'', []) (of_int res_bytes)
           (metric_set (''recording_storage_used_bytes'', []) (of_int used_bytes) m)))"

definition record_recording_refused :: "metrics \<Rightarrow> metrics" where
  "record_recording_refused = metric_inc (''recording_refused_total'', []) 1"

definition record_temporary_cleanup :: "nat \<Rightarrow> nat \<Rightarrow> metrics \<Rightarrow> metrics" where
  "record_temporary_cleanup candidates deleted m =
     metric_inc (''recording_temp_deleted_total'', []) (of_nat deleted)
       (metric_inc (''recording_temp_candidates_total'', []) (of_nat candidates) m)"

definition record_lease_failure :: "string \<Rightarrow> metrics \<Rightarrow> metrics" where
  "record_lease_failure stage = metric_inc (''recording_lease_failures_total'', [stage]) 1"

definition record_transcript_success :: "metrics \<Rightarrow> metrics" where
  "record_transcript_success = metric_inc (''transcript_success_total'', []) 1"

definition record_transcript_failure :: "string \<Rightarrow> metrics \<Rightarrow> metrics" where
  "record_transcript_failure reason = metric_inc (''transcript_failed_total'', [reason]) 1"

definition record_transcript_backlog_dropped :: "string \<Rightarrow> metrics \<Rightarrow> metrics" where
  "record_transcript_backlog_dropped tenant_id =
     metric_inc (''transcript_backlog_dropped_total'', [tenant_id]) 1"

definition set_transcript_queue_size :: "int \<Rightarrow> metrics \<Rightarrow> metrics" where
  "set_transcript_queue_size n = metric_set (''transcript_queue_size'', []) (of_int n)"

definition observe_transcript_latency :: "rat \<Rightarrow> metrics \<Rightarrow> metrics" where
  "observe_transcript_latency q = metric_observe (''transcript_latency_seconds'', []) q"

end
