(* ===== verification/Capacity.thy ===== *)
theory Capacity
  imports Call_Dir Config Telemetry
begin

text \<open>
  \<open>audio/capacity.py\<close>: admission of recordings. Each admitted call reserves the bytes of the
  longest call; a reservation shrinks by what the call has already put on the disk. The
  recordings tree is a list of (tenant, call) directories; \<open>shutil.disk_usage\<close> is supplied by
  the environment. Percentages are exact rationals where Python uses floats.
\<close>

definition PCM16_STEREO_BYTES_PER_SECOND :: int where
  "PCM16_STEREO_BYTES_PER_SECOND = 16000 * 2 * 2"

type_synonym store = "((string \<times> string) \<times> dir) list"

record disk_usage =
  du_total :: int
  du_used :: int
  du_free :: int

record guard =
  max_call_seconds :: int
  min_free_percent :: rat
  resume_free_percent :: rat
  headroom_bytes :: int
  reservations :: "(string \<times> int) list"
  degraded :: bool
  metrics :: metrics

definition new_guard :: "settings \<Rightarrow> int option \<Rightarrow> rat option \<Rightarrow> rat option \<Rightarrow> int option \<Rightarrow> guard" where
  "new_guard s max_s min_p resume_p headroom =
     \<lparr>max_call_seconds = (case max_s of Some n \<Rightarrow> if n = 0 then RECORDING_MAX_CALL_SECONDS s else n
         | None \<Rightarrow> RECORDING_MAX_CALL_SECONDS s),
      min_free_percent = (case min_p of None \<Rightarrow> RECORDING_MIN_FREE_PERCENT s | Some p \<Rightarrow> p),
      resume_free_percent = (case resume_p of None \<Rightarrow> RECORDING_RESUME_FREE_PERCENT s | Some p \<Rightarrow> p),
      headroom_bytes = (case headroom of None \<Rightarrow> RECORDING_PROCESSING_HEADROOM_BYTES s | Some b \<Rightarrow> b),
      reservations = [], degraded = False,
      metrics = []\<rparr>"

definition bytes_per_call :: "guard \<Rightarrow> int" where
  "bytes_per_call g = PCM16_STEREO_BYTES_PER_SECOND * max_call_seconds g"

definition reserved_bytes :: "guard \<Rightarrow> int" where
  "reserved_bytes g = sum_list (map snd (reservations g))"

definition file_bytes :: "fentry \<Rightarrow> int" where
  "file_bytes f = (if f_data f = Directory then 0 else int (f_size f))"

text \<open>\<open>path.glob("*/" + call_id)\<close> and the files below it.\<close>

definition materialized :: "store \<Rightarrow> string \<Rightarrow> int" where
  "materialized st call_id =
     sum_list (map (\<lambda>(k, d). if snd k = call_id then sum_list (map (file_bytes \<circ> snd) d) else 0) st)"

definition remaining_reserved_bytes :: "store \<Rightarrow> guard \<Rightarrow> int" where
  "remaining_reserved_bytes st g =
     sum_list (map (\<lambda>(c, r). max 0 (r - materialized st c)) (reservations g))"

definition size_or_0 :: "dir \<Rightarrow> string \<Rightarrow> int" where
  "size_or_0 d n = (case dget d n of None \<Rightarrow> 0 | Some f \<Rightarrow> int (f_size f))"

definition channel_pending :: "dir \<Rightarrow> string \<Rightarrow> int" where
  "channel_pending d channel =
     (if path_exists d (channel @ ''.wav'') \<or> \<not> path_exists d (channel @ ''.raw'') then 0
      else max 0 (size_or_0 d (channel @ ''.raw'') - size_or_0 d (channel @ ''.tmp.wav'')))"

definition pending_processing_bytes :: "store \<Rightarrow> int" where
  "pending_processing_bytes st =
     sum_list (map (\<lambda>(k, d). channel_pending d ''tx'' + channel_pending d ''rx'') st)"

definition projected_bytes :: "disk_usage \<Rightarrow> store \<Rightarrow> guard \<Rightarrow> int" where
  "projected_bytes usage st g =
     du_used usage + remaining_reserved_bytes st g + pending_processing_bytes st
       + bytes_per_call g + headroom_bytes g"

definition free_percent :: "int \<Rightarrow> int \<Rightarrow> rat" where
  "free_percent tot projected = max 0 (of_int (100 * (tot - projected)) / of_int tot)"

definition reserve :: "disk_usage \<Rightarrow> store \<Rightarrow> string \<Rightarrow> (guard, bool) prog" where
  "reserve usage st call_id g =
     (if map_of (reservations g) call_id \<noteq> None then (Inr True, g)
      else
        let projected = projected_bytes usage st g in
        if du_total usage = 0 then (Inl ZeroDivisionError, g)
        else
          let threshold = (if degraded g then resume_free_percent g else min_free_percent g) in
          if free_percent (du_total usage) projected < threshold
          then let g1 = g\<lparr>degraded := True\<rparr> in
            (Inr False, g1\<lparr>metrics := set_recording_capacity (du_used usage)
                 (remaining_reserved_bytes st g1) (du_total usage) True (record_recording_refused (metrics g1))\<rparr>)
          else let g1 = g\<lparr>degraded := False, reservations := AList.update call_id (bytes_per_call g) (reservations g)\<rparr> in
            (Inr True, g1\<lparr>metrics := set_recording_capacity (du_used usage)
                 (remaining_reserved_bytes st g1) (du_total usage) False (metrics g1)\<rparr>))"

definition release :: "string \<Rightarrow> (guard, bool) prog" where
  "release call_id g =
     (Inr (map_of (reservations g) call_id \<noteq> None),
      g\<lparr>reservations := AList.delete call_id (reservations g)\<rparr>)"

section \<open>Admission\<close>

definition is_reserved :: "guard \<Rightarrow> string \<Rightarrow> bool" where
  "is_reserved g c \<longleftrightarrow> map_of (reservations g) c \<noteq> None"

lemma release_reserved [simp]:
  "is_reserved (snd (release c g)) x \<longleftrightarrow> x \<noteq> c \<and> is_reserved g x"
  by (auto simp: release_def is_reserved_def AList.delete_conv)

lemma reserve_reserved:
  assumes "reserve usage st c g = (Inr True, g')"
  shows "is_reserved g' x \<longleftrightarrow> x = c \<or> is_reserved g x"
  using assms
  by (auto simp: reserve_def is_reserved_def Let_def AList.update_conv split: if_splits)

lemma reserve_refused:
  assumes "reserve usage st c g = (Inr False, g')"
  shows "degraded g'" and "reservations g' = reservations g" and "\<not> is_reserved g c"
  using assms by (auto simp: reserve_def is_reserved_def Let_def split: if_splits)

lemma reserve_error:
  "reserve usage st c g = (Inl e, g') \<Longrightarrow> g' = g \<and> e = ZeroDivisionError"
  by (auto simp: reserve_def Let_def split: if_splits)




text \<open>Suspension has hysteresis: after a refusal the guard stays degraded, through releases of
  other calls too, and no new call is admitted until the projected free space reaches the
  resume margin, which the settings keep above the minimum; the refusal reserves nothing.\<close>

theorem refusal_suspends_until_resume_margin:
  assumes "reserve u1 st1 c1 g = (Inr False, g1)"
    and "reserve u2 st2 c2 (snd (release c g1)) = (Inr True, g2)"
    and "\<not> is_reserved g c2"
  shows "reservations g1 = reservations g \<and> degraded (snd (release c g1))
    \<and> resume_free_percent g \<le> free_percent (du_total u2) (projected_bytes u2 st2 (snd (release c g1)))
    \<and> \<not> degraded g2"
proof -
  let ?h = "snd (release c g1)"
  have g1: "degraded g1" "reservations g1 = reservations g"
    using reserve_refused[OF assms(1)] by auto
  have rp: "resume_free_percent g1 = resume_free_percent g"
    using assms(1) by (auto simp: reserve_def Let_def split: if_splits)
  have h: "degraded ?h" "resume_free_percent ?h = resume_free_percent g"
    using g1 rp by (simp_all add: release_def)
  have "\<not> is_reserved ?h c2"
    using assms(3) g1(2) by (auto simp: is_reserved_def release_def AList.delete_conv)
  with assms(2) h g1 show ?thesis
    by (auto simp: reserve_def is_reserved_def Let_def split: if_splits)
qed

theorem refusal_suspends_until_resume_margin_witness:
  "\<exists>g1 g2. reserve \<lparr>du_total = 1000000000, du_used = 700000000, du_free = 300000000\<rparr> [] ''a''
      (new_guard default_settings None None None None) = (Inr False, g1)
    \<and> reserve \<lparr>du_total = 1000000000, du_used = 100000000, du_free = 900000000\<rparr> [] ''b''
      (snd (release ''x'' g1)) = (Inr True, g2)
    \<and> degraded (snd (release ''x'' g1)) \<and> \<not> degraded g2"
proof -
  let ?u1 = "\<lparr>du_total = 1000000000, du_used = 700000000, du_free = 300000000\<rparr>"
  let ?u2 = "\<lparr>du_total = 1000000000, du_used = 100000000, du_free = 900000000\<rparr>"
  let ?g = "new_guard default_settings None None None None"
  let ?g1 = "snd (reserve ?u1 [] ''a'' ?g)"
  let ?g2 = "snd (reserve ?u2 [] ''b'' (snd (release ''x'' ?g1)))"
  have r1: "reserve ?u1 [] ''a'' ?g = (Inr False, ?g1)"
    by (simp add: reserve_def Let_def new_guard_def default_settings_def projected_bytes_def
        remaining_reserved_bytes_def pending_processing_bytes_def bytes_per_call_def
        PCM16_STEREO_BYTES_PER_SECOND_def free_percent_def)
  have r2: "reserve ?u2 [] ''b'' (snd (release ''x'' ?g1)) = (Inr True, ?g2)"
    by (simp add: reserve_def release_def Let_def new_guard_def default_settings_def projected_bytes_def
        remaining_reserved_bytes_def pending_processing_bytes_def bytes_per_call_def
        PCM16_STEREO_BYTES_PER_SECOND_def free_percent_def)
  have nr: "\<not> is_reserved ?g ''b''"
    by (simp add: is_reserved_def new_guard_def)
  show ?thesis
    using refusal_suspends_until_resume_margin[OF r1 r2 nr] r1 r2 by blast
qed

text \<open>The settings admit a minimum margin of 0 percent, and with it the guard refuses nothing:
  outside suspension a new call is admitted however full the disk is, since the projected
  free percentage is cut off at 0 before it is compared.\<close>

theorem zero_minimum_never_refuses:
  assumes "min_free_percent g = 0" and "\<not> degraded g" and "du_total usage \<noteq> 0"
  shows "fst (reserve usage st c g) = Inr True"
  using assms by (simp add: reserve_def Let_def free_percent_def)

theorem zero_minimum_never_refuses_witness:
  "fst (reserve \<lparr>du_total = 1000, du_used = 1000, du_free = 0\<rparr> [] ''call-1''
     (new_guard (default_settings\<lparr>RECORDING_MIN_FREE_PERCENT := 0\<rparr>) None None None None)) = Inr True
   \<and> load_settings (default_settings\<lparr>RECORDING_MIN_FREE_PERCENT := 0\<rparr>)
      = Inr (default_settings\<lparr>RECORDING_MIN_FREE_PERCENT := 0\<rparr>)"
  using zero_minimum_never_refuses[of "new_guard (default_settings\<lparr>RECORDING_MIN_FREE_PERCENT := 0\<rparr>) None None None None"
      "\<lparr>du_total = 1000, du_used = 1000, du_free = 0\<rparr>" "[]" "''call-1''"]
  by (simp add: new_guard_def load_settings_def validate_smb_configuration_def field_bounds_ok_def
      default_settings_def)

end
