(* ===== verification/Cleanup.thy ===== *)
theory Cleanup
  imports Lease Consumers Capacity
begin

text \<open>
  \<open>workers/audio_cleanup.py\<close>: the worker that deletes recordings. It runs over the call
  directories of a tenant under their lifecycle locks. Consumed and expired recordings go;
  temporaries of a conversion go only when a former round, at least the configured time ago,
  saw the very same file; nothing goes while a lease is valid. The clock of a round is read
  once, and \<open>shutil.disk_usage\<close> is an argument.
\<close>

definition CANDIDATES_FILE :: string where
  "CANDIDATES_FILE = ''.cleanup-candidates.json''"

definition LOCAL_TEMPORARIES :: "string list" where
  "LOCAL_TEMPORARIES = [''tx.tmp.raw'', ''rx.tmp.raw'', ''tx.tmp.wav'', ''rx.tmp.wav'', ''stereo.tmp.wav'']"

definition CONSUMABLE_FILES :: "string list" where
  "CONSUMABLE_FILES = [''tx.wav'', ''rx.wav'', ''tx.raw'', ''rx.raw'']"

definition fingerprint :: "fentry \<Rightarrow> json" where
  "fingerprint f = JObj [(''inode'', JInt (int (f_inode f))), (''mtime_ns'', JInt (f_mtime f)),
     (''size'', JInt (int (f_size f)))]"

text \<open>Python's \<open>==\<close> between a loaded value and a fingerprint: the same keys with equal values.\<close>

definition same_fingerprint :: "json option \<Rightarrow> fentry \<Rightarrow> bool" where
  "same_fingerprint v f =
     (case v of
        Some (JObj kvs) \<Rightarrow>
          length kvs = 3
          \<and> (case map_of kvs ''inode'' of Some j \<Rightarrow> json_eq_int j (int (f_inode f)) | None \<Rightarrow> False)
          \<and> (case map_of kvs ''mtime_ns'' of Some j \<Rightarrow> json_eq_int j (f_mtime f) | None \<Rightarrow> False)
          \<and> (case map_of kvs ''size'' of Some j \<Rightarrow> json_eq_int j (int (f_size f)) | None \<Rightarrow> False)
      | _ \<Rightarrow> False)"

definition load_candidates :: "dir \<Rightarrow> (string \<times> json) list" where
  "load_candidates d = (case load_json d CANDIDATES_FILE of Inr (JObj kvs) \<Rightarrow> kvs | _ \<Rightarrow> [])"

definition save_candidates :: "os_env \<Rightarrow> (string \<times> json) list \<Rightarrow> dir \<Rightarrow> exc + dir" where
  "save_candidates env candidates d =
     (if candidates = [] then unlink_missing_ok CANDIDATES_FILE d
      else write_doc env CANDIDATES_FILE (JObj candidates) d)"

definition delete_file :: "string \<Rightarrow> dir \<Rightarrow> (exc + bool \<times> nat) \<times> dir" where
  "delete_file n d =
     (case dget d n of
        None \<Rightarrow> (Inr (False, 0), d)
      | Some f \<Rightarrow> if f_data f = Directory then (Inl IsADirectoryError, d)
          else (Inr (True, f_size f), ddel n d))"

text \<open>What \<open>_cleanup_locked_call_directory\<close> computes before its loop, and the variables of the loop.\<close>

record clean_ctx =
  cx_env :: os_env
  cx_now :: int
  cx_cutoff :: int
  cx_round :: int
  cx_tenant :: string
  cx_consumed :: bool
  cx_pending :: bool
  cx_preserve :: bool
  cx_candidates :: "(string \<times> json) list"

record clean_state =
  cs_dir :: dir
  cs_next :: "(string \<times> json) list"
  cs_deleted :: nat
  cs_bytes :: nat
  cs_temp_candidates :: nat
  cs_temp_deleted :: nat
  cs_drop_recorded :: bool
  cs_metrics :: metrics

definition previous_of :: "(string \<times> json) list \<Rightarrow> string \<Rightarrow> json" where
  "previous_of candidates n =
     (case map_of candidates n of Some j \<Rightarrow> if is_dict j then j else JObj [] | None \<Rightarrow> JObj [])"

text \<open>\<open>elapsed\<close>, in microseconds: 0 when \<open>first_seen\<close> is absent, no datetime or naive.\<close>

definition elapsed_since :: "int \<Rightarrow> json option \<Rightarrow> int" where
  "elapsed_since now first_seen = (case first_seen of Some (JIso (Aware t)) \<Rightarrow> now - t | _ \<Rightarrow> 0)"

definition next_entry :: "int \<Rightarrow> bool \<Rightarrow> json option \<Rightarrow> fentry \<Rightarrow> json" where
  "next_entry now same first_seen f = JObj
     [(''fingerprint'', fingerprint f),
      (''first_seen'', if same \<and> first_seen \<noteq> None \<and> truthy (the first_seen) then the first_seen
         else JIso (Aware now))]"

definition clean_temporary :: "clean_ctx \<Rightarrow> string \<Rightarrow> fentry \<Rightarrow> (clean_state, unit) prog" where
  "clean_temporary cx n f s =
     (let s = s\<lparr>cs_temp_candidates := Suc (cs_temp_candidates s)\<rparr>;
          previous = previous_of (cx_candidates cx) n;
          first_seen = jget previous ''first_seen'';
          same = same_fingerprint (jget previous ''fingerprint'') f;
          elapsed = elapsed_since (cx_now cx) first_seen
      in if same \<and> elapsed \<ge> seconds (cx_round cx)
         then (case has_valid_lease (cx_env cx) (cs_dir s) (Some (Aware (cx_now cx))) of
                 Inl e \<Rightarrow> (Inl e, s)
               | Inr True \<Rightarrow> (Inr (), s)
               | Inr False \<Rightarrow>
                 (case delete_file n (cs_dir s) of
                    (Inl e, d) \<Rightarrow> (Inl e, s\<lparr>cs_dir := d\<rparr>)
                  | (Inr (was_deleted, n_bytes), d) \<Rightarrow>
                     (Inr (), s\<lparr>cs_dir := d, cs_bytes := cs_bytes s + n_bytes,
                        cs_deleted := cs_deleted s + of_bool was_deleted,
                        cs_temp_deleted := cs_temp_deleted s + of_bool was_deleted\<rparr>)))
         else (Inr (), s\<lparr>cs_next := AList.update n (next_entry (cx_now cx) same first_seen f) (cs_next s)\<rparr>))"

definition is_expired :: "int \<Rightarrow> fentry \<Rightarrow> bool" where
  "is_expired cutoff f \<longleftrightarrow> f_mtime f < cutoff * 1000"

definition clean_recording :: "clean_ctx \<Rightarrow> string \<Rightarrow> fentry \<Rightarrow> (clean_state, unit) prog" where
  "clean_recording cx n f s =
     (let expired = is_expired (cx_cutoff cx) f;
          protected_backlog_wav = (cx_preserve cx \<and> n \<in> {''tx.wav'', ''rx.wav''})
      in if (cx_consumed cx \<and> n \<in> set CONSUMABLE_FILES) \<or> (expired \<and> \<not> protected_backlog_wav)
         then (case delete_file n (cs_dir s) of
                 (Inl e, d) \<Rightarrow> (Inl e, s\<lparr>cs_dir := d\<rparr>)
               | (Inr (was_deleted, n_bytes), d) \<Rightarrow>
                  (let dropping = (was_deleted \<and> cx_pending cx \<and> \<not> cx_preserve cx \<and> expired
                        \<and> n \<in> {''tx.wav'', ''rx.wav''});
                       s1 = s\<lparr>cs_dir := d, cs_bytes := cs_bytes s + n_bytes,
                          cs_deleted := cs_deleted s + of_bool was_deleted\<rparr>
                   in (Inr (), if dropping \<and> \<not> cs_drop_recorded s
                        then s1\<lparr>cs_drop_recorded := True,
                           cs_metrics := record_transcript_backlog_dropped (cx_tenant cx) (cs_metrics s)\<rparr>
                        else s1)))
         else (Inr (), s))"

text \<open>One turn of the loop over \<open>list(call_dir.iterdir())\<close>.\<close>

definition clean_path :: "clean_ctx \<Rightarrow> string \<Rightarrow> (clean_state, unit) prog" where
  "clean_path cx n s =
     (case dget (cs_dir s) n of
        None \<Rightarrow> (Inr (), s)
      | Some f \<Rightarrow>
          if f_data f = Directory \<or> n = CANDIDATES_FILE then (Inr (), s)
          else if n \<in> set LOCAL_TEMPORARIES then clean_temporary cx n f s
          else if starts_with ''.'' n \<or> ends_with ''.wav.tmp'' n then (Inr (), s)
          else clean_recording cx n f s)"

definition disk_free_percent :: "disk_usage \<Rightarrow> rat" where
  "disk_free_percent u =
     (if du_total u = 0 then 0 else of_int (du_free u) / of_int (du_total u) * 100)"

definition transcription_pending :: "settings \<Rightarrow> dir \<Rightarrow> exc + bool" where
  "transcription_pending cfg d =
     (if ''transcription'' \<in> set (RECORDING_REQUIRED_CONSUMERS cfg)
      then (case is_fully_consumed d [''transcription''] of Inl e \<Rightarrow> Inl e | Inr b \<Rightarrow> Inr (\<not> b))
      else Inr False)"

record clean_counts =
  cc_deleted :: nat
  cc_bytes :: nat
  cc_candidates :: nat
  cc_temp_deleted :: nat

definition clean_start :: "dir \<Rightarrow> metrics \<Rightarrow> clean_state" where
  "clean_start d m = \<lparr>cs_dir = d, cs_next = [], cs_deleted = 0, cs_bytes = 0, cs_temp_candidates = 0,
     cs_temp_deleted = 0, cs_drop_recorded = False, cs_metrics = m\<rparr>"

definition clean_unleased ::
    "settings \<Rightarrow> os_env \<Rightarrow> disk_usage \<Rightarrow> string \<Rightarrow> int \<Rightarrow> int \<Rightarrow> dir \<Rightarrow> metrics
     \<Rightarrow> (exc + clean_counts) \<times> dir \<times> metrics" where
  "clean_unleased cfg env usage tenant cutoff now d m =
     (case is_fully_consumed d (RECORDING_REQUIRED_CONSUMERS cfg) of
        Inl e \<Rightarrow> (Inl e, d, m)
      | Inr consumed \<Rightarrow>
     (case transcription_pending cfg d of
        Inl e \<Rightarrow> (Inl e, d, m)
      | Inr pending \<Rightarrow>
     (let cx = \<lparr>cx_env = env, cx_now = now, cx_cutoff = cutoff, cx_round = RECORDING_CLEANUP_ROUND_SECONDS cfg,
              cx_tenant = tenant, cx_consumed = consumed, cx_pending = pending,
              cx_preserve = (pending \<and> disk_free_percent usage \<ge> RECORDING_RESUME_FREE_PERCENT cfg),
              cx_candidates = load_candidates d\<rparr>
      in case for_p (clean_path cx) (map fst d) (clean_start d m) of
           (Inl e, s) \<Rightarrow> (Inl e, cs_dir s, cs_metrics s)
         | (Inr _, s) \<Rightarrow>
            (case save_candidates env (cs_next s) (cs_dir s) of
               Inl e \<Rightarrow> (Inl e, cs_dir s, cs_metrics s)
             | Inr d' \<Rightarrow> (Inr \<lparr>cc_deleted = cs_deleted s, cc_bytes = cs_bytes s,
                  cc_candidates = cs_temp_candidates s, cc_temp_deleted = cs_temp_deleted s\<rparr>, d', cs_metrics s)))))"

definition cleanup_locked_call_directory ::
    "settings \<Rightarrow> os_env \<Rightarrow> disk_usage \<Rightarrow> string \<Rightarrow> int \<Rightarrow> int \<Rightarrow> dir \<Rightarrow> metrics
     \<Rightarrow> (exc + clean_counts) \<times> dir \<times> metrics" where
  "cleanup_locked_call_directory cfg env usage tenant cutoff now d m =
     (case has_valid_lease env d (Some (Aware now)) of
        Inl e \<Rightarrow> (Inl e, d, m)
      | Inr True \<Rightarrow>
         (case unlink_missing_ok CANDIDATES_FILE d of
            Inl e \<Rightarrow> (Inl e, d, m)
          | Inr d' \<Rightarrow> (Inr \<lparr>cc_deleted = 0, cc_bytes = 0, cc_candidates = 0, cc_temp_deleted = 0\<rparr>, d', m))
      | Inr False \<Rightarrow> clean_unleased cfg env usage tenant cutoff now d m)"

definition cleanup_call_directory ::
    "settings \<Rightarrow> os_env \<Rightarrow> disk_usage \<Rightarrow> string \<Rightarrow> int \<Rightarrow> int \<Rightarrow> dir \<Rightarrow> metrics
     \<Rightarrow> (exc + clean_counts) \<times> dir \<times> metrics" where
  "cleanup_call_directory cfg env usage tenant cutoff now d m =
     locked_call_directory env d (\<lambda>d1. cleanup_locked_call_directory cfg env usage tenant cutoff now d1 m)"

text \<open>
  \<open>cleanup_tenant_bucket\<close>. The tenant directory is None when it is not a directory; its call
  directories are taken in the order of \<open>iterdir\<close>, and the first exception ends the round with
  the directories before it already cleaned.
\<close>

fun clean_calls ::
    "settings \<Rightarrow> (string \<Rightarrow> os_env) \<Rightarrow> (string \<Rightarrow> disk_usage) \<Rightarrow> string \<Rightarrow> int \<Rightarrow> int \<Rightarrow> (string \<times> dir) list
     \<Rightarrow> metrics \<Rightarrow> clean_counts \<Rightarrow> (exc + clean_counts) \<times> (string \<times> dir) list \<times> metrics" where
  "clean_calls cfg env usage tenant cutoff now [] m c = (Inr c, [], m)"
| "clean_calls cfg env usage tenant cutoff now ((call_id, d) # ds) m c =
     (case cleanup_call_directory cfg (env call_id) (usage call_id) tenant cutoff now d m of
        (Inl e, d', m') \<Rightarrow> (Inl e, (call_id, d') # ds, m')
      | (Inr x, d', m') \<Rightarrow>
         (case clean_calls cfg env usage tenant cutoff now ds m'
             \<lparr>cc_deleted = cc_deleted c + cc_deleted x, cc_bytes = cc_bytes c + cc_bytes x,
              cc_candidates = cc_candidates c + cc_candidates x,
              cc_temp_deleted = cc_temp_deleted c + cc_temp_deleted x\<rparr> of
            (r, ds', m'') \<Rightarrow> (r, (call_id, d') # ds', m'')))"

datatype bucket_result =
    BucketSkipped string
  | BucketOk string clean_counts
  | BucketFailed string exc

definition retention_cutoff :: "settings \<Rightarrow> int \<Rightarrow> int" where
  "retention_cutoff cfg now = now - py_round (AUDIO_RETENTION_DAYS cfg * 86400000000)"

definition cleanup_tenant_bucket ::
    "settings \<Rightarrow> (string \<Rightarrow> os_env) \<Rightarrow> (string \<Rightarrow> disk_usage) \<Rightarrow> int \<Rightarrow> rat \<Rightarrow> string
     \<Rightarrow> (string \<times> dir) list option \<Rightarrow> metrics
     \<Rightarrow> bucket_result \<times> (string \<times> dir) list option \<times> metrics" where
  "cleanup_tenant_bucket cfg env usage now duration tenant tenant_dir m =
     (case tenant_dir of
        None \<Rightarrow> (BucketSkipped tenant, None, m)
      | Some calls \<Rightarrow>
         (case clean_calls cfg env usage tenant (retention_cutoff cfg now) now calls m
                 \<lparr>cc_deleted = 0, cc_bytes = 0, cc_candidates = 0, cc_temp_deleted = 0\<rparr> of
            (Inl e, calls', m') \<Rightarrow> (BucketFailed tenant e, Some calls', record_cleanup_error tenant m')
          | (Inr c, calls', m') \<Rightarrow>
             (BucketOk tenant c, Some calls',
              observe_cleanup_duration duration
                (record_temporary_cleanup (cc_candidates c) (cc_temp_deleted c)
                  (record_cleanup_deleted tenant (cc_deleted c) (cc_bytes c) m')))))"

text \<open>\<open>schema_name.replace("tenant_", "", 1)\<close>: the first occurrence goes.\<close>

definition tenant_of_schema :: "string \<Rightarrow> string" where
  "tenant_of_schema schema =
     (case py_find ''tenant_'' schema of None \<Rightarrow> schema | Some i \<Rightarrow> take i schema @ drop (i + 7) schema)"

fun run_cleanup ::
    "settings \<Rightarrow> (string \<Rightarrow> os_env) \<Rightarrow> (string \<Rightarrow> disk_usage) \<Rightarrow> int \<Rightarrow> rat \<Rightarrow> string list
     \<Rightarrow> (string \<times> (string \<times> dir) list) list \<Rightarrow> metrics
     \<Rightarrow> bucket_result list \<times> (string \<times> (string \<times> dir) list) list \<times> metrics" where
  "run_cleanup cfg env usage now duration [] tree m = ([], tree, m)"
| "run_cleanup cfg env usage now duration (schema # schemas) tree m =
     (let tenant = tenant_of_schema schema in
      case cleanup_tenant_bucket cfg env usage now duration tenant (map_of tree tenant) m of
        (r, calls, m1) \<Rightarrow>
          (case run_cleanup cfg env usage now duration schemas
              (case calls of None \<Rightarrow> tree | Some cs \<Rightarrow> AList.update tenant cs tree) m1 of
             (rs, tree', m2) \<Rightarrow> (r # rs, tree', m2)))"

section \<open>What one round does\<close>

text \<open>
  The decision for one file, free of the order of the loop: \<open>ripe\<close> is the two-round rule for
  temporaries, \<open>due\<close> the rule for recordings.
\<close>

definition ripe :: "clean_ctx \<Rightarrow> string \<Rightarrow> fentry \<Rightarrow> bool" where
  "ripe cx n f \<longleftrightarrow>
     same_fingerprint (jget (previous_of (cx_candidates cx) n) ''fingerprint'') f
   \<and> elapsed_since (cx_now cx) (jget (previous_of (cx_candidates cx) n) ''first_seen'') \<ge> seconds (cx_round cx)"

definition due :: "clean_ctx \<Rightarrow> string \<Rightarrow> fentry \<Rightarrow> bool" where
  "due cx n f \<longleftrightarrow> \<not> starts_with ''.'' n \<and> \<not> ends_with ''.wav.tmp'' n
   \<and> (cx_consumed cx \<and> n \<in> set CONSUMABLE_FILES
      \<or> is_expired (cx_cutoff cx) f \<and> \<not> (cx_preserve cx \<and> n \<in> {''tx.wav'', ''rx.wav''}))"

definition removable :: "clean_ctx \<Rightarrow> string \<Rightarrow> fentry \<Rightarrow> bool" where
  "removable cx n f \<longleftrightarrow> f_data f \<noteq> Directory \<and> n \<noteq> CANDIDATES_FILE
   \<and> (if n \<in> set LOCAL_TEMPORARIES then ripe cx n f else due cx n f)"

definition waiting :: "clean_ctx \<Rightarrow> string \<Rightarrow> fentry \<Rightarrow> bool" where
  "waiting cx n f \<longleftrightarrow> f_data f \<noteq> Directory \<and> n \<in> set LOCAL_TEMPORARIES \<and> \<not> ripe cx n f"

definition waiting_entry :: "clean_ctx \<Rightarrow> string \<Rightarrow> fentry \<Rightarrow> json" where
  "waiting_entry cx n f = next_entry (cx_now cx)
     (same_fingerprint (jget (previous_of (cx_candidates cx) n) ''fingerprint'') f)
     (jget (previous_of (cx_candidates cx) n) ''first_seen'') f"

definition freed :: "clean_ctx \<Rightarrow> dir \<Rightarrow> string \<Rightarrow> nat" where
  "freed cx d n = (case dget d n of Some f \<Rightarrow> if removable cx n f then f_size f else 0 | None \<Rightarrow> 0)"

definition gone :: "clean_ctx \<Rightarrow> dir \<Rightarrow> string \<Rightarrow> bool" where
  "gone cx d n \<longleftrightarrow> (\<exists>f. dget d n = Some f \<and> removable cx n f)"

lemma temporaries_plain [simp]:
  "n \<in> set LOCAL_TEMPORARIES \<Longrightarrow> \<not> starts_with ''.'' n" "CANDIDATES_FILE \<notin> set LOCAL_TEMPORARIES"
  by (auto simp: LOCAL_TEMPORARIES_def CANDIDATES_FILE_def starts_with_def)

lemma removable_visible: "removable cx n f \<Longrightarrow> \<not> starts_with ''.'' n"
  by (auto simp: removable_def due_def split: if_splits)

lemma stage_file_hidden [simp]: "starts_with ''.'' (stage_file st)"
  by (simp add: stage_file_def starts_with_def)

lemma lock_hidden [simp]: "starts_with ''.'' LIFECYCLE_LOCK_FILE"
  by (simp add: LIFECYCLE_LOCK_FILE_def starts_with_def)

lemma valid_scan_ddel:
  "(\<And>st. stage_file st \<noteq> n) \<Longrightarrow> valid_scan (ddel n d) t sts = valid_scan d t sts"
  by (induction sts) (auto simp: lease_path_eq split: sum.split option.split)

lemma has_valid_lease_ddel:
  assumes "\<not> starts_with ''.'' n"
  shows "has_valid_lease env (ddel n d) now = has_valid_lease env d now"
proof -
  have "stage_file st \<noteq> n" for st
    using assms stage_file_hidden by metis
  then show ?thesis by (simp add: has_valid_lease_def valid_scan_ddel)
qed

definition unleased :: "clean_ctx \<Rightarrow> clean_state \<Rightarrow> bool" where
  "unleased cx s \<longleftrightarrow> has_valid_lease (cx_env cx) (cs_dir s) (Some (Aware (cx_now cx))) = Inr False"

lemma clean_temporary_ok:
  assumes "unleased cx s" and "dget (cs_dir s) n = Some f" and "f_data f \<noteq> Directory"
  shows "\<exists>s'. clean_temporary cx n f s = (Inr (), s')
    \<and> cs_dir s' = (if ripe cx n f then ddel n (cs_dir s) else cs_dir s)
    \<and> cs_next s' = (if ripe cx n f then cs_next s else AList.update n (waiting_entry cx n f) (cs_next s))
    \<and> cs_bytes s' = cs_bytes s + (if ripe cx n f then f_size f else 0)
    \<and> cs_deleted s' = cs_deleted s + of_bool (ripe cx n f)"
  using assms
  by (simp add: clean_temporary_def Let_def ripe_def unleased_def delete_file_def waiting_entry_def)

lemma clean_recording_ok:
  assumes "dget (cs_dir s) n = Some f" and "f_data f \<noteq> Directory"
    and "\<not> starts_with ''.'' n" and "\<not> ends_with ''.wav.tmp'' n"
  shows "\<exists>s'. clean_recording cx n f s = (Inr (), s')
    \<and> cs_dir s' = (if due cx n f then ddel n (cs_dir s) else cs_dir s)
    \<and> cs_next s' = cs_next s
    \<and> cs_bytes s' = cs_bytes s + (if due cx n f then f_size f else 0)
    \<and> cs_deleted s' = cs_deleted s + of_bool (due cx n f)"
  using assms by (cases "due cx n f") (auto simp: clean_recording_def Let_def due_def delete_file_def)

lemma clean_path_ok:
  assumes "unleased cx s"
  shows "\<exists>s'. clean_path cx n s = (Inr (), s')
    \<and> cs_dir s' = (if gone cx (cs_dir s) n then ddel n (cs_dir s) else cs_dir s)
    \<and> cs_next s' = (case dget (cs_dir s) n of
          Some f \<Rightarrow> if waiting cx n f then AList.update n (waiting_entry cx n f) (cs_next s) else cs_next s
        | None \<Rightarrow> cs_next s)
    \<and> cs_bytes s' = cs_bytes s + freed cx (cs_dir s) n
    \<and> cs_deleted s' = cs_deleted s + of_bool (gone cx (cs_dir s) n)"
proof (cases "dget (cs_dir s) n")
  case None
  then show ?thesis by (simp add: clean_path_def gone_def freed_def)
next
  case (Some f)
  consider (skip) "f_data f = Directory \<or> n = CANDIDATES_FILE"
    | (temp) "f_data f \<noteq> Directory" "n \<in> set LOCAL_TEMPORARIES"
    | (hidden) "f_data f \<noteq> Directory" "n \<noteq> CANDIDATES_FILE" "n \<notin> set LOCAL_TEMPORARIES"
        "starts_with ''.'' n \<or> ends_with ''.wav.tmp'' n"
    | (rec) "f_data f \<noteq> Directory" "n \<noteq> CANDIDATES_FILE" "n \<notin> set LOCAL_TEMPORARIES"
        "\<not> starts_with ''.'' n" "\<not> ends_with ''.wav.tmp'' n"
    by blast
  then show ?thesis
  proof cases
    case skip
    then show ?thesis
      using Some by (auto simp: clean_path_def gone_def freed_def removable_def waiting_def)
  next
    case temp
    then have c: "n \<noteq> CANDIDATES_FILE" by auto
    from clean_temporary_ok[OF assms Some temp(1)] show ?thesis
      using Some temp c by (cases "ripe cx n f") (simp_all add: clean_path_def gone_def freed_def removable_def waiting_def)
  next
    case hidden
    then show ?thesis
      using Some by (auto simp: clean_path_def gone_def freed_def removable_def due_def waiting_def)
  next
    case rec
    from clean_recording_ok[OF Some rec(1,4,5), of cx] show ?thesis
      using Some rec by (cases "due cx n f") (simp_all add: clean_path_def gone_def freed_def removable_def waiting_def)
  qed
qed

lemma clean_path_unleased:
  assumes "unleased cx s" and "clean_path cx n s = (r, s')"
  shows "unleased cx s'"
proof -
  have "cs_dir s' = (if gone cx (cs_dir s) n then ddel n (cs_dir s) else cs_dir s)"
    using clean_path_ok[OF assms(1), of n] assms(2) by auto
  moreover have "gone cx (cs_dir s) n \<Longrightarrow> \<not> starts_with ''.'' n"
    by (auto simp: gone_def dest: removable_visible)
  ultimately show ?thesis
    using assms(1) by (auto simp: unleased_def has_valid_lease_ddel)
qed

definition waits :: "clean_ctx \<Rightarrow> dir \<Rightarrow> string \<Rightarrow> json option" where
  "waits cx d n = (case dget d n of Some f \<Rightarrow> if waiting cx n f then Some (waiting_entry cx n f) else None | None \<Rightarrow> None)"

lemma decisions_local:
  assumes "dget d' n = dget d n"
  shows "gone cx d' n = gone cx d n" and "freed cx d' n = freed cx d n" and "waits cx d' n = waits cx d n"
  using assms by (simp_all add: gone_def freed_def waits_def)

lemma clean_loop:
  assumes "unleased cx s" and "distinct ns"
  shows "\<exists>s'. for_p (clean_path cx) ns s = (Inr (), s')
    \<and> (\<forall>n. dget (cs_dir s') n = (if n \<in> set ns \<and> gone cx (cs_dir s) n then None else dget (cs_dir s) n))
    \<and> (\<forall>n. map_of (cs_next s') n =
         (if n \<in> set ns \<and> waits cx (cs_dir s) n \<noteq> None then waits cx (cs_dir s) n else map_of (cs_next s) n))
    \<and> cs_bytes s' = cs_bytes s + (\<Sum>n\<leftarrow>ns. freed cx (cs_dir s) n)
    \<and> cs_deleted s' = cs_deleted s + length (filter (gone cx (cs_dir s)) ns)"
  using assms
proof (induction ns arbitrary: s)
  case Nil
  then show ?case by simp
next
  case (Cons n ns)
  from clean_path_ok[OF Cons.prems(1), of n] obtain s1 where
    1: "clean_path cx n s = (Inr (), s1)"
      "cs_dir s1 = (if gone cx (cs_dir s) n then ddel n (cs_dir s) else cs_dir s)"
      "cs_next s1 = (case dget (cs_dir s) n of
          Some f \<Rightarrow> if waiting cx n f then AList.update n (waiting_entry cx n f) (cs_next s) else cs_next s
        | None \<Rightarrow> cs_next s)"
      "cs_bytes s1 = cs_bytes s + freed cx (cs_dir s) n"
      "cs_deleted s1 = cs_deleted s + of_bool (gone cx (cs_dir s) n)"
    by blast
  have u: "unleased cx s1" using clean_path_unleased[OF Cons.prems(1) 1(1)] .
  have same: "dget (cs_dir s1) m = dget (cs_dir s) m" if "m \<in> set ns" for m
    using that Cons.prems(2) 1(2) by auto
  have g: "gone cx (cs_dir s1) m = gone cx (cs_dir s) m" "freed cx (cs_dir s1) m = freed cx (cs_dir s) m"
    "waits cx (cs_dir s1) m = waits cx (cs_dir s) m" if "m \<in> set ns" for m
    using decisions_local[OF same[OF that]] by auto
  have nx: "map_of (cs_next s1) m =
      (if m = n \<and> waits cx (cs_dir s) n \<noteq> None then waits cx (cs_dir s) n else map_of (cs_next s) m)" for m
    using 1(3) by (auto simp: waits_def AList.update_conv split: option.splits)
  from Cons.IH[OF u] Cons.prems(2) obtain s2 where
    2: "for_p (clean_path cx) ns s1 = (Inr (), s2)"
      "\<forall>m. dget (cs_dir s2) m = (if m \<in> set ns \<and> gone cx (cs_dir s1) m then None else dget (cs_dir s1) m)"
      "\<forall>m. map_of (cs_next s2) m =
         (if m \<in> set ns \<and> waits cx (cs_dir s1) m \<noteq> None then waits cx (cs_dir s1) m else map_of (cs_next s1) m)"
      "cs_bytes s2 = cs_bytes s1 + (\<Sum>m\<leftarrow>ns. freed cx (cs_dir s1) m)"
      "cs_deleted s2 = cs_deleted s1 + length (filter (gone cx (cs_dir s1)) ns)"
    by auto
  have "(\<Sum>m\<leftarrow>ns. freed cx (cs_dir s1) m) = (\<Sum>m\<leftarrow>ns. freed cx (cs_dir s) m)"
    using g(2) by (metis (no_types, lifting) map_cong)
  moreover have "filter (gone cx (cs_dir s1)) ns = filter (gone cx (cs_dir s)) ns"
    using g(1) by (rule filter_cong[OF refl])
  moreover have "dget (cs_dir s2) m =
      (if m \<in> set (n # ns) \<and> gone cx (cs_dir s) m then None else dget (cs_dir s) m)" for m
    using 2(2) g(1) 1(2) by auto
  moreover have "map_of (cs_next s2) m =
      (if m \<in> set (n # ns) \<and> waits cx (cs_dir s) m \<noteq> None then waits cx (cs_dir s) m else map_of (cs_next s) m)" for m
    using 2(3) g(3) nx by auto
  ultimately show ?case
    using 1 2(1,4,5) by (intro exI[of _ s2]) simp
qed

text \<open>What \<open>clean_unleased\<close> computes before the loop, for the statements below.\<close>

definition round_ctx :: "settings \<Rightarrow> os_env \<Rightarrow> disk_usage \<Rightarrow> string \<Rightarrow> int \<Rightarrow> int \<Rightarrow> bool \<Rightarrow> bool \<Rightarrow> dir \<Rightarrow> clean_ctx" where
  "round_ctx cfg env usage tenant cutoff now consumed pending d =
     \<lparr>cx_env = env, cx_now = now, cx_cutoff = cutoff, cx_round = RECORDING_CLEANUP_ROUND_SECONDS cfg,
      cx_tenant = tenant, cx_consumed = consumed, cx_pending = pending,
      cx_preserve = (pending \<and> disk_free_percent usage \<ge> RECORDING_RESUME_FREE_PERCENT cfg),
      cx_candidates = load_candidates d\<rparr>"

lemma clean_unleased_ok:
  assumes nl: "has_valid_lease env d (Some (Aware now)) = Inr False"
    and fc: "is_fully_consumed d (RECORDING_REQUIRED_CONSUMERS cfg) = Inr consumed"
    and tp: "transcription_pending cfg d = Inr pending"
    and dist: "distinct (map fst d)"
    and r: "clean_unleased cfg env usage tenant cutoff now d m = (Inr c, d', m')"
  defines "cx \<equiv> round_ctx cfg env usage tenant cutoff now consumed pending d"
  shows "(\<forall>n. n \<noteq> CANDIDATES_FILE \<longrightarrow> dget d' n = (if gone cx d n then None else dget d n))
    \<and> (\<forall>n. map_of (load_candidates d') n = waits cx d n)
    \<and> cc_deleted c = length (filter (gone cx d) (map fst d))
    \<and> cc_bytes c = (\<Sum>n\<leftarrow>map fst d. freed cx d n)"
proof -
  let ?s = "clean_start d m"
  have u: "unleased cx ?s" using nl by (simp add: unleased_def cx_def round_ctx_def clean_start_def)
  from clean_loop[OF u dist] obtain s' where s':
    "for_p (clean_path cx) (map fst d) ?s = (Inr (), s')"
    "\<forall>n. dget (cs_dir s') n = (if n \<in> set (map fst d) \<and> gone cx d n then None else dget d n)"
    "\<forall>n. map_of (cs_next s') n =
       (if n \<in> set (map fst d) \<and> waits cx d n \<noteq> None then waits cx d n else None)"
    "cs_bytes s' = (\<Sum>n\<leftarrow>map fst d. freed cx d n)"
    "cs_deleted s' = length (filter (gone cx d) (map fst d))"
    by (auto simp: clean_start_def)
  from r fc tp s'(1) have sv: "save_candidates env (cs_next s') (cs_dir s') = Inr d'"
    and c: "cc_deleted c = cs_deleted s'" "cc_bytes c = cs_bytes s'"
    by (auto simp: clean_unleased_def Let_def cx_def[unfolded round_ctx_def, symmetric] split: sum.splits)
  have inD: "n \<in> set (map fst d)" if "dget d n \<noteq> None" for n
    using that by (auto simp: dget_def dest: map_of_SomeD intro: rev_image_eqI)
  have g: "gone cx d n \<Longrightarrow> n \<in> set (map fst d)" for n
    using inD[of n] by (auto simp: gone_def)
  have w: "waits cx d n \<noteq> None \<Longrightarrow> n \<in> set (map fst d)" for n
    using inD[of n] by (auto simp: waits_def split: option.splits)
  have files: "dget d' n = (if gone cx d n then None else dget d n)" if "n \<noteq> CANDIDATES_FILE" for n
  proof -
    have "dget d' n = dget (cs_dir s') n"
      using sv that by (auto simp: save_candidates_def unlink_missing_ok_def write_doc_def split: if_splits option.splits)
    with s'(2) g show ?thesis by auto
  qed
  have nxt: "map_of (cs_next s') n = waits cx d n" for n
    using s'(3) w by (cases "waits cx d n") auto
  have cand: "map_of (load_candidates d') n = map_of (cs_next s') n" for n
    using sv
    by (auto simp: save_candidates_def unlink_missing_ok_def write_doc_def load_candidates_def load_json_def
        split: if_splits option.splits)
  show ?thesis using files nxt cand c s'(4,5) by simp
qed

section \<open>Properties\<close>

lemma cleanup_unleased_eq:
  assumes "has_valid_lease env d (Some (Aware now)) = Inr False"
  shows "cleanup_locked_call_directory cfg env usage tenant cutoff now d m =
     clean_unleased cfg env usage tenant cutoff now d m"
  using assms by (simp add: cleanup_locked_call_directory_def)

lemma clean_unleased_prep:
  assumes "clean_unleased cfg env usage tenant cutoff now d m = (Inr c, d', m')"
  obtains consumed pending where "is_fully_consumed d (RECORDING_REQUIRED_CONSUMERS cfg) = Inr consumed"
    and "transcription_pending cfg d = Inr pending"
  using assms by (auto simp: clean_unleased_def split: sum.splits)

lemma pending_not_consumed:
  assumes "is_fully_consumed d (RECORDING_REQUIRED_CONSUMERS cfg) = Inr consumed"
    and "transcription_pending cfg d = Inr True"
  shows "consumed = False"
proof (rule ccontr)
  assume "consumed \<noteq> False"
  with assms(1) have "\<forall>c\<in>set (RECORDING_REQUIRED_CONSUMERS cfg). consumer_name_ok c \<and> is_file d (marker_file c)"
    using is_fully_consumed_True(2) by auto
  moreover have "''transcription'' \<in> set (RECORDING_REQUIRED_CONSUMERS cfg)"
    using assms(2) by (auto simp: transcription_pending_def split: if_splits)
  ultimately have "is_fully_consumed d [''transcription''] = Inr True"
    by (subst is_fully_consumed_iff) auto
  with assms(2) show False
    by (auto simp: transcription_pending_def split: if_splits)
qed

lemma sum_gone:
  assumes "distinct (map fst d)"
  shows "(\<Sum>n\<leftarrow>map fst d. freed cx d n) = (\<Sum>(n, f)\<leftarrow>filter (\<lambda>(n, f). removable cx n f) d. f_size f)"
    and "length (filter (gone cx d) (map fst d)) = length (filter (\<lambda>(n, f). removable cx n f) d)"
proof -
  have at: "dget d n = Some f" if "(n, f) \<in> set d" for n f
    using that assms by (simp add: dget_def)
  have "(\<Sum>n\<leftarrow>map fst xs. freed cx d n) = (\<Sum>(n, f)\<leftarrow>filter (\<lambda>(n, f). removable cx n f) xs. f_size f)
    \<and> length (filter (gone cx d) (map fst xs)) = length (filter (\<lambda>(n, f). removable cx n f) xs)"
    if "set xs \<subseteq> set d" for xs
    using that
  proof (induction xs)
    case Nil
    then show ?case by simp
  next
    case (Cons a xs)
    obtain n f where a: "a = (n, f)" by force
    with Cons.prems at have "dget d n = Some f" by auto
    with Cons a show ?case by (auto simp: freed_def gone_def)
  qed
  from this[of d] show "(\<Sum>n\<leftarrow>map fst d. freed cx d n) = (\<Sum>(n, f)\<leftarrow>filter (\<lambda>(n, f). removable cx n f) d. f_size f)"
    and "length (filter (gone cx d) (map fst d)) = length (filter (\<lambda>(n, f). removable cx n f) d)"
    by auto
qed

text \<open>C5. While a stage holds a valid lease on a call directory, a cleanup round deletes no file of
  it but its own list of candidates, and forgets the candidates of former rounds.\<close>

theorem leased_call_is_kept:
  assumes "readable d" and "active_lease d now st l"
    and "cleanup_call_directory cfg env usage tenant cutoff now d m = (r, d', m')"
  shows "(\<forall>n. n \<noteq> CANDIDATES_FILE \<and> path_exists d n \<longrightarrow> dget d' n = dget d n)
    \<and> (\<forall>c. r = Inr c \<longrightarrow> cc_deleted c = 0 \<and> cc_bytes c = 0 \<and> load_candidates d' = []) \<and> m' = m"
proof -
  obtain d1 where d1: "d1 = (if path_exists d LIFECYCLE_LOCK_FILE then d
      else dput LIFECYCLE_LOCK_FILE (new_file env 0 (Bytes [])) d)" by blast
  have at: "lease_at d1 x = lease_at d x" for x by (simp add: d1)
  have "readable d1" using assms(1) by (simp add: d1 readable_def)
  then have "has_valid_lease env d1 (Some (Aware now)) = Inr True"
    using assms(2) at by (auto simp: has_valid_lease_iff now_of_def active_lease_def)
  moreover have "cleanup_locked_call_directory cfg env usage tenant cutoff now d1 m = (r, d', m')"
    using assms(3) by (simp add: cleanup_call_directory_def locked_call_directory_def d1)
  ultimately have "(case unlink_missing_ok CANDIDATES_FILE d1 of Inl e \<Rightarrow> (Inl e, d1, m)
      | Inr d2 \<Rightarrow> (Inr \<lparr>cc_deleted = 0, cc_bytes = 0, cc_candidates = 0, cc_temp_deleted = 0\<rparr>, d2, m)) = (r, d', m')"
    by (simp add: cleanup_locked_call_directory_def)
  then have "m' = m" and "(\<exists>e. r = Inl e) \<and> d' = d1
      \<or> r = Inr \<lparr>cc_deleted = 0, cc_bytes = 0, cc_candidates = 0, cc_temp_deleted = 0\<rparr>
         \<and> unlink_missing_ok CANDIDATES_FILE d1 = Inr d'"
    by (auto split: sum.splits)
  moreover have "dget d' CANDIDATES_FILE = None \<and> (\<forall>n. n \<noteq> CANDIDATES_FILE \<longrightarrow> dget d' n = dget d1 n)"
    if "unlink_missing_ok CANDIDATES_FILE d1 = Inr d'"
    using that by (auto simp: unlink_missing_ok_def split: option.splits if_splits)
  moreover have "path_exists d n \<Longrightarrow> dget d1 n = dget d n" for n by (auto simp: d1)
  ultimately show ?thesis
    by (auto simp: load_candidates_def load_json_def)
qed

text \<open>C4. A round without a valid lease that completes deletes exactly the removable files, the
  loop's order notwithstanding, keeps every other file as it was, and reports their number
  and their bytes. A file is removable when it is a consumed or an expired recording, or a
  temporary that a former round saw unchanged; hidden files, leases and locks never are.\<close>

theorem cleanup_deletes_exactly:
  assumes "has_valid_lease env d (Some (Aware now)) = Inr False" and "distinct (map fst d)"
    and "is_fully_consumed d (RECORDING_REQUIRED_CONSUMERS cfg) = Inr consumed"
    and "transcription_pending cfg d = Inr pending"
    and "cleanup_locked_call_directory cfg env usage tenant cutoff now d m = (Inr c, d', m')"
  shows "let cx = round_ctx cfg env usage tenant cutoff now consumed pending d in
    (\<forall>n. n \<noteq> CANDIDATES_FILE \<longrightarrow>
       dget d' n = (case dget d n of Some f \<Rightarrow> if removable cx n f then None else Some f | None \<Rightarrow> None))
    \<and> cc_deleted c = length (filter (\<lambda>(n, f). removable cx n f) d)
    \<and> cc_bytes c = (\<Sum>(n, f)\<leftarrow>filter (\<lambda>(n, f). removable cx n f) d. f_size f)
    \<and> (\<forall>n f. starts_with ''.'' n \<longrightarrow> \<not> removable cx n f)"
  using clean_unleased_ok[OF assms(1,3,4,2) assms(5)[unfolded cleanup_unleased_eq[OF assms(1)]]]
    removable_visible sum_gone[OF assms(2)]
  by (auto simp: Let_def gone_def split: option.splits)

text \<open>A temporary of the conversion is deleted by the second of two rounds at the earliest: the
  first round that sees it keeps it and records its inode, size and modification time; a
  later round deletes it if and only if it is still the same file and the configured time
  has passed since.\<close>

theorem temporary_needs_two_rounds:
  assumes "n \<in> set LOCAL_TEMPORARIES" and "map_of (load_candidates d) n = None"
    and "dget d n = Some f" and "f_data f \<noteq> Directory" and "distinct (map fst d)"
    and "has_valid_lease env d (Some (Aware now)) = Inr False"
    and "cleanup_locked_call_directory cfg env usage tenant cutoff now d m = (Inr c, d1, m1)"
    and "dget e CANDIDATES_FILE = dget d1 CANDIDATES_FILE" and "distinct (map fst e)"
    and "dget e n = Some f'" and "f_data f' \<noteq> Directory"
    and "has_valid_lease env' e (Some (Aware now')) = Inr False"
    and "cleanup_locked_call_directory cfg env' usage' tenant cutoff' now' e m1 = (Inr c', e1, m2)"
  shows "dget d1 n = Some f \<and>
    (dget e1 n = None \<longleftrightarrow> fingerprint f' = fingerprint f \<and> seconds (RECORDING_CLEANUP_ROUND_SECONDS cfg) \<le> now' - now)"
proof -
  have nc: "n \<noteq> CANDIDATES_FILE" using assms(1) by auto
  note r1 = assms(7)[unfolded cleanup_unleased_eq[OF assms(6)]]
  note r2 = assms(13)[unfolded cleanup_unleased_eq[OF assms(12)]]
  obtain co pe where cp: "is_fully_consumed d (RECORDING_REQUIRED_CONSUMERS cfg) = Inr co"
    "transcription_pending cfg d = Inr pe" using clean_unleased_prep[OF r1] .
  obtain co' pe' where cp': "is_fully_consumed e (RECORDING_REQUIRED_CONSUMERS cfg) = Inr co'"
    "transcription_pending cfg e = Inr pe'" using clean_unleased_prep[OF r2] .
  define cx where "cx = round_ctx cfg env usage tenant cutoff now co pe d"
  define cx' where "cx' = round_ctx cfg env' usage' tenant cutoff' now' co' pe' e"
  note ok1 = clean_unleased_ok[OF assms(6) cp assms(5) r1, folded cx_def]
  note ok2 = clean_unleased_ok[OF assms(12) cp' assms(9) r2, folded cx'_def]
  have fresh: "previous_of (cx_candidates cx) n = JObj []"
    using assms(2) by (simp add: cx_def round_ctx_def previous_of_def)
  then have nr: "\<not> ripe cx n f" by (simp add: ripe_def same_fingerprint_def)
  then have kept: "dget d1 n = Some f"
    using ok1 assms(1,3) nc by (auto simp: gone_def removable_def)
  have "map_of (load_candidates d1) n = Some (waiting_entry cx n f)"
    using ok1 assms(1,3,4) nr by (simp add: waits_def waiting_def)
  moreover have "load_candidates e = load_candidates d1"
    using assms(8) by (simp add: load_candidates_def load_json_def)
  ultimately have prev: "previous_of (cx_candidates cx') n = waiting_entry cx n f"
    by (simp add: cx'_def round_ctx_def previous_of_def waiting_entry_def next_entry_def)
  have entry: "waiting_entry cx n f = JObj [(''fingerprint'', fingerprint f), (''first_seen'', JIso (Aware now))]"
    using fresh by (simp add: waiting_entry_def next_entry_def same_fingerprint_def cx_def round_ctx_def)
  have "same_fingerprint (Some (fingerprint f)) f' \<longleftrightarrow> fingerprint f' = fingerprint f"
    by (auto simp: same_fingerprint_def fingerprint_def)
  then have "ripe cx' n f' \<longleftrightarrow> fingerprint f' = fingerprint f \<and> seconds (RECORDING_CLEANUP_ROUND_SECONDS cfg) \<le> now' - now"
    unfolding ripe_def prev entry by (simp add: elapsed_since_def cx'_def round_ctx_def)
  moreover have "dget e1 n = None \<longleftrightarrow> ripe cx' n f'"
    using ok2 assms(1,10,11) nc by (auto simp: gone_def removable_def)
  ultimately show ?thesis using kept by simp
qed

text \<open>Recordings that still wait for transcription outlive their retention time while the disk
  is at least at the resume margin: no round deletes tx.wav or rx.wav then.\<close>

theorem transcription_backlog_kept:
  assumes "''transcription'' \<in> set (RECORDING_REQUIRED_CONSUMERS cfg)"
    and "is_fully_consumed d [''transcription''] = Inr False"
    and "RECORDING_RESUME_FREE_PERCENT cfg \<le> disk_free_percent usage"
    and "has_valid_lease env d (Some (Aware now)) = Inr False" and "distinct (map fst d)"
    and "cleanup_locked_call_directory cfg env usage tenant cutoff now d m = (Inr c, d', m')"
  shows "dget d' ''tx.wav'' = dget d ''tx.wav'' \<and> dget d' ''rx.wav'' = dget d ''rx.wav''"
proof -
  note r1 = assms(6)[unfolded cleanup_unleased_eq[OF assms(4)]]
  obtain co pe where cp: "is_fully_consumed d (RECORDING_REQUIRED_CONSUMERS cfg) = Inr co"
    "transcription_pending cfg d = Inr pe" using clean_unleased_prep[OF r1] .
  have pe: "pe = True" using cp(2) assms(1,2) by (simp add: transcription_pending_def)
  then have co: "co = False" using pending_not_consumed[OF cp(1)] cp(2) by simp
  define cx where "cx = round_ctx cfg env usage tenant cutoff now co pe d"
  have "\<not> removable cx n f" if "n = ''tx.wav'' \<or> n = ''rx.wav''" for n f
    using that pe co assms(3)
    by (auto simp: removable_def due_def cx_def round_ctx_def LOCAL_TEMPORARIES_def)
  then have "\<not> gone cx d n" if "n = ''tx.wav'' \<or> n = ''rx.wav''" for n
    using that by (auto simp: gone_def)
  then show ?thesis
    using clean_unleased_ok[OF assms(4) cp assms(5) r1, folded cx_def]
    by (simp add: CANDIDATES_FILE_def)
qed

section \<open>Concrete rounds\<close>

definition env_c :: os_env where
  "env_c = \<lparr>env_now = 6000000, env_uuid = [], env_inode = 9, env_disk = True\<rparr>"

definition plain_file :: "nat \<Rightarrow> int \<Rightarrow> fentry" where
  "plain_file n t = \<lparr>f_size = n, f_mtime = t, f_inode = 7, f_data = Bytes []\<rparr>"

definition dusty :: dir where
  "dusty = [(''tx.wav'', plain_file 40 0), (''notes.txt'', plain_file 5 9000000000),
     (''stereo.tmp.wav'', plain_file 3 0)]"

definition full_disk :: disk_usage where
  "full_disk = \<lparr>du_total = 100, du_used = 90, du_free = 10\<rparr>"

definition roomy_disk :: disk_usage where
  "roomy_disk = \<lparr>du_total = 100, du_used = 10, du_free = 90\<rparr>"

definition dusty_round :: "(exc + clean_counts) \<times> dir \<times> metrics" where
  "dusty_round = cleanup_locked_call_directory default_settings env_c full_disk ''acme'' 5000000 6000000 dusty []"

definition dusty_later :: "(exc + clean_counts) \<times> dir \<times> metrics" where
  "dusty_later = cleanup_locked_call_directory default_settings env_c full_disk ''acme'' 5000000 906000000
     (fst (snd dusty_round)) (snd (snd dusty_round))"

definition transcribing :: settings where
  "transcribing = default_settings\<lparr>RECORDING_REQUIRED_CONSUMERS := [''smb'', ''transcription'']\<rparr>"

lemma dusty_counts:
  "fst dusty_round = Inr \<lparr>cc_deleted = 1, cc_bytes = 40, cc_candidates = 1, cc_temp_deleted = 0\<rparr>"
  "fst dusty_later = Inr \<lparr>cc_deleted = 1, cc_bytes = 3, cc_candidates = 1, cc_temp_deleted = 1\<rparr>"
  by code_simp+

lemma dusty_unleased:
  "has_valid_lease env_c dusty (Some (Aware 6000000)) = Inr False"
  "has_valid_lease env_c (fst (snd dusty_round)) (Some (Aware 906000000)) = Inr False"
  by code_simp+

theorem leased_call_is_kept_witness:
  "\<exists>r d' m'. cleanup_call_directory default_settings env_c full_disk ''acme'' 5000000 6000000 held_dir [] = (r, d', m')
     \<and> dget d' (stage_file ''capture'') = dget held_dir (stage_file ''capture'') \<and> m' = []"
proof -
  obtain r d' m' where *: "cleanup_call_directory default_settings env_c full_disk ''acme'' 5000000 6000000 held_dir []
      = (r, d', m')" by (metis prod_cases3)
  have a: "active_lease held_dir 6000000 ''capture'' held_lease"
    by (simp add: active_lease_def held_view held_lease_def)
  have "path_exists held_dir (stage_file ''capture'')" "stage_file ''capture'' \<noteq> CANDIDATES_FILE"
    by (simp_all add: path_exists_def held_dir_get stage_file_def CANDIDATES_FILE_def)
  with leased_call_is_kept[OF held_dir_ok(1) a *] * show ?thesis by auto
qed

theorem cleanup_deletes_exactly_witness:
  "dget (fst (snd dusty_round)) ''tx.wav'' = None
   \<and> dget (fst (snd dusty_round)) ''notes.txt'' = Some (plain_file 5 9000000000)"
proof -
  have r: "cleanup_locked_call_directory default_settings env_c full_disk ''acme'' 5000000 6000000 dusty []
      = (Inr \<lparr>cc_deleted = 1, cc_bytes = 40, cc_candidates = 1, cc_temp_deleted = 0\<rparr>,
         fst (snd dusty_round), snd (snd dusty_round))"
    using dusty_counts(1) by (metis dusty_round_def prod.collapse)
  have d: "distinct (map fst dusty)" by code_simp
  have c: "is_fully_consumed dusty (RECORDING_REQUIRED_CONSUMERS default_settings) = Inr False"
    "transcription_pending default_settings dusty = Inr False" by code_simp+
  have f: "dget dusty ''tx.wav'' = Some (plain_file 40 0)"
    "dget dusty ''notes.txt'' = Some (plain_file 5 9000000000)" by code_simp+
  let ?cx = "round_ctx default_settings env_c full_disk ''acme'' 5000000 6000000 False False dusty"
  have rm: "removable ?cx ''tx.wav'' (plain_file 40 0)" "\<not> removable ?cx ''notes.txt'' (plain_file 5 9000000000)"
    by code_simp+
  have n: "''tx.wav'' \<noteq> CANDIDATES_FILE" "''notes.txt'' \<noteq> CANDIDATES_FILE"
    by (simp_all add: CANDIDATES_FILE_def)
  show ?thesis
    using cleanup_deletes_exactly[OF dusty_unleased(1) d c r] f rm n by (simp add: Let_def)
qed

theorem temporary_needs_two_rounds_witness:
  "dget (fst (snd dusty_round)) ''stereo.tmp.wav'' = Some (plain_file 3 0)
   \<and> dget (fst (snd dusty_later)) ''stereo.tmp.wav'' = None"
proof -
  have r1: "cleanup_locked_call_directory default_settings env_c full_disk ''acme'' 5000000 6000000 dusty []
      = (Inr \<lparr>cc_deleted = 1, cc_bytes = 40, cc_candidates = 1, cc_temp_deleted = 0\<rparr>,
         fst (snd dusty_round), snd (snd dusty_round))"
    using dusty_counts(1) by (metis dusty_round_def prod.collapse)
  have r2: "cleanup_locked_call_directory default_settings env_c full_disk ''acme'' 5000000 906000000
      (fst (snd dusty_round)) (snd (snd dusty_round))
      = (Inr \<lparr>cc_deleted = 1, cc_bytes = 3, cc_candidates = 1, cc_temp_deleted = 1\<rparr>,
         fst (snd dusty_later), snd (snd dusty_later))"
    using dusty_counts(2) by (metis dusty_later_def prod.collapse)
  have f: "dget dusty ''stereo.tmp.wav'' = Some (plain_file 3 0)"
    "dget (fst (snd dusty_round)) ''stereo.tmp.wav'' = Some (plain_file 3 0)" by code_simp+
  have m: "''stereo.tmp.wav'' \<in> set LOCAL_TEMPORARIES" "map_of (load_candidates dusty) ''stereo.tmp.wav'' = None"
    "distinct (map fst dusty)" "distinct (map fst (fst (snd dusty_round)))" by code_simp+
  have nd: "f_data (plain_file 3 0) \<noteq> Directory" by (simp add: plain_file_def)
  show ?thesis
    using temporary_needs_two_rounds[OF m(1,2) f(1) nd m(3) dusty_unleased(1) r1 refl m(4) f(2) nd
        dusty_unleased(2) r2]
    by (simp add: default_settings_def seconds_def)
qed

theorem transcription_backlog_kept_witness:
  "dget (fst (snd (cleanup_locked_call_directory transcribing env_c roomy_disk ''acme'' 5000000 6000000 dusty [])))
     ''tx.wav'' = Some (plain_file 40 0)"
proof -
  let ?r = "cleanup_locked_call_directory transcribing env_c roomy_disk ''acme'' 5000000 6000000 dusty []"
  have f: "fst ?r = Inr \<lparr>cc_deleted = 0, cc_bytes = 0, cc_candidates = 1, cc_temp_deleted = 0\<rparr>" by code_simp
  then have r: "?r = (Inr \<lparr>cc_deleted = 0, cc_bytes = 0, cc_candidates = 1, cc_temp_deleted = 0\<rparr>,
      fst (snd ?r), snd (snd ?r))" by (metis prod.collapse)
  have h: "''transcription'' \<in> set (RECORDING_REQUIRED_CONSUMERS transcribing)"
    "is_fully_consumed dusty [''transcription''] = Inr False"
    "RECORDING_RESUME_FREE_PERCENT transcribing \<le> disk_free_percent roomy_disk"
    "distinct (map fst dusty)" "dget dusty ''tx.wav'' = Some (plain_file 40 0)" by code_simp+
  show ?thesis
    using transcription_backlog_kept[OF h(1-3) dusty_unleased(1) h(4) r] h(5) by simp
qed

end
