(* ===== verification/Lease_Files.thy ===== *)
theory Lease_Files
  imports Lease
begin

text \<open>
  What the lease operations leave of the other files of a call directory: nothing else changes
  but the lease file of the stage and, on its first use, the lock file. The workers' proofs
  about audio files and markers rest on these frame lemmas.
\<close>

definition lease_files :: "string \<Rightarrow> string set" where
  "lease_files stage = {stage_file stage, LIFECYCLE_LOCK_FILE}"

lemma locked_other:
  "\<exists>d1. locked_call_directory env d body = body d1 \<and> (\<forall>n. n \<noteq> LIFECYCLE_LOCK_FILE \<longrightarrow> dget d1 n = dget d n)"
  by (auto simp: locked_call_directory_def)

lemma acquire_unlocked_other:
  assumes "acquire_lease_unlocked env ttl d stage cid owner now ttls = (r, d')" and "n \<noteq> stage_file stage"
  shows "dget d' n = dget d n"
proof (cases r)
  case (Inl e)
  with acquire_unlocked_err assms show ?thesis by fastforce
next
  case (Inr l)
  with acquire_unlocked_ok(4) assms show ?thesis by fastforce
qed

lemma acquire_lease_other:
  assumes "acquire_lease env ttl d stage cid owner now ttls = (r, d')" and "n \<notin> lease_files stage"
  shows "dget d' n = dget d n"
proof -
  obtain d1 where "acquire_lease_unlocked env ttl d1 stage cid owner now ttls = (r, d')"
    "\<forall>n. n \<noteq> LIFECYCLE_LOCK_FILE \<longrightarrow> dget d1 n = dget d n"
    using locked_other[of env d "\<lambda>d1. acquire_lease_unlocked env ttl d1 stage cid owner now ttls"] assms(1)
    by (auto simp: acquire_lease_def)
  with acquire_unlocked_other assms(2) show ?thesis by (auto simp: lease_files_def)
qed

lemma acquire_lease_written:
  assumes "acquire_lease env ttl d stage cid owner now ttls = (Inr l, d')"
  shows "dget d' (stage_file stage) = Some (json_file env (lease_payload l))" and "stage \<in> set LEASE_STAGES"
    and "lease_call_id l = cid" and "lease_stage l = stage"
proof -
  obtain d1 where 1: "acquire_lease_unlocked env ttl d1 stage cid owner now ttls = (Inr l, d')"
    using locked_other[of env d "\<lambda>d1. acquire_lease_unlocked env ttl d1 stage cid owner now ttls"] assms(1)
    by (auto simp: acquire_lease_def)
  show "dget d' (stage_file stage) = Some (json_file env (lease_payload l))"
    using acquire_unlocked_ok(4)[OF 1] by auto
  show "stage \<in> set LEASE_STAGES" using acquire_unlocked_ok(2)[OF 1] .
  show "lease_call_id l = cid" "lease_stage l = stage"
    using acquire_unlocked_ok(1)[OF 1] by (simp_all add: new_lease_def)
qed

lemma release_unlocked_other:
  assumes "release_unlocked stage owner d = (r, d')" and "n \<noteq> stage_file stage"
  shows "dget d' n = dget d n"
  using assms by (auto simp: release_unlocked_def lease_path_eq split: if_splits sum.splits)

lemma release_lease_other:
  assumes "release_lease env d stage owner = (r, d')" and "n \<notin> lease_files stage"
  shows "dget d' n = dget d n"
proof -
  obtain d1 where "release_unlocked stage owner d1 = (r, d')" "\<forall>n. n \<noteq> LIFECYCLE_LOCK_FILE \<longrightarrow> dget d1 n = dget d n"
    using locked_other[of env d "release_unlocked stage owner"] assms(1) by (auto simp: release_lease_def)
  with release_unlocked_other assms(2) show ?thesis by (auto simp: lease_files_def)
qed

lemma renew_lease_other:
  assumes "renew_lease env ttl d stage owner now ttls = (r, d')" and "n \<notin> lease_files stage"
  shows "dget d' n = dget d n"
proof -
  obtain d1 where 1: "renew_unlocked env ttl stage owner now ttls d1 = (r, d')"
    "\<forall>n. n \<noteq> LIFECYCLE_LOCK_FILE \<longrightarrow> dget d1 n = dget d n"
    using locked_other[of env d "renew_unlocked env ttl stage owner now ttls"] assms(1)
    by (auto simp: renew_lease_def)
  have "dget d' n = dget d1 n"
    using 1(1) assms(2)
    by (auto simp: renew_unlocked_def lease_path_eq lease_files_def dest: acquire_unlocked_other
        split: if_splits sum.splits prod.splits)
  with 1(2) assms(2) show ?thesis by (simp add: lease_files_def)
qed

text \<open>A lease written by \<open>acquire_lease\<close> never makes \<open>release_lease\<close> raise.\<close>

lemma release_written:
  assumes "dget d (stage_file stage) = Some (json_file env (lease_payload l))" and "stage \<in> set LEASE_STAGES"
  shows "\<exists>b d'. release_lease env' d stage owner = (Inr b, d')"
proof -
  obtain d1 where 1: "release_lease env' d stage owner = release_unlocked stage owner d1"
    "\<forall>n. n \<noteq> LIFECYCLE_LOCK_FILE \<longrightarrow> dget d1 n = dget d n"
    using locked_other[of env' d "release_unlocked stage owner"] by (auto simp: release_lease_def)
  have "dget d1 (stage_file stage) = dget d (stage_file stage)" using 1(2) by simp
  then have "\<exists>x. read_lease d1 (stage_file stage) (Some stage) = Inr x"
    using assms(1) by (auto simp: read_lease_def load_json_def lease_payload_def)
  then show ?thesis
    unfolding 1(1) using assms(2) by (auto simp: release_unlocked_def lease_path_eq)
qed

lemma release_written_gone:
  assumes "dget d (stage_file stage) = Some (json_file env (lease_payload l))" and "stage \<in> set LEASE_STAGES"
    and "uuid_ok (lease_owner l)" and "lease_call_id l \<noteq> []" and "lease_stage l = stage"
  shows "\<exists>d'. release_lease env' d stage (lease_owner l) = (Inr True, d') \<and> dget d' (stage_file stage) = None"
proof -
  obtain d1 where 1: "release_lease env' d stage (lease_owner l) = release_unlocked stage (lease_owner l) d1"
    "\<forall>n. n \<noteq> LIFECYCLE_LOCK_FILE \<longrightarrow> dget d1 n = dget d n"
    using locked_other[of env' d "release_unlocked stage (lease_owner l)"] by (auto simp: release_lease_def)
  have "dget d1 (stage_file stage) = dget d (stage_file stage)" using 1(2) by simp
  with assms have "read_lease d1 (stage_file stage) (Some stage) = Inr (Some l)" "path_exists d1 (stage_file stage)"
    using lease_of_doc_payload[of l]
    by (auto simp: read_lease_def load_json_def lease_payload_def path_exists_def)
  then show ?thesis
    unfolding 1(1) using assms(2) by (auto simp: release_unlocked_def lease_path_eq)
qed

lemma release_gives:
  assumes "read_lease d (stage_file stage) (Some stage) = Inr x" and "stage \<in> set LEASE_STAGES"
  shows "\<exists>b d'. release_lease env d stage owner = (Inr b, d')
    \<and> (\<forall>l. lease_at d' stage = Some l \<longrightarrow> lease_owner l \<noteq> owner)"
proof -
  obtain d1 where 1: "release_lease env d stage owner = release_unlocked stage owner d1"
    "\<forall>n. n \<noteq> LIFECYCLE_LOCK_FILE \<longrightarrow> dget d1 n = dget d n"
    using locked_other[of env d "release_unlocked stage owner"] by (auto simp: release_lease_def)
  have "read_lease d1 (stage_file stage) (Some stage) = Inr x"
    using assms(1) read_lease_cong[of d1 "stage_file stage" d] 1(2) by simp
  moreover have "lease_at d1 stage = x"
    using calculation assms(2) by (simp add: lease_at_def split: option.splits)
  moreover have "x \<noteq> None \<Longrightarrow> path_exists d1 (stage_file stage)"
    using calculation(1) by (auto simp: path_exists_def read_lease_def load_json_def split: option.splits)
  ultimately show ?thesis
    unfolding 1(1) using assms(2) by (cases x) (auto simp: release_unlocked_def lease_path_eq lease_at_ddel)
qed

lemma acquire_lease_conflict:
  assumes "readable d" and "active_lease d (now_of now (env_now env)) st l" and "Some (lease_owner l) \<noteq> owner"
  shows "\<exists>d' st'. acquire_lease env ttl d stage cid owner now ttls = (Inl (LeaseBusyError st'), d')
    \<and> (\<forall>n. n \<noteq> LIFECYCLE_LOCK_FILE \<longrightarrow> dget d' n = dget d n)"
proof -
  define d1 where "d1 = (if path_exists d LIFECYCLE_LOCK_FILE then d
      else dput LIFECYCLE_LOCK_FILE (new_file env 0 (Bytes [])) d)"
  have eq: "acquire_lease env ttl d stage cid owner now ttls = acquire_lease_unlocked env ttl d1 stage cid owner now ttls"
    by (simp add: acquire_lease_def locked_call_directory_def d1_def)
  have at: "lease_at d1 x = lease_at d x" for x by (simp add: d1_def)
  have "readable d1" using assms(1) by (simp add: d1_def readable_def)
  moreover have "active_lease d1 (now_of now (env_now env)) st l"
    using assms(2) at by (simp add: active_lease_def)
  then have "\<not> no_conflict d1 (now_of now (env_now env)) owner"
    using assms(3) by (auto simp: no_conflict_def)
  ultimately obtain st' where "acquire_lease_unlocked env ttl d1 stage cid owner now ttls = (Inl (LeaseBusyError st'), d1)"
    using acquire_unlocked_conflict by blast
  moreover have "\<forall>n. n \<noteq> LIFECYCLE_LOCK_FILE \<longrightarrow> dget d1 n = dget d n" by (simp add: d1_def)
  ultimately show ?thesis using eq by auto
qed

section \<open>Holding a lease over renewals\<close>

lemma acquire_lease_fresh_owner:
  "acquire_lease os ttl d stage cid None now ttls = (Inr l, d') \<Longrightarrow> lease_owner l = env_uuid os"
  unfolding acquire_lease_def locked_call_directory_def
  by (drule acquire_unlocked_ok(1)) (simp add: new_lease_def)

text \<open>A lease file that holds a lease of the owner, which a renewal replaces by another such lease.\<close>

definition lease_held :: "dir \<Rightarrow> string \<Rightarrow> string \<Rightarrow> bool" where
  "lease_held d stage owner \<longleftrightarrow> uuid_ok owner \<and> stage \<in> set LEASE_STAGES \<and>
     (\<exists>env l. dget d (stage_file stage) = Some (json_file env (lease_payload l)) \<and> lease_owner l = owner
       \<and> lease_stage l = stage \<and> lease_call_id l \<noteq> [])"

lemma acquired_held:
  assumes "acquire_lease env ttl d stage cid None now ttls = (Inr l, d')" and "uuid_ok (env_uuid env)" and "cid \<noteq> []"
  shows "lease_held d' stage (lease_owner l)"
  using acquire_lease_written[OF assms(1)] acquire_lease_fresh_owner[OF assms(1)] assms(2,3)
  by (auto simp: lease_held_def)

lemma lease_held_cong: "dget d' (stage_file stage) = dget d (stage_file stage) \<Longrightarrow> lease_held d' stage ow = lease_held d stage ow"
  by (simp add: lease_held_def)

lemma held_released:
  assumes "lease_held d stage owner"
  shows "\<exists>d'. release_lease env d stage owner = (Inr True, d') \<and> dget d' (stage_file stage) = None"
  using assms release_written_gone by (auto simp: lease_held_def)

lemma held_renewed:
  assumes h: "lease_held d stage owner" and run: "renew_lease env ttl d stage owner now ttls = (Inr True, d')"
  shows "lease_held d' stage owner"
proof -
  obtain e0 l where l: "dget d (stage_file stage) = Some (json_file e0 (lease_payload l))" "lease_owner l = owner"
    "lease_stage l = stage" "lease_call_id l \<noteq> []" and u: "uuid_ok owner" "stage \<in> set LEASE_STAGES"
    using h by (auto simp: lease_held_def)
  obtain d1 where 1: "renew_unlocked env ttl stage owner now ttls d1 = (Inr True, d')"
    "\<forall>n. n \<noteq> LIFECYCLE_LOCK_FILE \<longrightarrow> dget d1 n = dget d n"
    using locked_other[of env d "renew_unlocked env ttl stage owner now ttls"] run by (auto simp: renew_lease_def)
  have "read_lease d1 (stage_file stage) (Some stage) = Inr (Some l)"
    using l u 1(2) lease_of_doc_payload[of l] by (auto simp: read_lease_def load_json_def lease_payload_def)
  then obtain l' where a: "acquire_lease_unlocked env ttl d1 stage (lease_call_id l) (Some owner) now ttls = (Inr l', d')"
    using 1(1) u l(2) by (auto simp: renew_unlocked_def lease_path_eq split: sum.splits prod.splits if_splits)
  have "owner \<noteq> []" using u(1) by auto
  then have "lease_owner l' = owner" "lease_stage l' = stage" "lease_call_id l' \<noteq> []"
    using acquire_unlocked_ok(1)[OF a] l(4) by (simp_all add: new_lease_def)
  moreover have "dget d' (stage_file stage) = Some (json_file env (lease_payload l'))"
    using acquire_unlocked_ok(4)[OF a] by auto
  ultimately show ?thesis using u by (auto simp: lease_held_def)
qed

text \<open>A renewal that raises leaves the lease, or nothing where it was: an expired one goes before the new
  one is written.\<close>

lemma held_not_renewed:
  assumes h: "lease_held d stage owner" and run: "renew_lease env ttl d stage owner now ttls = (r, d')" and "r \<noteq> Inr True"
  shows "(\<exists>e. r = Inl e) \<and> (lease_held d' stage owner \<or> dget d' (stage_file stage) = None)"
proof -
  obtain e0 l where l: "dget d (stage_file stage) = Some (json_file e0 (lease_payload l))" "lease_owner l = owner"
    "lease_stage l = stage" "lease_call_id l \<noteq> []" and u: "uuid_ok owner" "stage \<in> set LEASE_STAGES"
    using h by (auto simp: lease_held_def)
  obtain d1 where 1: "renew_unlocked env ttl stage owner now ttls d1 = (r, d')"
    "\<forall>n. n \<noteq> LIFECYCLE_LOCK_FILE \<longrightarrow> dget d1 n = dget d n"
    using locked_other[of env d "renew_unlocked env ttl stage owner now ttls"] run by (auto simp: renew_lease_def)
  have "read_lease d1 (stage_file stage) (Some stage) = Inr (Some l)"
    using l u 1(2) lease_of_doc_payload[of l] by (auto simp: read_lease_def load_json_def lease_payload_def)
  then obtain e where a: "acquire_lease_unlocked env ttl d1 stage (lease_call_id l) (Some owner) now ttls = (Inl e, d')" "r = Inl e"
    using 1(1) u l(2) assms(3) by (auto simp: renew_unlocked_def lease_path_eq split: sum.splits prod.splits if_splits)
  have "lease_held d1 stage owner" using h lease_held_cong[of d1 stage d owner] 1(2) by simp
  then show ?thesis using acquire_unlocked_err[OF a(1)] a(2) by (auto simp: lease_held_def)
qed

text \<open>Either way the release returns, and leaves nothing of the owner behind.\<close>

lemma release_after_hold:
  assumes "lease_held d stage owner \<or> dget d (stage_file stage) = None" and "stage \<in> set LEASE_STAGES"
  shows "\<exists>b d'. release_lease env d stage owner = (Inr b, d') \<and> dget d' (stage_file stage) = None"
proof (cases "lease_held d stage owner")
  case True
  then show ?thesis using held_released by blast
next
  case False
  then have n: "dget d (stage_file stage) = None" using assms(1) by simp
  obtain d1 where 1: "release_lease env d stage owner = release_unlocked stage owner d1"
    "\<forall>n. n \<noteq> LIFECYCLE_LOCK_FILE \<longrightarrow> dget d1 n = dget d n"
    using locked_other[of env d "release_unlocked stage owner"] by (auto simp: release_lease_def)
  have "read_lease d1 (stage_file stage) (Some stage) = Inr None" "dget d1 (stage_file stage) = None"
    using n 1(2) by (simp_all add: read_lease_def load_json_def)
  then show ?thesis unfolding 1(1) using assms(2) by (auto simp: release_unlocked_def lease_path_eq)
qed

end
