(* ===== verification/Pcm.thy ===== *)
theory Pcm
  imports Call_Dir
begin

text \<open>
  Raw audio: 16-bit little-endian samples in bytes, the stereo interleaving the telephony
  server forks to the backend (\<open>AudioIngestor._split_stereo_frame\<close>) and its inverse, which the
  stereo mixing of the SMB worker relies on.
\<close>

text \<open>\<open>struct.unpack("<nh", raw[: n * 2])\<close>, a trailing odd byte dropped, and \<open>struct.pack\<close>.\<close>

fun le_samples :: "byte list \<Rightarrow> 16 word list" where
  "le_samples (lo # hi # bs) = word_cat hi lo # le_samples bs"
| "le_samples bs = []"

fun le_bytes :: "16 word list \<Rightarrow> byte list" where
  "le_bytes [] = []"
| "le_bytes (w # ws) = ucast w # ucast (drop_bit 8 w) # le_bytes ws"

text \<open>\<open>samples[0::2]\<close> and \<open>samples[1::2]\<close>.\<close>

fun even_samples :: "'a list \<Rightarrow> 'a list" where
  "even_samples [] = []"
| "even_samples [x] = [x]"
| "even_samples (x # y # xs) = x # even_samples xs"

fun odd_samples :: "'a list \<Rightarrow> 'a list" where
  "odd_samples [] = []"
| "odd_samples [x] = []"
| "odd_samples (x # y # xs) = y # odd_samples xs"

definition split_stereo_frame :: "byte list \<Rightarrow> byte list \<times> byte list" where
  "split_stereo_frame raw =
     (let samples = le_samples raw
      in (le_bytes (even_samples samples), le_bytes (odd_samples samples)))"

text \<open>A stereo stream: left and right samples in turn.\<close>

fun interleave :: "'a list \<Rightarrow> 'a list \<Rightarrow> 'a list" where
  "interleave (x # xs) (y # ys) = x # y # interleave xs ys"
| "interleave _ _ = []"

lemma le_samples_bytes [simp]: "le_samples (le_bytes ws) = ws"
proof (induction ws)
  case Nil
  then show ?case by simp
next
  case (Cons w ws)
  have "word_cat (ucast (drop_bit 8 w) :: byte) (ucast w :: byte) = w"
    by (rule bit_word_eqI) (auto simp: bit_word_cat_iff bit_simps not_less)
  with Cons show ?case by simp
qed

lemma length_le_bytes [simp]: "length (le_bytes ws) = 2 * length ws"
  by (induction ws) auto

lemma le_bytes_append [simp]: "le_bytes (xs @ ys) = le_bytes xs @ le_bytes ys"
  by (induction xs) auto

lemma even_samples_interleave [simp]: "length xs = length ys \<Longrightarrow> even_samples (interleave xs ys) = xs"
  by (induction xs ys rule: list_induct2) auto

lemma odd_samples_interleave [simp]: "length xs = length ys \<Longrightarrow> odd_samples (interleave xs ys) = ys"
  by (induction xs ys rule: list_induct2) auto

lemma interleave_even_odd: "even (length zs) \<Longrightarrow> interleave (even_samples zs) (odd_samples zs) = zs"
  by (induction zs rule: even_samples.induct) auto

lemma split_stereo_frame_interleave:
  "length tx = length rx \<Longrightarrow> split_stereo_frame (le_bytes (interleave tx rx)) = (le_bytes tx, le_bytes rx)"
  by (simp add: split_stereo_frame_def)

lemma le_bytes_samples: "even (length bs) \<Longrightarrow> le_bytes (le_samples bs) = bs"
proof (induction bs rule: le_samples.induct)
  case (1 lo hi bs)
  have "ucast (word_cat hi lo :: 16 word) = lo"
    by (rule bit_word_eqI) (auto simp: bit_word_cat_iff bit_simps)
  moreover have "ucast (drop_bit 8 (word_cat hi lo :: 16 word)) = hi"
    by (rule bit_word_eqI) (auto simp: bit_word_cat_iff bit_simps)
  ultimately show ?case using 1 by simp
qed auto

lemma length_even_odd: "even (length zs) \<Longrightarrow> length (even_samples zs) = length (odd_samples zs)"
  by (induction zs rule: even_samples.induct) auto

end
