(* ===== verification/Uploader.thy ===== *)
theory Uploader
  imports Lease_Files Telemetry Pcm
begin

text \<open>
  \<open>workers/audio_uploader.py\<close>: the conversion of a call's raw channels to WAV under the
  conversion lease. ffmpeg is an argument: what a run of it on the raw bytes ends with. The
  heartbeat task renews the lease beside the conversion; for each channel the environment says
  whether the heartbeat fails before the conversion is awaited to its end.
\<close>

datatype ffmpeg_run = SpawnError exc | Exit nat string | Converted wav_info

definition wav_path :: "string \<Rightarrow> string" where
  "wav_path channel = channel @ ''.wav''"

definition tmp_wav_path :: "string \<Rightarrow> string" where
  "tmp_wav_path channel = channel @ ''.tmp.wav''"

definition raw_path :: "string \<Rightarrow> string" where
  "raw_path channel = channel @ ''.raw''"

definition file_content :: "dir \<Rightarrow> string \<Rightarrow> content" where
  "file_content d n = (case dget d n of None \<Rightarrow> Bytes [] | Some f \<Rightarrow> f_data f)"

definition wav_file :: "os_env \<Rightarrow> wav_info \<Rightarrow> fentry" where
  "wav_file os w = new_file os (44 + wav_sampwidth w * length (wav_frames w)) (Wav w)"

definition ffmpeg_failed :: "nat \<Rightarrow> string \<Rightarrow> exc" where
  "ffmpeg_failed code stderr = RuntimeError (''ffmpeg falhou (exit '' @ nat_str code @ ''): ''
     @ drop (length stderr - 500) stderr)"

text \<open>\<open>_convert_to_wav\<close>: through the temporary, renamed over the WAV when ffmpeg succeeds.\<close>

definition convert_to_wav ::
    "(content \<Rightarrow> ffmpeg_run) \<Rightarrow> os_env \<Rightarrow> string \<Rightarrow> (dir, string) prog" where
  "convert_to_wav ffmpeg os channel d =
     (case unlink_missing_ok (tmp_wav_path channel) d of
        Inl e \<Rightarrow> (Inl e, d)
      | Inr d1 \<Rightarrow>
         (case ffmpeg (file_content d1 (raw_path channel)) of
            SpawnError e \<Rightarrow> (Inl e, d1)
          | Exit code stderr \<Rightarrow> (Inl (ffmpeg_failed code stderr), d1)
          | Converted w \<Rightarrow>
              if path_exists d1 (wav_path channel) \<and> f_data (the (dget d1 (wav_path channel))) = Directory
              then (Inl IsADirectoryError, dput (tmp_wav_path channel) (wav_file os w) d1)
              else (Inr (wav_path channel), dput (wav_path channel) (wav_file os w) d1)))"

text \<open>
  What the heartbeat does while one channel is converted: it fails with an exception, after
  the conversion had already finished or before. \<open>_conversion_heartbeat\<close> raises OSError when
  the lease is not the worker's any more, and passes on what \<open>renew_lease\<close> raises.
\<close>

definition conversion_heartbeat ::
    "os_env \<Rightarrow> int \<Rightarrow> string \<Rightarrow> (dir \<times> metrics, unit) prog" where
  "conversion_heartbeat os ttl owner s =
     (case renew_lease os ttl (fst s) ''conversion'' owner None None of
        (Inl e, d) \<Rightarrow> (Inl e, (d, snd s))
      | (Inr True, d) \<Rightarrow> (Inr (), (d, snd s))
      | (Inr False, d) \<Rightarrow>
          (Inl (OSError ''conversion lease renewal failed''), (d, record_lease_failure ''conversion'' (snd s))))"

datatype heartbeat_fate = Alive | Dies exc bool

definition convert_while_lease_is_valid ::
    "(content \<Rightarrow> ffmpeg_run) \<Rightarrow> os_env \<Rightarrow> heartbeat_fate \<Rightarrow> exc option \<Rightarrow> string \<Rightarrow> (dir, string) prog" where
  "convert_while_lease_is_valid ffmpeg os fate lost channel d =
     (case lost of
        Some e \<Rightarrow> (Inl e, d)
      | None \<Rightarrow>
         (case fate of
            Alive \<Rightarrow> convert_to_wav ffmpeg os channel d
          | Dies e finished \<Rightarrow>
              (Inl e, if finished then snd (convert_to_wav ffmpeg os channel d)
                 else ddel (tmp_wav_path channel) d)))"

definition lost_after :: "heartbeat_fate \<Rightarrow> exc option \<Rightarrow> exc option" where
  "lost_after fate lost =
     (case lost of Some e \<Rightarrow> Some e | None \<Rightarrow> (case fate of Alive \<Rightarrow> None | Dies e _ \<Rightarrow> Some e))"

datatype upload_result =
    AlreadyProcessing
  | LeaseLost
  | Uploaded string string
  | UploadedRawOnly string string exc

text \<open>The loop over the channels; \<open>lost\<close> is the exception of a heartbeat that is done.\<close>

fun convert_channels ::
    "(content \<Rightarrow> ffmpeg_run) \<Rightarrow> os_env \<Rightarrow> (string \<Rightarrow> heartbeat_fate) \<Rightarrow> exc option \<Rightarrow> string list
     \<Rightarrow> upload_result list \<Rightarrow> dir \<Rightarrow> upload_result list \<times> dir" where
  "convert_channels ffmpeg os fate lost [] results d = (results, d)"
| "convert_channels ffmpeg os fate lost (ch # chs) results d =
     (if \<not> is_file d (raw_path ch) then convert_channels ffmpeg os fate lost chs results d
      else case convert_while_lease_is_valid ffmpeg os (fate ch) lost ch d of
        (Inr output, d1) \<Rightarrow>
          convert_channels ffmpeg os fate lost chs (results @ [Uploaded output ch]) d1
      | (Inl e, d1) \<Rightarrow>
          if is_OSError e \<and> lost_after (fate ch) lost \<noteq> None then ([LeaseLost], d1)
          else convert_channels ffmpeg os fate (lost_after (fate ch) lost) chs
                 (results @ [UploadedRawOnly (raw_path ch) ch e]) d1)"

definition upload_audio_chunk :: "string \<Rightarrow> string \<Rightarrow> (string \<times> string) list" where
  "upload_audio_chunk tenant_id call_id =
     [(''status'', ''legacy_payload_ignored''), (''tenant_id'', tenant_id), (''call_id'', call_id)]"

fun is_busy :: "exc \<Rightarrow> bool" where
  "is_busy (LeaseBusyError _) = True"
| "is_busy _ = False"

definition upload_recording_batch ::
    "(content \<Rightarrow> ffmpeg_run) \<Rightarrow> os_env \<Rightarrow> int \<Rightarrow> (string \<Rightarrow> heartbeat_fate) \<Rightarrow> os_env \<Rightarrow> string
     \<Rightarrow> dir option \<Rightarrow> (exc + upload_result list) \<times> dir option" where
  "upload_recording_batch ffmpeg os ttl fate os_end call_id dir_opt =
     (case dir_opt of
        None \<Rightarrow> (Inr [], None)
      | Some d \<Rightarrow>
         (case acquire_lease os ttl d ''conversion'' call_id None None None of
            (Inl e, d1) \<Rightarrow> (if is_busy e then Inr [AlreadyProcessing] else Inl e, Some d1)
          | (Inr lease, d1) \<Rightarrow>
             (case convert_channels ffmpeg os fate None [''tx'', ''rx''] [] d1 of
                (results, d2) \<Rightarrow>
                  (case release_lease os_end d2 ''conversion'' (lease_owner lease) of
                     (Inl e, d3) \<Rightarrow> (Inl e, Some d3)
                   | (Inr _, d3) \<Rightarrow> (Inr results, Some d3)))))"

definition upload_job_id :: "string \<Rightarrow> string \<Rightarrow> string" where
  "upload_job_id tenant_id call_id = ''recording-upload:'' @ tenant_id @ '':'' @ call_id"

section \<open>Conversion\<close>

text \<open>
  The documented behaviour of the ffmpeg command line used: raw little-endian 16-bit mono
  input at 16 kHz becomes a PCM WAV file with the same samples.
\<close>

definition wav_of :: "16 word list \<Rightarrow> wav_info" where
  "wav_of ws = \<lparr>wav_comptype = ''NONE'', wav_channels = 1, wav_sampwidth = 2, wav_framerate = 16000,
     wav_frames = ws\<rparr>"

definition ffmpeg_keeps_samples :: "(content \<Rightarrow> ffmpeg_run) \<Rightarrow> bool" where
  "ffmpeg_keeps_samples ffmpeg \<longleftrightarrow> (\<forall>bs. ffmpeg (Bytes bs) = Converted (wav_of (le_samples bs)))"

lemma names_distinct [simp]:
  "wav_path a \<noteq> raw_path b" "tmp_wav_path a \<noteq> raw_path b" "raw_path a \<noteq> wav_path b"
  "raw_path a \<noteq> tmp_wav_path b" "raw_path a = raw_path b \<longleftrightarrow> a = b" "wav_path a = wav_path b \<longleftrightarrow> a = b"
proof -
  have l: "last (wav_path x) = CHR ''v''" "last (tmp_wav_path x) = CHR ''v''" "last (raw_path x) = CHR ''w''" for x
    by (simp_all add: wav_path_def tmp_wav_path_def raw_path_def)
  have ne: "CHR ''v'' \<noteq> CHR ''w''" by simp
  show "wav_path a \<noteq> raw_path b" using l(1)[of a] l(3)[of b] ne by metis
  show "tmp_wav_path a \<noteq> raw_path b" using l(2)[of a] l(3)[of b] ne by metis
  show "raw_path a \<noteq> wav_path b" using l(1)[of b] l(3)[of a] ne by metis
  show "raw_path a \<noteq> tmp_wav_path b" using l(2)[of b] l(3)[of a] ne by metis
  show "raw_path a = raw_path b \<longleftrightarrow> a = b" "wav_path a = wav_path b \<longleftrightarrow> a = b"
    by (simp_all add: raw_path_def wav_path_def)
qed

lemma convert_to_wav_frame:
  assumes "convert_to_wav ffmpeg os ch d = (r, d')" and "n \<noteq> wav_path ch" and "n \<noteq> tmp_wav_path ch"
  shows "dget d' n = dget d n"
  using assms
  by (auto simp: convert_to_wav_def unlink_missing_ok_def split: sum.splits option.splits if_splits ffmpeg_run.splits)

lemma convert_while_frame:
  assumes "convert_while_lease_is_valid ffmpeg os fate lost ch d = (r, d')"
    and "n \<noteq> wav_path ch" and "n \<noteq> tmp_wav_path ch"
  shows "dget d' n = dget d n"
  using assms convert_to_wav_frame[OF prod.collapse[symmetric] assms(2,3)]
  by (auto simp: convert_while_lease_is_valid_def convert_to_wav_frame
      split: option.splits heartbeat_fate.splits if_splits)

lemma convert_channels_frame:
  assumes "convert_channels ffmpeg os fate lost chs results d = (r, d')"
    and "\<And>ch. ch \<in> set chs \<Longrightarrow> n \<noteq> wav_path ch \<and> n \<noteq> tmp_wav_path ch"
  shows "dget d' n = dget d n"
  using assms
proof (induction chs arbitrary: lost results d)
  case Nil
  then show ?case by simp
next
  case (Cons ch chs)
  obtain rc d1 where c: "convert_while_lease_is_valid ffmpeg os (fate ch) lost ch d = (rc, d1)" by force
  have f: "dget d1 n = dget d n" using convert_while_frame[OF c] Cons.prems(2)[of ch] by simp
  have ih: "convert_channels ffmpeg os fate lost' chs res d0 = (r, d') \<Longrightarrow> dget d' n = dget d0 n" for lost' res d0
    by (rule Cons.IH) (use Cons.prems(2) in auto)
  show ?case
    using Cons.prems(1) c ih f by (auto split: if_splits sum.splits)
qed

lemma convert_to_wav_ok:
  assumes "ffmpeg_keeps_samples ffmpeg" and "dget d (raw_path ch) = Some f" and "f_data f = Bytes bs"
    and "\<forall>n\<in>{tmp_wav_path ch, wav_path ch}. \<forall>g. dget d n = Some g \<longrightarrow> f_data g \<noteq> Directory"
  shows "\<exists>d'. convert_to_wav ffmpeg os ch d = (Inr (wav_path ch), d')
    \<and> dget d' (wav_path ch) = Some (wav_file os (wav_of (le_samples bs)))"
proof -
  obtain d1 where u: "unlink_missing_ok (tmp_wav_path ch) d = Inr d1" "d1 = d \<or> d1 = ddel (tmp_wav_path ch) d"
    using assms(4) by (cases "dget d (tmp_wav_path ch)") (auto simp: unlink_missing_ok_def)
  have r: "file_content d1 (raw_path ch) = Bytes bs"
    using u(2) assms(2,3) by (auto simp: file_content_def)
  have w: "\<not> (path_exists d1 (wav_path ch) \<and> f_data (the (dget d1 (wav_path ch))) = Directory)"
    using u(2) assms(4) by (auto simp: path_exists_def split: if_splits)
  from assms(1) have "ffmpeg (Bytes bs) = Converted (wav_of (le_samples bs))"
    by (simp add: ffmpeg_keeps_samples_def)
  with u(1) r w show ?thesis by (auto simp: convert_to_wav_def)
qed

lemma tmp_wav_not_final [simp]: "tmp_wav_path a = tmp_wav_path b \<longleftrightarrow> a = b"
  "tmp_wav_path ''tx'' \<noteq> wav_path ''rx''" "tmp_wav_path ''rx'' \<noteq> wav_path ''tx''"
  by (simp_all add: tmp_wav_path_def wav_path_def)

definition plain_audio :: "dir \<Rightarrow> string \<Rightarrow> bool" where
  "plain_audio d ch \<longleftrightarrow> (\<forall>n\<in>{tmp_wav_path ch, wav_path ch}. \<forall>g. dget d n = Some g \<longrightarrow> f_data g \<noteq> Directory)"

lemma convert_both:
  assumes ff: "ffmpeg_keeps_samples ffmpeg" and al: "\<forall>ch. fate ch = Alive"
    and tx: "dget d ''tx.raw'' = Some ft" "f_data ft = Bytes bt"
    and rx: "dget d ''rx.raw'' = Some fr" "f_data fr = Bytes br"
    and pl: "plain_audio d ''tx''" "plain_audio d ''rx''"
  shows "\<exists>d'. convert_channels ffmpeg os fate None [''tx'', ''rx''] [] d =
      ([Uploaded ''tx.wav'' ''tx'', Uploaded ''rx.wav'' ''rx''], d')
    \<and> dget d' ''tx.wav'' = Some (wav_file os (wav_of (le_samples bt)))
    \<and> dget d' ''rx.wav'' = Some (wav_file os (wav_of (le_samples br)))"
proof -
  have n: "raw_path ''tx'' = ''tx.raw''" "raw_path ''rx'' = ''rx.raw''"
    "wav_path ''tx'' = ''tx.wav''" "wav_path ''rx'' = ''rx.wav''"
    by (simp_all add: raw_path_def wav_path_def)
  from convert_to_wav_ok[OF ff, of d "''tx''" ft bt os] tx pl(1) obtain d1 where
    1: "convert_to_wav ffmpeg os ''tx'' d = (Inr ''tx.wav'', d1)"
      "dget d1 ''tx.wav'' = Some (wav_file os (wav_of (le_samples bt)))"
    by (auto simp: n plain_audio_def)
  have f1: "dget d1 m = dget d m" if "m \<in> {''rx.raw'', tmp_wav_path ''rx'', wav_path ''rx''}" for m
    using convert_to_wav_frame[OF 1(1), of m] that
    by (auto simp: wav_path_def tmp_wav_path_def)
  have pl1: "plain_audio d1 ''rx''"
    using pl(2) f1 by (simp add: plain_audio_def)
  from convert_to_wav_ok[OF ff, of d1 "''rx''" fr br os] rx f1 pl1 obtain d2 where
    2: "convert_to_wav ffmpeg os ''rx'' d1 = (Inr ''rx.wav'', d2)"
      "dget d2 ''rx.wav'' = Some (wav_file os (wav_of (le_samples br)))"
    by (auto simp: n plain_audio_def)
  have "dget d2 ''tx.wav'' = dget d1 ''tx.wav''"
    using convert_to_wav_frame[OF 2(1), of "''tx.wav''"] by (simp add: wav_path_def tmp_wav_path_def)
  moreover have "is_file d ''tx.raw''"
    using tx by (simp add: is_file_def)
  moreover have "is_file d1 ''rx.raw''"
    using rx f1 by (simp add: is_file_def)
  ultimately show ?thesis
    using 1 2 al by (simp add: n convert_while_lease_is_valid_def)
qed

section \<open>Properties\<close>

text \<open>C12. When the conversion lease is free, the raw files are there and ffmpeg works, a job
  converts both channels: it reports both uploaded, tx.wav and rx.wav hold exactly the
  captured samples in 16 kHz mono, and the conversion lease is given back.\<close>

theorem upload_converts_both_channels:
  assumes "ffmpeg_keeps_samples ffmpeg" and "\<forall>ch. fate ch = Alive"
    and "acquire_lease os ttl d ''conversion'' call_id None None None = (Inr lease, d1)"
    and "uuid_ok (env_uuid os)" and "call_id \<noteq> []"
    and "dget d ''tx.raw'' = Some ft" and "f_data ft = Bytes (le_bytes tx)"
    and "dget d ''rx.raw'' = Some fr" and "f_data fr = Bytes (le_bytes rx)"
    and "plain_audio d ''tx''" and "plain_audio d ''rx''"
  shows "\<exists>d'. upload_recording_batch ffmpeg os ttl fate os_end call_id (Some d) =
      (Inr [Uploaded ''tx.wav'' ''tx'', Uploaded ''rx.wav'' ''rx''], Some d')
    \<and> dget d' ''tx.wav'' = Some (wav_file os (wav_of tx)) \<and> dget d' ''rx.wav'' = Some (wav_file os (wav_of rx))
    \<and> dget d' (stage_file ''conversion'') = None"
proof -
  note acq = assms(3)
  note lw = acquire_lease_written[OF acq]
  have sf: "stage_file ''conversion'' = ''.conversion-processing''" "LIFECYCLE_LOCK_FILE = ''.recording-lifecycle.lock''"
    by (simp_all add: stage_file_def LIFECYCLE_LOCK_FILE_def)
  have keep: "dget d1 n = dget d n" if "n \<in> {''tx.raw'', ''rx.raw'', tmp_wav_path ''tx'', wav_path ''tx'',
      tmp_wav_path ''rx'', wav_path ''rx''}" for n
  proof -
    from that have "n \<notin> lease_files ''conversion''"
      by (auto simp: lease_files_def sf tmp_wav_path_def wav_path_def)
    then show ?thesis by (rule acquire_lease_other[OF acq])
  qed
  have pl: "plain_audio d1 ''tx''" "plain_audio d1 ''rx''"
    using assms(10,11) keep by (simp_all add: plain_audio_def)
  from convert_both[OF assms(1,2), of d1 ft "le_bytes tx" fr "le_bytes rx" os] assms(6-9) keep pl obtain d2 where
    2: "convert_channels ffmpeg os fate None [''tx'', ''rx''] [] d1 =
      ([Uploaded ''tx.wav'' ''tx'', Uploaded ''rx.wav'' ''rx''], d2)"
      "dget d2 ''tx.wav'' = Some (wav_file os (wav_of tx))" "dget d2 ''rx.wav'' = Some (wav_file os (wav_of rx))"
    by auto
  have "dget d2 (stage_file ''conversion'') = dget d1 (stage_file ''conversion'')"
    by (rule convert_channels_frame[OF 2(1)]) (auto simp: sf tmp_wav_path_def wav_path_def)
  with lw(1) have w: "dget d2 (stage_file ''conversion'') = Some (json_file os (lease_payload lease))" by simp
  have ok: "uuid_ok (lease_owner lease)"
  proof -
    obtain d0 where "acquire_lease_unlocked os ttl d0 ''conversion'' call_id None None None = (Inr lease, d1)"
      using locked_other[of os d "\<lambda>d0. acquire_lease_unlocked os ttl d0 ''conversion'' call_id None None None"] acq
      by (metis acquire_lease_def)
    from acquire_unlocked_ok(1)[OF this] assms(4) show ?thesis by (simp add: new_lease_def)
  qed
  from release_written_gone[OF w lw(2) ok _ lw(4)] lw(3) assms(5) obtain d3 where
    3: "release_lease os_end d2 ''conversion'' (lease_owner lease) = (Inr True, d3)"
      "dget d3 (stage_file ''conversion'') = None" by blast
  have "dget d3 n = dget d2 n" if "n \<in> {''tx.wav'', ''rx.wav''}" for n
  proof -
    from that have "n \<notin> lease_files ''conversion''" by (auto simp: lease_files_def sf)
    then show ?thesis by (rule release_lease_other[OF 3(1)])
  qed
  with 2 3 acq show ?thesis by (simp add: upload_recording_batch_def)
qed

text \<open>A conversion job that finds a stage of another owner active, the capture itself included,
  converts nothing and reports already_processing; the job ends there and is not repeated.\<close>

theorem busy_call_is_not_converted:
  assumes "readable d" and "active_lease d (env_now os) st l"
  shows "\<exists>d'. upload_recording_batch ffmpeg os ttl fate os_end call_id (Some d) = (Inr [AlreadyProcessing], Some d')
    \<and> (\<forall>n. n \<noteq> LIFECYCLE_LOCK_FILE \<longrightarrow> dget d' n = dget d n)"
proof -
  from acquire_lease_conflict[OF assms(1), of None os st l None ttl "''conversion''" call_id None] assms(2)
  obtain d' st' where "acquire_lease os ttl d ''conversion'' call_id None None None = (Inl (LeaseBusyError st'), d')"
    "\<forall>n. n \<noteq> LIFECYCLE_LOCK_FILE \<longrightarrow> dget d' n = dget d n"
    by (auto simp: now_of_def)
  then show ?thesis by (simp add: upload_recording_batch_def)
qed

section \<open>Concrete conversions\<close>

definition copying_ffmpeg :: "content \<Rightarrow> ffmpeg_run" where
  "copying_ffmpeg c = (case c of Bytes bs \<Rightarrow> Converted (wav_of (le_samples bs)) | _ \<Rightarrow> Exit 1 [])"

definition raw_pair :: dir where
  "raw_pair = [(''tx.raw'', new_file env_a 4 (Bytes (le_bytes [1, 2]))), (''rx.raw'', new_file env_a 4 (Bytes (le_bytes [3, 4])))]"

lemma raw_pair_free:
  "\<exists>l d1. acquire_lease env_a 120 raw_pair ''conversion'' ''call-1'' None None None = (Inr l, d1)"
proof -
  have g: "dget raw_pair (stage_file st) = None" for st
    by (simp add: raw_pair_def dget_def stage_file_def)
  then have v: "lease_at raw_pair st = None" for st
    by (simp add: lease_at_def read_lease_def load_json_def)
  have r: "readable raw_pair" "plain_files raw_pair"
    using g by (simp_all add: readable_def plain_files_def read_lease_def load_json_def)
  have nc: "no_conflict raw_pair t ow" for t ow
    using v by (simp add: no_conflict_def active_lease_def)
  show ?thesis
    using acquire_lease_refines_aux[of raw_pair env_a "''conversion''" None "''call-1''" None 120 None] r nc
    by (auto simp: Let_def split: prod.splits)
qed

theorem upload_converts_both_channels_witness:
  "\<exists>d'. upload_recording_batch copying_ffmpeg env_a 120 (\<lambda>_. Alive) env_a ''call-1'' (Some raw_pair) =
      (Inr [Uploaded ''tx.wav'' ''tx'', Uploaded ''rx.wav'' ''rx''], Some d')
    \<and> dget d' ''tx.wav'' = Some (wav_file env_a (wav_of [1, 2]))"
proof -
  obtain l d1 where acq: "acquire_lease env_a 120 raw_pair ''conversion'' ''call-1'' None None None = (Inr l, d1)"
    using raw_pair_free by blast
  have ff: "ffmpeg_keeps_samples copying_ffmpeg"
    by (simp add: ffmpeg_keeps_samples_def copying_ffmpeg_def)
  have f: "dget raw_pair ''tx.raw'' = Some (new_file env_a 4 (Bytes (le_bytes [1, 2])))"
    "dget raw_pair ''rx.raw'' = Some (new_file env_a 4 (Bytes (le_bytes [3, 4])))"
    "plain_audio raw_pair ''tx''" "plain_audio raw_pair ''rx''"
    by (simp_all add: raw_pair_def dget_def plain_audio_def tmp_wav_path_def wav_path_def)
  show ?thesis
    using upload_converts_both_channels[OF ff _ acq _ _ f(1) _ f(2) _ f(3,4), of "\<lambda>_. Alive" "[1, 2]" "[3, 4]" env_a]
    by (auto simp: new_file_def)
qed

theorem busy_call_is_not_converted_witness:
  "\<exists>d'. upload_recording_batch copying_ffmpeg env_a 120 (\<lambda>_. Alive) env_a ''call-1'' (Some held_dir)
     = (Inr [AlreadyProcessing], Some d')"
proof -
  have "active_lease held_dir (env_now env_a) ''capture'' held_lease"
    by (simp add: active_lease_def held_view held_lease_def)
  from busy_call_is_not_converted[OF held_dir_ok(1) this] show ?thesis by blast
qed

end
