(* ===== verification/Json_Text.thy ===== *)
theory Json_Text
  imports Py_Data
begin

text \<open>
  \<open>json.loads\<close> on text: the scanner of the standard library's decoder, which accepts blanks
  around tokens, refuses control characters in strings, lets the last of two equal keys of an
  object win, and refuses text after the document. None is \<open>JSONDecodeError\<close>. A character is a code
  point below 256, as everywhere in the model, so text with an escape above that counts as an
  error, as do the literals \<open>NaN\<close> and \<open>Infinity\<close>, which are not JSON. The fuel of the mutual recursion
  bounds its depth: a value or a list of values opens with a character of its own, so twice
  the length of the text is never used up.
\<close>

definition json_ws :: "char \<Rightarrow> bool" where
  "json_ws c \<longleftrightarrow> c = CHR '' '' \<or> c = CHR 0x09 \<or> c = CHR 0x0A \<or> c = CHR 0x0D"

definition skip_ws :: "string \<Rightarrow> string" where
  "skip_ws s = dropWhile json_ws s"

definition hex_value :: "char \<Rightarrow> nat" where
  "hex_value c = (let n = of_char c :: nat in if n \<le> 57 then n - 48 else if n \<le> 70 then n - 55 else n - 87)"

definition hex4 :: "string \<Rightarrow> (nat \<times> string) option" where
  "hex4 s = (case s of a # b # c # d # t \<Rightarrow>
        if is_hex a \<and> is_hex b \<and> is_hex c \<and> is_hex d
        then Some (((hex_value a * 16 + hex_value b) * 16 + hex_value c) * 16 + hex_value d, t) else None
      | _ \<Rightarrow> None)"

text \<open>After \<open>\u\<close>: a code point.\<close>

definition parse_u :: "string \<Rightarrow> (string \<times> string) option" where
  "parse_u s = (case hex4 s of
      None \<Rightarrow> None | Some (n, t) \<Rightarrow> if n < 256 then Some ([char_of n], t) else None)"

definition simple_escape :: "char \<Rightarrow> char option" where
  "simple_escape c =
     (if c = CHR 0x22 \<or> c = CHR 0x5C \<or> c = CHR ''/'' then Some c
      else if c = CHR ''b'' then Some (CHR 0x08) else if c = CHR ''f'' then Some (CHR 0x0C)
      else if c = CHR ''n'' then Some (CHR 0x0A) else if c = CHR ''r'' then Some (CHR 0x0D)
      else if c = CHR ''t'' then Some (CHR 0x09) else None)"

text \<open>The rest of a string literal after its opening quote.\<close>

fun parse_str :: "nat \<Rightarrow> string \<Rightarrow> (string \<times> string) option" where
  "parse_str 0 s = None"
| "parse_str (Suc n) s =
     (case s of
        [] \<Rightarrow> None
      | c # t \<Rightarrow>
         if c = CHR 0x22 then Some ([], t)
         else if c = CHR 0x5C then
           (case t of
              [] \<Rightarrow> None
            | e # u \<Rightarrow>
               if e = CHR ''u''
               then (case parse_u u of None \<Rightarrow> None
                     | Some (x, v) \<Rightarrow> (case parse_str n v of None \<Rightarrow> None | Some (y, w) \<Rightarrow> Some (x @ y, w)))
               else (case simple_escape e of None \<Rightarrow> None
                     | Some x \<Rightarrow> (case parse_str n u of None \<Rightarrow> None | Some (y, w) \<Rightarrow> Some (x # y, w))))
         else if (of_char c :: nat) < 32 then None
         else (case parse_str n t of None \<Rightarrow> None | Some (y, w) \<Rightarrow> Some (c # y, w)))"

fun digits_value :: "nat \<Rightarrow> string \<Rightarrow> nat" where
  "digits_value acc [] = acc"
| "digits_value acc (c # cs) = digits_value (acc * 10 + (of_char c - 48)) cs"

definition pow10 :: "int \<Rightarrow> rat" where
  "pow10 e = (if e < 0 then 1 / 10 ^ nat (- e) else 10 ^ nat e)"

definition parse_num :: "string \<Rightarrow> (json \<times> string) option" where
  "parse_num s =
     (let neg = (case s of c # _ \<Rightarrow> c = CHR ''-'' | [] \<Rightarrow> False);
          s1 = (if neg then tl s else s);
          ip = (case s1 of c # _ \<Rightarrow> if c = CHR ''0'' then [c] else takeWhile is_digit s1 | [] \<Rightarrow> []);
          s2 = drop (length ip) s1;
          fp = (case s2 of c # t \<Rightarrow> if c = CHR ''.'' then takeWhile is_digit t else [] | [] \<Rightarrow> []);
          s3 = (if fp = [] then s2 else drop (1 + length fp) s2);
          es = (case s3 of c # t \<Rightarrow> if c = CHR ''e'' \<or> c = CHR ''E'' then
                   (case t of d # u \<Rightarrow> if d = CHR ''+'' \<or> d = CHR ''-'' then [d] else [] | [] \<Rightarrow> []) else [] | [] \<Rightarrow> []);
          ep = (case s3 of c # t \<Rightarrow> if c = CHR ''e'' \<or> c = CHR ''E'' then takeWhile is_digit (drop (length es) t) else []
                | [] \<Rightarrow> []);
          s4 = (if ep = [] then s3 else drop (1 + length es + length ep) s3);
          sgn = (if neg then - 1 else 1)
      in if ip = [] then None
         else if fp = [] \<and> ep = [] then Some (JInt (sgn * int (digits_value 0 ip)), s4)
         else Some (JFloat (of_int sgn * of_nat (digits_value 0 (ip @ fp))
                * pow10 ((if es = ''-'' then - 1 else 1) * int (digits_value 0 ep) - int (length fp)))
              (take (length s - length s4) s), s4))"

fun parse_value :: "nat \<Rightarrow> string \<Rightarrow> (json \<times> string) option"
  and parse_items :: "nat \<Rightarrow> string \<Rightarrow> (json list \<times> string) option"
  and parse_members :: "nat \<Rightarrow> string \<Rightarrow> ((string \<times> json) list \<times> string) option" where
  "parse_value 0 s = None"
| "parse_value (Suc n) s =
     (case s of
        [] \<Rightarrow> None
      | c # t \<Rightarrow>
         if c = CHR 0x22 then (case parse_str (length s) t of None \<Rightarrow> None | Some (x, u) \<Rightarrow> Some (JStr x, u))
         else if c = CHR 0x7B then
           (case skip_ws t of
              d # u \<Rightarrow> if d = CHR 0x7D then Some (JObj [], u)
                else (case parse_members n (d # u) of None \<Rightarrow> None
                      | Some (kvs, v) \<Rightarrow> Some (JObj (fold (\<lambda>(k, x). AList.update k x) kvs []), v))
            | [] \<Rightarrow> None)
         else if c = CHR ''['' then
           (case skip_ws t of
              d # u \<Rightarrow> if d = CHR '']'' then Some (JList [], u)
                else (case parse_items n (d # u) of None \<Rightarrow> None | Some (xs, v) \<Rightarrow> Some (JList xs, v))
            | [] \<Rightarrow> None)
         else if starts_with ''null'' s then Some (JNull, drop 4 s)
         else if starts_with ''true'' s then Some (JBool True, drop 4 s)
         else if starts_with ''false'' s then Some (JBool False, drop 5 s)
         else parse_num s)"
| "parse_items 0 s = None"
| "parse_items (Suc n) s =
     (case parse_value n s of
        None \<Rightarrow> None
      | Some (x, t) \<Rightarrow>
         (case skip_ws t of
            c # u \<Rightarrow>
              if c = CHR '']'' then Some ([x], u)
              else if c = CHR '','' then
                (case parse_items n (skip_ws u) of None \<Rightarrow> None | Some (xs, v) \<Rightarrow> Some (x # xs, v))
              else None
          | [] \<Rightarrow> None))"
| "parse_members 0 s = None"
| "parse_members (Suc n) s =
     (case s of
        c # t \<Rightarrow>
          if c \<noteq> CHR 0x22 then None
          else (case parse_str (length s) t of
              None \<Rightarrow> None
            | Some (k, u) \<Rightarrow>
               (case skip_ws u of
                  d # v \<Rightarrow>
                    if d \<noteq> CHR '':'' then None
                    else (case parse_value n (skip_ws v) of
                        None \<Rightarrow> None
                      | Some (x, w) \<Rightarrow>
                         (case skip_ws w of
                            e # y \<Rightarrow>
                              if e = CHR 0x7D then Some ([(k, x)], y)
                              else if e = CHR '','' then
                                (case parse_members n (skip_ws y) of None \<Rightarrow> None | Some (kvs, z) \<Rightarrow> Some ((k, x) # kvs, z))
                              else None
                          | [] \<Rightarrow> None))
                | [] \<Rightarrow> None))
      | [] \<Rightarrow> None)"

definition json_loads :: "string \<Rightarrow> json option" where
  "json_loads s = (case parse_value (2 * length s + 2) (skip_ws s) of
      None \<Rightarrow> None | Some (j, t) \<Rightarrow> if skip_ws t = [] then Some j else None)"

end
