(* ===== verification/Json_Laws.thy ===== *)
theory Json_Laws
  imports Json_Text
begin

text \<open>
  \<open>json.loads\<close> undoes \<open>json.dumps\<close>: a document of null, booleans, numbers without a fraction,
  any text, lists and objects with distinct keys is read back as it was, whatever follows it in
  the text. The scanner is proved on a document in front of an arbitrary rest, so that lists and
  objects follow from their parts. Floats and dates are left out: their text is not part of what
  the laws speak about.
\<close>

section \<open>Documents that survive\<close>

fun json_plain :: "json \<Rightarrow> bool" where
  "json_plain (JFloat _ _) = False"
| "json_plain (JIso _) = False"
| "json_plain (JList xs) = (\<forall>x\<in>set xs. json_plain x)"
| "json_plain (JObj kvs) = (distinct (map fst kvs) \<and> (\<forall>kv\<in>set kvs. json_plain (snd kv)))"
| "json_plain _ = True"

section \<open>Strings\<close>

lemma hex_digit_facts:
  assumes "k < 16"
  shows "hex_value (hex_digit k) = k" and "is_hex (hex_digit k)"
proof -
  have "(of_char (hex_digit k) :: nat) = (if k < 10 then 48 + k else 87 + k)"
    using assms by (simp add: hex_digit_def)
  then show "hex_value (hex_digit k) = k" "is_hex (hex_digit k)"
    using assms by (auto simp: hex_value_def is_hex_def is_digit_def Let_def)
qed

lemma char_codes:
  "char_of (8::nat) = CHR 0x08" "char_of (9::nat) = CHR 0x09" "char_of (10::nat) = CHR 0x0A" "char_of (12::nat) = CHR 0x0C"
  "char_of (13::nat) = CHR 0x0D" "char_of (34::nat) = CHR 0x22" "char_of (48::nat) = CHR ''0''" "char_of (92::nat) = CHR 0x5C"
  by code_simp+

lemma char_is: "(of_char c :: nat) = n \<Longrightarrow> c = char_of n"
  by auto

lemma parse_str_char:
  "parse_str (Suc n) (dumps_char c @ t) = map_option (\<lambda>(y, w). (c # y, w)) (parse_str n t)"
proof -
  let ?n = "of_char c :: nat"
  have u: "parse_u (CHR ''0'' # CHR ''0'' # hex_digit (?n div 16) # hex_digit (?n mod 16) # t) = Some ([c], t)"
  proof -
    have b: "?n < 256" "?n div 16 < 16" by (simp, simp add: less_mult_imp_div_less)
    have "is_hex (CHR ''0'')" "hex_value (CHR ''0'') = 0" by (simp_all add: is_hex_def is_digit_def hex_value_def)
    with b hex_digit_facts[of "?n div 16"] hex_digit_facts[of "?n mod 16"] show ?thesis
      by (simp add: parse_u_def hex4_def)
  qed
  show ?thesis
    using u by (auto simp: dumps_char_def Let_def simple_escape_def char_codes dest!: char_is split: option.splits)
qed

lemma parse_str_text:
  "length s < n \<Longrightarrow> parse_str n (concat (map dumps_char s) @ CHR 0x22 # t) = Some (s, t)"
proof (induction s arbitrary: n)
  case Nil
  then show ?case by (cases n) simp_all
next
  case (Cons c s)
  then obtain m where "n = Suc m" "length s < m" by (cases n) auto
  with Cons.IH[of m] show ?case by (simp add: parse_str_char del: parse_str.simps)
qed

lemma dumps_char_not_Nil [simp]: "dumps_char c \<noteq> []"
  by (simp add: dumps_char_def Let_def)

lemma length_dumps_text: "length s \<le> length (concat (map dumps_char s))"
proof (induction s)
  case (Cons c s)
  have "1 \<le> length (dumps_char c)" by (simp add: Suc_le_eq)
  with Cons show ?case by simp
qed simp

lemma parse_str_dumps:
  "length (dumps_str s @ t) \<le> n \<Longrightarrow> parse_str n (concat (map dumps_char s) @ CHR 0x22 # t) = Some (s, t)"
  using length_dumps_text[of s] by (intro parse_str_text) (simp add: dumps_str_def)

section \<open>Integers\<close>

text \<open>What may stand behind a number: nothing that would continue it.\<close>

definition number_ends :: "string \<Rightarrow> bool" where
  "number_ends t \<longleftrightarrow> (case t of [] \<Rightarrow> True | c # _ \<Rightarrow> \<not> is_digit c \<and> c \<notin> set ''.eE'')"

lemma digit_char_value: "k < 10 \<Longrightarrow> of_char (digit_char k) = (48 + k :: nat)"
  by (simp add: digit_char_def)

lemma digits_value_append: "digits_value acc (xs @ ys) = digits_value (digits_value acc xs) ys"
  by (induction xs arbitrary: acc) simp_all

lemma digits_value_nat_str: "digits_value 0 (nat_str n) = n"
proof (induction n rule: nat_str.induct)
  case (1 n)
  then show ?case by (subst nat_str.simps) (simp add: digits_value_append digit_char_value)
qed

lemma nat_str_zero_first: "hd (nat_str n) = CHR ''0'' \<longleftrightarrow> n = 0"
proof (induction n rule: nat_str.induct)
  case (1 n)
  have "digit_char n = CHR ''0'' \<longleftrightarrow> n = 0" if "n < 10"
  proof
    assume "digit_char n = CHR ''0''"
    then show "n = 0" using digit_char_value[OF that] by simp
  qed (simp add: digit_char_def char_codes)
  with 1 show ?case by (subst nat_str.simps) auto
qed

lemma nat_str_taken:
  assumes "number_ends t"
  shows "takeWhile is_digit (nat_str n @ t) = nat_str n"
proof -
  have "takeWhile is_digit t = []" using assms by (auto simp: number_ends_def split: list.splits)
  then show ?thesis using nat_str_digits[of n] by (simp add: takeWhile_append2)
qed

lemma nat_str_first: "nat_str n = c # cs \<Longrightarrow> is_digit c \<and> c \<noteq> CHR ''-'' \<and> (c = CHR ''0'' \<longleftrightarrow> n = 0)"
  using nat_str_digits[of n] nat_str_zero_first[of n] by (auto simp: is_digit_def)

lemma parse_num_digits:
  assumes "number_ends t" and "is_digit c" and "c \<noteq> CHR ''-''"
    and "if c = CHR ''0'' then cs = [] else takeWhile is_digit (cs @ t) = cs"
  shows "parse_num (c # cs @ t) = Some (JInt (int (digits_value 0 (c # cs))), t)"
    and "parse_num (CHR ''-'' # c # cs @ t) = Some (JInt (- int (digits_value 0 (c # cs))), t)"
proof -
  have "parse_num (c # cs @ t) = Some (JInt (int (digits_value 0 (c # cs))), t)
    \<and> parse_num (CHR ''-'' # c # cs @ t) = Some (JInt (- int (digits_value 0 (c # cs))), t)"
  proof (cases t)
    case Nil
    then show ?thesis
      using assms(2-4) by (cases "c = CHR ''0''") (simp_all add: parse_num_def Let_def del: digits_value.simps takeWhile_eq_all_conv)
  next
    case (Cons d u)
    then have "d \<noteq> CHR ''.''" "d \<noteq> CHR ''e''" "d \<noteq> CHR ''E''"
      using assms(1) by (simp_all add: number_ends_def)
    with Cons show ?thesis
      using assms(2-4) by (cases "c = CHR ''0''") (simp_all add: parse_num_def Let_def del: digits_value.simps takeWhile_eq_all_conv)
  qed
  then show "parse_num (c # cs @ t) = Some (JInt (int (digits_value 0 (c # cs))), t)"
    "parse_num (CHR ''-'' # c # cs @ t) = Some (JInt (- int (digits_value 0 (c # cs))), t)"
    by blast+
qed

lemma parse_num_nat:
  assumes "number_ends t"
  shows "parse_num (nat_str n @ t) = Some (JInt (int n), t)"
    and "parse_num (CHR ''-'' # nat_str n @ t) = Some (JInt (- int n), t)"
proof -
  obtain c cs where c: "nat_str n = c # cs" by (cases "nat_str n") auto
  have cs: "if c = CHR ''0'' then cs = [] else takeWhile is_digit (cs @ t) = cs"
  proof (cases "n = 0")
    case True
    then have "nat_str n = ''0''" by (subst nat_str.simps) (simp add: digit_char_def char_codes)
    with c show ?thesis by simp
  next
    case False
    with nat_str_first[OF c] nat_str_taken[OF assms, of n] c show ?thesis by simp
  qed
  then show "parse_num (nat_str n @ t) = Some (JInt (int n), t)"
    "parse_num (CHR ''-'' # nat_str n @ t) = Some (JInt (- int n), t)"
    using parse_num_digits[OF assms _ _ cs] nat_str_first[OF c] digits_value_nat_str[of n] c
    by (simp_all del: digits_value.simps)
qed

lemma parse_num_int: "number_ends t \<Longrightarrow> parse_num (int_str i @ t) = Some (JInt i, t)"
  by (simp add: int_str_def parse_num_nat)

section \<open>Documents\<close>

definition reads :: "json \<Rightarrow> bool" where
  "reads j \<longleftrightarrow> (\<forall>n t. 2 * length (json_dumps j) \<le> n \<longrightarrow> number_ends t \<longrightarrow> parse_value n (json_dumps j @ t) = Some (j, t))"

lemma readsD: "reads j \<Longrightarrow> 2 * length (json_dumps j) \<le> n \<Longrightarrow> number_ends t \<Longrightarrow> parse_value n (json_dumps j @ t) = Some (j, t)"
  by (simp add: reads_def)

definition opens :: "string \<Rightarrow> bool" where
  "opens s \<longleftrightarrow> (\<exists>c u. s = c # u \<and> \<not> json_ws c \<and> c \<noteq> CHR '']'' \<and> c \<noteq> CHR 0x7D)"

lemma opens_dumps_str [simp]: "opens (dumps_str s)"
  by (simp add: opens_def dumps_str_def json_ws_def)

lemma opens_append: "opens s \<Longrightarrow> opens (s @ t)"
  by (auto simp: opens_def)

lemma skip_ws_opens: "opens s \<Longrightarrow> skip_ws s = s"
  by (auto simp: opens_def skip_ws_def)

lemma opens_int_str: "opens (int_str i)"
proof -
  have "opens (nat_str n)" for n
  proof -
    obtain c cs where c: "nat_str n = c # cs" by (cases "nat_str n") auto
    with nat_str_first[OF c] show ?thesis by (auto simp: opens_def json_ws_def is_digit_def)
  qed
  then show ?thesis by (auto simp: int_str_def opens_def json_ws_def)
qed

lemma opens_dumps: "json_plain j \<Longrightarrow> opens (json_dumps j)"
  by (cases j) (simp_all add: opens_int_str, simp_all add: opens_def json_ws_def)

lemma number_ends_simps [simp]:
  "number_ends []" "number_ends (CHR '','' # t)" "number_ends (CHR '']'' # t)" "number_ends (CHR 0x7D # t)"
  by (simp_all add: number_ends_def is_digit_def)

lemma parse_value_num:
  assumes "c = CHR ''-'' \<or> is_digit c"
  shows "parse_value (Suc n) (c # t) = parse_num (c # t)"
proof -
  have "c \<noteq> CHR 0x22" "c \<noteq> CHR 0x7B" "c \<noteq> CHR ''[''" "c \<noteq> CHR ''n''" "c \<noteq> CHR ''t''" "c \<noteq> CHR ''f''"
    using assms by (auto simp: is_digit_def)
  then show ?thesis by (simp add: starts_with_def)
qed

lemma int_reads: "reads (JInt i)"
proof -
  have "parse_value n (int_str i @ t) = Some (JInt i, t)" if "2 * length (int_str i) \<le> n" "number_ends t" for n t
  proof -
    obtain c cs where c: "int_str i = c # cs" "c = CHR ''-'' \<or> is_digit c"
    proof (cases "i < 0")
      case True
      then show ?thesis using that by (simp add: int_str_def)
    next
      case False
      obtain d ds where d: "nat_str (nat i) = d # ds" by (cases "nat_str (nat i)") auto
      with False nat_str_first[OF d] that show ?thesis by (simp add: int_str_def)
    qed
    from that(1) c(1) obtain m where "n = Suc m" by (cases n) auto
    with c parse_num_int[OF that(2), of i] show ?thesis by (simp add: parse_value_num del: parse_value.simps)
  qed
  then show ?thesis by (simp add: reads_def)
qed

lemma str_reads: "reads (JStr s)"
proof -
  have "parse_value n (dumps_str s @ t) = Some (JStr s, t)" if "2 * length (dumps_str s) \<le> n" for n t
  proof -
    from that obtain m where m: "n = Suc m" by (cases n) (auto simp: dumps_str_def)
    have "parse_str (length (dumps_str s @ t)) (concat (map dumps_char s) @ CHR 0x22 # t) = Some (s, t)"
      by (rule parse_str_dumps) simp
    with m show ?thesis by (simp add: dumps_str_def)
  qed
  then show ?thesis by (simp add: reads_def)
qed

lemma constants_read: "reads JNull" "reads (JBool b)"
proof -
  have "parse_value n (''null'' @ t) = Some (JNull, t)" "parse_value n (''true'' @ t) = Some (JBool True, t)"
    "parse_value n (''false'' @ t) = Some (JBool False, t)" if "1 \<le> n" for n t
    using that by (cases n; simp add: starts_with_def)+
  then show "reads JNull" "reads (JBool b)" by (simp_all add: reads_def)
qed

lemma join_str_Cons: "ws \<noteq> [] \<Longrightarrow> join_str sep (w # ws) = w @ sep @ join_str sep ws"
  by (cases ws) simp_all

lemma parse_items_dumps:
  assumes "xs \<noteq> []" and "\<forall>x\<in>set xs. json_plain x \<and> reads x"
    and "2 * length (join_str '', '' (map json_dumps xs)) + 1 \<le> n"
  shows "parse_items n (join_str '', '' (map json_dumps xs) @ CHR '']'' # t) = Some (xs, t)"
  using assms
proof (induction xs arbitrary: n)
  case Nil
  then show ?case by simp
next
  case (Cons x xs)
  from Cons.prems(3) obtain m where m: "n = Suc m" by (cases n) auto
  show ?case
  proof (cases "xs = []")
    case True
    with Cons.prems m have "parse_value m (json_dumps x @ CHR '']'' # t) = Some (x, CHR '']'' # t)"
      by (intro readsD) simp_all
    with True m show ?thesis by (simp add: skip_ws_def json_ws_def)
  next
    case False
    let ?rest = "join_str '', '' (map json_dumps xs)"
    have j: "join_str '', '' (map json_dumps (x # xs)) = json_dumps x @ '', '' @ ?rest"
      using False by (simp add: join_str_Cons)
    have "2 * length ?rest + 1 \<le> m" using Cons.prems(3) m by (simp add: j del: join_str.simps list.map)
    then have i: "parse_items m (?rest @ CHR '']'' # t) = Some (xs, t)"
      using Cons.prems(2) False by (intro Cons.IH) simp_all
    obtain y ys where "xs = y # ys" using False by (cases xs) auto
    then have "opens ?rest" using Cons.prems(2) opens_dumps[of y] opens_append by (cases ys) auto
    then have o: "skip_ws (CHR '' '' # ?rest @ CHR '']'' # t) = ?rest @ CHR '']'' # t"
      using skip_ws_opens[OF opens_append] by (simp add: skip_ws_def json_ws_def)
    have v: "parse_value m (json_dumps x @ CHR '','' # CHR '' '' # ?rest @ CHR '']'' # t)
        = Some (x, CHR '','' # CHR '' '' # ?rest @ CHR '']'' # t)"
      using Cons.prems m by (intro readsD) (simp_all add: j del: join_str.simps list.map)
    have "skip_ws (CHR '','' # z) = CHR '','' # z" for z by (simp add: skip_ws_def json_ws_def)
    with i o v show ?thesis
      unfolding j m by (simp del: join_str.simps list.map)
  qed
qed

lemma list_reads:
  assumes "\<forall>x\<in>set xs. json_plain x \<and> reads x"
  shows "reads (JList xs)"
proof -
  have "parse_value n (json_dumps (JList xs) @ t) = Some (JList xs, t)" if n: "2 * length (json_dumps (JList xs)) \<le> n" for n t
  proof -
    obtain m where m: "n = Suc m" using n by (cases n) auto
    show ?thesis
    proof (cases xs)
      case Nil
      with m show ?thesis by (simp add: skip_ws_def json_ws_def)
    next
      case (Cons y ys)
      let ?body = "join_str '', '' (map json_dumps xs)"
      have "opens ?body" using Cons assms opens_dumps[of y] opens_append by (cases ys) auto
      then obtain c u where c: "?body = c # u" "\<not> json_ws c" "c \<noteq> CHR '']''" by (auto simp: opens_def)
      have "parse_items m (?body @ CHR '']'' # t) = Some (xs, t)"
        using n m Cons assms by (intro parse_items_dumps) simp_all
      with c m show ?thesis by (simp add: skip_ws_def)
    qed
  qed
  then show ?thesis by (simp add: reads_def)
qed

definition member_text :: "string \<times> json \<Rightarrow> string" where
  "member_text kv = dumps_str (fst kv) @ '': '' @ json_dumps (snd kv)"

lemma parse_member:
  assumes "json_plain (snd kv)" and "reads (snd kv)" and "2 * length (member_text kv) \<le> n" and "number_ends t"
    and "skip_ws t = d # y" and "d = CHR '','' \<or> d = CHR 0x7D"
  shows "parse_members (Suc n) (member_text kv @ t) =
    (if d = CHR 0x7D then Some ([kv], y)
     else map_option (\<lambda>(kvs, z). (kv # kvs, z)) (parse_members n (skip_ws y)))"
proof -
  let ?v = "json_dumps (snd kv)"
  have "parse_str (length (dumps_str (fst kv) @ '': '' @ ?v @ t)) (concat (map dumps_char (fst kv)) @ CHR 0x22 # ('': '' @ ?v @ t))
      = Some (fst kv, '': '' @ ?v @ t)"
    by (rule parse_str_dumps) simp
  moreover have "skip_ws ('': '' @ ?v @ t) = '': '' @ ?v @ t" by (simp add: skip_ws_def json_ws_def)
  moreover have "skip_ws (CHR '' '' # ?v @ t) = ?v @ t"
    using skip_ws_opens[OF opens_append[OF opens_dumps[OF assms(1)]]] by (simp add: skip_ws_def json_ws_def)
  moreover have "parse_value n (?v @ t) = Some (snd kv, t)"
    using assms by (intro readsD) (simp_all add: member_text_def)
  ultimately show ?thesis
    using assms(5,6) by (auto simp: member_text_def dumps_str_def split: option.splits)
qed

lemma opens_member: "opens (member_text kv)"
  by (simp add: member_text_def opens_append)

lemma parse_members_dumps:
  assumes "kvs \<noteq> []" and "\<forall>kv\<in>set kvs. json_plain (snd kv) \<and> reads (snd kv)"
    and "2 * length (join_str '', '' (map member_text kvs)) + 1 \<le> n"
  shows "parse_members n (join_str '', '' (map member_text kvs) @ CHR 0x7D # t) = Some (kvs, t)"
  using assms
proof (induction kvs arbitrary: n)
  case Nil
  then show ?case by simp
next
  case (Cons kv kvs)
  from Cons.prems(3) obtain m where m: "n = Suc m" by (cases n) auto
  have p: "json_plain (snd kv)" "reads (snd kv)" using Cons.prems(2) by simp_all
  show ?case
  proof (cases "kvs = []")
    case True
    with Cons.prems(3) m show ?thesis
      using parse_member[OF p, of m "CHR 0x7D # t" "CHR 0x7D" t] by (simp add: skip_ws_def json_ws_def)
  next
    case False
    let ?rest = "join_str '', '' (map member_text kvs)"
    have j: "join_str '', '' (map member_text (kv # kvs)) = member_text kv @ '', '' @ ?rest"
      using False by (simp add: join_str_Cons)
    have l: "2 * length (member_text kv) \<le> m" "2 * length ?rest + 1 \<le> m"
      using Cons.prems(3) m by (simp_all add: j del: join_str.simps list.map)
    then have i: "parse_members m (?rest @ CHR 0x7D # t) = Some (kvs, t)"
      using Cons.prems(2) False by (intro Cons.IH) simp_all
    obtain y ys where "kvs = y # ys" using False by (cases kvs) auto
    then have "opens ?rest" using opens_member[of y] opens_append by (cases ys) auto
    then have o: "skip_ws (CHR '' '' # ?rest @ CHR 0x7D # t) = ?rest @ CHR 0x7D # t"
      using skip_ws_opens[OF opens_append] by (simp add: skip_ws_def json_ws_def)
    have "skip_ws (CHR '','' # z) = CHR '','' # z" for z by (simp add: skip_ws_def json_ws_def)
    from parse_member[OF p l(1), of "CHR '','' # CHR '' '' # ?rest @ CHR 0x7D # t", OF _ this]
    show ?thesis unfolding j m by (simp add: o i del: join_str.simps list.map parse_members.simps)
  qed
qed

lemma update_fresh: "k \<notin> fst ` set al \<Longrightarrow> AList.update k v al = al @ [(k, v)]"
  by (induction al) auto

lemma updates_new:
  "distinct (map fst (acc @ kvs)) \<Longrightarrow> fold (\<lambda>(k, x). AList.update k x) kvs acc = acc @ kvs"
proof (induction kvs arbitrary: acc)
  case Nil
  then show ?case by simp
next
  case (Cons kv kvs)
  then have "AList.update (fst kv) (snd kv) acc = acc @ [kv]"
    using update_fresh[of "fst kv" acc "snd kv"] by simp
  with Cons.IH[of "acc @ [kv]"] Cons.prems show ?case by (simp add: case_prod_beta)
qed

lemma object_reads:
  assumes "\<forall>kv\<in>set kvs. json_plain (snd kv) \<and> reads (snd kv)" and "distinct (map fst kvs)"
  shows "reads (JObj kvs)"
proof -
  have shape: "json_dumps (JObj kvs) = CHR 0x7B # join_str '', '' (map member_text kvs) @ [CHR 0x7D]"
    by (simp add: member_text_def[abs_def])
  have "parse_value n (json_dumps (JObj kvs) @ t) = Some (JObj kvs, t)" if n: "2 * length (json_dumps (JObj kvs)) \<le> n" for n t
  proof -
    obtain m where m: "n = Suc m" using n by (cases n) auto
    show ?thesis
    proof (cases kvs)
      case Nil
      with m show ?thesis by (simp add: skip_ws_def json_ws_def)
    next
      case (Cons y ys)
      let ?body = "join_str '', '' (map member_text kvs)"
      have "opens ?body" using Cons opens_member[of y] opens_append by (cases ys) auto
      then obtain c u where c: "?body = c # u" "\<not> json_ws c" "c \<noteq> CHR 0x7D" by (auto simp: opens_def)
      have "parse_members m (?body @ CHR 0x7D # t) = Some (kvs, t)"
        using n m Cons assms(1) unfolding shape by (intro parse_members_dumps) simp_all
      with c m updates_new[of "[]" kvs] assms(2) show ?thesis by (simp add: shape skip_ws_def del: json_dumps.simps)
    qed
  qed
  then show ?thesis by (simp add: reads_def)
qed

lemma plain_reads: "json_plain j \<Longrightarrow> reads j"
proof (induction j)
  case (JList xs)
  then show ?case by (intro list_reads) auto
next
  case (JObj kvs)
  then have "\<forall>kv\<in>set kvs. reads (snd kv)" by (auto simp: snds.simps)
  with JObj.prems show ?case by (intro object_reads) auto
qed (simp_all add: constants_read int_reads str_reads)

lemma loads_dumps:
  assumes "json_plain j"
  shows "json_loads (json_dumps j) = Some j"
proof -
  have "parse_value (2 * length (json_dumps j) + 2) (json_dumps j @ []) = Some (j, [])"
    by (rule readsD[OF plain_reads[OF assms]]) simp_all
  then show ?thesis
    using skip_ws_opens[OF opens_dumps[OF assms]] by (simp add: json_loads_def skip_ws_def)
qed

end
