(* ===== verification/Events.thy ===== *)
theory Events
  imports Json_Laws
begin

text \<open>
  \<open>events/redis_streams.py\<close>: how an event becomes the fields of a Redis stream entry and back.
  The Redis commands are arguments: each may raise, and the wrapper passes every exception on
  except the one that says the consumer group exists already.
\<close>

type_synonym event = "(string \<times> json) list"
type_synonym stream_entry = "(string \<times> string) list"

definition field_text :: "json \<Rightarrow> string" where
  "field_text v = (case v of JStr s \<Rightarrow> s | _ \<Rightarrow> json_dumps v)"

definition encode_event :: "event \<Rightarrow> stream_entry" where
  "encode_event ev = map (\<lambda>(k, v). (k, field_text v)) ev"

definition publish ::
    "(string \<Rightarrow> stream_entry \<Rightarrow> ('s, string) prog) \<Rightarrow> string \<Rightarrow> event \<Rightarrow> ('s, string) prog" where
  "publish xadd stream ev = xadd stream (encode_event ev)"

text \<open>\<open>consume\<close> flattens the answer of \<open>xreadgroup\<close>, None when there is none.\<close>

definition consume ::
    "(string \<Rightarrow> string \<Rightarrow> string \<Rightarrow> nat \<Rightarrow> nat
        \<Rightarrow> ('s, (string \<times> (string \<times> stream_entry) list) list option) prog)
     \<Rightarrow> string \<Rightarrow> string \<Rightarrow> string \<Rightarrow> nat \<Rightarrow> nat \<Rightarrow> ('s, (string \<times> stream_entry) list) prog" where
  "consume xreadgroup stream grp consumer n block =
     bindp (xreadgroup grp consumer stream n block)
       (\<lambda>messages. ret (case messages of None \<Rightarrow> [] | Some ms \<Rightarrow> concat (map snd ms)))"

definition ack ::
    "(string \<Rightarrow> string \<Rightarrow> string \<Rightarrow> ('s, unit) prog) \<Rightarrow> string \<Rightarrow> string \<Rightarrow> string \<Rightarrow> ('s, unit) prog" where
  "ack xack stream grp msg_id = xack stream grp msg_id"

text \<open>\<open>OtherError\<close> with the server's text stands for \<open>ResponseError\<close>.\<close>

fun is_busygroup :: "exc \<Rightarrow> bool" where
  "is_busygroup (OtherError text) = contains_str ''BUSYGROUP'' text"
| "is_busygroup _ = False"

definition create_group ::
    "(string \<Rightarrow> string \<Rightarrow> ('s, unit) prog) \<Rightarrow> string \<Rightarrow> string \<Rightarrow> ('s, unit) prog" where
  "create_group xgroup_create stream grp =
     catchp (xgroup_create stream grp) is_busygroup (\<lambda>_. ret ())"

lemma encode_event_lookup: "map_of (encode_event ev) k = map_option field_text (map_of ev k)"
  by (induction ev) (auto simp: encode_event_def)

text \<open>A reader of the stream gets every value back: text as it is, anything else by \<open>json.loads\<close>.\<close>

lemma field_reads_back:
  assumes "map_of ev k = Some v" and "json_plain v"
  shows "\<exists>t. map_of (encode_event ev) k = Some t \<and> (v = JStr t \<or> json_loads t = Some v)"
  using assms loads_dumps[of v] by (cases v) (auto simp: encode_event_lookup field_text_def)

end
