(* ===== verification/Ingestor.thy ===== *)
theory Ingestor
  imports Lease_Files Run_Laws Capacity Pcm Events
begin

text \<open>
  \<open>audio/ingestor.py\<close>: the capture of calls. The telephony server forks the audio of a call
  over a websocket; the ingestor admits it (\<open>Capacity\<close>), takes the capture lease (\<open>Lease\<close>),
  splits the stereo frames and appends them to one raw file per channel, and at the end
  publishes the files and queues the conversion. One handler runs between two \<open>await\<close>s without
  interruption, so each function is a step on the ingestor's state; what the environment
  answers (clock, disk, Redis, job queue) is in \<open>ingest_env\<close>. An open handle is the name of its
  channel: only the ingestor creates the temporary of a channel, and bytes written after the
  file was unlinked are lost. The counters live in the guard's metrics.
\<close>

record stream_meta =
  sm_tenant :: string
  sm_pbx :: string
  sm_agent :: string

record recording_state =
  rs_tenant :: string
  rs_owner :: string
  rs_handles :: "string list"
  rs_websocket :: "nat option"
  rs_failed :: "string list"

record ingestor =
  ig_streams :: "(string \<times> nat) list"
  ig_metadata :: "(string \<times> stream_meta) list"
  ig_recordings :: "(string \<times> recording_state) list"
  ig_guard :: guard
  ig_store :: store
  ig_events :: "(string \<times> stream_entry) list"
  ig_uploads :: "(string \<times> string) list"
  ig_closed :: "(nat \<times> nat) list"

text \<open>
  \<open>ie_write\<close> is the number of bytes the device takes, None when it refuses; an unbuffered
  \<open>write\<close> returns a short count without raising.
\<close>

record ingest_env =
  ie_os :: os_env
  ie_usage :: disk_usage
  ie_root :: "exc option"
  ie_mkdir :: "exc option"
  ie_open :: "string \<Rightarrow> bool"
  ie_write :: "string \<Rightarrow> nat option"
  ie_publish :: "exc option"
  ie_enqueue :: "exc option"

definition register_stream_metadata :: "string \<Rightarrow> string \<Rightarrow> string \<Rightarrow> string \<Rightarrow> ingestor \<Rightarrow> ingestor" where
  "register_stream_metadata call_id tenant_id pbx_id agent_extension s =
     s\<lparr>ig_metadata := AList.update call_id
        \<lparr>sm_tenant = tenant_id, sm_pbx = pbx_id, sm_agent = agent_extension\<rparr> (ig_metadata s)\<rparr>"

definition call_dir_of :: "ingestor \<Rightarrow> string \<Rightarrow> string \<Rightarrow> dir" where
  "call_dir_of s tenant call_id =
     (case map_of (ig_store s) (tenant, call_id) of None \<Rightarrow> [] | Some d \<Rightarrow> d)"

definition put_call_dir :: "string \<Rightarrow> string \<Rightarrow> dir \<Rightarrow> ingestor \<Rightarrow> ingestor" where
  "put_call_dir tenant call_id d s = s\<lparr>ig_store := AList.update (tenant, call_id) d (ig_store s)\<rparr>"

definition count_lease_failure :: "ingestor \<Rightarrow> ingestor" where
  "count_lease_failure s =
     s\<lparr>ig_guard := (ig_guard s)\<lparr>metrics := record_lease_failure ''capture'' (metrics (ig_guard s))\<rparr>\<rparr>"

definition release_capacity :: "string \<Rightarrow> ingestor \<Rightarrow> ingestor" where
  "release_capacity call_id s = s\<lparr>ig_guard := snd (release call_id (ig_guard s))\<rparr>"

fun is_lease_busy :: "exc \<Rightarrow> bool" where
  "is_lease_busy (LeaseBusyError _) = True"
| "is_lease_busy _ = False"

text \<open>The second half of \<open>_start_recording\<close>, once the space is reserved.\<close>

definition open_recording :: "settings \<Rightarrow> ingest_env \<Rightarrow> string \<Rightarrow> stream_meta \<Rightarrow> (ingestor, bool) prog" where
  "open_recording cfg env call_id md s =
     (case ie_mkdir env of
        Some e \<Rightarrow> (Inl e, s)
      | None \<Rightarrow>
         (case acquire_lease (ie_os env) (RECORDING_LEASE_TTL_SECONDS cfg) (call_dir_of s (sm_tenant md) call_id)
                 ''capture'' call_id None None None of
            (Inl e, d) \<Rightarrow>
              (let s1 = put_call_dir (sm_tenant md) call_id d s in
               if is_OSError e \<or> is_lease_busy e
               then (Inr False, count_lease_failure (release_capacity call_id s1))
               else (Inl e, s1))
          | (Inr lease, d) \<Rightarrow>
              (Inr True, (put_call_dir (sm_tenant md) call_id d s)
                 \<lparr>ig_recordings := AList.update call_id
                    \<lparr>rs_tenant = sm_tenant md, rs_owner = lease_owner lease, rs_handles = [],
                     rs_websocket = None, rs_failed = []\<rparr> (ig_recordings s)\<rparr>)))"

definition start_recording :: "settings \<Rightarrow> ingest_env \<Rightarrow> string \<Rightarrow> (ingestor, bool) prog" where
  "start_recording cfg env call_id s =
     (if map_of (ig_recordings s) call_id \<noteq> None then (Inr True, s)
      else case map_of (ig_metadata s) call_id of
        None \<Rightarrow> (Inr False, s)
      | Some md \<Rightarrow>
         (case ie_root env of
            Some e \<Rightarrow> (Inl e, s)
          | None \<Rightarrow>
             (case reserve (ie_usage env) (ig_store s) call_id (ig_guard s) of
                (Inl e, g) \<Rightarrow> (Inl e, s\<lparr>ig_guard := g\<rparr>)
              | (Inr ok, g) \<Rightarrow>
                  if ok then open_recording cfg env call_id md (s\<lparr>ig_guard := g\<rparr>)
                  else (Inr False, s\<lparr>ig_guard := g\<rparr>))))"

definition tmp_raw :: "string \<Rightarrow> string" where
  "tmp_raw channel = channel @ ''.tmp.raw''"

definition raw_name :: "string \<Rightarrow> string" where
  "raw_name channel = channel @ ''.raw''"

text \<open>\<open>open(path, "ab", buffering=0)\<close> and \<open>handle.write(data)\<close>.\<close>

definition open_append :: "ingest_env \<Rightarrow> string \<Rightarrow> dir \<Rightarrow> exc + dir" where
  "open_append env n d =
     (if \<not> ie_open env n then Inl (OSError ''open'')
      else case dget d n of
        None \<Rightarrow> Inr (dput n (new_file (ie_os env) 0 (Bytes [])) d)
      | Some f \<Rightarrow> if f_data f = Directory then Inl IsADirectoryError else Inr d)"

definition append_bytes :: "os_env \<Rightarrow> string \<Rightarrow> byte list \<Rightarrow> dir \<Rightarrow> dir" where
  "append_bytes os n bs d =
     (case dget d n of
        Some f \<Rightarrow> (case f_data f of
            Bytes old \<Rightarrow> dput n (f\<lparr>f_size := f_size f + length bs, f_mtime := env_now os * 1000,
                 f_data := Bytes (old @ bs)\<rparr>) d
          | _ \<Rightarrow> d)
      | None \<Rightarrow> d)"

definition mark_failed :: "string \<Rightarrow> string \<Rightarrow> recording_state \<Rightarrow> ingestor \<Rightarrow> ingestor" where
  "mark_failed call_id channel st s =
     s\<lparr>ig_recordings := AList.update call_id (st\<lparr>rs_failed := List.insert channel (rs_failed st)\<rparr>) (ig_recordings s)\<rparr>"

definition write_channel :: "ingest_env \<Rightarrow> string \<Rightarrow> string \<Rightarrow> byte list \<Rightarrow> ingestor \<Rightarrow> bool \<times> ingestor" where
  "write_channel env call_id channel data s =
     (case map_of (ig_recordings s) call_id of
        None \<Rightarrow> (False, s)
      | Some st \<Rightarrow>
         if channel \<notin> {''tx'', ''rx''} then (False, s)
         else
           (case (if channel \<in> set (rs_handles st) then Inr (call_dir_of s (rs_tenant st) call_id)
                  else open_append env (tmp_raw channel) (call_dir_of s (rs_tenant st) call_id)) of
              Inl e \<Rightarrow> (False, mark_failed call_id channel st s)
            | Inr d \<Rightarrow>
               (let st1 = (if channel \<in> set (rs_handles st) then st else st\<lparr>rs_handles := rs_handles st @ [channel]\<rparr>);
                    s1 = (put_call_dir (rs_tenant st) call_id d s)
                           \<lparr>ig_recordings := AList.update call_id st1 (ig_recordings s)\<rparr>
                in case ie_write env channel of
                     None \<Rightarrow> (False, mark_failed call_id channel st1 s1)
                   | Some n \<Rightarrow> (True, put_call_dir (rs_tenant st) call_id
                        (append_bytes (ie_os env) (tmp_raw channel) (take n data) d) s1))))"

definition chunk_event :: "string \<Rightarrow> string \<Rightarrow> nat \<Rightarrow> stream_meta option \<Rightarrow> event" where
  "chunk_event call_id channel n md =
     [(''call_id'', JStr call_id), (''channel'', JStr channel), (''event'', JStr ''audio_chunk''),
      (''size_bytes'', JInt (int n)),
      (''tenant_id'', JStr (case md of None \<Rightarrow> [] | Some x \<Rightarrow> sm_tenant x)),
      (''pbx_id'', JStr (case md of None \<Rightarrow> [] | Some x \<Rightarrow> sm_pbx x)),
      (''agent_extension'', JStr (case md of None \<Rightarrow> [] | Some x \<Rightarrow> sm_agent x))]"

definition xadd_events :: "ingest_env \<Rightarrow> string \<Rightarrow> stream_entry \<Rightarrow> (ingestor, string) prog" where
  "xadd_events env stream entry s =
     (case ie_publish env of
        Some e \<Rightarrow> (Inl e, s)
      | None \<Rightarrow> (Inr [], s\<lparr>ig_events := ig_events s @ [(stream, entry)]\<rparr>))"

definition publish_chunk_event :: "ingest_env \<Rightarrow> string \<Rightarrow> string \<Rightarrow> nat \<Rightarrow> (ingestor, string) prog" where
  "publish_chunk_event env call_id channel n s =
     publish (xadd_events env) ''call:events'' (chunk_event call_id channel n (map_of (ig_metadata s) call_id)) s"

text \<open>The loop of \<open>finalize_stream\<close> over the open handles.\<close>

fun publish_raw :: "string list \<Rightarrow> string list \<Rightarrow> bool \<Rightarrow> (dir, bool) prog" where
  "publish_raw failed [] published d = (Inr published, d)"
| "publish_raw failed (ch # chs) published d =
     (if ch \<notin> set failed \<and> path_exists d (tmp_raw ch)
      then (if dget d (raw_name ch) \<noteq> None \<and> f_data (the (dget d (raw_name ch))) = Directory
            then (Inl IsADirectoryError, d)
            else publish_raw failed chs True
                   (dput (raw_name ch) (the (dget d (tmp_raw ch))) (ddel (tmp_raw ch) d)))
      else publish_raw failed chs published d)"

text \<open>The \<open>try\<close> of \<open>finalize_stream\<close>, and its \<open>finally\<close>.\<close>

definition finalize_body :: "ingest_env \<Rightarrow> string \<Rightarrow> recording_state \<Rightarrow> (ingestor, unit) prog" where
  "finalize_body env call_id st s =
     (case publish_raw (rs_failed st) (rs_handles st) False (call_dir_of s (rs_tenant st) call_id) of
        (Inl e, d) \<Rightarrow> (Inl e, put_call_dir (rs_tenant st) call_id d s)
      | (Inr published, d) \<Rightarrow>
         (let s1 = put_call_dir (rs_tenant st) call_id d s in
          if published
          then (case ie_enqueue env of
                  Some e \<Rightarrow> (Inl e, s1)
                | None \<Rightarrow> (Inr (), s1\<lparr>ig_uploads := ig_uploads s1 @ [(rs_tenant st, call_id)]\<rparr>))
          else (Inr (), s1)))"

definition finalize_finally :: "ingest_env \<Rightarrow> string \<Rightarrow> recording_state \<Rightarrow> (ingestor, unit) prog" where
  "finalize_finally env call_id st s =
     (case release_lease (ie_os env) (call_dir_of s (rs_tenant st) call_id) ''capture'' (rs_owner st) of
        (Inl e, d) \<Rightarrow> (Inl e, put_call_dir (rs_tenant st) call_id d s)
      | (Inr _, d) \<Rightarrow>
          (let s1 = release_capacity call_id (put_call_dir (rs_tenant st) call_id d s)
           in (Inr (), s1\<lparr>ig_streams := AList.delete call_id (ig_streams s1),
                 ig_metadata := AList.delete call_id (ig_metadata s1)\<rparr>)))"

definition finalize_stream :: "ingest_env \<Rightarrow> string \<Rightarrow> (ingestor, bool) prog" where
  "finalize_stream env call_id s =
     (case map_of (ig_recordings s) call_id of
        None \<Rightarrow> (Inr False, s\<lparr>ig_metadata := AList.delete call_id (ig_metadata s)\<rparr>)
      | Some st \<Rightarrow>
         (case finalize_body env call_id st (s\<lparr>ig_recordings := AList.delete call_id (ig_recordings s)\<rparr>) of
            (r, s1) \<Rightarrow>
              (case finalize_finally env call_id st s1 of
                 (Inl e, s2) \<Rightarrow> (Inl e, s2)
               | (Inr _, s2) \<Rightarrow> (case r of Inl e \<Rightarrow> (Inl e, s2) | Inr _ \<Rightarrow> (Inr True, s2)))))"

text \<open>One turn of \<open>_heartbeat_capture\<close> after its sleep.\<close>

definition heartbeat_capture :: "settings \<Rightarrow> ingest_env \<Rightarrow> string \<Rightarrow> (ingestor, unit) prog" where
  "heartbeat_capture cfg env call_id s =
     (case map_of (ig_recordings s) call_id of
        None \<Rightarrow> (Inr (), s)
      | Some st \<Rightarrow>
         (case renew_lease (ie_os env) (RECORDING_LEASE_TTL_SECONDS cfg) (call_dir_of s (rs_tenant st) call_id)
                 ''capture'' (rs_owner st) None None of
            (Inl e, d) \<Rightarrow> (Inl e, put_call_dir (rs_tenant st) call_id d s)
          | (Inr True, d) \<Rightarrow> (Inr (), put_call_dir (rs_tenant st) call_id d s)
          | (Inr False, d) \<Rightarrow>
             (let s1 = count_lease_failure (put_call_dir (rs_tenant st) call_id d s);
                  s2 = (case rs_websocket st of
                          None \<Rightarrow> s1 | Some ws \<Rightarrow> s1\<lparr>ig_closed := ig_closed s1 @ [(ws, 1011)]\<rparr>)
              in (case finalize_stream env call_id s2 of (Inl e, s3) \<Rightarrow> (Inl e, s3) | (Inr _, s3) \<Rightarrow> (Inr (), s3)))))"

section \<open>The handler of a forked stream\<close>

datatype ws_message = Disconnect | BytesMsg "byte list" | OtherMsg

definition stream_connect :: "settings \<Rightarrow> ingest_env \<Rightarrow> string \<Rightarrow> nat \<Rightarrow> (ingestor, bool) prog" where
  "stream_connect cfg env call_id ws s =
     (if map_of (ig_metadata s) call_id = None
      then (Inr False, s\<lparr>ig_closed := ig_closed s @ [(ws, 4401)]\<rparr>)
      else case start_recording cfg env call_id s of
        (Inl e, s1) \<Rightarrow> (Inl e, s1)
      | (Inr ok, s1) \<Rightarrow>
         if ok
         then (case map_of (ig_recordings s1) call_id of
                 None \<Rightarrow> (Inl (KeyError call_id), s1)
               | Some st \<Rightarrow> (Inr True, s1
                   \<lparr>ig_recordings := AList.update call_id (st\<lparr>rs_websocket := Some ws\<rparr>) (ig_recordings s1),
                    ig_streams := AList.update call_id ws (ig_streams s1)\<rparr>))
         else (Inr False, s1\<lparr>ig_metadata := AList.delete call_id (ig_metadata s1),
                 ig_closed := ig_closed s1 @ [(ws, 4403)]\<rparr>))"

definition write_and_publish :: "ingest_env \<Rightarrow> string \<Rightarrow> string \<Rightarrow> byte list \<Rightarrow> (ingestor, unit) prog" where
  "write_and_publish env call_id channel data s =
     (case write_channel env call_id channel data s of
        (False, s1) \<Rightarrow> (Inr (), s1)
      | (True, s1) \<Rightarrow> (case publish_chunk_event env call_id channel (length data) s1 of
            (Inl e, s2) \<Rightarrow> (Inl e, s2) | (Inr _, s2) \<Rightarrow> (Inr (), s2)))"

fun stream_message :: "ingest_env \<Rightarrow> string \<Rightarrow> ws_message \<Rightarrow> (ingestor, unit) prog" where
  "stream_message env call_id Disconnect s = (Inl WebSocketDisconnect, s)"
| "stream_message env call_id OtherMsg s = (Inr (), s)"
| "stream_message env call_id (BytesMsg raw) s =
     for_p (\<lambda>(channel, data). write_and_publish env call_id channel data)
       [(''tx'', fst (split_stereo_frame raw)), (''rx'', snd (split_stereo_frame raw))] s"

text \<open>The receive loop; when no message is left the task is cancelled.\<close>

definition stream_loop :: "string \<Rightarrow> (ingest_env \<times> ws_message) list \<Rightarrow> (ingestor, unit) prog" where
  "stream_loop call_id msgs s =
     (case for_p (\<lambda>(env, m). stream_message env call_id m) msgs s of
        (Inl e, s1) \<Rightarrow> (Inl e, s1) | (Inr _, s1) \<Rightarrow> (Inl CancelledError, s1))"

definition stream_end :: "ingest_env \<Rightarrow> string \<Rightarrow> (ingestor, bool) prog" where
  "stream_end env call_id s = finalize_stream env call_id (s\<lparr>ig_streams := AList.delete call_id (ig_streams s)\<rparr>)"

definition handle_forked_stream ::
    "settings \<Rightarrow> ingest_env \<Rightarrow> ingest_env \<Rightarrow> string \<Rightarrow> nat \<Rightarrow> (ingest_env \<times> ws_message) list \<Rightarrow> (ingestor, unit) prog" where
  "handle_forked_stream cfg env_start env_end call_id ws msgs s =
     (case stream_connect cfg env_start call_id ws s of
        (Inl e, s1) \<Rightarrow> (Inl e, s1)
      | (Inr False, s1) \<Rightarrow> (Inr (), s1)
      | (Inr True, s1) \<Rightarrow>
         (case stream_loop call_id msgs s1 of
            (r, s2) \<Rightarrow>
              (case stream_end env_end call_id s2 of
                 (Inl e, s3) \<Rightarrow> (Inl e, s3)
               | (Inr _, s3) \<Rightarrow> (if r = Inl WebSocketDisconnect then (Inr (), s3) else (r, s3)))))"

section \<open>Writing a channel\<close>

lemma call_dir_of_put [simp]:
  "call_dir_of (put_call_dir t c d s) t' c' = (if t' = t \<and> c' = c then d else call_dir_of s t' c')"
  by (simp add: call_dir_of_def put_call_dir_def AList.update_conv)

lemma call_dir_of_cong: "ig_store s = ig_store s' \<Longrightarrow> call_dir_of s t c = call_dir_of s' t c"
  by (simp add: call_dir_of_def)

lemma put_call_dir_fields [simp]:
  "ig_recordings (put_call_dir t c d s) = ig_recordings s" "ig_guard (put_call_dir t c d s) = ig_guard s"
  "ig_metadata (put_call_dir t c d s) = ig_metadata s" "ig_uploads (put_call_dir t c d s) = ig_uploads s"
  "ig_streams (put_call_dir t c d s) = ig_streams s" "ig_closed (put_call_dir t c d s) = ig_closed s"
  "ig_events (put_call_dir t c d s) = ig_events s"
  by (simp_all add: put_call_dir_def)

lemma call_dir_of_recordings [simp]: "call_dir_of (s\<lparr>ig_recordings := r\<rparr>) t c = call_dir_of s t c"
  "call_dir_of (s\<lparr>ig_events := ev\<rparr>) t c = call_dir_of s t c"
  "call_dir_of (s\<lparr>ig_streams := ss\<rparr>) t c = call_dir_of s t c"
  "call_dir_of (s\<lparr>ig_uploads := us\<rparr>) t c = call_dir_of s t c"
  "call_dir_of (s\<lparr>ig_guard := g\<rparr>) t c = call_dir_of s t c"
  "call_dir_of (s\<lparr>ig_metadata := m\<rparr>) t c = call_dir_of s t c"
  by (simp_all add: call_dir_of_def)

lemma tmp_raw_inj [simp]: "tmp_raw a = tmp_raw b \<longleftrightarrow> a = b"
  by (simp add: tmp_raw_def)

text \<open>What a channel's temporary holds: nothing yet, or the bytes written so far.\<close>

definition holds :: "dir \<Rightarrow> string list \<Rightarrow> string \<Rightarrow> byte list \<Rightarrow> bool" where
  "holds d handles ch bs \<longleftrightarrow>
     (if ch \<in> set handles then \<exists>f. dget d (tmp_raw ch) = Some f \<and> f_data f = Bytes bs
      else dget d (tmp_raw ch) = None \<and> bs = [])"

definition takes :: "ingest_env \<Rightarrow> string \<Rightarrow> nat \<Rightarrow> bool" where
  "takes env ch n \<longleftrightarrow> ie_open env (tmp_raw ch) \<and> (\<exists>k. ie_write env ch = Some k \<and> n \<le> k)"

lemma append_bytes_get:
  assumes "dget d n = Some f" and "f_data f = Bytes bs"
  shows "\<exists>f'. dget (append_bytes os n data d) n = Some f' \<and> f_data f' = Bytes (bs @ data)"
    and "m \<noteq> n \<Longrightarrow> dget (append_bytes os n data d) m = dget d m"
  using assms by (simp_all add: append_bytes_def)

lemma write_channel_appends:
  assumes rec: "map_of (ig_recordings s) c = Some st" and ch: "ch \<in> {''tx'', ''rx''}"
    and env: "takes env ch (length data)"
    and h: "holds (call_dir_of s (rs_tenant st) c) (rs_handles st) ch bs"
  shows "\<exists>s' st'. write_channel env c ch data s = (True, s')
    \<and> map_of (ig_recordings s') c = Some st'
    \<and> st' = st\<lparr>rs_handles := (if ch \<in> set (rs_handles st) then rs_handles st else rs_handles st @ [ch])\<rparr>
    \<and> holds (call_dir_of s' (rs_tenant st) c) (rs_handles st') ch (bs @ data)
    \<and> (\<forall>n. n \<noteq> tmp_raw ch \<longrightarrow>
         dget (call_dir_of s' (rs_tenant st) c) n = dget (call_dir_of s (rs_tenant st) c) n)
    \<and> ig_guard s' = ig_guard s \<and> ig_uploads s' = ig_uploads s"
proof -
  let ?d = "call_dir_of s (rs_tenant st) c"
  obtain k where k: "ie_write env ch = Some k" "take k data = data" "ie_open env (tmp_raw ch)"
    using env by (auto simp: takes_def)
  show ?thesis
  proof (cases "ch \<in> set (rs_handles st)")
    case True
    then obtain f where f: "dget ?d (tmp_raw ch) = Some f" "f_data f = Bytes bs"
      using h by (auto simp: holds_def)
    from append_bytes_get[OF f] obtain f' where
      "dget (append_bytes (ie_os env) (tmp_raw ch) data ?d) (tmp_raw ch) = Some f'" "f_data f' = Bytes (bs @ data)"
      by blast
    with True rec ch k append_bytes_get(2)[OF f] show ?thesis
      by (auto simp: write_channel_def Let_def holds_def AList.update_conv)
  next
    case False
    then have n: "dget ?d (tmp_raw ch) = None" "bs = []" using h by (auto simp: holds_def)
    define d1 where "d1 = dput (tmp_raw ch) (new_file (ie_os env) 0 (Bytes [])) ?d"
    have f: "dget d1 (tmp_raw ch) = Some (new_file (ie_os env) 0 (Bytes []))"
      "f_data (new_file (ie_os env) 0 (Bytes [])) = Bytes []"
      by (simp_all add: d1_def new_file_def)
    from append_bytes_get(1)[OF f, of _ data] obtain f' where
      f': "dget (append_bytes (ie_os env) (tmp_raw ch) data d1) (tmp_raw ch) = Some f'" "f_data f' = Bytes data"
      by (metis append_Nil)
    have o: "open_append env (tmp_raw ch) ?d = Inr d1"
      using n k by (simp add: open_append_def d1_def)
    have "m \<noteq> tmp_raw ch \<Longrightarrow> dget (append_bytes (ie_os env) (tmp_raw ch) data d1) m = dget ?d m" for m
      using append_bytes_get(2)[OF f] by (simp add: d1_def)
    with False rec ch k n o f' show ?thesis
      by (auto simp: write_channel_def Let_def holds_def AList.update_conv)
  qed
qed






section \<open>A whole capture\<close>

type_synonym frame = "ingest_env \<times> 16 word list \<times> 16 word list"



definition sent_tx :: "frame list \<Rightarrow> byte list" where
  "sent_tx frames = le_bytes (concat (map (\<lambda>(_, xs, _). xs) frames))"

definition sent_rx :: "frame list \<Rightarrow> byte list" where
  "sent_rx frames = le_bytes (concat (map (\<lambda>(_, _, ys). ys) frames))"

lemma sent_simps [simp]:
  "sent_tx [] = []" "sent_rx [] = []"
  "sent_tx ((env, xs, ys) # frs) = le_bytes xs @ sent_tx frs"
  "sent_rx ((env, xs, ys) # frs) = le_bytes ys @ sent_rx frs"
  by (simp_all add: sent_tx_def sent_rx_def)


lemma reserve_True:
  assumes "reserve usage st c g = (Inr True, g')"
  shows "is_reserved g' c"
  using reserve_reserved[OF assms] by simp

lemma stream_connect_ok:
  assumes "stream_connect cfg env c ws s = (Inr True, s1)" and "map_of (ig_recordings s) c = None"
    and md: "map_of (ig_metadata s) c = Some md"
  shows "\<exists>st l. map_of (ig_recordings s1) c = Some st \<and> rs_tenant st = sm_tenant md \<and> rs_handles st = []
    \<and> rs_failed st = [] \<and> rs_owner st = lease_owner l
    \<and> acquire_lease (ie_os env) (RECORDING_LEASE_TTL_SECONDS cfg) (call_dir_of s (sm_tenant md) c)
        ''capture'' c None None None = (Inr l, call_dir_of s1 (sm_tenant md) c)
    \<and> ig_uploads s1 = ig_uploads s \<and> is_reserved (ig_guard s1) c"
proof -
  obtain s2 where 2: "start_recording cfg env c s = (Inr True, s2)"
    and con: "stream_connect cfg env c ws s = (case map_of (ig_recordings s2) c of
                 None \<Rightarrow> (Inl (KeyError c), s2)
               | Some st \<Rightarrow> (Inr True, s2
                   \<lparr>ig_recordings := AList.update c (st\<lparr>rs_websocket := Some ws\<rparr>) (ig_recordings s2),
                    ig_streams := AList.update c ws (ig_streams s2)\<rparr>))"
    using assms(1) md by (auto simp: stream_connect_def split: if_splits prod.splits sum.splits)
  from 2 assms(2) md obtain g where
    3: "reserve (ie_usage env) (ig_store s) c (ig_guard s) = (Inr True, g)"
      "open_recording cfg env c md (s\<lparr>ig_guard := g\<rparr>) = (Inr True, s2)"
    by (auto simp: start_recording_def split: option.splits prod.splits sum.splits if_splits)
  from 3(2) obtain l d where
    4: "acquire_lease (ie_os env) (RECORDING_LEASE_TTL_SECONDS cfg) (call_dir_of s (sm_tenant md) c)
          ''capture'' c None None None = (Inr l, d)"
      "s2 = (put_call_dir (sm_tenant md) c d (s\<lparr>ig_guard := g\<rparr>))
               \<lparr>ig_recordings := AList.update c
                  \<lparr>rs_tenant = sm_tenant md, rs_owner = lease_owner l, rs_handles = [],
                   rs_websocket = None, rs_failed = []\<rparr> (ig_recordings s)\<rparr>"
    by (auto simp: open_recording_def Let_def split: option.splits prod.splits sum.splits if_splits)
  show ?thesis
    using assms(1) con 4 reserve_True[OF 3(1)]
    by (auto simp: AList.update_conv)
qed






section \<open>Ending a capture\<close>

lemma publish_raw_other:
  assumes "publish_raw failed chs p d = (r, d')" and "\<And>ch. n \<noteq> tmp_raw ch \<and> n \<noteq> raw_name ch"
  shows "dget d' n = dget d n"
  using assms
  by (induction failed chs p d rule: publish_raw.induct) (auto split: if_splits)

lemma hidden_not_raw:
  "stage_file st \<noteq> tmp_raw ch \<and> stage_file st \<noteq> raw_name ch"
proof -
  have "last (stage_file st) = CHR ''g''" by (simp add: stage_file_def)
  moreover have "last (tmp_raw ch) = CHR ''w''" "last (raw_name ch) = CHR ''w''"
    by (simp_all add: tmp_raw_def raw_name_def)
  ultimately show ?thesis by auto
qed

lemma finalize_body_frame:
  assumes "finalize_body env c st s = (r, s')"
  shows "ig_recordings s' = ig_recordings s" "ig_guard s' = ig_guard s" "ig_metadata s' = ig_metadata s"
    and "dget (call_dir_of s' (rs_tenant st) c) (stage_file x) = dget (call_dir_of s (rs_tenant st) c) (stage_file x)"
  using assms publish_raw_other[of "rs_failed st" "rs_handles st" False "call_dir_of s (rs_tenant st) c" _ _ "stage_file x"]
    hidden_not_raw[of x]
  by (auto simp: finalize_body_def Let_def split: prod.splits sum.splits option.splits if_splits)


section \<open>Reservations\<close>

datatype ingest_op =
    RegisterStream string string string string
  | ConnectStream ingest_env string nat
  | StreamMessage ingest_env string ws_message
  | StreamEnd ingest_env string
  | HangUp ingest_env string
  | Heartbeat ingest_env string

fun ingest_step :: "settings \<Rightarrow> ingest_op \<Rightarrow> ingestor \<Rightarrow> ingestor" where
  "ingest_step cfg (RegisterStream c t p a) s = register_stream_metadata c t p a s"
| "ingest_step cfg (ConnectStream env c ws) s = snd (stream_connect cfg env c ws s)"
| "ingest_step cfg (StreamMessage env c m) s = snd (stream_message env c m s)"
| "ingest_step cfg (StreamEnd env c) s = snd (stream_end env c s)"
| "ingest_step cfg (HangUp env c) s = snd (finalize_stream env c s)"
| "ingest_step cfg (Heartbeat env c) s = snd (heartbeat_capture cfg env c s)"

definition recordings_reserved :: "ingestor \<Rightarrow> bool" where
  "recordings_reserved s \<longleftrightarrow> (\<forall>c. map_of (ig_recordings s) c \<noteq> None \<longrightarrow> is_reserved (ig_guard s) c)"

lemma recordings_reserved_cong:
  assumes "recordings_reserved s" and "\<And>c. map_of (ig_recordings s') c \<noteq> None \<Longrightarrow> map_of (ig_recordings s) c \<noteq> None"
    and "\<And>c. map_of (ig_recordings s') c \<noteq> None \<Longrightarrow> is_reserved (ig_guard s) c \<Longrightarrow> is_reserved (ig_guard s') c"
  shows "recordings_reserved s'"
  using assms by (meson recordings_reserved_def)

lemma reserve_keeps:
  assumes "reserve usage st c g = (r, g')" and "is_reserved g x"
  shows "is_reserved g' x"
proof (cases r)
  case (Inl e)
  with assms reserve_error show ?thesis by blast
next
  case (Inr b)
  with assms reserve_reserved[of usage st c g g' x] reserve_refused(2)[of usage st c g g'] show ?thesis
    by (cases b) (auto simp: is_reserved_def)
qed

lemma open_recording_reserved:
  assumes "recordings_reserved s" and "map_of (ig_recordings s) c = None" and "is_reserved (ig_guard s) c"
    and "open_recording cfg env c md s = (r, s')"
  shows "recordings_reserved s'"
proof (cases "ie_mkdir env")
  case (Some e)
  with assms show ?thesis by (simp add: open_recording_def)
next
  case None
  obtain ra d where a: "acquire_lease (ie_os env) (RECORDING_LEASE_TTL_SECONDS cfg) (call_dir_of s (sm_tenant md) c)
      ''capture'' c None None None = (ra, d)" by force
  show ?thesis
  proof (cases ra)
    case (Inl e)
    then have "s' = put_call_dir (sm_tenant md) c d s
        \<or> s' = count_lease_failure (release_capacity c (put_call_dir (sm_tenant md) c d s))"
      using assms(4) None a by (auto simp: open_recording_def Let_def split: if_splits)
    moreover have "is_reserved (g\<lparr>metrics := m\<rparr>) x = is_reserved g x" for g m x
      by (simp add: is_reserved_def)
    ultimately show ?thesis
      using assms(1,2) by (auto simp: recordings_reserved_def count_lease_failure_def release_capacity_def)
  next
    case (Inr l)
    then show ?thesis
      using assms None a by (auto simp: open_recording_def recordings_reserved_def AList.update_conv split: if_splits)
  qed
qed

lemma start_recording_reserved:
  assumes "recordings_reserved s" and "start_recording cfg env c s = (r, s')"
  shows "recordings_reserved s'"
proof (cases "map_of (ig_recordings s) c \<noteq> None \<or> map_of (ig_metadata s) c = None \<or> ie_root env \<noteq> None")
  case True
  with assms show ?thesis by (auto simp: start_recording_def split: option.splits if_splits)
next
  case False
  then obtain md where md: "map_of (ig_metadata s) c = Some md" and n: "map_of (ig_recordings s) c = None" "ie_root env = None"
    by auto
  obtain rr g where g: "reserve (ie_usage env) (ig_store s) c (ig_guard s) = (rr, g)" by force
  have keep: "recordings_reserved (s\<lparr>ig_guard := g\<rparr>)"
    using assms(1) reserve_keeps[OF g] by (simp add: recordings_reserved_def)
  show ?thesis
  proof (cases "rr = Inr True")
    case True
    with assms(2) md n g have "open_recording cfg env c md (s\<lparr>ig_guard := g\<rparr>) = (r, s')"
      by (simp add: start_recording_def)
    with open_recording_reserved[OF keep] n reserve_True g True show ?thesis by simp
  next
    case False
    with assms(2) md n g have "s' = s\<lparr>ig_guard := g\<rparr>"
      by (cases rr) (auto simp: start_recording_def)
    with keep show ?thesis by simp
  qed
qed

lemma stream_connect_reserved:
  assumes "recordings_reserved s" and "stream_connect cfg env c ws s = (r, s')"
  shows "recordings_reserved s'"
proof (cases "map_of (ig_metadata s) c = None")
  case True
  with assms show ?thesis by (auto simp: stream_connect_def recordings_reserved_def)
next
  case False
  obtain rs s1 where 1: "start_recording cfg env c s = (rs, s1)" by force
  from start_recording_reserved[OF assms(1) 1] show ?thesis
    using assms(2) False 1
    by (auto simp: stream_connect_def recordings_reserved_def AList.update_conv
        split: sum.splits if_splits option.splits)
qed

lemma mark_failed_reserved:
  "recordings_reserved s \<Longrightarrow> map_of (ig_recordings s) c \<noteq> None \<Longrightarrow> recordings_reserved (mark_failed c ch st s)"
  by (auto simp: mark_failed_def recordings_reserved_def AList.update_conv)

lemma write_channel_reserved:
  assumes "recordings_reserved s" and "write_channel env c ch data s = (b, s')"
  shows "recordings_reserved s'"
proof (cases "map_of (ig_recordings s) c")
  case None
  with assms show ?thesis by (simp add: write_channel_def)
next
  case (Some st)
  have "recordings_reserved ((put_call_dir t c d s)\<lparr>ig_recordings := AList.update c st1 (ig_recordings s)\<rparr>)" for t d st1
    using assms(1) Some by (auto simp: recordings_reserved_def AList.update_conv)
  note up = this
  have put: "recordings_reserved x \<Longrightarrow> recordings_reserved (put_call_dir t c d x)" for x t d
    by (simp add: recordings_reserved_def)
  show ?thesis
    using assms Some up put mark_failed_reserved
    by (auto simp: write_channel_def Let_def AList.update_conv split: if_splits sum.splits option.splits)
qed

lemma write_and_publish_reserved:
  assumes "recordings_reserved s" and "write_and_publish env c ch data s = (r, s')"
  shows "recordings_reserved s'"
proof -
  obtain b s1 where 1: "write_channel env c ch data s = (b, s1)" by force
  note i = write_channel_reserved[OF assms(1) 1]
  show ?thesis
    using assms(2) 1 i
    by (auto simp: write_and_publish_def publish_chunk_event_def publish_def xadd_events_def recordings_reserved_def
        split: bool.splits option.splits)
qed

lemma stream_message_reserved:
  assumes "recordings_reserved s" and "stream_message env c m s = (r, s')"
  shows "recordings_reserved s'"
proof (cases m)
  case (BytesMsg raw)
  show ?thesis
    using assms(2)[unfolded BytesMsg stream_message.simps]
    by (rule for_p_inv[rotated 2, where P = recordings_reserved])
      (use assms(1) write_and_publish_reserved in \<open>auto split: prod.splits\<close>)
qed (use assms in auto)

lemma finalize_stream_reserved:
  assumes "recordings_reserved s" and "finalize_stream env c s = (r, s')"
  shows "recordings_reserved s'"
proof (cases "map_of (ig_recordings s) c")
  case None
  with assms show ?thesis by (auto simp: finalize_stream_def recordings_reserved_def)
next
  case (Some st)
  let ?s0 = "s\<lparr>ig_recordings := AList.delete c (ig_recordings s)\<rparr>"
  obtain rb s1 where b: "finalize_body env c st ?s0 = (rb, s1)" by force
  note fr = finalize_body_frame[OF b]
  obtain rl d where l: "release_lease (ie_os env) (call_dir_of s1 (rs_tenant st) c) ''capture'' (rs_owner st) = (rl, d)"
    by force
  have "s' = put_call_dir (rs_tenant st) c d s1
      \<or> s' = (let s2 = release_capacity c (put_call_dir (rs_tenant st) c d s1)
      in s2\<lparr>ig_streams := AList.delete c (ig_streams s2), ig_metadata := AList.delete c (ig_metadata s2)\<rparr>)"
    using assms(2) Some b l
    by (auto simp: finalize_stream_def finalize_finally_def Let_def split: sum.splits)
  with fr assms(1) show ?thesis
    by (auto simp: Let_def recordings_reserved_def release_capacity_def AList.delete_conv split: if_splits)
qed

lemma heartbeat_reserved:
  assumes "recordings_reserved s" and "heartbeat_capture cfg env c s = (r, s')"
  shows "recordings_reserved s'"
proof (cases "map_of (ig_recordings s) c")
  case None
  with assms show ?thesis by (simp add: heartbeat_capture_def)
next
  case (Some st)
  obtain rr d where rr: "renew_lease (ie_os env) (RECORDING_LEASE_TTL_SECONDS cfg) (call_dir_of s (rs_tenant st) c)
      ''capture'' (rs_owner st) None None = (rr, d)" by force
  have put: "recordings_reserved (put_call_dir (rs_tenant st) c d s)"
    using assms(1) by (simp add: recordings_reserved_def)
  show ?thesis
  proof (cases "rr = Inr False")
    case False
    with assms(2) Some rr put show ?thesis
      by (cases rr) (auto simp: heartbeat_capture_def split: bool.splits)
  next
    case True
    define s2 where "s2 = (case rs_websocket st of None \<Rightarrow> count_lease_failure (put_call_dir (rs_tenant st) c d s)
      | Some ws \<Rightarrow> (count_lease_failure (put_call_dir (rs_tenant st) c d s))
          \<lparr>ig_closed := ig_closed (count_lease_failure (put_call_dir (rs_tenant st) c d s)) @ [(ws, 1011)]\<rparr>)"
    have "recordings_reserved s2"
      using put by (auto simp: s2_def count_lease_failure_def recordings_reserved_def is_reserved_def split: option.splits)
    moreover have "\<exists>r'. finalize_stream env c s2 = (r', s')"
      using assms(2) Some rr True
      by (auto simp: heartbeat_capture_def Let_def s2_def[symmetric] split: prod.splits sum.splits)
    ultimately show ?thesis using finalize_stream_reserved by blast
  qed
qed

interpretation im: machine "ingest_step cfg" recordings_reserved
proof
  fix s x
  assume i: "recordings_reserved s"
  show "recordings_reserved (ingest_step cfg x s)"
  proof (cases x)
    case (RegisterStream c t p a)
    with i show ?thesis by (simp add: register_stream_metadata_def recordings_reserved_def)
  next
    case (ConnectStream env c ws)
    then show ?thesis using stream_connect_reserved[OF i] by (metis ingest_step.simps(2) prod.collapse)
  next
    case (StreamMessage env c m)
    then show ?thesis using stream_message_reserved[OF i] by (metis ingest_step.simps(3) prod.collapse)
  next
    case (StreamEnd env c)
    moreover have "recordings_reserved (s\<lparr>ig_streams := y\<rparr>)" for y
      using i by (simp add: recordings_reserved_def)
    ultimately show ?thesis
      using finalize_stream_reserved by (metis ingest_step.simps(4) prod.collapse stream_end_def)
  next
    case (HangUp env c)
    then show ?thesis using finalize_stream_reserved[OF i] by (metis ingest_step.simps(5) prod.collapse)
  next
    case (Heartbeat env c)
    then show ?thesis using heartbeat_reserved[OF i] by (metis ingest_step.simps(6) prod.collapse)
  qed
qed

text \<open>No recording runs without disk space set aside for it: over any history of registrations,
  connections, audio messages, disconnections, hangups and heartbeats, with any failures of
  the disk, of Redis and of the job queue, every recording in progress holds a reservation.\<close>

theorem recordings_hold_reservations:
  assumes "ig_recordings s = []" and "map_of (ig_recordings (run_ops (ingest_step cfg) ops s)) c = Some st"
  shows "is_reserved (ig_guard (run_ops (ingest_step cfg) ops s)) c"
proof -
  have "recordings_reserved s" using assms(1) by (simp add: recordings_reserved_def)
  from im.run_inv[OF this, of cfg ops] assms(2) show ?thesis by (simp add: recordings_reserved_def)
qed

text \<open>A call directory that cannot be created leaks a reservation: the exception leaves
  \<open>_start_recording\<close> after the space was reserved and before any recording exists, the end of
  the call finds no recording and releases nothing, and the space stays reserved.\<close>

theorem mkdir_failure_leaks_reservation:
  assumes "map_of (ig_recordings s) c = None" and "map_of (ig_metadata s) c = Some md"
    and "ie_root env = None" and "ie_mkdir env = Some e"
    and "reserve (ie_usage env) (ig_store s) c (ig_guard s) = (Inr True, g)"
  shows "\<exists>s1. handle_forked_stream cfg env env' c ws msgs s = (Inl e, s1)
    \<and> is_reserved (ig_guard s1) c \<and> map_of (ig_recordings s1) c = None
    \<and> (\<exists>s2. finalize_stream env' c s1 = (Inr False, s2) \<and> is_reserved (ig_guard s2) c)"
proof -
  have "start_recording cfg env c s = (Inl e, s\<lparr>ig_guard := g\<rparr>)"
    using assms by (simp add: start_recording_def open_recording_def)
  with assms reserve_True[OF assms(5)] show ?thesis
    by (simp add: handle_forked_stream_def stream_connect_def finalize_stream_def)
qed

text \<open>A short write loses audio silently: the capture files are unbuffered, so \<open>write\<close> may
  take only the first bytes of a chunk; the code ignores the count, reports success, keeps
  the channel good and publishes an event with the full size.\<close>

theorem short_write_reported_complete:
  assumes "map_of (ig_recordings s) c = Some st" and "ch \<in> {''tx'', ''rx''}" and "ch \<in> set (rs_handles st)"
    and "dget (call_dir_of s (rs_tenant st) c) (tmp_raw ch) = Some f" and "f_data f = Bytes bs"
    and "ie_write env ch = Some k" and "k < length data"
  shows "\<exists>s' f'. write_channel env c ch data s = (True, s')
    \<and> dget (call_dir_of s' (rs_tenant st) c) (tmp_raw ch) = Some f' \<and> f_data f' = Bytes (bs @ take k data)
    \<and> map_of (ig_recordings s') c = Some st"
  using assms append_bytes_get(1)[OF assms(4,5), of "ie_os env" "take k data"]
  by (auto simp: write_channel_def Let_def AList.update_conv)

section \<open>Concrete captures\<close>

definition roomy :: disk_usage where
  "roomy = \<lparr>du_total = 1000000000, du_used = 100000000, du_free = 900000000\<rparr>"

definition calm :: ingest_env where
  "calm = \<lparr>ie_os = env_a, ie_usage = roomy, ie_root = None, ie_mkdir = None, ie_open = (\<lambda>_. True),
     ie_write = (\<lambda>_. Some 65536), ie_publish = None, ie_enqueue = None\<rparr>"

definition ringing :: ingestor where
  "ringing = register_stream_metadata ''call-1'' ''acme'' ''pbx'' ''100''
     \<lparr>ig_streams = [], ig_metadata = [], ig_recordings = [],
      ig_guard = new_guard default_settings None None None None, ig_store = [], ig_events = [],
      ig_uploads = [], ig_closed = []\<rparr>"

definition connected :: ingestor where
  "connected = snd (stream_connect default_settings calm ''call-1'' 5 ringing)"

definition ringing_meta :: stream_meta where
  "ringing_meta = \<lparr>sm_tenant = ''acme'', sm_pbx = ''pbx'', sm_agent = ''100''\<rparr>"


lemma ringing_facts [simp]:
  "ig_recordings ringing = []" "map_of (ig_metadata ringing) ''call-1'' = Some ringing_meta"
  "call_dir_of ringing t c = []" "ig_uploads ringing = []"
  by (simp_all add: ringing_def register_stream_metadata_def ringing_meta_def call_dir_of_def)

lemma ringing_reserve:
  "fst (reserve roomy (ig_store ringing) ''call-1'' (ig_guard ringing)) = Inr True"
  by (simp add: ringing_def register_stream_metadata_def roomy_def reserve_def Let_def new_guard_def
      default_settings_def projected_bytes_def remaining_reserved_bytes_def pending_processing_bytes_def
      bytes_per_call_def PCM16_STEREO_BYTES_PER_SECOND_def free_percent_def)

lemma connected_ok: "stream_connect default_settings calm ''call-1'' 5 ringing = (Inr True, connected)"
proof -
  obtain g where g: "reserve roomy (ig_store ringing) ''call-1'' (ig_guard ringing) = (Inr True, g)"
    using ringing_reserve by (metis prod.collapse)
  have "fst (stream_connect default_settings calm ''call-1'' 5 ringing) = Inr True"
    using g held_acquire
    by (simp add: stream_connect_def start_recording_def open_recording_def calm_def ringing_meta_def
        default_settings_def AList.update_conv)
  then show ?thesis by (metis connected_def prod.collapse)
qed



theorem recordings_hold_reservations_witness:
  "\<exists>st. map_of (ig_recordings (run_ops (ingest_step default_settings) [ConnectStream calm ''call-1'' 5] ringing)) ''call-1''
       = Some st
   \<and> is_reserved (ig_guard (run_ops (ingest_step default_settings) [ConnectStream calm ''call-1'' 5] ringing)) ''call-1''"
proof -
  obtain st where st: "map_of (ig_recordings connected) ''call-1'' = Some st"
    using stream_connect_ok[OF connected_ok _ ringing_facts(2)] by auto
  have run: "run_ops (ingest_step default_settings) [ConnectStream calm ''call-1'' 5] ringing = connected"
    by (simp add: connected_ok)
  show ?thesis
    using recordings_hold_reservations[OF ringing_facts(1), of default_settings "[ConnectStream calm ''call-1'' 5]" "''call-1''" st]
      st unfolding run by blast
qed

theorem mkdir_failure_leaks_reservation_witness:
  "\<exists>s1. handle_forked_stream default_settings (calm\<lparr>ie_mkdir := Some (OSError [])\<rparr>) calm ''call-1'' 5 [] ringing
     = (Inl (OSError []), s1) \<and> is_reserved (ig_guard s1) ''call-1''"
proof -
  let ?r = "reserve (ie_usage calm) (ig_store ringing) ''call-1'' (ig_guard ringing)"
  have "fst ?r = Inr True" using ringing_reserve by (simp add: calm_def)
  moreover have u: "ie_usage (calm\<lparr>ie_mkdir := Some (OSError [])\<rparr>) = ie_usage calm" by simp
  ultimately have r: "reserve (ie_usage (calm\<lparr>ie_mkdir := Some (OSError [])\<rparr>)) (ig_store ringing) ''call-1'' (ig_guard ringing)
      = (Inr True, snd ?r)"
    unfolding u by (cases ?r) simp
  show ?thesis
    using mkdir_failure_leaks_reservation[OF _ ringing_facts(2) _ _ r, of "OSError []" default_settings calm 5 "[]"]
    unfolding calm_def by auto
qed

definition writing :: ingestor where
  "writing = snd (write_channel calm ''call-1'' ''tx'' [1, 2] connected)"

theorem short_write_reported_complete_witness:
  "\<exists>s' f'. write_channel (calm\<lparr>ie_write := (\<lambda>_. Some 1)\<rparr>) ''call-1'' ''tx'' [3, 4] writing = (True, s')
     \<and> dget (call_dir_of s' ''acme'' ''call-1'') ''tx.tmp.raw'' = Some f' \<and> f_data f' = Bytes [1, 2, 3]"
proof -
  obtain st where st: "map_of (ig_recordings connected) ''call-1'' = Some st" "rs_tenant st = ''acme''"
      "rs_handles st = []"
    and d: "holds (call_dir_of connected (rs_tenant st) ''call-1'') (rs_handles st) ''tx'' []"
  proof -
    from stream_connect_ok[OF connected_ok _ ringing_facts(2)] obtain st l where
      st: "map_of (ig_recordings connected) ''call-1'' = Some st" "rs_tenant st = ''acme''" "rs_handles st = []"
      and acq: "acquire_lease (ie_os calm) (RECORDING_LEASE_TTL_SECONDS default_settings) [] ''capture'' ''call-1'' None None None
        = (Inr l, call_dir_of connected ''acme'' ''call-1'')"
      by (auto simp: ringing_meta_def)
    have "dget (call_dir_of connected ''acme'' ''call-1'') ''tx.tmp.raw'' = None"
      using acquire_lease_other[OF acq, of "''tx.tmp.raw''"]
      by (simp add: lease_files_def stage_file_def LIFECYCLE_LOCK_FILE_def)
    with st that show thesis by (simp add: holds_def tmp_raw_def)
  qed
  have env: "takes calm ''tx'' (length [1, 2 :: byte])" by (simp add: takes_def calm_def)
  from write_channel_appends[OF st(1) _ env d] obtain st' where
    w: "map_of (ig_recordings writing) ''call-1'' = Some st'" "st' = st\<lparr>rs_handles := [''tx'']\<rparr>"
      "holds (call_dir_of writing (rs_tenant st) ''call-1'') (rs_handles st') ''tx'' [1, 2]"
    using st(3) by (auto simp: writing_def)
  then obtain f where f: "dget (call_dir_of writing (rs_tenant st') ''call-1'') (tmp_raw ''tx'') = Some f" "f_data f = Bytes [1, 2]"
    by (auto simp: holds_def)
  have t: "rs_tenant st' = ''acme''" "''tx'' \<in> set (rs_handles st')" using w(2) st(2) by simp_all
  show ?thesis
    using short_write_reported_complete[OF w(1) _ t(2) f, of "calm\<lparr>ie_write := (\<lambda>_. Some 1)\<rparr>" 1 "[3, 4]"] t(1)
    by (auto simp: tmp_raw_def)
qed

end
