(* ===== verification/Database.thy ===== *)
theory Database
  imports Zenith_Prelude Run_Laws
begin

text \<open>
  \<open>database/models.py\<close>, \<open>database/database.py\<close> and the \<open>Repository\<close> of \<open>services/base.py\<close>:
  tables as lists of rows in insertion order, the constraints the models declare, and the
  repository operations, which commit after each change and roll back on any exception.
  A commit that breaks a constraint is translated to IntegrityConstraintError with the text
  of the database, which names the constraint; a value too long for its column is another
  database error and is not translated. \<open>commit\<close> is what else the commit raises, if anything.
  Identifiers are the text of their UUIDs.
\<close>

section \<open>Repository\<close>

definition repo_get :: "('row \<Rightarrow> string) \<Rightarrow> string \<Rightarrow> 'row list \<Rightarrow> 'row option" where
  "repo_get key ident t = find (\<lambda>r. key r = ident) t"

definition repo_find_by :: "('row \<Rightarrow> bool) \<Rightarrow> 'row list \<Rightarrow> 'row list" where
  "repo_find_by p t = filter p t"

definition repo_create ::
    "('row list \<Rightarrow> 'row \<Rightarrow> exc option) \<Rightarrow> exc option \<Rightarrow> 'row \<Rightarrow> ('row list, 'row) prog" where
  "repo_create violation commit r t =
     (case violation t r of
        Some e \<Rightarrow> (Inl e, t)
      | None \<Rightarrow> (case commit of Some e \<Rightarrow> (Inl e, t) | None \<Rightarrow> (Inr r, t @ [r])))"

fun replace_row :: "('row \<Rightarrow> string) \<Rightarrow> string \<Rightarrow> 'row \<Rightarrow> 'row list \<Rightarrow> 'row list" where
  "replace_row key ident r [] = []"
| "replace_row key ident r (x # xs) = (if key x = ident then r # xs else x # replace_row key ident r xs)"

fun other_rows :: "('row \<Rightarrow> string) \<Rightarrow> string \<Rightarrow> 'row list \<Rightarrow> 'row list" where
  "other_rows key ident [] = []"
| "other_rows key ident (x # xs) = (if key x = ident then xs else x # other_rows key ident xs)"

definition repo_update ::
    "('row \<Rightarrow> string) \<Rightarrow> ('row list \<Rightarrow> 'row \<Rightarrow> exc option) \<Rightarrow> exc option \<Rightarrow> string \<Rightarrow> ('row \<Rightarrow> 'row)
     \<Rightarrow> ('row list, 'row option) prog" where
  "repo_update key violation commit ident change t =
     (case repo_get key ident t of
        None \<Rightarrow> (Inr None, t)
      | Some r \<Rightarrow>
         (case violation (other_rows key ident t) (change r) of
            Some e \<Rightarrow> (Inl e, t)
          | None \<Rightarrow> (case commit of
               Some e \<Rightarrow> (Inl e, t)
             | None \<Rightarrow> (Inr (Some (change r)), replace_row key ident (change r) t))))"

definition repo_delete :: "('row \<Rightarrow> string) \<Rightarrow> exc option \<Rightarrow> string \<Rightarrow> ('row list, bool) prog" where
  "repo_delete key commit ident t =
     (case repo_get key ident t of
        None \<Rightarrow> (Inr False, t)
      | Some r \<Rightarrow> (case commit of Some e \<Rightarrow> (Inl e, t) | None \<Rightarrow> (Inr True, other_rows key ident t)))"

lemma repo_get_Some: "repo_get key ident t = Some r \<Longrightarrow> r \<in> set t \<and> key r = ident"
  by (auto simp: repo_get_def find_Some_iff)

lemma repo_get_None: "repo_get key ident t = None \<longleftrightarrow> (\<forall>r\<in>set t. key r \<noteq> ident)"
  by (auto simp: repo_get_def find_None_iff)

lemma repo_get_split:
  assumes "repo_get key ident t = Some r"
  shows "\<exists>xs ys. t = xs @ r # ys \<and> key r = ident \<and> other_rows key ident t = xs @ ys
    \<and> (\<forall>q. replace_row key ident q t = xs @ q # ys)"
  using assms
proof (induction t)
  case Nil
  then show ?case by (simp add: repo_get_def)
next
  case (Cons x t)
  show ?case
  proof (cases "key x = ident")
    case True
    with Cons.prems show ?thesis by (intro exI[of _ "[]"] exI[of _ t]) (auto simp: repo_get_def)
  next
    case False
    with Cons obtain xs ys where "t = xs @ r # ys" "key r = ident" "other_rows key ident t = xs @ ys"
      "\<forall>q. replace_row key ident q t = xs @ q # ys"
      by (auto simp: repo_get_def)
    with False show ?thesis by (intro exI[of _ "x # xs"] exI[of _ ys]) auto
  qed
qed

lemma repo_create_Inr: "repo_create v commit r t = (Inr x, t') \<Longrightarrow> x = r \<and> t' = t @ [r] \<and> v t r = None"
  by (auto simp: repo_create_def split: option.splits)

lemma repo_create_Inl: "repo_create v commit r t = (Inl e, t') \<Longrightarrow> t' = t"
  by (auto simp: repo_create_def split: option.splits)

lemma repo_update_Inl: "repo_update key v commit ident f t = (Inl e, t') \<Longrightarrow> t' = t"
  by (auto simp: repo_update_def split: option.splits)

text \<open>
  The interface between a table and its clients: constraints (\<open>violation\<close>) that are enough to
  keep the table \<open>sound\<close> when a row is added or replaced. What a client gets is that no
  sequence of repository calls, whatever they raise, leaves an unsound table.
\<close>

datatype 'row repo_op =
    RepoCreate "exc option" 'row
  | RepoUpdate "exc option" string "'row \<Rightarrow> 'row"
  | RepoDelete "exc option" string

locale sound_table =
  fixes key :: "'row \<Rightarrow> string"
    and violation :: "'row list \<Rightarrow> 'row \<Rightarrow> exc option"
    and sound :: "'row list \<Rightarrow> bool"
  assumes sound_add: "sound t \<Longrightarrow> violation t r = None \<Longrightarrow> sound (t @ [r])"
    and sound_remove: "sound (xs @ x # ys) \<Longrightarrow> sound (xs @ ys)"
    and sound_insert: "sound (xs @ ys) \<Longrightarrow> violation (xs @ ys) r = None \<Longrightarrow> sound (xs @ r # ys)"
begin

lemma create_sound: "sound t \<Longrightarrow> repo_create violation commit r t = (res, t') \<Longrightarrow> sound t'"
  by (auto simp: repo_create_def sound_add split: option.splits)

lemma update_sound:
  assumes "sound t" and "repo_update key violation commit ident f t = (res, t')"
  shows "sound t'"
proof (cases "repo_get key ident t")
  case None
  with assms show ?thesis by (simp add: repo_update_def)
next
  case (Some r)
  obtain xs ys where s: "t = xs @ r # ys" "other_rows key ident t = xs @ ys"
    "\<And>q. replace_row key ident q t = xs @ q # ys"
    using repo_get_split[OF Some] by blast
  have "sound (xs @ ys)" using assms(1) s(1) sound_remove by simp
  with assms Some s show ?thesis
    by (auto simp: repo_update_def sound_insert split: option.splits)
qed

lemma delete_sound:
  assumes "sound t" and "repo_delete key commit ident t = (res, t')"
  shows "sound t'"
proof (cases "repo_get key ident t")
  case None
  with assms show ?thesis by (simp add: repo_delete_def)
next
  case (Some r)
  obtain xs ys where s: "t = xs @ r # ys" "other_rows key ident t = xs @ ys"
    using repo_get_split[OF Some] by blast
  have "sound (xs @ ys)" using assms(1) s(1) sound_remove by simp
  with assms Some s show ?thesis by (auto simp: repo_delete_def split: option.splits)
qed

definition repo_step :: "'row repo_op \<Rightarrow> 'row list \<Rightarrow> 'row list" where
  "repo_step x t = (case x of
      RepoCreate c r \<Rightarrow> snd (repo_create violation c r t)
    | RepoUpdate c ident f \<Rightarrow> snd (repo_update key violation c ident f t)
    | RepoDelete c ident \<Rightarrow> snd (repo_delete key c ident t))"

lemma repo_step_sound: "sound t \<Longrightarrow> sound (repo_step x t)"
  by (cases x) (auto simp: repo_step_def intro: create_sound[OF _ prod.collapse[symmetric]]
      update_sound[OF _ prod.collapse[symmetric]] delete_sound[OF _ prod.collapse[symmetric]])

end

sublocale sound_table \<subseteq> machine repo_step sound
  by unfold_locales (rule repo_step_sound)

section \<open>The public schema\<close>

record tenant_row =
  te_id :: string
  te_name :: string
  te_schema :: string
  te_status :: string

record pbx_row =
  px_id :: string
  px_tenant :: string
  px_name :: string
  px_host :: string
  px_port :: int

record condo_row =
  co_id :: string
  co_tenant :: string
  co_pbx :: string
  co_name :: string
  co_external :: "string option"
  co_enabled :: bool

record trunk_row =
  tr_id :: string
  tr_tenant :: string
  tr_pbx :: string
  tr_condo :: string
  tr_prefix :: "string option"
  tr_user :: string
  tr_secret :: string
  tr_profile :: string
  tr_transport :: string
  tr_enabled :: bool
  tr_status :: string
  tr_registered_at :: "int option"
  tr_unregistered_at :: "int option"
  tr_error_code :: "string option"
  tr_error_at :: "int option"

record public_db =
  db_tenants :: "tenant_row list"
  db_pbxs :: "pbx_row list"
  db_condos :: "condo_row list"
  db_trunks :: "trunk_row list"

definition too_long :: "nat \<Rightarrow> string \<Rightarrow> bool" where
  "too_long n s \<longleftrightarrow> length s > n"

definition truncation :: exc where
  "truncation = SQLAlchemyError ''value too long for type character varying''"

definition condo_violation :: "public_db \<Rightarrow> condo_row list \<Rightarrow> condo_row \<Rightarrow> exc option" where
  "condo_violation db others r =
     (if too_long 128 (co_name r) \<or> (co_external r \<noteq> None \<and> too_long 128 (the (co_external r))) then Some truncation
      else if \<exists>q\<in>set others. co_id q = co_id r then Some (IntegrityConstraintError ''condominiums_pkey'')
      else if \<exists>q\<in>set others. co_tenant q = co_tenant r \<and> co_pbx q = co_pbx r \<and> co_name q = co_name r
        then Some (IntegrityConstraintError ''uq_condominiums_tenant_pbx_name'')
      else if co_external r \<noteq> None
          \<and> (\<exists>q\<in>set others. co_tenant q = co_tenant r \<and> co_pbx q = co_pbx r \<and> co_external q = co_external r)
        then Some (IntegrityConstraintError ''uq_condominiums_tenant_pbx_external_id'')
      else if \<forall>q\<in>set (db_tenants db). te_id q \<noteq> co_tenant r
        then Some (IntegrityConstraintError ''condominiums_tenant_id_fkey'')
      else if \<forall>q\<in>set (db_pbxs db). px_id q \<noteq> co_pbx r
        then Some (IntegrityConstraintError ''condominiums_pbx_id_fkey'')
      else None)"

definition prefix_ok :: "string option \<Rightarrow> bool" where
  "prefix_ok p = (case p of None \<Rightarrow> True | Some s \<Rightarrow> 1 \<le> length s \<and> length s \<le> 32 \<and> list_all is_digit s)"

definition profiles :: "string list" where
  "profiles = [''internal'', ''internal-7060'']"

definition reg_statuses :: "string list" where
  "reg_statuses = [''unknown'', ''registered'', ''unregistered'']"

definition same_identity :: "trunk_row \<Rightarrow> trunk_row \<Rightarrow> bool" where
  "same_identity q r \<longleftrightarrow> tr_profile q = tr_profile r \<and> tr_user q = tr_user r"

definition same_prefix :: "trunk_row \<Rightarrow> trunk_row \<Rightarrow> bool" where
  "same_prefix q r \<longleftrightarrow> tr_tenant q = tr_tenant r \<and> tr_prefix q = tr_prefix r \<and> tr_prefix r \<noteq> None"

definition trunk_violation :: "public_db \<Rightarrow> trunk_row list \<Rightarrow> trunk_row \<Rightarrow> exc option" where
  "trunk_violation db others r =
     (if (tr_prefix r \<noteq> None \<and> too_long 32 (the (tr_prefix r))) \<or> too_long 128 (tr_user r)
         \<or> too_long 32 (tr_profile r) \<or> too_long 8 (tr_transport r) \<or> too_long 16 (tr_status r)
         \<or> (tr_error_code r \<noteq> None \<and> too_long 64 (the (tr_error_code r))) then Some truncation
      else if \<not> prefix_ok (tr_prefix r) then Some (IntegrityConstraintError ''ck_ata_trunks_prefix_digits'')
      else if tr_status r \<notin> set reg_statuses then Some (IntegrityConstraintError ''ck_ata_trunks_registration_status'')
      else if tr_profile r \<notin> set profiles then Some (IntegrityConstraintError ''ck_ata_trunks_sip_profile'')
      else if tr_transport r \<noteq> ''udp'' then Some (IntegrityConstraintError ''ck_ata_trunks_transport'')
      else if \<exists>q\<in>set others. tr_id q = tr_id r then Some (IntegrityConstraintError ''ata_trunks_pkey'')
      else if \<exists>q\<in>set others. same_identity q r
        then Some (IntegrityConstraintError ''uq_ata_trunks_profile_username'')
      else if \<exists>q\<in>set others. same_prefix q r
        then Some (IntegrityConstraintError ''uq_ata_trunks_tenant_prefix'')
      else if \<forall>q\<in>set (db_tenants db). te_id q \<noteq> tr_tenant r
        then Some (IntegrityConstraintError ''ata_trunks_tenant_id_fkey'')
      else if \<forall>q\<in>set (db_pbxs db). px_id q \<noteq> tr_pbx r
        then Some (IntegrityConstraintError ''ata_trunks_pbx_id_fkey'')
      else if \<forall>q\<in>set (db_condos db). co_id q \<noteq> tr_condo r
        then Some (IntegrityConstraintError ''ata_trunks_condominium_id_fkey'')
      else None)"

text \<open>What the constraints are for: identifiers and identities are unique, and every row is well formed.\<close>

definition trunk_row_ok :: "public_db \<Rightarrow> trunk_row \<Rightarrow> bool" where
  "trunk_row_ok db r \<longleftrightarrow> prefix_ok (tr_prefix r) \<and> tr_profile r \<in> set profiles \<and> tr_transport r = ''udp''
     \<and> tr_status r \<in> set reg_statuses \<and> \<not> too_long 128 (tr_user r)
     \<and> (tr_error_code r = None \<or> \<not> too_long 64 (the (tr_error_code r)))
     \<and> (\<exists>q\<in>set (db_tenants db). te_id q = tr_tenant r) \<and> (\<exists>q\<in>set (db_pbxs db). px_id q = tr_pbx r)
     \<and> (\<exists>q\<in>set (db_condos db). co_id q = tr_condo r)"

fun pairwise :: "('a \<Rightarrow> 'a \<Rightarrow> bool) \<Rightarrow> 'a list \<Rightarrow> bool" where
  "pairwise p [] = True"
| "pairwise p (x # xs) = ((\<forall>y\<in>set xs. p x y) \<and> pairwise p xs)"

definition trunks_apart :: "trunk_row \<Rightarrow> trunk_row \<Rightarrow> bool" where
  "trunks_apart q r \<longleftrightarrow> tr_id q \<noteq> tr_id r \<and> \<not> same_identity q r \<and> \<not> same_prefix q r"

definition trunks_sound :: "public_db \<Rightarrow> trunk_row list \<Rightarrow> bool" where
  "trunks_sound db t \<longleftrightarrow> (\<forall>r\<in>set t. trunk_row_ok db r) \<and> pairwise trunks_apart t"

definition condo_row_ok :: "public_db \<Rightarrow> condo_row \<Rightarrow> bool" where
  "condo_row_ok db r \<longleftrightarrow> (\<exists>q\<in>set (db_tenants db). te_id q = co_tenant r) \<and> (\<exists>q\<in>set (db_pbxs db). px_id q = co_pbx r)"

definition condos_apart :: "condo_row \<Rightarrow> condo_row \<Rightarrow> bool" where
  "condos_apart q r \<longleftrightarrow> co_id q \<noteq> co_id r
     \<and> \<not> (co_tenant q = co_tenant r \<and> co_pbx q = co_pbx r
          \<and> (co_name q = co_name r \<or> (co_external q = co_external r \<and> co_external r \<noteq> None)))"

definition condos_sound :: "public_db \<Rightarrow> condo_row list \<Rightarrow> bool" where
  "condos_sound db t \<longleftrightarrow> (\<forall>r\<in>set t. condo_row_ok db r) \<and> pairwise condos_apart t"

lemma pairwise_append: "pairwise p (xs @ ys) \<longleftrightarrow> pairwise p xs \<and> pairwise p ys \<and> (\<forall>x\<in>set xs. \<forall>y\<in>set ys. p x y)"
  by (induction xs) auto

lemma trunks_apart_sym: "trunks_apart q r \<longleftrightarrow> trunks_apart r q"
  by (auto simp: trunks_apart_def same_identity_def same_prefix_def)

lemma condos_apart_sym: "condos_apart q r \<longleftrightarrow> condos_apart r q"
  by (auto simp: condos_apart_def)

lemma trunk_violation_None:
  assumes "trunk_violation db others r = None"
  shows "trunk_row_ok db r" and "\<forall>q\<in>set others. trunks_apart q r"
  using assms
  by (auto simp: trunk_violation_def trunk_row_ok_def trunks_apart_def split: if_splits)

lemma condo_violation_None:
  assumes "condo_violation db others r = None"
  shows "condo_row_ok db r" and "\<forall>q\<in>set others. condos_apart q r"
  using assms
  by (auto simp: condo_violation_def condo_row_ok_def condos_apart_def split: if_splits)

interpretation trunks: sound_table tr_id "trunk_violation db" "trunks_sound db"
proof
  fix t r
  show "trunks_sound db t \<Longrightarrow> trunk_violation db t r = None \<Longrightarrow> trunks_sound db (t @ [r])"
    using trunk_violation_None[of db t r] by (auto simp: trunks_sound_def pairwise_append)
next
  fix xs x ys
  show "trunks_sound db (xs @ x # ys) \<Longrightarrow> trunks_sound db (xs @ ys)"
    by (auto simp: trunks_sound_def pairwise_append)
next
  fix xs ys r
  show "trunks_sound db (xs @ ys) \<Longrightarrow> trunk_violation db (xs @ ys) r = None \<Longrightarrow> trunks_sound db (xs @ r # ys)"
    using trunk_violation_None[of db "xs @ ys" r] trunks_apart_sym
    by (auto simp: trunks_sound_def pairwise_append)
qed

interpretation condos: sound_table co_id "condo_violation db" "condos_sound db"
proof
  fix t r
  show "condos_sound db t \<Longrightarrow> condo_violation db t r = None \<Longrightarrow> condos_sound db (t @ [r])"
    using condo_violation_None[of db t r] by (auto simp: condos_sound_def pairwise_append)
next
  fix xs x ys
  show "condos_sound db (xs @ x # ys) \<Longrightarrow> condos_sound db (xs @ ys)"
    by (auto simp: condos_sound_def pairwise_append)
next
  fix xs ys r
  show "condos_sound db (xs @ ys) \<Longrightarrow> condo_violation db (xs @ ys) r = None \<Longrightarrow> condos_sound db (xs @ r # ys)"
    using condo_violation_None[of db "xs @ ys" r] condos_apart_sym
    by (auto simp: condos_sound_def pairwise_append)
qed

section \<open>Sessions on a tenant schema\<close>

text \<open>
  \<open>async for session in get_tenant_db(schema)\<close>. The session's own commits only close its
  logical transaction: the changes persist when the generator is resumed after the body and
  commits the connection. A body that returns or raises never resumes it, and leaving the
  connection rolls back. The body answers None when it falls through to the end of the loop,
  Some v when it executes \<open>return v\<close>; \<open>after\<close> is the value returned after the loop.
\<close>

definition with_tenant_session :: "'a \<Rightarrow> ('t, 'a option) prog \<Rightarrow> ('t, 'a) prog" where
  "with_tenant_session after body committed =
     (case body committed of
        (Inl e, _) \<Rightarrow> (Inl e, committed)
      | (Inr (Some v), _) \<Rightarrow> (Inr v, committed)
      | (Inr None, changed) \<Rightarrow> (Inr after, changed))"

text \<open>\<open>_TENANT_SCHEMA_PATTERN.fullmatch\<close> and \<open>create_tenant_schema\<close>.\<close>

definition tenant_schema_ok :: "string \<Rightarrow> bool" where
  "tenant_schema_ok s \<longleftrightarrow> starts_with ''tenant_'' s \<and> length s > 7
     \<and> list_all (\<lambda>c. is_lower c \<or> is_digit c \<or> c = CHR ''_'') (drop 7 s)"

definition validate_tenant_schema :: "string \<Rightarrow> exc + string" where
  "validate_tenant_schema s = (if tenant_schema_ok s then Inr s else Inl (ValueError ''schema de tenant invalido''))"

definition create_tenant_schema :: "string \<Rightarrow> (string list, unit) prog" where
  "create_tenant_schema s schemas =
     (case validate_tenant_schema s of
        Inl e \<Rightarrow> (Inl e, schemas)
      | Inr n \<Rightarrow> (Inr (), List.insert n schemas))"

end
