(* ===== verification/Calls.thy ===== *)
theory Calls
  imports Database
begin

text \<open>
  \<open>services/calls.py\<close> on the table \<open>calls\<close> of a tenant schema: a call is ringing, in progress,
  then completed or failed. Each function opens a session with \<open>get_tenant_db\<close>
  (\<open>with_tenant_session\<close>), so what it leaves depends on how its body ends. Times are
  microseconds; \<open>cs_now\<close> is the clock, \<open>cs_id\<close> the UUID of a new row.
\<close>

datatype call_status = Ringing | InProgress | Completed | Failed

datatype call_direction = Inbound | Outbound

record call_row =
  ca_id :: string
  ca_call_id :: string
  ca_pbx :: "string option"
  ca_agent :: "string option"
  ca_caller :: "string option"
  ca_callee :: "string option"
  ca_direction :: call_direction
  ca_status :: call_status
  ca_started :: "int option"
  ca_ended :: "int option"
  ca_duration :: "int option"

record call_env =
  cs_now :: int
  cs_id :: string
  cs_commit :: "exc option"

definition NORMAL_HANGUP_CAUSES :: "string list" where
  "NORMAL_HANGUP_CAUSES = [''NORMAL_CLEARING'', ''NORMAL_UNSPECIFIED'']"

definition tenant_schema :: "string \<Rightarrow> string" where
  "tenant_schema tenant_id = ''tenant_'' @ tenant_id"

definition opt_too_long :: "nat \<Rightarrow> string option \<Rightarrow> bool" where
  "opt_too_long n v \<longleftrightarrow> v \<noteq> None \<and> too_long n (the v)"

definition call_violation :: "call_row list \<Rightarrow> call_row \<Rightarrow> exc option" where
  "call_violation others r =
     (if too_long 128 (ca_call_id r) \<or> opt_too_long 64 (ca_agent r) \<or> opt_too_long 32 (ca_caller r)
         \<or> opt_too_long 32 (ca_callee r) then Some truncation
      else if \<exists>q\<in>set others. ca_id q = ca_id r then Some (IntegrityConstraintError ''calls_pkey'')
      else if \<exists>q\<in>set others. ca_call_id q = ca_call_id r then Some (IntegrityConstraintError ''calls_call_id_key'')
      else None)"

definition or_none :: "string option \<Rightarrow> string option" where
  "or_none v = (case v of None \<Rightarrow> None | Some s \<Rightarrow> if s = [] then None else Some s)"

definition new_call :: "call_env \<Rightarrow> call_status \<Rightarrow> string \<Rightarrow> string \<Rightarrow> string \<Rightarrow> string option \<Rightarrow> string option \<Rightarrow> call_row" where
  "new_call env status call_id pbx_id agent_extension caller callee =
     \<lparr>ca_id = cs_id env, ca_call_id = call_id, ca_pbx = or_none (Some pbx_id),
      ca_agent = or_none (Some agent_extension), ca_caller = or_none caller, ca_callee = or_none callee,
      ca_direction = Inbound, ca_status = status, ca_started = Some (cs_now env), ca_ended = None,
      ca_duration = None\<rparr>"

definition insert_call :: "call_env \<Rightarrow> call_row \<Rightarrow> (call_row list, unit option) prog" where
  "insert_call env r t =
     (case repo_create call_violation (cs_commit env) r t of
        (Inl e, t') \<Rightarrow> (Inl e, t') | (Inr _, t') \<Rightarrow> (Inr None, t'))"

definition create_call_record ::
    "call_env \<Rightarrow> string \<Rightarrow> string \<Rightarrow> string \<Rightarrow> string option \<Rightarrow> string option \<Rightarrow> (call_row list, unit) prog" where
  "create_call_record env call_id pbx_id agent_extension caller callee =
     with_tenant_session () (insert_call env (new_call env InProgress call_id pbx_id agent_extension caller callee))"

definition create_ringing_call_record ::
    "call_env \<Rightarrow> string \<Rightarrow> string \<Rightarrow> string \<Rightarrow> string option \<Rightarrow> string option \<Rightarrow> (call_row list, unit) prog" where
  "create_ringing_call_record env call_id pbx_id agent_extension caller callee =
     with_tenant_session () (insert_call env (new_call env Ringing call_id pbx_id agent_extension caller callee))"

definition find_call :: "string \<Rightarrow> call_row list \<Rightarrow> call_row list" where
  "find_call call_id t = repo_find_by (\<lambda>r. ca_call_id r = call_id) t"

definition update_call :: "call_env \<Rightarrow> string \<Rightarrow> (call_row \<Rightarrow> call_row) \<Rightarrow> (call_row list, call_row option) prog" where
  "update_call env = repo_update ca_id call_violation (cs_commit env)"

text \<open>The bodies of the two \<open>async for\<close> loops, with their returns.\<close>

definition mark_body :: "call_env \<Rightarrow> string \<Rightarrow> (call_row list, bool option) prog" where
  "mark_body env call_id t =
     (case find_call call_id t of
        [] \<Rightarrow> (Inr (Some False), t)
      | r # _ \<Rightarrow>
         (case update_call env (ca_id r)
             (\<lambda>x. x\<lparr>ca_status := InProgress, ca_started := Some (cs_now env)\<rparr>) t of
            (Inl e, t') \<Rightarrow> (Inl e, t')
          | (Inr _, t') \<Rightarrow> (Inr (Some True), t')))"

definition mark_call_in_progress :: "call_env \<Rightarrow> string \<Rightarrow> (call_row list, bool) prog" where
  "mark_call_in_progress env call_id = with_tenant_session False (mark_body env call_id)"

definition closing :: "call_env \<Rightarrow> string option \<Rightarrow> call_row \<Rightarrow> call_row \<Rightarrow> call_row" where
  "closing env hangup_cause existing x =
     x\<lparr>ca_status := (if hangup_cause \<noteq> None \<and> the hangup_cause \<in> set NORMAL_HANGUP_CAUSES then Completed else Failed),
       ca_ended := Some (cs_now env),
       ca_duration := (case ca_started existing of None \<Rightarrow> None | Some s \<Rightarrow> Some (cs_now env - s))\<rparr>"

definition finalize_body :: "call_env \<Rightarrow> string \<Rightarrow> string option \<Rightarrow> (call_row list, unit option) prog" where
  "finalize_body env call_id hangup_cause t =
     (case find_call call_id t of
        [] \<Rightarrow> (Inr (Some ()), t)
      | r # _ \<Rightarrow>
         (case update_call env (ca_id r) (closing env hangup_cause r) t of
            (Inl e, t') \<Rightarrow> (Inl e, t') | (Inr _, t') \<Rightarrow> (Inr None, t')))"

definition finalize_call_record :: "call_env \<Rightarrow> string \<Rightarrow> string option \<Rightarrow> (call_row list, unit) prog" where
  "finalize_call_record env call_id hangup_cause =
     with_tenant_session () (finalize_body env call_id hangup_cause)"

section \<open>The table\<close>

definition calls_apart :: "call_row \<Rightarrow> call_row \<Rightarrow> bool" where
  "calls_apart q r \<longleftrightarrow> ca_id q \<noteq> ca_id r \<and> ca_call_id q \<noteq> ca_call_id r"

definition calls_sound :: "call_row list \<Rightarrow> bool" where
  "calls_sound t \<longleftrightarrow> pairwise calls_apart t"

lemma call_violation_None: "call_violation others r = None \<Longrightarrow> \<forall>q\<in>set others. calls_apart q r"
  by (auto simp: call_violation_def calls_apart_def split: if_splits)

lemma calls_apart_sym: "calls_apart q r \<longleftrightarrow> calls_apart r q"
  by (auto simp: calls_apart_def)

interpretation calls: sound_table ca_id call_violation calls_sound
proof
  fix t r
  show "calls_sound t \<Longrightarrow> call_violation t r = None \<Longrightarrow> calls_sound (t @ [r])"
    using call_violation_None[of t r] by (auto simp: calls_sound_def pairwise_append)
next
  fix xs x ys
  show "calls_sound (xs @ x # ys) \<Longrightarrow> calls_sound (xs @ ys)"
    by (auto simp: calls_sound_def pairwise_append)
next
  fix xs ys r
  show "calls_sound (xs @ ys) \<Longrightarrow> call_violation (xs @ ys) r = None \<Longrightarrow> calls_sound (xs @ r # ys)"
    using call_violation_None[of "xs @ ys" r] calls_apart_sym
    by (auto simp: calls_sound_def pairwise_append)
qed

lemma with_session_sound:
  assumes "P t" and "\<And>r t'. body t = (r, t') \<Longrightarrow> P t'" and "with_tenant_session a body t = (res, t')"
  shows "P t'"
  using assms by (auto simp: with_tenant_session_def split: prod.splits sum.splits option.splits)

datatype call_op =
    CreateCall call_env string string string "string option" "string option"
  | CreateRinging call_env string string string "string option" "string option"
  | MarkInProgress call_env string
  | FinalizeCall call_env string "string option"

fun call_step :: "call_op \<Rightarrow> call_row list \<Rightarrow> call_row list" where
  "call_step (CreateCall env c p a x y) t = snd (create_call_record env c p a x y t)"
| "call_step (CreateRinging env c p a x y) t = snd (create_ringing_call_record env c p a x y t)"
| "call_step (MarkInProgress env c) t = snd (mark_call_in_progress env c t)"
| "call_step (FinalizeCall env c h) t = snd (finalize_call_record env c h t)"

text \<open>A row is closed exactly when it has an end.\<close>

definition row_ok :: "call_row \<Rightarrow> bool" where
  "row_ok r \<longleftrightarrow> (ca_status r \<in> {Completed, Failed} \<longleftrightarrow> ca_ended r \<noteq> None)"

definition calls_ok :: "call_row list \<Rightarrow> bool" where
  "calls_ok t \<longleftrightarrow> calls_sound t \<and> (\<forall>r\<in>set t. row_ok r)"

lemma insert_call_ok:
  assumes "calls_ok t" and "row_ok r" and "insert_call env r t = (res, t')"
  shows "calls_ok t'"
proof -
  obtain q where q: "repo_create call_violation (cs_commit env) r t = (q, t')"
    using assms(3) by (auto simp: insert_call_def split: prod.splits sum.splits)
  have "calls_sound t'" using calls.create_sound[OF _ q] assms(1) by (simp add: calls_ok_def)
  moreover have "t' = t \<or> t' = t @ [r]"
    using q by (auto simp: repo_create_def split: option.splits)
  ultimately show ?thesis using assms(1,2) by (auto simp: calls_ok_def)
qed

lemma update_call_rows:
  assumes "update_call env i f t = (res, t')"
  shows "t' = t \<or> (\<exists>xs r ys. t = xs @ r # ys \<and> ca_id r = i \<and> t' = xs @ f r # ys)"
proof (cases "repo_get ca_id i t")
  case None
  with assms show ?thesis by (simp add: update_call_def repo_update_def)
next
  case (Some r)
  from repo_get_split[OF Some] show ?thesis
    using assms Some by (auto simp: update_call_def repo_update_def split: option.splits)
qed

lemma update_call_sound: "calls_sound t \<Longrightarrow> update_call env i f t = (res, t') \<Longrightarrow> calls_sound t'"
  unfolding update_call_def by (rule calls.update_sound)

lemma find_call_head:
  assumes "find_call c t = r # rs"
  shows "r \<in> set t \<and> ca_call_id r = c"
proof -
  have "r \<in> set (find_call c t)" using assms by simp
  then show ?thesis by (simp add: find_call_def repo_find_by_def)
qed

lemma row_ok_closing [simp]: "row_ok (closing env h r x)"
  by (simp add: row_ok_def closing_def)

lemma finalize_body_ok:
  assumes "calls_ok t" and "finalize_body env c h t = (res, t')"
  shows "calls_ok t'"
proof (cases "find_call c t")
  case Nil
  with assms show ?thesis by (simp add: finalize_body_def)
next
  case (Cons r rs)
  then obtain q where q: "update_call env (ca_id r) (closing env h r) t = (q, t')"
    using assms(2) by (auto simp: finalize_body_def split: prod.splits sum.splits)
  have "calls_sound t'" using update_call_sound[OF _ q] assms(1) by (simp add: calls_ok_def)
  with update_call_rows[OF q] assms(1) show ?thesis
    by (auto simp: calls_ok_def)
qed

lemma mark_rolls_back: "snd (mark_call_in_progress env c t) = t"
  by (auto simp: mark_call_in_progress_def with_tenant_session_def mark_body_def
      split: prod.splits sum.splits option.splits list.splits)

interpretation cm: machine call_step calls_ok
proof
  fix t x
  assume ok: "calls_ok t"
  show "calls_ok (call_step x t)"
  proof (cases x)
    case (CreateCall env c p a y z)
    have "row_ok (new_call env InProgress c p a y z)" by (simp add: row_ok_def new_call_def)
    from with_session_sound[of calls_ok t "insert_call env (new_call env InProgress c p a y z)" "()", OF ok]
      insert_call_ok[OF ok this] CreateCall show ?thesis
      by (auto simp: create_call_record_def) (metis prod.collapse)
  next
    case (CreateRinging env c p a y z)
    have "row_ok (new_call env Ringing c p a y z)" by (simp add: row_ok_def new_call_def)
    from with_session_sound[of calls_ok t "insert_call env (new_call env Ringing c p a y z)" "()", OF ok]
      insert_call_ok[OF ok this] CreateRinging show ?thesis
      by (auto simp: create_ringing_call_record_def) (metis prod.collapse)
  next
    case (MarkInProgress env c)
    with ok show ?thesis by (simp add: mark_rolls_back)
  next
    case (FinalizeCall env c h)
    from with_session_sound[of calls_ok t "finalize_body env c h" "()", OF ok] finalize_body_ok[OF ok]
      FinalizeCall show ?thesis
      by (auto simp: finalize_call_record_def) (metis prod.collapse)
  qed
qed

text \<open>C10. Over any history of call events, with any failures of the database, a tenant's table
  keeps one row per call id, and a row has an end time exactly when its status is completed
  or failed.\<close>

theorem call_table_invariant:
  assumes "q \<in> set (run_ops call_step ops [])" and "r \<in> set (run_ops call_step ops [])"
  shows "(ca_call_id q = ca_call_id r \<longrightarrow> q = r)
    \<and> (ca_status q \<in> {Completed, Failed} \<longleftrightarrow> ca_ended q \<noteq> None)"
proof -
  have "calls_ok []" by (simp add: calls_ok_def calls_sound_def)
  then have ok: "calls_ok (run_ops call_step ops [])" by (rule cm.run_inv)
  have "pairwise calls_apart t \<Longrightarrow> q \<in> set t \<Longrightarrow> r \<in> set t \<Longrightarrow> ca_call_id q = ca_call_id r \<Longrightarrow> q = r" for t
    by (induction t) (auto simp: calls_apart_def)
  with ok assms show ?thesis by (auto simp: calls_ok_def calls_sound_def row_ok_def)
qed

text \<open>Promoting a ringing call is never persisted. \<open>mark_call_in_progress\<close> returns True from
  inside the \<open>async for\<close>, so the connection is not committed: the table keeps the ringing row
  with the start of the ringing, while the caller is told that the call is in progress and
  does not create a record.\<close>

theorem mark_in_progress_is_lost:
  assumes "find_call call_id t = r # rs" and "ca_status r = Ringing"
    and "calls_sound t" and "cs_commit env = None"
    and "\<forall>q\<in>set t. call_violation [] q = None"
  shows "mark_call_in_progress env call_id t = (Inr True, t)"
proof -
  have rt: "r \<in> set t" "ca_call_id r = call_id"
    using find_call_head[OF assms(1)] by auto
  let ?f = "\<lambda>x. x\<lparr>ca_status := InProgress, ca_started := Some (cs_now env)\<rparr>"
  obtain q where g: "repo_get ca_id (ca_id r) t = Some q"
    using rt(1) repo_get_None[of ca_id "ca_id r" t] by (cases "repo_get ca_id (ca_id r) t") auto
  obtain xs ys where s: "t = xs @ q # ys" "other_rows ca_id (ca_id r) t = xs @ ys" "ca_id q = ca_id r"
    using repo_get_split[OF g] by blast
  have "\<forall>z\<in>set (xs @ ys). calls_apart z q"
    using assms(3) s(1) calls_apart_sym by (auto simp: calls_sound_def pairwise_append)
  moreover have "call_violation [] q = None" using assms(5) s(1) by auto
  ultimately have "call_violation (xs @ ys) (?f q) = None"
    by (auto simp: call_violation_def calls_apart_def split: if_splits)
  then have "mark_body env call_id t = (Inr (Some True), replace_row ca_id (ca_id r) (?f q) t)"
    using assms(1,4) g s(2) by (simp add: mark_body_def update_call_def repo_update_def)
  then show ?thesis by (simp add: mark_call_in_progress_def with_tenant_session_def)
qed

lemma finalize_maps:
  assumes "calls_sound t" and "cs_commit env = None" and "\<forall>q\<in>set t. call_violation [] q = None"
  shows "finalize_call_record env call_id cause t =
     (Inr (), map (\<lambda>r. if ca_call_id r = call_id then closing env cause r r else r) t)"
proof (cases "find_call call_id t")
  case Nil
  then have "\<forall>r\<in>set t. ca_call_id r \<noteq> call_id"
    by (auto simp: find_call_def repo_find_by_def filter_empty_conv)
  then have "map (\<lambda>r. if ca_call_id r = call_id then closing env cause r r else r) t = t"
    by (simp add: map_idI)
  with Nil show ?thesis
    by (simp add: finalize_call_record_def with_tenant_session_def finalize_body_def)
next
  case (Cons r rs)
  have rt: "r \<in> set t" "ca_call_id r = call_id"
    using find_call_head[OF Cons] by auto
  obtain q where g: "repo_get ca_id (ca_id r) t = Some q"
    using rt(1) repo_get_None[of ca_id "ca_id r" t] by (cases "repo_get ca_id (ca_id r) t") auto
  obtain xs ys where s: "t = xs @ q # ys" "other_rows ca_id (ca_id r) t = xs @ ys" "ca_id q = ca_id r"
    "\<And>p. replace_row ca_id (ca_id r) p t = xs @ p # ys"
    using repo_get_split[OF g] by blast
  have apart: "\<forall>z\<in>set (xs @ ys). calls_apart z q"
    using assms(1) s(1) calls_apart_sym by (auto simp: calls_sound_def pairwise_append)
  have qr: "q = r" using rt(1) s(1,3) apart by (auto simp: calls_apart_def)
  have "call_violation [] q = None" using assms(3) s(1) by auto
  with apart have "call_violation (xs @ ys) (closing env cause r q) = None"
    by (auto simp: call_violation_def calls_apart_def closing_def split: if_splits)
  then have "finalize_body env call_id cause t = (Inr None, xs @ closing env cause r r # ys)"
    using Cons assms(2) g s(2,4) qr by (simp add: finalize_body_def update_call_def repo_update_def)
  moreover have "map (\<lambda>r. if ca_call_id r = call_id then closing env cause r r else r) t = xs @ closing env cause r r # ys"
    using apart s(1) qr rt(2) by (auto simp: calls_apart_def map_idI)
  ultimately show ?thesis by (simp add: finalize_call_record_def with_tenant_session_def)
qed

text \<open>The hangup of a recorded call is persisted: the one row of the call gets its end, its
  status by the hangup cause and the time since its recorded start as duration; every other
  row is untouched. A hangup of an unknown call changes nothing.\<close>

theorem finalize_closes_the_call:
  assumes "calls_sound t" and "cs_commit env = None" and "\<forall>q\<in>set t. call_violation [] q = None"
  shows "finalize_call_record env call_id cause t =
     (Inr (), map (\<lambda>r. if ca_call_id r = call_id then closing env cause r r else r) t)"
  using assms by (rule finalize_maps)

lemma mark_promotes:
  assumes "find_call call_id t \<noteq> []"
  shows "fst (mark_call_in_progress env call_id t) \<noteq> Inr False"
  using assms
  by (auto simp: mark_call_in_progress_def with_tenant_session_def mark_body_def
      split: prod.splits sum.splits option.splits list.splits)

lemma ringing_inserted:
  assumes "cs_commit env = None" and "call_violation t (new_call env Ringing c p a x y) = None"
  shows "create_ringing_call_record env c p a x y t = (Inr (), t @ [new_call env Ringing c p a x y])"
  using assms
  by (simp add: create_ringing_call_record_def with_tenant_session_def insert_call_def repo_create_def)

lemma find_call_app: "find_call c (t @ u) = find_call c t @ find_call c u"
  by (simp add: find_call_def repo_find_by_def)

section \<open>A call\<close>

definition call_env_at :: "int \<Rightarrow> call_env" where
  "call_env_at t = \<lparr>cs_now = t, cs_id = ''row-1'', cs_commit = None\<rparr>"

definition ringing_row :: call_row where
  "ringing_row = new_call (call_env_at 5) Ringing ''call-1'' ''pbx'' ''100'' (Some ''11999'') None"

lemma ringing_row_facts:
  "find_call ''call-1'' [ringing_row] = [ringing_row]" "ca_status ringing_row = Ringing" "calls_sound [ringing_row]"
  "\<forall>q\<in>set [ringing_row]. call_violation [] q = None"
  by (simp_all add: find_call_def repo_find_by_def ringing_row_def new_call_def calls_sound_def call_violation_def
      opt_too_long_def too_long_def or_none_def)

theorem call_table_invariant_witness:
  "ca_status ringing_row = Ringing \<and> ca_ended ringing_row = None"
proof -
  have "run_ops call_step [CreateRinging (call_env_at 5) ''call-1'' ''pbx'' ''100'' (Some ''11999'') None] [] = [ringing_row]"
    by (simp add: create_ringing_call_record_def with_tenant_session_def insert_call_def repo_create_def
        ringing_row_def call_env_at_def call_violation_def new_call_def opt_too_long_def too_long_def or_none_def)
  then show ?thesis
    using call_table_invariant[of ringing_row "[CreateRinging (call_env_at 5) ''call-1'' ''pbx'' ''100'' (Some ''11999'') None]" ringing_row]
      ringing_row_facts(2) by simp
qed

theorem mark_in_progress_is_lost_witness:
  "mark_call_in_progress (call_env_at 9) ''call-1'' [ringing_row] = (Inr True, [ringing_row])"
  using mark_in_progress_is_lost[OF ringing_row_facts(1,2,3) _ ringing_row_facts(4), of "call_env_at 9"]
  by (simp add: call_env_at_def)

theorem finalize_closes_the_call_witness:
  "finalize_call_record (call_env_at 20) ''call-1'' (Some ''NORMAL_CLEARING'') [ringing_row]
     = (Inr (), [ringing_row\<lparr>ca_status := Completed, ca_ended := Some 20, ca_duration := Some 15\<rparr>])"
  using finalize_closes_the_call[OF ringing_row_facts(3) _ ringing_row_facts(4), of "call_env_at 20" "''call-1''" "Some ''NORMAL_CLEARING''"]
  by (simp add: call_env_at_def closing_def NORMAL_HANGUP_CAUSES_def ringing_row_def new_call_def)

end
