(* ===== verification/Credentials.thy ===== *)
theory Credentials
  imports Zenith_Prelude
begin

text \<open>
  \<open>services/trunk_credentials.py\<close>: the cipher of SIP passwords. Fernet is third-party code: a
  record of what the wrapper uses of it (is a key well formed; encrypt; decrypt and rotate,
  None for an invalid token). The laws the wrapper relies on are \<open>fernet_laws\<close>.
\<close>

record fernet =
  fer_key_ok :: "string \<Rightarrow> bool"
  fer_encrypt :: "string list \<Rightarrow> string \<Rightarrow> string"
  fer_decrypt :: "string list \<Rightarrow> string \<Rightarrow> string option"
  fer_rotate :: "string list \<Rightarrow> string \<Rightarrow> string option"

definition normalized_keys :: "string list \<Rightarrow> string list" where
  "normalized_keys ks = filter (\<lambda>k. k \<noteq> []) (map py_strip ks)"

text \<open>The constructor returns the normalized keys, the state of the \<open>MultiFernet\<close>.\<close>

definition new_cipher :: "fernet \<Rightarrow> string list \<Rightarrow> exc + string list" where
  "new_cipher F ks =
     (if normalized_keys ks = [] \<or> \<not> list_all (fer_key_ok F) (normalized_keys ks)
      then Inl (CredentialConfigurationError ''credential_keys_invalid'')
      else Inr (normalized_keys ks))"

definition cipher_encrypt :: "fernet \<Rightarrow> string list \<Rightarrow> string \<Rightarrow> exc + string" where
  "cipher_encrypt F ks plaintext =
     (if plaintext = [] then Inl (CredentialTokenError ''credential_plaintext_invalid'')
      else Inr (fer_encrypt F ks plaintext))"

definition cipher_decrypt :: "fernet \<Rightarrow> string list \<Rightarrow> string \<Rightarrow> exc + string" where
  "cipher_decrypt F ks tok =
     (case fer_decrypt F ks tok of
        None \<Rightarrow> Inl (CredentialTokenError ''credential_token_invalid'') | Some p \<Rightarrow> Inr p)"

definition cipher_rotate :: "fernet \<Rightarrow> string list \<Rightarrow> string \<Rightarrow> exc + string" where
  "cipher_rotate F ks tok =
     (case fer_rotate F ks tok of
        None \<Rightarrow> Inl (CredentialTokenError ''credential_token_invalid'') | Some p \<Rightarrow> Inr p)"

text \<open>
  Documented behaviour of \<open>MultiFernet\<close>: the first key encrypts, any key of the list decrypts,
  rotating a token re-encrypts what it decrypts to with the first key.
\<close>

definition fernet_laws :: "fernet \<Rightarrow> bool" where
  "fernet_laws F \<longleftrightarrow>
     (\<forall>k ks ks' p. k \<in> set ks' \<longrightarrow> fer_decrypt F ks' (fer_encrypt F (k # ks) p) = Some p)
   \<and> (\<forall>ks tok. fer_rotate F ks tok = map_option (fer_encrypt F ks) (fer_decrypt F ks tok))"

lemma encrypt_ok: "p \<noteq> [] \<Longrightarrow> cipher_encrypt F ks p = Inr (fer_encrypt F ks p)"
  by (simp add: cipher_encrypt_def)

text \<open>Key rotation loses no credential: a password encrypted under an old key still decrypts
  after a new key is put in front, and after \<open>rotate\<close> it decrypts with the new key alone, so
  the old key may be dropped.\<close>

theorem rotation_keeps_password:
  assumes "fernet_laws F" and "new_cipher F [old] = Inr ks" and "new_cipher F [new, old] = Inr ks2"
    and "new_cipher F [new] = Inr ks3" and "cipher_encrypt F ks p = Inr tok"
  shows "cipher_decrypt F ks2 tok = Inr p
    \<and> (\<exists>tok2. cipher_rotate F ks2 tok = Inr tok2 \<and> cipher_decrypt F ks3 tok2 = Inr p)"
proof -
  have so: "py_strip old \<noteq> []" and ks: "ks = [py_strip old]"
    using assms(2) by (auto simp: new_cipher_def normalized_keys_def split: if_splits)
  have sn: "py_strip new \<noteq> []" and ks3: "ks3 = [py_strip new]"
    using assms(4) by (auto simp: new_cipher_def normalized_keys_def split: if_splits)
  have ks2: "ks2 = [py_strip new, py_strip old]"
    using assms(3) so sn by (auto simp: new_cipher_def normalized_keys_def split: if_splits)
  have tok: "tok = fer_encrypt F [py_strip old] p" using assms(5) ks by (auto simp: cipher_encrypt_def split: if_splits)
  have d: "k \<in> set ks' \<Longrightarrow> fer_decrypt F ks' (fer_encrypt F (k # r) p) = Some p" for k r ks'
    using assms(1) by (simp add: fernet_laws_def)
  have r: "fer_rotate F ks2 tok = Some (fer_encrypt F ks2 p)"
    using assms(1) d[of "py_strip old" ks2 "[]"] ks2 tok by (simp add: fernet_laws_def)
  show ?thesis
    using d[of "py_strip old" ks2 "[]"] d[of "py_strip new" ks3 "[py_strip old]"] r ks2 ks3 tok
    by (simp add: cipher_decrypt_def cipher_rotate_def)
qed

text \<open>A key prefixed to the text stands for encryption under it.\<close>

definition tagging_fernet :: fernet where
  "tagging_fernet = \<lparr>fer_key_ok = (\<lambda>k. k \<noteq> []),
     fer_encrypt = (\<lambda>ks p. (case ks of [] \<Rightarrow> [] | k # _ \<Rightarrow> map to_lower k) @ CHR ''A'' # p),
     fer_decrypt = (\<lambda>ks tok. case dropWhile (\<lambda>c. c \<noteq> CHR ''A'') tok of
        [] \<Rightarrow> None
      | _ # p \<Rightarrow> if \<exists>k\<in>set ks. map to_lower k = takeWhile (\<lambda>c. c \<noteq> CHR ''A'') tok then Some p else None),
     fer_rotate = (\<lambda>ks tok. map_option (\<lambda>p. (case ks of [] \<Rightarrow> [] | k # _ \<Rightarrow> map to_lower k) @ CHR ''A'' # p)
        (case dropWhile (\<lambda>c. c \<noteq> CHR ''A'') tok of
        [] \<Rightarrow> None
      | _ # p \<Rightarrow> if \<exists>k\<in>set ks. map to_lower k = takeWhile (\<lambda>c. c \<noteq> CHR ''A'') tok then Some p else None))\<rparr>"

lemma to_lower_not_A: "to_lower c \<noteq> CHR ''A''"
proof
  assume a: "to_lower c = CHR ''A''"
  show False
  proof (cases "is_upper c")
    case True
    then have "of_char c + (32::nat) < 256" "97 \<le> of_char c + (32::nat)"
      by (auto simp: is_upper_def)
    moreover have "of_char (to_lower c) = of_char c + (32::nat)"
      using True calculation(1) by (simp add: to_lower_def)
    ultimately show False using a by simp
  next
    case False
    with a have "c = CHR ''A''" by (simp add: to_lower_def)
    with False show False by (simp add: is_upper_def)
  qed
qed

lemma tagging_fernet_laws: "fernet_laws tagging_fernet"
proof -
  have "dropWhile (\<lambda>c. c \<noteq> CHR ''A'') (map to_lower k @ CHR ''A'' # p) = CHR ''A'' # p"
    "takeWhile (\<lambda>c. c \<noteq> CHR ''A'') (map to_lower k @ CHR ''A'' # p) = map to_lower k" for k p
    by (induction k) (auto simp: to_lower_not_A)
  then show ?thesis by (auto simp: fernet_laws_def tagging_fernet_def)
qed

theorem rotation_keeps_password_witness:
  "\<exists>tok2. cipher_rotate tagging_fernet [''new'', ''old''] ''oldAsecret'' = Inr tok2
     \<and> cipher_decrypt tagging_fernet [''new''] tok2 = Inr ''secret''"
proof -
  have k: "new_cipher tagging_fernet [''old''] = Inr [''old'']"
    "new_cipher tagging_fernet [''new'', ''old''] = Inr [''new'', ''old'']"
    "new_cipher tagging_fernet [''new''] = Inr [''new'']"
    "cipher_encrypt tagging_fernet [''old''] ''secret'' = Inr ''oldAsecret''" by code_simp+
  from rotation_keeps_password[OF tagging_fernet_laws k] show ?thesis by blast
qed

end
