(* ===== verification/Trunks.thy ===== *)
theory Trunks
  imports Database Credentials
begin

text \<open>
  \<open>services/trunks.py\<close>: condominiums and the ATA trunks of a tenant. The services work on the
  tables of the public schema through \<open>Repository\<close>; the cipher and the directory of legacy
  users are arguments (\<open>tv_encrypt\<close>, \<open>tv_legacy\<close>), as are the UUID of a new row and what a
  commit may raise besides a broken constraint.
\<close>

record trunk_env =
  tv_id :: string
  tv_commit :: "exc option"
  tv_encrypt :: "string \<Rightarrow> exc + string"
  tv_legacy :: "string \<Rightarrow> string \<Rightarrow> exc + bool"

section \<open>Condominiums\<close>

definition get_pbx :: "public_db \<Rightarrow> string \<Rightarrow> pbx_row option" where
  "get_pbx db i = repo_get px_id i (db_pbxs db)"

definition get_condo :: "public_db \<Rightarrow> string \<Rightarrow> condo_row option" where
  "get_condo db i = repo_get co_id i (db_condos db)"

definition get_trunk :: "public_db \<Rightarrow> string \<Rightarrow> trunk_row option" where
  "get_trunk db i = repo_get tr_id i (db_trunks db)"

definition get_tenant :: "public_db \<Rightarrow> string \<Rightarrow> tenant_row option" where
  "get_tenant db i = repo_get te_id i (db_tenants db)"

definition first_of :: "'a list \<Rightarrow> 'a option" where
  "first_of xs = (case xs of [] \<Rightarrow> None | x # _ \<Rightarrow> Some x)"

fun is_integrity :: "exc \<Rightarrow> bool" where
  "is_integrity (IntegrityConstraintError _) = True"
| "is_integrity _ = False"

definition on_condos :: "(condo_row list, 'a) prog \<Rightarrow> (public_db, 'a) prog" where
  "on_condos p db = (case p (db_condos db) of (r, t) \<Rightarrow> (r, db\<lparr>db_condos := t\<rparr>))"

definition on_trunks :: "(trunk_row list, 'a) prog \<Rightarrow> (public_db, 'a) prog" where
  "on_trunks p db = (case p (db_trunks db) of (r, t) \<Rightarrow> (r, db\<lparr>db_trunks := t\<rparr>))"

definition condo_create ::
    "trunk_env \<Rightarrow> string \<Rightarrow> string \<Rightarrow> string \<Rightarrow> string option \<Rightarrow> bool \<Rightarrow> (public_db, condo_row) prog" where
  "condo_create env tenant_id pbx_id name external_id enabled db =
     (case get_pbx db pbx_id of
        None \<Rightarrow> (Inl (ScopeValidationError ''pbx_not_found''), db)
      | Some pbx \<Rightarrow>
         if px_tenant pbx \<noteq> tenant_id then (Inl (ScopeValidationError ''pbx_not_found''), db)
         else (case first_of (repo_find_by (\<lambda>c. co_tenant c = tenant_id \<and> co_pbx c = pbx_id \<and> co_name c = name)
                    (db_condos db)) of
             Some existing \<Rightarrow> (Inr existing, db)
           | None \<Rightarrow>
              catchp (on_condos (repo_create (condo_violation db) (tv_commit env)
                  \<lparr>co_id = tv_id env, co_tenant = tenant_id, co_pbx = pbx_id, co_name = name,
                   co_external = external_id, co_enabled = enabled\<rparr>))
                is_integrity (\<lambda>_. throw (DuplicateIdentityError ''duplicate_external_id'')) db))"

definition condo_list :: "string \<Rightarrow> string option \<Rightarrow> public_db \<Rightarrow> condo_row list" where
  "condo_list tenant_id pbx_id db =
     repo_find_by (\<lambda>c. co_tenant c = tenant_id \<and> (pbx_id \<noteq> None \<longrightarrow> Some (co_pbx c) = pbx_id)) (db_condos db)"

record condo_changes =
  cc_name :: "string option"
  cc_external :: "string option option"
  cc_enabled :: "bool option"

definition change_condo :: "condo_changes \<Rightarrow> condo_row \<Rightarrow> condo_row" where
  "change_condo ch c = c
     \<lparr>co_name := (case cc_name ch of None \<Rightarrow> co_name c | Some v \<Rightarrow> v),
      co_external := (case cc_external ch of None \<Rightarrow> co_external c | Some v \<Rightarrow> v),
      co_enabled := (case cc_enabled ch of None \<Rightarrow> co_enabled c | Some v \<Rightarrow> v)\<rparr>"

definition condo_update ::
    "trunk_env \<Rightarrow> string \<Rightarrow> string \<Rightarrow> condo_changes \<Rightarrow> (public_db, condo_row option) prog" where
  "condo_update env tenant_id condominium_id changes db =
     (case get_condo db condominium_id of
        None \<Rightarrow> (Inl (ScopeValidationError ''condominium_not_found''), db)
      | Some c \<Rightarrow>
         if co_tenant c \<noteq> tenant_id then (Inl (ScopeValidationError ''condominium_not_found''), db)
         else catchp (on_condos (repo_update co_id (condo_violation db) (tv_commit env) condominium_id
                  (change_condo changes)))
                is_integrity (\<lambda>_. throw (DuplicateIdentityError ''duplicate_external_id'')) db)"

section \<open>Trunks\<close>

definition translate_trunk_integrity_error :: "exc \<Rightarrow> exc" where
  "translate_trunk_integrity_error e =
     (case e of
        IntegrityConstraintError text \<Rightarrow>
          (let message = py_lower text in
           if contains_str ''ck_ata_trunks_prefix_digits'' message then ValueError ''invalid_prefix''
           else if contains_str ''uq_ata_trunks_tenant_prefix'' message then DuplicateIdentityError ''duplicate_prefix''
           else if contains_str ''fkey'' message \<or> contains_str ''foreign key'' message
             then ScopeValidationError ''condominium_not_found''
           else DuplicateIdentityError ''duplicate_auth_identity'')
      | _ \<Rightarrow> e)"

definition validate_scope :: "string \<Rightarrow> string \<Rightarrow> string \<Rightarrow> public_db \<Rightarrow> exc + condo_row" where
  "validate_scope tenant_id pbx_id condominium_id db =
     (case get_pbx db pbx_id of
        None \<Rightarrow> Inl (ScopeValidationError ''pbx_not_found'')
      | Some pbx \<Rightarrow>
         if px_tenant pbx \<noteq> tenant_id then Inl (ScopeValidationError ''pbx_not_found'')
         else (case get_condo db condominium_id of
                 None \<Rightarrow> Inl (ScopeValidationError ''condominium_not_found'')
               | Some c \<Rightarrow>
                  if co_tenant c \<noteq> tenant_id \<or> co_pbx c \<noteq> pbx_id
                  then Inl (ScopeValidationError ''condominium_not_found'') else Inr c))"

definition find_identity :: "public_db \<Rightarrow> string \<Rightarrow> string \<Rightarrow> trunk_row option" where
  "find_identity db sip_profile auth_username =
     first_of (repo_find_by (\<lambda>t. tr_profile t = sip_profile \<and> tr_user t = auth_username) (db_trunks db))"

definition legacy_free :: "trunk_env \<Rightarrow> string \<Rightarrow> string \<Rightarrow> exc + unit" where
  "legacy_free env sip_profile auth_username =
     (case tv_legacy env sip_profile auth_username of
        Inl e \<Rightarrow> Inl e
      | Inr b \<Rightarrow> if b then Inl (DuplicateIdentityError ''duplicate_auth_identity'') else Inr ())"

definition ensure_unique ::
    "trunk_env \<Rightarrow> string \<Rightarrow> string option \<Rightarrow> string \<Rightarrow> string \<Rightarrow> public_db \<Rightarrow> exc + unit" where
  "ensure_unique env tenant_id prefix sip_profile auth_username db =
     (if find_identity db sip_profile auth_username \<noteq> None
      then Inl (DuplicateIdentityError ''duplicate_auth_identity'')
      else if prefix \<noteq> None
          \<and> first_of (repo_find_by (\<lambda>t. tr_tenant t = tenant_id \<and> tr_prefix t = prefix) (db_trunks db)) \<noteq> None
      then Inl (DuplicateIdentityError ''duplicate_prefix'')
      else legacy_free env sip_profile auth_username)"

definition blank_password :: "string option \<Rightarrow> bool" where
  "blank_password p \<longleftrightarrow> (case p of None \<Rightarrow> True | Some s \<Rightarrow> s = [] \<or> py_strip s = [])"

definition validate_create_inputs ::
    "trunk_env \<Rightarrow> string \<Rightarrow> string \<Rightarrow> string \<Rightarrow> string option \<Rightarrow> string \<Rightarrow> string option \<Rightarrow> string \<Rightarrow> string
     \<Rightarrow> public_db \<Rightarrow> exc + unit" where
  "validate_create_inputs env tenant_id pbx_id condominium_id prefix auth_username password sip_profile transport db =
     (case validate_scope tenant_id pbx_id condominium_id db of
        Inl e \<Rightarrow> Inl e
      | Inr _ \<Rightarrow>
         if \<not> prefix_ok prefix then Inl (ValueError ''invalid_prefix'')
         else if blank_password password then Inl (ValueError ''invalid_password'')
         else if sip_profile \<notin> set profiles \<or> transport \<noteq> ''udp''
         then Inl (ValueError ''invalid_sip_configuration'')
         else ensure_unique env tenant_id prefix sip_profile auth_username db)"

definition new_trunk ::
    "trunk_env \<Rightarrow> string \<Rightarrow> string \<Rightarrow> string \<Rightarrow> string option \<Rightarrow> string \<Rightarrow> string \<Rightarrow> string \<Rightarrow> bool \<Rightarrow> string
     \<Rightarrow> trunk_row" where
  "new_trunk env tenant_id pbx_id condominium_id prefix auth_username secret sip_profile enabled transport =
     \<lparr>tr_id = tv_id env, tr_tenant = tenant_id, tr_pbx = pbx_id, tr_condo = condominium_id,
      tr_prefix = prefix, tr_user = auth_username, tr_secret = secret, tr_profile = sip_profile,
      tr_transport = transport, tr_enabled = enabled, tr_status = ''unknown'',
      tr_registered_at = None, tr_unregistered_at = None, tr_error_code = None, tr_error_at = None\<rparr>"

definition trunk_create ::
    "trunk_env \<Rightarrow> string \<Rightarrow> string \<Rightarrow> string \<Rightarrow> string option \<Rightarrow> string \<Rightarrow> string option \<Rightarrow> string \<Rightarrow> bool \<Rightarrow> string
     \<Rightarrow> (public_db, trunk_row) prog" where
  "trunk_create env tenant_id pbx_id condominium_id prefix auth_username password sip_profile enabled transport db =
     (case validate_create_inputs env tenant_id pbx_id condominium_id prefix auth_username password
             sip_profile transport db of
        Inl e \<Rightarrow> (Inl e, db)
      | Inr _ \<Rightarrow>
         (case tv_encrypt env (the password) of
            Inl e \<Rightarrow> (Inl e, db)
          | Inr secret \<Rightarrow>
             catchp (on_trunks (repo_create (trunk_violation db) (tv_commit env)
                 (new_trunk env tenant_id pbx_id condominium_id prefix auth_username secret sip_profile enabled transport)))
               is_integrity (\<lambda>e. throw (translate_trunk_integrity_error e)) db))"

text \<open>The keyword arguments of \<open>update\<close>; an absent key is None, a prefix may be set to null.\<close>

record trunk_changes =
  tc_condo :: "string option"
  tc_prefix :: "string option option"
  tc_user :: "string option"
  tc_profile :: "string option"
  tc_enabled :: "bool option"
  tc_password :: "string option"

definition or_keep :: "'a option \<Rightarrow> 'a \<Rightarrow> 'a" where
  "or_keep v old = (case v of None \<Rightarrow> old | Some x \<Rightarrow> x)"

definition change_trunk :: "trunk_changes \<Rightarrow> string option \<Rightarrow> bool \<Rightarrow> trunk_row \<Rightarrow> trunk_row" where
  "change_trunk ch secret identity_changed t =
     (let t1 = t\<lparr>tr_condo := or_keep (tc_condo ch) (tr_condo t), tr_prefix := or_keep (tc_prefix ch) (tr_prefix t),
           tr_user := or_keep (tc_user ch) (tr_user t), tr_profile := or_keep (tc_profile ch) (tr_profile t),
           tr_enabled := or_keep (tc_enabled ch) (tr_enabled t), tr_secret := or_keep secret (tr_secret t)\<rparr>
      in if identity_changed
         then t1\<lparr>tr_status := ''unknown'', tr_registered_at := None, tr_unregistered_at := None\<rparr>
         else t1)"

definition sip_identity_changed :: "trunk_changes \<Rightarrow> trunk_row \<Rightarrow> bool" where
  "sip_identity_changed ch t \<longleftrightarrow>
     (tc_user ch \<noteq> None \<and> tc_user ch \<noteq> Some (tr_user t)) \<or> (tc_profile ch \<noteq> None \<and> tc_profile ch \<noteq> Some (tr_profile t))"

definition check_identity :: "trunk_env \<Rightarrow> trunk_changes \<Rightarrow> trunk_row \<Rightarrow> public_db \<Rightarrow> exc + unit" where
  "check_identity env ch t db =
     (if \<not> sip_identity_changed ch t then Inr ()
      else
        let user = or_keep (tc_user ch) (tr_user t); prof = or_keep (tc_profile ch) (tr_profile t) in
        case find_identity db prof user of
          Some existing \<Rightarrow>
            if tr_id existing \<noteq> tr_id t then Inl (DuplicateIdentityError ''duplicate_auth_identity'')
            else legacy_free env prof user
        | None \<Rightarrow> legacy_free env prof user)"

definition check_changes :: "trunk_env \<Rightarrow> string \<Rightarrow> trunk_changes \<Rightarrow> trunk_row \<Rightarrow> public_db \<Rightarrow> exc + unit" where
  "check_changes env tenant_id ch t db =
     (case (if or_keep (tc_condo ch) (tr_condo t) \<noteq> tr_condo t
            then (case validate_scope tenant_id (tr_pbx t) (or_keep (tc_condo ch) (tr_condo t)) db of
                    Inl e \<Rightarrow> Inl e | Inr _ \<Rightarrow> Inr ())
            else Inr ()) of
        Inl e \<Rightarrow> Inl e
      | Inr _ \<Rightarrow>
         if \<not> prefix_ok (or_keep (tc_prefix ch) (tr_prefix t)) then Inl (ValueError ''invalid_prefix'')
         else if or_keep (tc_user ch) (tr_user t) = [] \<or> or_keep (tc_profile ch) (tr_profile t) \<notin> set profiles
         then Inl (ValueError ''invalid_sip_configuration'')
         else check_identity env ch t db)"

definition new_secret :: "trunk_env \<Rightarrow> trunk_changes \<Rightarrow> exc + string option" where
  "new_secret env ch =
     (case tc_password ch of
        None \<Rightarrow> Inr None
      | Some p \<Rightarrow>
         if blank_password (Some p) then Inl (ValueError ''invalid_password'')
         else (case tv_encrypt env p of Inl e \<Rightarrow> Inl e | Inr s \<Rightarrow> Inr (Some s)))"

definition trunk_update ::
    "trunk_env \<Rightarrow> string \<Rightarrow> string \<Rightarrow> trunk_changes \<Rightarrow> (public_db, trunk_row option) prog" where
  "trunk_update env tenant_id trunk_id ch db =
     (case get_trunk db trunk_id of
        None \<Rightarrow> (Inl (ScopeValidationError ''trunk_not_found''), db)
      | Some t \<Rightarrow>
         if tr_tenant t \<noteq> tenant_id then (Inl (ScopeValidationError ''trunk_not_found''), db)
         else (case check_changes env tenant_id ch t db of
             Inl e \<Rightarrow> (Inl e, db)
           | Inr _ \<Rightarrow>
              (case new_secret env ch of
                 Inl e \<Rightarrow> (Inl e, db)
               | Inr secret \<Rightarrow>
                  catchp (on_trunks (repo_update tr_id (trunk_violation db) (tv_commit env) trunk_id
                      (change_trunk ch secret (sip_identity_changed ch t \<or> secret \<noteq> None))))
                    is_integrity (\<lambda>e. throw (translate_trunk_integrity_error e)) db)))"

definition trunk_list :: "string \<Rightarrow> (trunk_row \<Rightarrow> bool) \<Rightarrow> public_db \<Rightarrow> trunk_row list" where
  "trunk_list tenant_id filters db = repo_find_by (\<lambda>t. tr_tenant t = tenant_id \<and> filters t) (db_trunks db)"

definition lookup_directory_identity :: "bool \<Rightarrow> string \<Rightarrow> string \<Rightarrow> public_db \<Rightarrow> trunk_row option" where
  "lookup_directory_identity has_tenants sip_profile auth_username db =
     (case find_identity db sip_profile auth_username of
        None \<Rightarrow> None
      | Some t \<Rightarrow>
         if \<not> tr_enabled t then None
         else (case (get_condo db (tr_condo t), get_pbx db (tr_pbx t)) of
             (Some c, Some p) \<Rightarrow>
               if \<not> co_enabled c then None
               else if co_tenant c \<noteq> tr_tenant t \<or> co_pbx c \<noteq> tr_pbx t \<or> px_tenant p \<noteq> tr_tenant t then None
               else if has_tenants
               then (case get_tenant db (tr_tenant t) of
                       None \<Rightarrow> None | Some te \<Rightarrow> if te_status te \<noteq> ''active'' then None else Some t)
               else Some t
           | _ \<Rightarrow> None))"

text \<open>A row of an import, as the parsers of \<open>trunk_import.py\<close> produce it.\<close>

record import_row =
  ir_line :: nat
  ir_prefix :: "string option"
  ir_condo_name :: string
  ir_user :: string
  ir_password :: string
  ir_profile :: string
  ir_condo :: "string option"

text \<open>\<open>repo.get(None)\<close> finds nothing: no row has a null identifier. No identifier is empty.\<close>

definition condo_key :: "string option \<Rightarrow> string" where
  "condo_key v = (case v of None \<Rightarrow> [] | Some s \<Rightarrow> s)"

definition validate_importable :: "trunk_env \<Rightarrow> string \<Rightarrow> string \<Rightarrow> import_row \<Rightarrow> public_db \<Rightarrow> exc + unit" where
  "validate_importable env tenant_id pbx_id row db =
     (case find_identity db (ir_profile row) (ir_user row) of
        Some existing \<Rightarrow>
          if tr_tenant existing \<noteq> tenant_id then Inl (ScopeValidationError ''trunk_not_found'')
          else if py_strip (ir_password row) = [] then Inl (ValueError ''invalid_password'')
          else Inr ()
      | None \<Rightarrow> validate_create_inputs env tenant_id pbx_id (condo_key (ir_condo row)) (ir_prefix row) (ir_user row)
          (Some (ir_password row)) (ir_profile row) ''udp'' db)"

datatype upsert_outcome = WasCreated | WasUpdated

definition upsert_imported ::
    "trunk_env \<Rightarrow> string \<Rightarrow> string \<Rightarrow> import_row \<Rightarrow> (public_db, upsert_outcome) prog" where
  "upsert_imported env tenant_id pbx_id row db =
     (case find_identity db (ir_profile row) (ir_user row) of
        Some existing \<Rightarrow>
          (case trunk_update env tenant_id (tr_id existing)
               \<lparr>tc_condo = None, tc_prefix = None, tc_user = Some (ir_user row), tc_profile = Some (ir_profile row),
                tc_enabled = Some False, tc_password = Some (ir_password row)\<rparr> db of
             (Inl e, db') \<Rightarrow> (Inl e, db') | (Inr _, db') \<Rightarrow> (Inr WasUpdated, db'))
      | None \<Rightarrow>
          (case trunk_create env tenant_id pbx_id (condo_key (ir_condo row)) (ir_prefix row) (ir_user row)
               (Some (ir_password row)) (ir_profile row) False ''udp'' db of
             (Inl e, db') \<Rightarrow> (Inl e, db') | (Inr _, db') \<Rightarrow> (Inr WasCreated, db')))"

section \<open>What the operations leave\<close>

lemma first_of_None [simp]: "first_of xs = None \<longleftrightarrow> xs = []"
  by (cases xs) (auto simp: first_of_def)

lemma first_of_Some: "first_of xs = Some x \<Longrightarrow> x \<in> set xs"
  by (cases xs) (auto simp: first_of_def)

lemma find_identity_None:
  "find_identity db prof user = None \<longleftrightarrow> (\<forall>t\<in>set (db_trunks db). \<not> (tr_profile t = prof \<and> tr_user t = user))"
  by (auto simp: find_identity_def repo_find_by_def filter_empty_conv)

lemma find_identity_Some:
  "find_identity db prof user = Some t \<Longrightarrow> t \<in> set (db_trunks db) \<and> tr_profile t = prof \<and> tr_user t = user"
  using first_of_Some[of "repo_find_by (\<lambda>t. tr_profile t = prof \<and> tr_user t = user) (db_trunks db)" t]
  by (simp add: find_identity_def repo_find_by_def)

lemma validate_scope_Inr:
  assumes "validate_scope tenant pbx condo db = Inr c"
  shows "\<exists>p. p \<in> set (db_pbxs db) \<and> px_id p = pbx \<and> px_tenant p = tenant"
    and "c \<in> set (db_condos db)" "co_id c = condo" "co_tenant c = tenant" "co_pbx c = pbx"
  using assms
  by (auto simp: validate_scope_def get_pbx_def get_condo_def dest!: repo_get_Some split: option.splits if_splits)

definition trunk_scoped :: "public_db \<Rightarrow> trunk_row \<Rightarrow> bool" where
  "trunk_scoped db t \<longleftrightarrow>
     (\<exists>p\<in>set (db_pbxs db). px_id p = tr_pbx t \<and> px_tenant p = tr_tenant t)
   \<and> (\<exists>c\<in>set (db_condos db). co_id c = tr_condo t \<and> co_tenant c = tr_tenant t \<and> co_pbx c = tr_pbx t)"

definition db_ok :: "public_db \<Rightarrow> bool" where
  "db_ok db \<longleftrightarrow> trunks_sound db (db_trunks db) \<and> condos_sound db (db_condos db)
     \<and> (\<forall>t\<in>set (db_trunks db). trunk_scoped db t)
     \<and> distinct (map px_id (db_pbxs db)) \<and> distinct (map te_id (db_tenants db))
     \<and> (\<forall>p\<in>set (db_pbxs db). \<exists>q\<in>set (db_tenants db). te_id q = px_tenant p)"

text \<open>Rows of a table with its change applied, on success; nothing on an exception.\<close>

lemma on_trunks_cases:
  assumes "catchp (on_trunks p) is_integrity h db = (r, db')" and "\<And>e. snd (h e x) = x"
    and "\<And>e x. h e x = (fst (h e x), x)"
    and "\<And>e t. p (db_trunks db) = (Inl e, t) \<Longrightarrow> t = db_trunks db"
  shows "(\<exists>e. r = Inl e \<and> db' = db) \<or> (\<exists>a t. p (db_trunks db) = (Inr a, t) \<and> r = Inr a \<and> db' = db\<lparr>db_trunks := t\<rparr>)
    \<or> (\<exists>a. r = Inr a \<and> db' = db \<and> (\<exists>e. h e db = (Inr a, db)))"
proof -
  obtain q t where q: "p (db_trunks db) = (q, t)" by force
  show ?thesis
  proof (cases q)
    case (Inl e)
    then have "t = db_trunks db" using assms(4) q by blast
    then have o: "on_trunks p db = (Inl e, db)" using q Inl by (simp add: on_trunks_def)
    show ?thesis
    proof (cases "is_integrity e")
      case True
      then have h: "h e db = (r, db')" using assms(1) o by (simp add: catchp_def)
      then have "db' = db" using assms(3)[of e db] by simp
      then show ?thesis using h by (cases r) auto
    next
      case False
      then show ?thesis using assms(1) o by (auto simp: catchp_def)
    qed
  next
    case (Inr a)
    then show ?thesis using assms(1) q by (auto simp: catchp_def on_trunks_def)
  qed
qed

lemma throw_handler:
  assumes "catchp (on_trunks p) is_integrity (\<lambda>e. throw (f e)) db = (r, db')"
    and "\<And>e t. p (db_trunks db) = (Inl e, t) \<Longrightarrow> t = db_trunks db"
  shows "(\<exists>e. r = Inl e \<and> db' = db) \<or> (\<exists>a t. p (db_trunks db) = (Inr a, t) \<and> r = Inr a \<and> db' = db\<lparr>db_trunks := t\<rparr>)"
  using on_trunks_cases[OF assms(1) _ _ assms(2)] by auto

lemma trunk_create_cases:
  assumes "trunk_create env tenant pbx condo prefix user pw prof enabled transport db = (r, db')"
  shows "(\<exists>e. r = Inl e \<and> db' = db) \<or>
    (\<exists>secret row. r = Inr row \<and> row = new_trunk env tenant pbx condo prefix user secret prof enabled transport
      \<and> db' = db\<lparr>db_trunks := db_trunks db @ [row]\<rparr> \<and> tv_encrypt env (the pw) = Inr secret
      \<and> trunk_violation db (db_trunks db) row = None
      \<and> validate_create_inputs env tenant pbx condo prefix user pw prof transport db = Inr ())"
proof (cases "validate_create_inputs env tenant pbx condo prefix user pw prof transport db")
  case (Inl e)
  with assms show ?thesis by (auto simp: trunk_create_def)
next
  case v: (Inr u)
  show ?thesis
  proof (cases "tv_encrypt env (the pw)")
    case (Inl e)
    with v assms show ?thesis by (auto simp: trunk_create_def)
  next
    case (Inr secret)
    let ?row = "new_trunk env tenant pbx condo prefix user secret prof enabled transport"
    have c: "catchp (on_trunks (repo_create (trunk_violation db) (tv_commit env) ?row)) is_integrity
        (\<lambda>e. throw (translate_trunk_integrity_error e)) db = (r, db')"
      using assms v Inr by (simp add: trunk_create_def)
    have "(\<exists>e. r = Inl e \<and> db' = db) \<or> (\<exists>a x. repo_create (trunk_violation db) (tv_commit env) ?row (db_trunks db) = (Inr a, x)
        \<and> r = Inr a \<and> db' = db\<lparr>db_trunks := x\<rparr>)"
      by (rule throw_handler[OF c]) (rule repo_create_Inl)
    then show ?thesis
      using v Inr by (auto dest!: repo_create_Inr)
  qed
qed

lemma trunk_update_cases:
  assumes "trunk_update env tenant i ch db = (r, db')"
  shows "(\<exists>e. r = Inl e \<and> db' = db) \<or>
    (\<exists>t secret. get_trunk db i = Some t \<and> tr_tenant t = tenant \<and> check_changes env tenant ch t db = Inr ()
      \<and> new_secret env ch = Inr secret
      \<and> repo_update tr_id (trunk_violation db) (tv_commit env) i
          (change_trunk ch secret (sip_identity_changed ch t \<or> secret \<noteq> None)) (db_trunks db) = (r, db_trunks db')
      \<and> db' = db\<lparr>db_trunks := db_trunks db'\<rparr>)"
proof (cases "get_trunk db i")
  case None
  with assms show ?thesis by (auto simp: trunk_update_def)
next
  case (Some t)
  show ?thesis
  proof (cases "tr_tenant t = tenant \<and> (\<exists>s. check_changes env tenant ch t db = Inr () \<and> new_secret env ch = Inr s)")
    case False
    with assms Some show ?thesis
      by (auto simp: trunk_update_def split: if_splits sum.splits)
  next
    case True
    then obtain s where s: "new_secret env ch = Inr s" "check_changes env tenant ch t db = Inr ()" "tr_tenant t = tenant"
      by blast
    let ?p = "repo_update tr_id (trunk_violation db) (tv_commit env) i
          (change_trunk ch s (sip_identity_changed ch t \<or> s \<noteq> None))"
    have c: "catchp (on_trunks ?p) is_integrity (\<lambda>e. throw (translate_trunk_integrity_error e)) db = (r, db')"
      using assms Some s by (simp add: trunk_update_def)
    have "(\<exists>e. r = Inl e \<and> db' = db) \<or> (\<exists>a x. ?p (db_trunks db) = (Inr a, x) \<and> r = Inr a \<and> db' = db\<lparr>db_trunks := x\<rparr>)"
      by (rule throw_handler[OF c]) (rule repo_update_Inl)
    then show ?thesis
      using Some s by (elim disjE exE conjE) (auto intro!: exI[of _ s])
  qed
qed

lemma change_trunk_keeps [simp]:
  "tr_id (change_trunk ch s b t) = tr_id t" "tr_tenant (change_trunk ch s b t) = tr_tenant t"
  "tr_pbx (change_trunk ch s b t) = tr_pbx t" "tr_condo (change_trunk ch s b t) = or_keep (tc_condo ch) (tr_condo t)"
  "tr_prefix (change_trunk ch s b t) = or_keep (tc_prefix ch) (tr_prefix t)"
  "tr_user (change_trunk ch s b t) = or_keep (tc_user ch) (tr_user t)"
  "tr_profile (change_trunk ch s b t) = or_keep (tc_profile ch) (tr_profile t)"
  by (simp_all add: change_trunk_def Let_def)

lemma row_ok_trunks_irrelevant [simp]:
  "trunk_row_ok (db\<lparr>db_trunks := t\<rparr>) r = trunk_row_ok db r" "trunk_scoped (db\<lparr>db_trunks := t\<rparr>) r = trunk_scoped db r"
  "trunks_sound (db\<lparr>db_trunks := t\<rparr>) x = trunks_sound db x" "condos_sound (db\<lparr>db_trunks := t\<rparr>) y = condos_sound db y"
  by (simp_all add: trunk_row_ok_def trunk_scoped_def trunks_sound_def condos_sound_def condo_row_ok_def)

lemma trunk_create_ok:
  assumes "db_ok db" and "trunk_create env tenant pbx condo prefix user pw prof enabled transport db = (r, db')"
  shows "db_ok db'"
  using trunk_create_cases[OF assms(2)]
proof (elim disjE exE conjE)
  fix e assume "r = Inl e" "db' = db"
  with assms(1) show ?thesis by simp
next
  fix secret row
  assume row: "row = new_trunk env tenant pbx condo prefix user secret prof enabled transport"
    and db': "db' = db\<lparr>db_trunks := db_trunks db @ [row]\<rparr>" and v: "trunk_violation db (db_trunks db) row = None"
    and "validate_create_inputs env tenant pbx condo prefix user pw prof transport db = Inr ()"
  then obtain c where "validate_scope tenant pbx condo db = Inr c"
    by (auto simp: validate_create_inputs_def split: sum.splits)
  from validate_scope_Inr[OF this] have "trunk_scoped db row"
    by (auto simp: trunk_scoped_def row new_trunk_def)
  with assms(1) v show ?thesis
    by (auto simp: db_ok_def db' intro: trunks.sound_add)
qed

lemma trunk_update_ok:
  assumes "db_ok db" and "trunk_update env tenant i ch db = (r, db')"
  shows "db_ok db'"
  using trunk_update_cases[OF assms(2)]
proof (elim disjE exE conjE)
  fix e assume "r = Inl e" "db' = db"
  with assms(1) show ?thesis by simp
next
  fix t secret
  let ?f = "change_trunk ch secret (sip_identity_changed ch t \<or> secret \<noteq> None)"
  assume g: "get_trunk db i = Some t" "tr_tenant t = tenant" and cc: "check_changes env tenant ch t db = Inr ()"
    and u: "repo_update tr_id (trunk_violation db) (tv_commit env) i ?f (db_trunks db) = (r, db_trunks db')"
    and db': "db' = db\<lparr>db_trunks := db_trunks db'\<rparr>"
  have ts: "trunks_sound db (db_trunks db')"
    using trunks.update_sound[OF _ u] assms(1) by (simp add: db_ok_def)
  have other: "db_condos db' = db_condos db" "db_pbxs db' = db_pbxs db" "db_tenants db' = db_tenants db"
    by (subst db', simp)+
  then have same: "trunk_scoped db' x = trunk_scoped db x" "trunks_sound db' y = trunks_sound db y"
    "condos_sound db' z = condos_sound db z" for x y z
    by (simp_all add: trunk_scoped_def trunks_sound_def trunk_row_ok_def condos_sound_def condo_row_ok_def)
  from repo_get_split[OF g(1)[unfolded get_trunk_def]] obtain xs ys where
    s: "db_trunks db = xs @ t # ys" "\<And>q. replace_row tr_id i q (db_trunks db) = xs @ q # ys"
    by blast
  have "db_trunks db' = db_trunks db \<or> db_trunks db' = xs @ ?f t # ys"
    using u g(1) s(2) by (auto simp: repo_update_def get_trunk_def split: option.splits)
  moreover have "trunk_scoped db (?f t)"
  proof (cases "or_keep (tc_condo ch) (tr_condo t) = tr_condo t")
    case True
    with assms(1) s(1) show ?thesis by (auto simp: db_ok_def trunk_scoped_def)
  next
    case False
    with cc obtain c where "validate_scope tenant (tr_pbx t) (or_keep (tc_condo ch) (tr_condo t)) db = Inr c"
      by (auto simp: check_changes_def split: sum.splits)
    from validate_scope_Inr[OF this] g(2) show ?thesis by (auto simp: trunk_scoped_def)
  qed
  ultimately show ?thesis
    using assms(1) ts s(1) by (auto simp: db_ok_def same other)
qed

lemma upsert_imported_ok:
  assumes "db_ok db" and "upsert_imported env tenant pbx row db = (r, db')"
  shows "db_ok db'"
  using assms
  by (auto simp: upsert_imported_def split: option.splits prod.splits sum.splits
      dest: trunk_create_ok trunk_update_ok)

lemma condo_throw:
  assumes "catchp (on_condos p) is_integrity (\<lambda>_. throw x) db = (r, db')"
    and "\<And>e t. p (db_condos db) = (Inl e, t) \<Longrightarrow> t = db_condos db"
  shows "(\<exists>e. r = Inl e \<and> db' = db) \<or> (\<exists>a t. p (db_condos db) = (Inr a, t) \<and> r = Inr a \<and> db' = db\<lparr>db_condos := t\<rparr>)"
proof -
  obtain q t where q: "p (db_condos db) = (q, t)" by force
  show ?thesis
  proof (cases q)
    case (Inl e)
    then have "t = db_condos db" using assms(2) q by blast
    then have "on_condos p db = (Inl e, db)" using q Inl by (simp add: on_condos_def)
    with assms(1) show ?thesis by (auto simp: catchp_def split: if_splits)
  next
    case (Inr a)
    then show ?thesis using assms(1) q by (auto simp: catchp_def on_condos_def)
  qed
qed

lemma change_condo_keeps [simp]:
  "co_id (change_condo ch c) = co_id c" "co_tenant (change_condo ch c) = co_tenant c" "co_pbx (change_condo ch c) = co_pbx c"
  by (simp_all add: change_condo_def)

text \<open>The trunks only need the identifiers and the scopes of the condominiums.\<close>

definition condo_scopes :: "condo_row list \<Rightarrow> (string \<times> string \<times> string) set" where
  "condo_scopes t = (\<lambda>c. (co_id c, co_tenant c, co_pbx c)) ` set t"

lemma db_ok_condos:
  assumes "db_ok db" and "condos_sound db t" and "condo_scopes (db_condos db) \<subseteq> condo_scopes t"
  shows "db_ok (db\<lparr>db_condos := t\<rparr>)"
proof -
  have up: "\<exists>c'\<in>set t. co_id c' = co_id c \<and> co_tenant c' = co_tenant c \<and> co_pbx c' = co_pbx c" if "c \<in> set (db_condos db)" for c
  proof -
    from that have "(co_id c, co_tenant c, co_pbx c) \<in> condo_scopes t"
      using assms(3) by (auto simp: condo_scopes_def)
    then show ?thesis by (auto simp: condo_scopes_def)
  qed
  have "trunk_row_ok db r \<Longrightarrow> trunk_row_ok (db\<lparr>db_condos := t\<rparr>) r" for r
    using up unfolding trunk_row_ok_def by simp metis
  moreover have "trunk_scoped db r \<Longrightarrow> trunk_scoped (db\<lparr>db_condos := t\<rparr>) r" for r
    using up unfolding trunk_scoped_def by simp metis
  moreover have "condos_sound (db\<lparr>db_condos := t\<rparr>) x = condos_sound db x" for x
    by (simp add: condos_sound_def condo_row_ok_def)
  ultimately show ?thesis
    using assms(1,2) by (auto simp: db_ok_def trunks_sound_def)
qed

lemma condo_create_cases:
  assumes "condo_create env T pbx name ext en db = (r, db')"
  shows "(\<exists>e. r = Inl e \<and> db' = db) \<or>
    (\<exists>c. r = Inr c \<and> co_tenant c = T \<and> (db' = db \<or> db' = db\<lparr>db_condos := db_condos db @ [c]\<rparr>))"
proof -
  let ?row = "\<lparr>co_id = tv_id env, co_tenant = T, co_pbx = pbx, co_name = name, co_external = ext, co_enabled = en\<rparr>"
  let ?found = "first_of (repo_find_by (\<lambda>c. co_tenant c = T \<and> co_pbx c = pbx \<and> co_name c = name) (db_condos db))"
  consider (err) e where "r = Inl e" "db' = db" | (old) c where "?found = Some c" "r = Inr c" "db' = db"
    | (new) "catchp (on_condos (repo_create (condo_violation db) (tv_commit env) ?row))
          is_integrity (\<lambda>_. throw (DuplicateIdentityError ''duplicate_external_id'')) db = (r, db')"
  proof (cases "get_pbx db pbx")
    case None
    then show ?thesis using assms that(1) by (auto simp: condo_create_def)
  next
    case (Some px)
    show ?thesis
    proof (cases "px_tenant px = T")
      case False
      then show ?thesis using assms Some that(1) by (auto simp: condo_create_def)
    next
      case True
      show ?thesis
      proof (cases ?found)
        case None
        show ?thesis by (rule that(3)) (use assms Some True None in \<open>simp add: condo_create_def\<close>)
      next
        case (Some c)
        show ?thesis by (rule that(2)[OF Some]) (use assms \<open>get_pbx db pbx = Some px\<close> True Some in \<open>simp_all add: condo_create_def\<close>)
      qed
    qed
  qed
  then show ?thesis
  proof cases
    case err
    then show ?thesis by simp
  next
    case old
    then show ?thesis using first_of_Some[OF old(1)] by (auto simp: repo_find_by_def)
  next
    case new
    have "(\<exists>e. r = Inl e \<and> db' = db) \<or> (\<exists>a x. repo_create (condo_violation db) (tv_commit env) ?row (db_condos db) = (Inr a, x)
        \<and> r = Inr a \<and> db' = db\<lparr>db_condos := x\<rparr>)"
      by (rule condo_throw[OF new]) (rule repo_create_Inl)
    then show ?thesis by (auto dest!: repo_create_Inr)
  qed
qed

lemma condo_create_ok:
  assumes "db_ok db" and "condo_create env tenant pbx name ext en db = (r, db')"
  shows "db_ok db' \<and> db_trunks db' = db_trunks db"
proof (cases "db' = db")
  case True
  with assms(1) show ?thesis by simp
next
  case False
  let ?row = "\<lparr>co_id = tv_id env, co_tenant = tenant, co_pbx = pbx, co_name = name, co_external = ext, co_enabled = en\<rparr>"
  have "catchp (on_condos (repo_create (condo_violation db) (tv_commit env) ?row))
                is_integrity (\<lambda>_. throw (DuplicateIdentityError ''duplicate_external_id'')) db = (r, db')"
    using assms(2) False by (auto simp: condo_create_def split: option.splits if_splits)
  note c = this
  have "(\<exists>e. r = Inl e \<and> db' = db) \<or> (\<exists>a x. repo_create (condo_violation db) (tv_commit env) ?row (db_condos db) = (Inr a, x)
      \<and> r = Inr a \<and> db' = db\<lparr>db_condos := x\<rparr>)"
    by (rule condo_throw[OF c]) (rule repo_create_Inl)
  with False obtain t where
    t: "repo_create (condo_violation db) (tv_commit env) ?row (db_condos db) = (r, t)" "db' = db\<lparr>db_condos := t\<rparr>"
    by auto
  have "condos_sound db t" using condos.create_sound[OF _ t(1)] assms(1) by (simp add: db_ok_def)
  moreover have "condo_scopes (db_condos db) \<subseteq> condo_scopes t"
    using t(1) by (auto simp: repo_create_def condo_scopes_def split: option.splits)
  ultimately show ?thesis using db_ok_condos[OF assms(1)] t(2) by simp
qed

lemma condo_update_ok:
  assumes "db_ok db" and "condo_update env tenant i ch db = (r, db')"
  shows "db_ok db' \<and> db_trunks db' = db_trunks db"
proof (cases "db' = db")
  case True
  with assms(1) show ?thesis by simp
next
  case False
  have "catchp (on_condos (repo_update co_id (condo_violation db) (tv_commit env) i (change_condo ch)))
                is_integrity (\<lambda>_. throw (DuplicateIdentityError ''duplicate_external_id'')) db = (r, db')"
    using assms(2) False by (auto simp: condo_update_def split: option.splits if_splits)
  note c = this
  have "(\<exists>e. r = Inl e \<and> db' = db) \<or> (\<exists>a x. repo_update co_id (condo_violation db) (tv_commit env) i (change_condo ch)
      (db_condos db) = (Inr a, x) \<and> r = Inr a \<and> db' = db\<lparr>db_condos := x\<rparr>)"
    by (rule condo_throw[OF c]) (rule repo_update_Inl)
  with False obtain t where
    t: "repo_update co_id (condo_violation db) (tv_commit env) i (change_condo ch) (db_condos db) = (r, t)"
      "db' = db\<lparr>db_condos := t\<rparr>"
    by auto
  have "condos_sound db t" using condos.update_sound[OF _ t(1)] assms(1) by (simp add: db_ok_def)
  moreover have "condo_scopes (db_condos db) \<subseteq> condo_scopes t"
  proof (cases "repo_get co_id i (db_condos db)")
    case None
    with t(1) show ?thesis by (simp add: repo_update_def)
  next
    case (Some c)
    from repo_get_split[OF Some] obtain xs ys where "db_condos db = xs @ c # ys"
      "\<And>q. replace_row co_id i q (db_condos db) = xs @ q # ys" by blast
    have "t = db_condos db \<or> t = xs @ change_condo ch c # ys"
      using t(1) Some \<open>\<And>q. replace_row co_id i q (db_condos db) = xs @ q # ys\<close>
      by (auto simp: repo_update_def split: option.splits)
    moreover have "condo_scopes (xs @ change_condo ch c # ys) = condo_scopes (xs @ c # ys)"
      by (simp add: condo_scopes_def)
    ultimately show ?thesis using \<open>db_condos db = xs @ c # ys\<close> by auto
  qed
  ultimately show ?thesis using db_ok_condos[OF assms(1)] t(2) by simp
qed

datatype trunk_op =
    CondoCreate trunk_env string string string "string option" bool
  | CondoUpdate trunk_env string string condo_changes
  | TrunkCreate trunk_env string string string "string option" string "string option" string bool string
  | TrunkUpdate trunk_env string string trunk_changes
  | TrunkImport trunk_env string string import_row

fun op_tenant :: "trunk_op \<Rightarrow> string" where
  "op_tenant (CondoCreate env tenant pbx name ext en) = tenant"
| "op_tenant (CondoUpdate env tenant i ch) = tenant"
| "op_tenant (TrunkCreate env tenant pbx condo prefix user pw prof en tr) = tenant"
| "op_tenant (TrunkUpdate env tenant i ch) = tenant"
| "op_tenant (TrunkImport env tenant pbx row) = tenant"

fun trunk_step :: "trunk_op \<Rightarrow> public_db \<Rightarrow> public_db" where
  "trunk_step (CondoCreate env tenant pbx name ext en) db = snd (condo_create env tenant pbx name ext en db)"
| "trunk_step (CondoUpdate env tenant i ch) db = snd (condo_update env tenant i ch db)"
| "trunk_step (TrunkCreate env tenant pbx condo prefix user pw prof en tr) db =
     snd (trunk_create env tenant pbx condo prefix user pw prof en tr db)"
| "trunk_step (TrunkUpdate env tenant i ch) db = snd (trunk_update env tenant i ch db)"
| "trunk_step (TrunkImport env tenant pbx row) db = snd (upsert_imported env tenant pbx row db)"

interpretation tm: machine trunk_step db_ok
proof
  fix db x
  assume ok: "db_ok db"
  show "db_ok (trunk_step x db)"
    by (cases x)
      (auto intro: condo_create_ok[OF ok prod.collapse[symmetric], THEN conjunct1]
        condo_update_ok[OF ok prod.collapse[symmetric], THEN conjunct1]
        trunk_create_ok[OF ok prod.collapse[symmetric]] trunk_update_ok[OF ok prod.collapse[symmetric]]
        upsert_imported_ok[OF ok prod.collapse[symmetric]])
qed

text \<open>C6. Over any history of calls to the services, by any tenants and with any failing commits:
  two trunks never share a SIP identity (profile and user name), two trunks of a tenant never
  share a prefix, and every trunk sits in a PBX of its tenant and in a condominium of that
  tenant and PBX.\<close>

theorem trunk_table_invariant:
  assumes "db_ok db" and "t \<in> set (db_trunks (run_ops trunk_step ops db))"
    and "u \<in> set (db_trunks (run_ops trunk_step ops db))"
  shows "(same_identity t u \<longrightarrow> t = u) \<and> (same_prefix t u \<longrightarrow> t = u) \<and> trunk_scoped (run_ops trunk_step ops db) t"
proof -
  have ok: "db_ok (run_ops trunk_step ops db)" using assms(1) by (rule tm.run_inv)
  have "pairwise trunks_apart x \<Longrightarrow> t \<in> set x \<Longrightarrow> u \<in> set x \<Longrightarrow> t \<noteq> u \<Longrightarrow> trunks_apart t u" for x
    by (induction x) (auto simp: trunks_apart_sym[of t u])
  with ok assms(2,3) show ?thesis
    by (auto simp: db_ok_def trunks_sound_def trunks_apart_def)
qed

lemma trunk_create_others:
  assumes "trunk_create env tenant pbx condo prefix user pw prof enabled transport db = (r, db')"
  shows "filter (\<lambda>t. tr_tenant t \<noteq> tenant) (db_trunks db') = filter (\<lambda>t. tr_tenant t \<noteq> tenant) (db_trunks db)"
  using trunk_create_cases[OF assms] by (auto simp: new_trunk_def)

lemma trunk_update_others:
  assumes "trunk_update env tenant i ch db = (r, db')"
  shows "filter (\<lambda>t. tr_tenant t \<noteq> tenant) (db_trunks db') = filter (\<lambda>t. tr_tenant t \<noteq> tenant) (db_trunks db)"
  using trunk_update_cases[OF assms]
proof (elim disjE exE conjE)
  fix e assume "r = Inl e" "db' = db"
  then show ?thesis by simp
next
  fix t secret
  assume g: "get_trunk db i = Some t" "tr_tenant t = tenant"
    and u: "repo_update tr_id (trunk_violation db) (tv_commit env) i
      (change_trunk ch secret (sip_identity_changed ch t \<or> secret \<noteq> None)) (db_trunks db) = (r, db_trunks db')"
  from repo_get_split[OF g(1)[unfolded get_trunk_def]] obtain xs ys where
    s: "db_trunks db = xs @ t # ys" "\<And>q. replace_row tr_id i q (db_trunks db) = xs @ q # ys" by blast
  have "db_trunks db' = db_trunks db
      \<or> db_trunks db' = xs @ change_trunk ch secret (sip_identity_changed ch t \<or> secret \<noteq> None) t # ys"
    using u g(1) s(2) by (auto simp: repo_update_def get_trunk_def split: option.splits)
  with s(1) g(2) show ?thesis by auto
qed

text \<open>C7. Tenants are isolated: an operation a tenant requests, imports and attempts on identifiers
  of other tenants included, leaves every trunk of every other tenant exactly as it was.\<close>

theorem trunk_ops_respect_tenants:
  assumes "db_ok db"
  shows "filter (\<lambda>t. tr_tenant t \<noteq> op_tenant x) (db_trunks (trunk_step x db))
    = filter (\<lambda>t. tr_tenant t \<noteq> op_tenant x) (db_trunks db)"
proof (cases x)
  case (CondoCreate env tenant pbx name ext en)
  then show ?thesis using condo_create_ok[OF assms prod.collapse[symmetric]] by simp
next
  case (CondoUpdate env tenant i ch)
  then show ?thesis using condo_update_ok[OF assms prod.collapse[symmetric]] by simp
next
  case (TrunkCreate env tenant pbx condo prefix user pw prof en tr)
  then show ?thesis using trunk_create_others[OF prod.collapse[symmetric]] by simp
next
  case (TrunkUpdate env tenant i ch)
  then show ?thesis using trunk_update_others[OF prod.collapse[symmetric]] by simp
next
  case (TrunkImport env tenant pbx row)
  obtain r db' where u: "upsert_imported env tenant pbx row db = (r, db')" by force
  have "filter (\<lambda>t. tr_tenant t \<noteq> tenant) (db_trunks db') = filter (\<lambda>t. tr_tenant t \<noteq> tenant) (db_trunks db)"
    using u by (auto simp: upsert_imported_def split: option.splits prod.splits sum.splits
        dest: trunk_create_others trunk_update_others)
  with TrunkImport u show ?thesis by simp
qed

section \<open>When the constraints are met\<close>

lemma trunk_violation_NoneI:
  assumes "trunk_row_ok db r" and "\<forall>q\<in>set others. trunks_apart q r"
  shows "trunk_violation db others r = None"
proof -
  have "length (tr_profile r) \<le> 32" "length (tr_status r) \<le> 16"
    using assms(1) by (auto simp: trunk_row_ok_def profiles_def reg_statuses_def)
  then show ?thesis
    using assms by (auto simp: trunk_violation_def trunk_row_ok_def trunks_apart_def too_long_def prefix_ok_def)
qed

lemma validate_create_inputs_Inr:
  assumes "validate_create_inputs env tenant pbx condo prefix user pw prof transport db = Inr ()"
  shows "\<exists>c. validate_scope tenant pbx condo db = Inr c" and "prefix_ok prefix" and "\<not> blank_password pw"
    and "prof \<in> set profiles" and "transport = ''udp''" and "find_identity db prof user = None"
    and "prefix \<noteq> None \<Longrightarrow> \<forall>t\<in>set (db_trunks db). \<not> (tr_tenant t = tenant \<and> tr_prefix t = prefix)"
    and "legacy_free env prof user = Inr ()"
  using assms
  by (auto simp: validate_create_inputs_def ensure_unique_def repo_find_by_def filter_empty_conv
      split: sum.splits if_splits)

lemma trunk_create_succeeds:
  assumes "db_ok db" and v: "validate_create_inputs env tenant pbx condo prefix user pw prof transport db = Inr ()"
    and "tv_encrypt env (the pw) = Inr secret" and "length user \<le> 128" and "tv_commit env = None"
    and "\<forall>t\<in>set (db_trunks db). tr_id t \<noteq> tv_id env"
  shows "trunk_create env tenant pbx condo prefix user pw prof enabled transport db =
     (Inr (new_trunk env tenant pbx condo prefix user secret prof enabled transport),
      db\<lparr>db_trunks := db_trunks db @ [new_trunk env tenant pbx condo prefix user secret prof enabled transport]\<rparr>)"
proof -
  let ?row = "new_trunk env tenant pbx condo prefix user secret prof enabled transport"
  note ok = validate_create_inputs_Inr[OF v]
  obtain c where c: "validate_scope tenant pbx condo db = Inr c" using ok(1) by blast
  note sc = validate_scope_Inr[OF c]
  have "\<exists>q\<in>set (db_tenants db). te_id q = tenant"
    using sc(1) assms(1) by (auto simp: db_ok_def)
  then have "trunk_row_ok db ?row"
    using sc ok assms(4) by (auto simp: trunk_row_ok_def new_trunk_def too_long_def reg_statuses_def)
  moreover have "\<forall>q\<in>set (db_trunks db). trunks_apart q ?row"
    using ok(6,7) assms(6)
    by (cases "prefix = None")
      (auto simp: trunks_apart_def same_identity_def same_prefix_def new_trunk_def find_identity_None)
  ultimately have "trunk_violation db (db_trunks db) ?row = None"
    by (rule trunk_violation_NoneI)
  with v assms(3,5) show ?thesis
    by (simp add: trunk_create_def catchp_def on_trunks_def repo_create_def)
qed

text \<open>The service decides before the database does: for a user name of at most 128 characters,
  a fresh identifier and a commit that does not fail by itself, creating a trunk either raises
  the error of the first check that fails, with the table unchanged, or adds the one row with
  the encrypted password, disabled or enabled as asked and with unknown registration. The
  translation of integrity errors is only reached by concurrent writers.\<close>

theorem create_decided_by_prechecks:
  assumes "db_ok db" and "length user \<le> 128" and "tv_commit env = None"
    and "\<forall>t\<in>set (db_trunks db). tr_id t \<noteq> tv_id env"
  shows "trunk_create env tenant pbx condo prefix user pw prof enabled transport db =
    (case validate_create_inputs env tenant pbx condo prefix user pw prof transport db of
       Inl e \<Rightarrow> (Inl e, db)
     | Inr _ \<Rightarrow>
        (case tv_encrypt env (the pw) of
           Inl e \<Rightarrow> (Inl e, db)
         | Inr secret \<Rightarrow>
             (Inr (new_trunk env tenant pbx condo prefix user secret prof enabled transport),
              db\<lparr>db_trunks := db_trunks db @ [new_trunk env tenant pbx condo prefix user secret prof enabled transport]\<rparr>)))"
proof (cases "validate_create_inputs env tenant pbx condo prefix user pw prof transport db")
  case (Inl e)
  then show ?thesis by (simp add: trunk_create_def)
next
  case v: (Inr u)
  show ?thesis
  proof (cases "tv_encrypt env (the pw)")
    case (Inl e)
    with v show ?thesis by (simp add: trunk_create_def)
  next
    case (Inr secret)
    from trunk_create_succeeds[OF assms(1) _ Inr assms(2-4)] v Inr show ?thesis by simp
  qed
qed

lemma repo_get_unique:
  assumes "r \<in> set t" and "key r = i" and "distinct (map key t)"
  shows "repo_get key i t = Some r"
proof (cases "repo_get key i t")
  case None
  with assms repo_get_None show ?thesis by metis
next
  case (Some q)
  with repo_get_Some[OF Some] assms show ?thesis by (metis distinct_map inj_onD)
qed

lemma pairwise_distinct: "pairwise p t \<Longrightarrow> (\<And>x y. p x y \<Longrightarrow> key x \<noteq> key y) \<Longrightarrow> distinct (map key t)"
  by (induction t) auto

lemma db_ok_keys:
  assumes "db_ok db"
  shows "distinct (map tr_id (db_trunks db))" and "distinct (map co_id (db_condos db))"
    and "distinct (map px_id (db_pbxs db))" and "distinct (map te_id (db_tenants db))"
  using assms pairwise_distinct[of trunks_apart _ tr_id] pairwise_distinct[of condos_apart _ co_id]
  by (auto simp: db_ok_def trunks_sound_def condos_sound_def trunks_apart_def condos_apart_def)

lemma find_identity_unique:
  assumes "db_ok db" and "t \<in> set (db_trunks db)"
  shows "find_identity db (tr_profile t) (tr_user t) = Some t"
proof (cases "find_identity db (tr_profile t) (tr_user t)")
  case None
  with assms(2) show ?thesis by (auto simp: find_identity_None)
next
  case (Some u)
  from find_identity_Some[OF this] have u: "u \<in> set (db_trunks db)" "same_identity u t"
    by (auto simp: same_identity_def)
  have "pairwise trunks_apart x \<Longrightarrow> t \<in> set x \<Longrightarrow> u \<in> set x \<Longrightarrow> t \<noteq> u \<Longrightarrow> trunks_apart u t" for x
    by (induction x) (auto simp: trunks_apart_sym[of t u])
  with assms u have "u = t" by (auto simp: db_ok_def trunks_sound_def trunks_apart_def)
  with Some show ?thesis by simp
qed

lemma directory_lookup_iff:
  assumes "db_ok db"
  shows "lookup_directory_identity True prof user db = Some t \<longleftrightarrow>
     t \<in> set (db_trunks db) \<and> tr_profile t = prof \<and> tr_user t = user \<and> tr_enabled t
     \<and> (\<exists>c\<in>set (db_condos db). co_id c = tr_condo t \<and> co_enabled c)
     \<and> (\<exists>te\<in>set (db_tenants db). te_id te = tr_tenant t \<and> te_status te = ''active'')"
    (is "?L \<longleftrightarrow> ?R")
proof
  assume ?L
  then have f: "find_identity db prof user = Some t"
    by (auto simp: lookup_directory_identity_def split: option.splits if_splits)
  show ?R
    using \<open>?L\<close> f find_identity_Some[OF f]
    by (auto simp: lookup_directory_identity_def get_condo_def get_tenant_def dest!: repo_get_Some
        split: option.splits if_splits)
next
  assume R: ?R
  then have f: "find_identity db prof user = Some t" using find_identity_unique[OF assms] by auto
  from R obtain c te where c: "c \<in> set (db_condos db)" "co_id c = tr_condo t" "co_enabled c"
    and te: "te \<in> set (db_tenants db)" "te_id te = tr_tenant t" "te_status te = ''active''" by blast
  from assms R have "trunk_scoped db t" by (simp add: db_ok_def)
  then obtain p c2 where p: "p \<in> set (db_pbxs db)" "px_id p = tr_pbx t" "px_tenant p = tr_tenant t"
    and c2: "c2 \<in> set (db_condos db)" "co_id c2 = tr_condo t" "co_tenant c2 = tr_tenant t" "co_pbx c2 = tr_pbx t"
    by (auto simp: trunk_scoped_def)
  note k = db_ok_keys[OF assms]
  have g: "get_condo db (tr_condo t) = Some c" "get_condo db (tr_condo t) = Some c2" "get_pbx db (tr_pbx t) = Some p"
    "get_tenant db (tr_tenant t) = Some te"
    using repo_get_unique[OF c(1,2) k(2)] repo_get_unique[OF c2(1,2) k(2)] repo_get_unique[OF p(1,2) k(3)]
      repo_get_unique[OF te(1,2) k(4)]
    by (simp_all add: get_condo_def get_pbx_def get_tenant_def)
  with f R c p te c2 show ?L by (simp add: lookup_directory_identity_def)
qed

text \<open>The directory lookup answers exactly the trunk that may register: the one with that
  profile and user name, if it is enabled, its condominium is enabled and its tenant is active.\<close>

theorem directory_lookup_exact:
  assumes "db_ok db"
  shows "lookup_directory_identity True prof user db = Some t \<longleftrightarrow>
     t \<in> set (db_trunks db) \<and> tr_profile t = prof \<and> tr_user t = user \<and> tr_enabled t
     \<and> (\<exists>c\<in>set (db_condos db). co_id c = tr_condo t \<and> co_enabled c)
     \<and> (\<exists>te\<in>set (db_tenants db). te_id te = tr_tenant t \<and> te_status te = ''active'')"
  by (rule directory_lookup_iff[OF assms])

text \<open>What an accepted update changes: the trunk keeps its identifier, tenant and PBX; the
  password changes only if one is given; and if the SIP identity changes or a password is
  given, the registration state falls back to unknown, else it is kept.\<close>

theorem update_resets_registration:
  assumes "get_trunk db i = Some t" and "trunk_update env tenant i ch db = (Inr r, db')"
  shows "\<exists>u. r = Some u \<and> u \<in> set (db_trunks db') \<and> tr_id u = i \<and> tr_tenant u = tenant \<and> tr_pbx u = tr_pbx t
    \<and> (tc_password ch = None \<longrightarrow> tr_secret u = tr_secret t)
    \<and> (if \<not> same_identity u t \<or> tc_password ch \<noteq> None
       then tr_status u = ''unknown'' \<and> tr_registered_at u = None \<and> tr_unregistered_at u = None
       else tr_status u = tr_status t \<and> tr_registered_at u = tr_registered_at t
         \<and> tr_unregistered_at u = tr_unregistered_at t)"
proof -
  from trunk_update_cases[OF assms(2)] assms(1) obtain secret where
    t: "tr_tenant t = tenant" and sec: "new_secret env ch = Inr secret"
    and u: "repo_update tr_id (trunk_violation db) (tv_commit env) i
      (change_trunk ch secret (sip_identity_changed ch t \<or> secret \<noteq> None)) (db_trunks db) = (Inr r, db_trunks db')"
    by auto
  let ?u = "change_trunk ch secret (sip_identity_changed ch t \<or> secret \<noteq> None) t"
  from repo_get_split[OF assms(1)[unfolded get_trunk_def]] obtain xs ys where
    s: "\<And>q. replace_row tr_id i q (db_trunks db) = xs @ q # ys" "tr_id t = i" by blast
  have r: "r = Some ?u" and db': "db_trunks db' = xs @ ?u # ys"
    using u assms(1) s(1) by (auto simp: repo_update_def get_trunk_def split: option.splits)
  have pw: "secret = None \<longleftrightarrow> tc_password ch = None"
    using sec by (auto simp: new_secret_def split: option.splits if_splits sum.splits)
  have si: "sip_identity_changed ch t \<longleftrightarrow> \<not> same_identity ?u t"
    by (auto simp: sip_identity_changed_def same_identity_def or_keep_def split: option.splits)
  show ?thesis
    using r db' pw si t s(2) by (auto simp: change_trunk_def Let_def or_keep_def)
qed

section \<open>A small installation\<close>

definition tenant_a :: tenant_row where
  "tenant_a = \<lparr>te_id = ''T1'', te_name = ''Acme'', te_schema = ''tenant_acme'', te_status = ''active''\<rparr>"

definition trunk_a :: trunk_row where
  "trunk_a = \<lparr>tr_id = ''K1'', tr_tenant = ''T1'', tr_pbx = ''P1'', tr_condo = ''C1'', tr_prefix = Some ''41'',
     tr_user = ''u1'', tr_secret = ''x'', tr_profile = ''internal'', tr_transport = ''udp'', tr_enabled = True,
     tr_status = ''registered'', tr_registered_at = Some 5, tr_unregistered_at = None, tr_error_code = None,
     tr_error_at = None\<rparr>"

definition office_db :: public_db where
  "office_db = \<lparr>db_tenants = [tenant_a], db_pbxs = [\<lparr>px_id = ''P1'', px_tenant = ''T1'', px_name = ''n'', px_host = ''h'', px_port = 5060\<rparr>],
     db_condos = [\<lparr>co_id = ''C1'', co_tenant = ''T1'', co_pbx = ''P1'', co_name = ''Sol'', co_external = None, co_enabled = True\<rparr>],
     db_trunks = [trunk_a]\<rparr>"

definition office_env :: trunk_env where
  "office_env = \<lparr>tv_id = ''K2'', tv_commit = None, tv_encrypt = (\<lambda>p. Inr (CHR ''!'' # p)), tv_legacy = (\<lambda>_ _. Inr False)\<rparr>"

definition rename_changes :: trunk_changes where
  "rename_changes = \<lparr>tc_condo = None, tc_prefix = None, tc_user = Some ''u9'', tc_profile = None, tc_enabled = None,
     tc_password = None\<rparr>"

lemma office_ok: "db_ok office_db"
  by (simp add: db_ok_def office_db_def tenant_a_def trunk_a_def trunks_sound_def trunk_row_ok_def trunk_scoped_def
      condos_sound_def condo_row_ok_def profiles_def reg_statuses_def too_long_def prefix_ok_def is_digit_def)

lemma office_trunk: "get_trunk office_db ''K1'' = Some trunk_a"
  by (simp add: get_trunk_def repo_get_def office_db_def trunk_a_def)

theorem trunk_table_invariant_witness:
  "trunk_scoped (run_ops trunk_step [TrunkUpdate office_env ''T2'' ''K1'' rename_changes] office_db) trunk_a"
proof -
  have "run_ops trunk_step [TrunkUpdate office_env ''T2'' ''K1'' rename_changes] office_db = office_db"
    by (simp add: trunk_update_def office_trunk) (simp add: trunk_a_def)
  moreover have "trunk_a \<in> set (db_trunks office_db)" by (simp add: office_db_def)
  ultimately show ?thesis
    using trunk_table_invariant[OF office_ok, of trunk_a "[TrunkUpdate office_env ''T2'' ''K1'' rename_changes]" trunk_a]
    by simp
qed

theorem trunk_ops_respect_tenants_witness:
  "filter (\<lambda>t. tr_tenant t \<noteq> ''T2'') (db_trunks (trunk_step (TrunkUpdate office_env ''T2'' ''K1'' rename_changes) office_db))
     = [trunk_a]"
  using trunk_ops_respect_tenants[OF office_ok, of "TrunkUpdate office_env ''T2'' ''K1'' rename_changes"]
  by (simp add: office_db_def trunk_a_def)

theorem create_decided_by_prechecks_witness:
  "fst (trunk_create office_env ''T1'' ''P1'' ''C1'' None ''u1'' (Some ''pw'') ''internal'' False ''udp'' office_db)
     = Inl (DuplicateIdentityError ''duplicate_auth_identity'')
   \<and> length (db_trunks (snd (trunk_create office_env ''T1'' ''P1'' ''C1'' None ''u2'' (Some ''pw'') ''internal'' False ''udp'' office_db))) = 2"
proof -
  have v: "validate_create_inputs office_env ''T1'' ''P1'' ''C1'' None ''u1'' (Some ''pw'') ''internal'' ''udp'' office_db
      = Inl (DuplicateIdentityError ''duplicate_auth_identity'')"
    "validate_create_inputs office_env ''T1'' ''P1'' ''C1'' None ''u2'' (Some ''pw'') ''internal'' ''udp'' office_db = Inr ()"
    by code_simp+
  have e: "length ''u1'' \<le> 128" "length ''u2'' \<le> 128" "tv_commit office_env = None"
    "\<forall>t\<in>set (db_trunks office_db). tr_id t \<noteq> tv_id office_env" "db_trunks office_db = [trunk_a]"
    by (simp_all add: office_env_def office_db_def trunk_a_def)
  have s: "tv_encrypt office_env (the (Some ''pw'')) = Inr ''!pw''" by (simp add: office_env_def)
  show ?thesis
    using create_decided_by_prechecks[OF office_ok e(1,3,4), of "''T1''" "''P1''" "''C1''" None "Some ''pw''" "''internal''" False "''udp''"]
      create_decided_by_prechecks[OF office_ok e(2,3,4), of "''T1''" "''P1''" "''C1''" None "Some ''pw''" "''internal''" False "''udp''"]
    unfolding v s by (simp add: e(5))
qed

theorem directory_lookup_exact_witness:
  "lookup_directory_identity True ''internal'' ''u1'' office_db = Some trunk_a"
  using directory_lookup_exact[OF office_ok, of "''internal''" "''u1''" trunk_a]
  by (simp add: office_db_def trunk_a_def tenant_a_def)

theorem update_resets_registration_witness:
  "\<exists>r db' u. trunk_update office_env ''T1'' ''K1'' rename_changes office_db = (Inr r, db') \<and> r = Some u
     \<and> tr_user trunk_a \<noteq> tr_user u \<and> tr_status u = ''unknown''"
proof -
  let ?u = "trunk_a\<lparr>tr_user := ''u9'', tr_status := ''unknown'', tr_registered_at := None\<rparr>"
  have e: "trunk_update office_env ''T1'' ''K1'' rename_changes office_db = (Inr (Some ?u), office_db\<lparr>db_trunks := [?u]\<rparr>)"
    by code_simp
  from update_resets_registration[OF office_trunk e] e show ?thesis by (auto simp: trunk_a_def)
qed

end
