(* ===== verification/Trunk_Import.thy ===== *)
theory Trunk_Import
  imports Trunks Py_Data
begin

text \<open>
  \<open>services/trunk_import.py\<close>: imports of trunks. The documents are taken after decoding: a CSV
  file as the field names and rows \<open>csv.DictReader\<close> yields, a JSON file as the value
  \<open>json.loads\<close> returns; None stands for bytes that do not decode or parse. Row \<open>n\<close> is written
  in the environment \<open>envs n\<close> (its UUID, its commit).
\<close>

type_synonym csv_row = "(string \<times> string) list"

record 'd upload =
  up_size :: nat
  up_document :: "'d option"

definition CSV_MAX_ROWS :: nat where "CSV_MAX_ROWS = 10000"
definition CSV_MAX_BYTES :: nat where "CSV_MAX_BYTES = 5 * 1024 * 1024"
definition JSON_MAX_BYTES :: nat where "JSON_MAX_BYTES = 256 * 1024"
definition BATCH_MAX_BYTES :: nat where "BATCH_MAX_BYTES = 1024 * 1024"

definition row_error_fields :: "(string \<times> string) list" where
  "row_error_fields =
     [(''pbx_not_found'', ''pbx_id''), (''condominium_not_found'', ''condominium_id''),
      (''duplicate_auth_identity'', ''auth_username''), (''duplicate_prefix'', ''prefix''),
      (''invalid_prefix'', ''prefix''), (''invalid_password'', ''password''),
      (''invalid_sip_configuration'', ''sip_profile'')]"

definition csv_get :: "csv_row \<Rightarrow> string \<Rightarrow> string" where
  "csv_get raw k = (case map_of raw k of None \<Rightarrow> [] | Some v \<Rightarrow> v)"

definition or_else :: "string \<Rightarrow> string \<Rightarrow> string" where
  "or_else a b = (if a = [] then b else a)"

definition none_if_empty :: "string \<Rightarrow> string option" where
  "none_if_empty s = (if s = [] then None else Some s)"

definition csv_import_row :: "nat \<Rightarrow> csv_row \<Rightarrow> string \<Rightarrow> import_row" where
  "csv_import_row line raw technology =
     \<lparr>ir_line = line,
      ir_prefix = none_if_empty (py_strip (or_else (csv_get raw ''prefix'') (csv_get raw ''extension''))),
      ir_condo_name = py_strip (or_else (csv_get raw ''condominium'') (csv_get raw ''ext_name'')),
      ir_user = py_strip (csv_get raw ''device_user''), ir_password = csv_get raw ''device_password'',
      ir_profile = (if technology = ''pjsip'' then ''internal-7060'' else ''internal''),
      ir_condo = none_if_empty (py_strip (csv_get raw ''condominium_id''))\<rparr>"

text \<open>The loop of \<open>parse_trunk_csv\<close>: the line, the rows read, the rows kept and ignored so far.\<close>

fun csv_loop :: "nat \<Rightarrow> nat \<Rightarrow> nat \<Rightarrow> import_row list \<Rightarrow> nat \<Rightarrow> csv_row list \<Rightarrow> exc + import_row list \<times> nat" where
  "csv_loop max_rows line processed rows ignored [] = Inr (rows, ignored)"
| "csv_loop max_rows line processed rows ignored (raw # rest) =
     (if Suc processed > max_rows then Inl (CSVSchemaError ''csv_row_limit'')
      else
        let technology = py_lower (py_strip (csv_get raw ''technology'')) in
        if technology \<notin> {''sip'', ''pjsip''}
        then csv_loop max_rows (Suc line) (Suc processed) rows (Suc ignored) rest
        else if py_strip (csv_get raw ''device_user'') = [] \<or> csv_get raw ''device_password'' = []
        then Inl (CSVSchemaError ''csv_row_invalid'')
        else csv_loop max_rows (Suc line) (Suc processed) (rows @ [csv_import_row line raw technology]) ignored rest)"

definition parse_trunk_csv :: "(string list \<times> csv_row list) upload \<Rightarrow> nat \<Rightarrow> nat \<Rightarrow> exc + import_row list \<times> nat" where
  "parse_trunk_csv content max_rows max_bytes =
     (if up_size content > max_bytes then Inl (CSVSchemaError ''csv_too_large'')
      else case up_document content of
        None \<Rightarrow> Inl (CSVSchemaError ''csv_encoding_invalid'')
      | Some (fieldnames, rows) \<Rightarrow>
         if fieldnames = [] \<or> \<not> {''technology'', ''device_user'', ''device_password''} \<subseteq> set fieldnames
         then Inl (CSVSchemaError ''csv_schema_invalid'')
         else csv_loop max_rows 2 0 [] 0 rows)"

record import_result =
  res_dry_run :: bool
  res_rows :: nat
  res_created :: nat
  res_updated :: nat
  res_unchanged :: nat
  res_rejected :: nat
  res_errors :: "(nat \<times> string \<times> string option) list"

definition empty_result :: "bool \<Rightarrow> nat \<Rightarrow> import_result" where
  "empty_result dry_run n = \<lparr>res_dry_run = dry_run, res_rows = n, res_created = 0, res_updated = 0,
     res_unchanged = 0, res_rejected = 0, res_errors = []\<rparr>"

definition count_outcome :: "upsert_outcome \<Rightarrow> import_result \<Rightarrow> import_result" where
  "count_outcome o' r = (case o' of
      WasCreated \<Rightarrow> r\<lparr>res_created := Suc (res_created r)\<rparr>
    | WasUpdated \<Rightarrow> r\<lparr>res_updated := Suc (res_updated r)\<rparr>)"

text \<open>\<open>str(error)\<close> of the exceptions caught.\<close>

fun exc_text :: "exc \<Rightarrow> string" where
  "exc_text (ValueError s) = s"
| "exc_text (CSVSchemaError s) = s"
| "exc_text (ScopeValidationError s) = s"
| "exc_text (DuplicateIdentityError s) = s"
| "exc_text (CredentialTokenError s) = s"
| "exc_text (CredentialConfigurationError s) = s"
| "exc_text (LegacyDirectoryError s) = s"
| "exc_text (AmbiguousDirectoryIdentityError s) = s"
| "exc_text (DirectoryCredentialUnavailableError s) = s"
| "exc_text _ = []"

definition reject_row :: "import_row \<Rightarrow> exc \<Rightarrow> import_result \<Rightarrow> import_result" where
  "reject_row row e r = r\<lparr>res_rejected := Suc (res_rejected r),
     res_errors := res_errors r @ [(ir_line row, exc_text e, map_of row_error_fields (exc_text e))]\<rparr>"

fun import_csv_rows ::
    "(nat \<Rightarrow> trunk_env) \<Rightarrow> string \<Rightarrow> string \<Rightarrow> import_row list \<Rightarrow> import_result \<Rightarrow> (public_db, import_result) prog" where
  "import_csv_rows envs tenant_id pbx_id [] res db = (Inr res, db)"
| "import_csv_rows envs tenant_id pbx_id (row # rows) res db =
     (case upsert_imported (envs (ir_line row)) tenant_id pbx_id row db of
        (Inl e, db') \<Rightarrow>
          if is_ValueError e then import_csv_rows envs tenant_id pbx_id rows (reject_row row e res) db'
          else (Inl e, db')
      | (Inr out, db') \<Rightarrow> import_csv_rows envs tenant_id pbx_id rows (count_outcome out res) db')"

definition import_trunk_csv ::
    "(nat \<Rightarrow> trunk_env) \<Rightarrow> (string list \<times> csv_row list) upload \<Rightarrow> string \<Rightarrow> string \<Rightarrow> bool
     \<Rightarrow> (public_db, import_result) prog" where
  "import_trunk_csv envs content tenant_id pbx_id dry_run db =
     (case parse_trunk_csv content CSV_MAX_ROWS CSV_MAX_BYTES of
        Inl e \<Rightarrow> (Inl e, db)
      | Inr (rows, ignored) \<Rightarrow>
         (let res = (empty_result dry_run (length rows))\<lparr>res_unchanged := ignored\<rparr>
          in if dry_run then (Inr res, db) else import_csv_rows envs tenant_id pbx_id rows res db))"

section \<open>JSON exports\<close>

text \<open>A JSON string as Python text; \<open>str(v or "").strip()\<close>; \<open>int(v)\<close> of a JSON value.\<close>

fun json_text :: "json \<Rightarrow> string option" where
  "json_text (JStr s) = Some s"
| "json_text (JIso d) = Some (isoformat d)"
| "json_text _ = None"

definition str_or_empty :: "json option \<Rightarrow> string" where
  "str_or_empty v = (case v of None \<Rightarrow> [] | Some j \<Rightarrow> if truthy j then py_str j else [])"

fun digit_groups :: "bool \<Rightarrow> string \<Rightarrow> bool" where
  "digit_groups seen [] = seen"
| "digit_groups seen (c # cs) =
     (if is_digit c then digit_groups True cs
      else c = CHR ''_'' \<and> seen \<and> cs \<noteq> [] \<and> is_digit (hd cs) \<and> digit_groups True cs)"

definition digits_value :: "string \<Rightarrow> int" where
  "digits_value s = foldl (\<lambda>n c. 10 * n + (int (of_char c) - 48)) 0 (filter is_digit s)"

definition int_of_text :: "string \<Rightarrow> int option" where
  "int_of_text s =
     (case py_strip s of
        [] \<Rightarrow> None
      | c # cs \<Rightarrow>
         if c = CHR ''+'' \<or> c = CHR ''-''
         then (if digit_groups False cs then Some (if c = CHR ''-'' then - digits_value cs else digits_value cs) else None)
         else if digit_groups False (c # cs) then Some (digits_value (c # cs)) else None)"

definition trunc :: "rat \<Rightarrow> int" where
  "trunc q = (if q < 0 then \<lceil>q\<rceil> else \<lfloor>q\<rfloor>)"

fun py_int :: "json \<Rightarrow> int option" where
  "py_int (JInt i) = Some i"
| "py_int (JBool b) = Some (if b then 1 else 0)"
| "py_int (JFloat q _) = Some (trunc q)"
| "py_int (JStr s) = int_of_text s"
| "py_int _ = None"

definition opt_get :: "json \<Rightarrow> string \<Rightarrow> json" where
  "opt_get j k = (case jget j k of None \<Rightarrow> JNull | Some v \<Rightarrow> v)"

definition normalize_trunk_entry :: "json option \<Rightarrow> json \<Rightarrow> string \<Rightarrow> nat \<Rightarrow> exc + import_row" where
  "normalize_trunk_entry technology connection condominium_name line =
     (let tech = py_lower (py_strip (str_or_empty technology)) in
      case py_int (opt_get connection ''porta'') of
        None \<Rightarrow> Inl (CSVSchemaError ''trunk_json_sip_configuration_invalid'')
      | Some port \<Rightarrow>
         if tech \<noteq> ''pjsip'' \<or> port \<noteq> 7060
         then Inl (CSVSchemaError ''trunk_json_sip_configuration_invalid'')
         else
           let remote_username = py_strip (str_or_empty (jget connection ''nome_de_usuario_remoto''));
               outgoing_username = py_strip (str_or_empty (jget connection ''nome_de_usuario_de_saida''))
           in if remote_username = [] then Inl (CSVSchemaError ''trunk_json_username_missing'')
              else if outgoing_username \<noteq> [] \<and> outgoing_username \<noteq> remote_username
              then Inl (CSVSchemaError ''trunk_json_username_mismatch'')
              else (case json_text (opt_get connection ''segredo_remoto'') of
                  None \<Rightarrow> Inl (CSVSchemaError ''trunk_json_secret_missing'')
                | Some remote_secret \<Rightarrow>
                   if remote_secret = [] then Inl (CSVSchemaError ''trunk_json_secret_missing'')
                   else if \<not> (opt_get connection ''segredo_local'' = JNull
                        \<or> json_text (opt_get connection ''segredo_local'') \<in> {Some [], Some remote_secret})
                   then Inl (CSVSchemaError ''trunk_json_credentials_mismatch'')
                   else Inr \<lparr>ir_line = line, ir_prefix = None, ir_condo_name = py_strip condominium_name,
                       ir_user = remote_username, ir_password = remote_secret, ir_profile = ''internal-7060'',
                       ir_condo = None\<rparr>))"

definition parse_trunk_json :: "json upload \<Rightarrow> string \<Rightarrow> nat \<Rightarrow> exc + import_row" where
  "parse_trunk_json content condominium_name max_bytes =
     (if up_size content > max_bytes then Inl (CSVSchemaError ''trunk_json_too_large'')
      else case up_document content of
        None \<Rightarrow> Inl (CSVSchemaError ''trunk_json_invalid'')
      | Some document \<Rightarrow>
         if \<not> is_dict document \<or> py_strip condominium_name = []
         then Inl (CSVSchemaError ''trunk_json_schema_invalid'')
         else
           let general = opt_get document ''configuracoes_gerais''; connection = opt_get document ''general_configurations''
           in if \<not> is_dict general \<or> \<not> is_dict connection
              then Inl (CSVSchemaError ''trunk_json_schema_invalid'')
              else normalize_trunk_entry (jget general ''tecnologia'') connection condominium_name 1)"

fun batch_rows :: "(string \<times> json) list \<Rightarrow> nat \<Rightarrow> json list \<Rightarrow> exc + import_row list" where
  "batch_rows names line [] = Inr []"
| "batch_rows names line (entry # entries) =
     (if \<not> is_dict entry then Inl (CSVSchemaError ''trunk_json_schema_invalid'')
      else
        let conf = opt_get entry ''configuracoes''; connection = opt_get conf ''autenticacao_e_rede'' in
        if \<not> is_dict connection then Inl (CSVSchemaError ''trunk_json_schema_invalid'')
        else
          let number = py_strip (str_or_empty (jget entry ''numero''));
              condominium_name = (if number = [] then [] else py_strip (str_or_empty (map_of names number)))
          in if condominium_name = [] then Inl (CSVSchemaError ''trunk_json_condominium_missing'')
             else (case normalize_trunk_entry (jget entry ''tecnologia'') connection condominium_name line of
                 Inl e \<Rightarrow> Inl e
               | Inr row \<Rightarrow>
                  (case batch_rows names (Suc line) entries of Inl e \<Rightarrow> Inl e | Inr rows \<Rightarrow> Inr (row # rows))))"

definition parse_trunk_json_batch :: "json upload \<Rightarrow> (string \<times> json) list \<Rightarrow> nat \<Rightarrow> nat \<Rightarrow> exc + import_row list" where
  "parse_trunk_json_batch content names max_items max_bytes =
     (if up_size content > max_bytes then Inl (CSVSchemaError ''trunk_json_too_large'')
      else case up_document content of
        None \<Rightarrow> Inl (CSVSchemaError ''trunk_json_invalid'')
      | Some document \<Rightarrow>
         if \<not> is_dict document then Inl (CSVSchemaError ''trunk_json_schema_invalid'')
         else (case opt_get document ''ramais'' of
             JList entries \<Rightarrow>
               if entries = [] then Inl (CSVSchemaError ''trunk_json_schema_invalid'')
               else if length entries > max_items then Inl (CSVSchemaError ''trunk_json_too_many_items'')
               else batch_rows names 1 entries
           | _ \<Rightarrow> Inl (CSVSchemaError ''trunk_json_schema_invalid'')))"

definition import_trunk_json ::
    "trunk_env \<Rightarrow> json upload \<Rightarrow> string \<Rightarrow> string \<Rightarrow> string \<Rightarrow> string \<Rightarrow> bool \<Rightarrow> (public_db, import_result) prog" where
  "import_trunk_json env content tenant_id pbx_id condominium_name condominium_id dry_run db =
     (case parse_trunk_json content condominium_name JSON_MAX_BYTES of
        Inl e \<Rightarrow> (Inl e, db)
      | Inr row \<Rightarrow>
         if dry_run then (Inr (empty_result dry_run 1), db)
         else if condominium_id = [] then (Inl (CSVSchemaError ''trunk_json_condominium_missing''), db)
         else (case upsert_imported env tenant_id pbx_id (row\<lparr>ir_condo := Some condominium_id\<rparr>) db of
             (Inl e, db') \<Rightarrow> (Inl e, db')
           | (Inr out, db') \<Rightarrow> (Inr (count_outcome out (empty_result dry_run 1)), db')))"

fun validate_all :: "(nat \<Rightarrow> trunk_env) \<Rightarrow> string \<Rightarrow> string \<Rightarrow> import_row list \<Rightarrow> public_db \<Rightarrow> exc + unit" where
  "validate_all envs tenant_id pbx_id [] db = Inr ()"
| "validate_all envs tenant_id pbx_id (row # rows) db =
     (case validate_importable (envs (ir_line row)) tenant_id pbx_id row db of
        Inl e \<Rightarrow> Inl e | Inr _ \<Rightarrow> validate_all envs tenant_id pbx_id rows db)"

fun upsert_all ::
    "(nat \<Rightarrow> trunk_env) \<Rightarrow> string \<Rightarrow> string \<Rightarrow> import_row list \<Rightarrow> import_result \<Rightarrow> (public_db, import_result) prog" where
  "upsert_all envs tenant_id pbx_id [] res db = (Inr res, db)"
| "upsert_all envs tenant_id pbx_id (row # rows) res db =
     (case upsert_imported (envs (ir_line row)) tenant_id pbx_id row db of
        (Inl e, db') \<Rightarrow> (Inl e, db')
      | (Inr out, db') \<Rightarrow> upsert_all envs tenant_id pbx_id rows (count_outcome out res) db')"

definition condo_id_of :: "(string \<times> string) list \<Rightarrow> string \<Rightarrow> string" where
  "condo_id_of ids name = (case map_of ids name of None \<Rightarrow> [] | Some i \<Rightarrow> i)"

definition import_trunk_json_batch ::
    "(nat \<Rightarrow> trunk_env) \<Rightarrow> json upload \<Rightarrow> string \<Rightarrow> string \<Rightarrow> (string \<times> json) list \<Rightarrow> (string \<times> string) list
     \<Rightarrow> bool \<Rightarrow> nat \<Rightarrow> (public_db, import_result) prog" where
  "import_trunk_json_batch envs content tenant_id pbx_id names ids dry_run max_items db =
     (case parse_trunk_json_batch content names max_items BATCH_MAX_BYTES of
        Inl e \<Rightarrow> (Inl e, db)
      | Inr rows \<Rightarrow>
         if dry_run then (Inr (empty_result dry_run (length rows)), db)
         else if \<exists>row\<in>set rows. condo_id_of ids (ir_condo_name row) = []
         then (Inl (CSVSchemaError ''trunk_json_condominium_missing''), db)
         else
           let resolved = map (\<lambda>row. row\<lparr>ir_condo := Some (condo_id_of ids (ir_condo_name row))\<rparr>) rows in
           case validate_all envs tenant_id pbx_id resolved db of
             Inl e \<Rightarrow> (Inl e, db)
           | Inr _ \<Rightarrow> upsert_all envs tenant_id pbx_id resolved (empty_result dry_run (length rows)) db)"

section \<open>Rows of a batch\<close>

definition batch_row_ok :: "import_row \<Rightarrow> bool" where
  "batch_row_ok row \<longleftrightarrow> ir_prefix row = None \<and> ir_user row \<noteq> [] \<and> ir_password row \<noteq> []
     \<and> ir_profile row = ''internal-7060''"

lemma normalize_row_ok: "normalize_trunk_entry tech conn name line = Inr row \<Longrightarrow> batch_row_ok row \<and> ir_line row = line"
  by (auto simp: normalize_trunk_entry_def Let_def batch_row_ok_def split: option.splits if_splits)

lemma batch_rows_ok:
  assumes "batch_rows names line entries = Inr rows"
  shows "(\<forall>row\<in>set rows. batch_row_ok row \<and> line \<le> ir_line row) \<and> distinct (map ir_line rows)
    \<and> length rows = length entries"
  using assms
proof (induction names line entries arbitrary: rows rule: batch_rows.induct)
  case (1 names line)
  then show ?case by simp
next
  case (2 names line entry entries)
  from "2.prems" obtain conn name row rest where
    n: "normalize_trunk_entry (jget entry ''tecnologia'') conn name line = Inr row"
    and r: "batch_rows names (Suc line) entries = Inr rest" and rows: "rows = row # rest"
    by (auto simp: Let_def split: if_splits sum.splits)
  have ih: "(\<forall>row\<in>set rest. batch_row_ok row \<and> Suc line \<le> ir_line row) \<and> distinct (map ir_line rest)
      \<and> length rest = length entries"
    using "2.IH" "2.prems" r by (auto simp: Let_def split: if_splits sum.splits)
  with normalize_row_ok[OF n] rows show ?case
    by fastforce
qed

lemma parse_batch_ok:
  assumes "parse_trunk_json_batch content names max_items max_bytes = Inr rows"
  shows "(\<forall>row\<in>set rows. batch_row_ok row) \<and> distinct (map ir_line rows) \<and> rows \<noteq> [] \<and> length rows \<le> max_items"
proof -
  from assms obtain entries where "batch_rows names 1 entries = Inr rows" "entries \<noteq> []" "length entries \<le> max_items"
    by (auto simp: parse_trunk_json_batch_def split: if_splits option.splits json.splits)
  with batch_rows_ok[of names 1 entries rows] show ?thesis by auto
qed

section \<open>All or nothing\<close>

text \<open>An environment whose commits succeed and whose cipher takes every non-empty password.\<close>

definition calm_env :: "(string \<Rightarrow> string \<Rightarrow> exc + bool) \<Rightarrow> trunk_env \<Rightarrow> bool" where
  "calm_env leg env \<longleftrightarrow> tv_commit env = None \<and> tv_legacy env = leg
     \<and> (\<forall>p. p \<noteq> [] \<longrightarrow> (\<exists>s. tv_encrypt env p = Inr s))"




















section \<open>A user name longer than its column\<close>

lemma create_long_user:
  assumes "validate_create_inputs env tenant pbx condo prefix user pw prof transport db = Inr ()"
    and "tv_encrypt env (the pw) = Inr secret" and "length user > 128"
  shows "trunk_create env tenant pbx condo prefix user pw prof enabled transport db = (Inl truncation, db)"
proof -
  have "trunk_violation db ts (new_trunk env tenant pbx condo prefix user secret prof enabled transport) = Some truncation" for ts
    using assms(3) by (simp add: trunk_violation_def new_trunk_def too_long_def)
  with assms(1,2) show ?thesis
    by (simp add: trunk_create_def catchp_def on_trunks_def repo_create_def truncation_def)
qed

text \<open>Where the rule fails: the first pass does not check the length of a user name, so a batch
  whose second row has a new identity with a user name over 128 characters passes it, and the
  write of that row then raises the database error after the first row has been committed.\<close>

theorem long_username_leaves_half_a_batch:
  assumes "db_ok db" and calm: "\<forall>n. calm_env leg (envs n)"
    and fresh: "\<forall>t\<in>set (db_trunks db). tr_id t \<noteq> tv_id (envs 1)"
    and parsed: "parse_trunk_json_batch content names max_items BATCH_MAX_BYTES = Inr [a, b]" "ir_line a = 1"
    and condo_names: "condo_id_of condo_ids (ir_condo_name a) = ca" "condo_id_of condo_ids (ir_condo_name b) = cb"
      "ca \<noteq> []" "cb \<noteq> []"
    and checks: "validate_all envs T pbx [a\<lparr>ir_condo := Some ca\<rparr>, b\<lparr>ir_condo := Some cb\<rparr>] db = Inr ()"
    and new: "find_identity db (ir_profile a) (ir_user a) = None" "find_identity db (ir_profile b) (ir_user b) = None"
    and len: "length (ir_user a) \<le> 128" "128 < length (ir_user b)"
  shows "\<exists>w. import_trunk_json_batch envs content T pbx names condo_ids False max_items db
    = (Inl truncation, db\<lparr>db_trunks := db_trunks db @ [w]\<rparr>) \<and> tr_user w = ir_user a"
proof -
  let ?a = "a\<lparr>ir_condo := Some ca\<rparr>" and ?b = "b\<lparr>ir_condo := Some cb\<rparr>" and ?eb = "envs (ir_line b)"
  have ok: "batch_row_ok a" "batch_row_ok b" using parse_batch_ok[OF parsed(1)] by auto
  have enc: "\<exists>s. tv_encrypt (envs n) (ir_password r) = Inr s" if "batch_row_ok r" for n r
    using calm that by (auto simp: calm_env_def batch_row_ok_def)
  obtain sa sb where s: "tv_encrypt (envs 1) (ir_password a) = Inr sa" "tv_encrypt ?eb (ir_password b) = Inr sb"
    using enc ok by blast
  have va: "validate_create_inputs (envs 1) T pbx ca (ir_prefix a) (ir_user a) (Some (ir_password a)) (ir_profile a) ''udp'' db
      = Inr ()"
    using checks new(1) parsed(2) by (auto simp: validate_importable_def condo_key_def split: sum.splits)
  have vb: "validate_create_inputs ?eb T pbx cb (ir_prefix b) (ir_user b) (Some (ir_password b)) (ir_profile b) ''udp'' db
      = Inr ()"
    using checks new(2) by (auto simp: validate_importable_def condo_key_def split: sum.splits)
  have enc1: "tv_encrypt (envs 1) (the (Some (ir_password a))) = Inr sa" using s by simp
  have cm: "tv_commit (envs 1) = None" using calm by (simp add: calm_env_def)
  let ?w = "new_trunk (envs 1) T pbx ca (ir_prefix a) (ir_user a) sa (ir_profile a) False ''udp''"
  let ?db = "db\<lparr>db_trunks := db_trunks db @ [?w]\<rparr>"
  have up1: "upsert_imported (envs 1) T pbx ?a db = (Inr WasCreated, ?db)"
    using trunk_create_succeeds[OF assms(1) va enc1 len(1) cm fresh, of False] new(1)
    by (simp add: upsert_imported_def condo_key_def)
  have n2: "find_identity ?db (ir_profile b) (ir_user b) = None"
    using new(2) len by (auto simp: find_identity_None new_trunk_def)
  have "get_condo ?db x = get_condo db x" "get_pbx ?db x = get_pbx db x" for x
    by (simp_all add: get_condo_def get_pbx_def)
  then have "validate_scope T pbx cb ?db = validate_scope T pbx cb db"
    by (simp add: validate_scope_def cong: if_cong option.case_cong)
  then have vb2: "validate_create_inputs ?eb T pbx cb (ir_prefix b) (ir_user b) (Some (ir_password b)) (ir_profile b) ''udp'' ?db
      = Inr ()"
    using validate_create_inputs_Inr[OF vb] ok(2) n2
    by (auto simp: validate_create_inputs_def ensure_unique_def batch_row_ok_def)
  have enc2: "tv_encrypt ?eb (the (Some (ir_password b))) = Inr sb" using s by simp
  have up2: "upsert_imported ?eb T pbx ?b ?db = (Inl truncation, ?db)"
    using create_long_user[OF vb2 enc2 len(2), of False] n2 by (simp add: upsert_imported_def condo_key_def)
  have "import_trunk_json_batch envs content T pbx names condo_ids False max_items db = (Inl truncation, ?db)"
    using parsed condo_names checks up1 up2 by (simp add: import_trunk_json_batch_def Let_def)
  moreover have "tr_user ?w = ir_user a" by (simp add: new_trunk_def)
  ultimately show ?thesis by blast
qed

section \<open>CSV files\<close>

lemma csv_loop_counts:
  "csv_loop mx line processed rows ignored raws = Inr (rows', ignored')
   \<Longrightarrow> length rows' + ignored' = length rows + ignored + length raws \<and> (raws \<noteq> [] \<longrightarrow> processed + length raws \<le> mx)"
proof (induction mx line processed rows ignored raws rule: csv_loop.induct)
  case (2 mx line processed rows ignored raw rest)
  then show ?case
    by (cases "rest = []") (auto simp: Let_def split: if_splits)
qed simp

lemma upsert_others:
  assumes "upsert_imported env T pbx row db = (r, db')"
  shows "filter (\<lambda>t. tr_tenant t \<noteq> T) (db_trunks db') = filter (\<lambda>t. tr_tenant t \<noteq> T) (db_trunks db)"
  using assms
  by (auto simp: upsert_imported_def split: option.splits prod.splits sum.splits dest: trunk_create_others trunk_update_others)

lemma import_csv_rows_ok:
  assumes "import_csv_rows envs T pbx rows res db = (r, db')" and "db_ok db"
  shows "db_ok db' \<and> filter (\<lambda>t. tr_tenant t \<noteq> T) (db_trunks db') = filter (\<lambda>t. tr_tenant t \<noteq> T) (db_trunks db)
    \<and> (case r of Inl e \<Rightarrow> \<not> is_ValueError e
       | Inr res' \<Rightarrow> res_created res' + res_updated res' + res_rejected res'
             = res_created res + res_updated res + res_rejected res + length rows
           \<and> length (res_errors res') + res_rejected res = length (res_errors res) + res_rejected res'
           \<and> res_rows res' = res_rows res \<and> res_unchanged res' = res_unchanged res)"
  using assms
proof (induction rows arbitrary: res db)
  case Nil
  then show ?case by auto
next
  case (Cons row rows)
  obtain q db1 where u: "upsert_imported (envs (ir_line row)) T pbx row db = (q, db1)" by force
  have ok: "db_ok db1" using upsert_imported_ok[OF Cons.prems(2) u] .
  have ot: "filter (\<lambda>t. tr_tenant t \<noteq> T) (db_trunks db1) = filter (\<lambda>t. tr_tenant t \<noteq> T) (db_trunks db)"
    by (rule upsert_others[OF u])
  show ?case
  proof (cases q)
    case (Inr out)
    then have "import_csv_rows envs T pbx rows (count_outcome out res) db1 = (r, db')"
      using Cons.prems(1) u by simp
    from Cons.IH[OF this ok] ot show ?thesis
      by (cases out) (auto simp: count_outcome_def split: sum.splits)
  next
    case (Inl e)
    show ?thesis
    proof (cases "is_ValueError e")
      case True
      then have "import_csv_rows envs T pbx rows (reject_row row e res) db1 = (r, db')"
        using Cons.prems(1) u Inl by simp
      from Cons.IH[OF this ok] ot show ?thesis
        by (auto simp: reject_row_def split: sum.splits)
    next
      case False
      with Cons.prems(1) u Inl ok ot show ?thesis by auto
    qed
  qed
qed

text \<open>A CSV import accounts for every line: one that returns has read at most 10 000 rows, each of
  them imported, rejected with one error line, or of another technology; a validation error of a
  row never ends the import, no trunk of another tenant changes, and a dry run writes nothing.\<close>

theorem csv_import_accounts_for_rows:
  assumes "db_ok db" and run: "import_trunk_csv envs content T pbx dry db = (Inr res, db')"
  shows "\<exists>columns raws. up_document content = Some (columns, raws) \<and> length raws \<le> 10000
    \<and> res_rows res + res_unchanged res = length raws
    \<and> (if dry then db' = db
       else res_created res + res_updated res + res_rejected res = res_rows res \<and> length (res_errors res) = res_rejected res)
    \<and> db_ok db' \<and> filter (\<lambda>t. tr_tenant t \<noteq> T) (db_trunks db') = filter (\<lambda>t. tr_tenant t \<noteq> T) (db_trunks db)"
proof -
  from run obtain rows ignored where p: "parse_trunk_csv content CSV_MAX_ROWS CSV_MAX_BYTES = Inr (rows, ignored)"
    by (auto simp: import_trunk_csv_def split: sum.splits)
  then obtain columns raws where d: "up_document content = Some (columns, raws)"
    and l: "csv_loop CSV_MAX_ROWS 2 0 [] 0 raws = Inr (rows, ignored)"
    by (auto simp: parse_trunk_csv_def split: if_splits option.splits)
  have c: "length rows + ignored = length raws" "length raws \<le> 10000"
    using csv_loop_counts[OF l] by (cases "raws = []"; auto simp: CSV_MAX_ROWS_def)+
  show ?thesis
  proof (cases dry)
    case True
    with run p d c assms(1) show ?thesis
      by (auto simp: import_trunk_csv_def empty_result_def)
  next
    case False
    with run p have i: "import_csv_rows envs T pbx rows ((empty_result False (length rows))\<lparr>res_unchanged := ignored\<rparr>) db = (Inr res, db')"
      by (simp add: import_trunk_csv_def Let_def)
    from import_csv_rows_ok[OF i assms(1)] False d c show ?thesis
      by (auto simp: empty_result_def)
  qed
qed


section \<open>Two imports into the small installation\<close>

definition export_entry :: "string \<Rightarrow> string \<Rightarrow> json" where
  "export_entry number user = JObj [(''tecnologia'', JStr ''PJSIP''), (''numero'', JStr number),
     (''configuracoes'', JObj [(''autenticacao_e_rede'', JObj [(''porta'', JInt 7060),
        (''nome_de_usuario_remoto'', JStr user), (''segredo_remoto'', JStr ''s3'')])])]"

definition export_doc :: "string \<Rightarrow> json upload" where
  "export_doc user = \<lparr>up_size = 900,
     up_document = Some (JObj [(''ramais'', JList [export_entry ''11'' ''a1'', export_entry ''12'' user])])\<rparr>"

definition export_row :: "nat \<Rightarrow> string \<Rightarrow> import_row" where
  "export_row n user = \<lparr>ir_line = n, ir_prefix = None, ir_condo_name = ''Sol'', ir_user = user, ir_password = ''s3'',
     ir_profile = ''internal-7060'', ir_condo = None\<rparr>"

definition office_names :: "(string \<times> json) list" where
  "office_names = [(''11'', JStr ''Sol''), (''12'', JStr ''Sol'')]"

definition line_env :: "nat \<Rightarrow> trunk_env" where
  "line_env n = office_env\<lparr>tv_id := replicate (n + 3) (CHR ''Z'')\<rparr>"

lemma blank_free: "py_strip u = u" if "\<forall>c\<in>set u. \<not> is_space c"
  using that by (auto simp: py_strip_def intro: strip_if_keeps)

lemma export_entry_ok:
  assumes "u \<noteq> []" and "\<forall>c\<in>set u. \<not> is_space c"
  shows "normalize_trunk_entry (Some (JStr ''PJSIP'')) (JObj [(''porta'', JInt 7060),
        (''nome_de_usuario_remoto'', JStr u), (''segredo_remoto'', JStr ''s3'')]) ''Sol'' n = Inr (export_row n u)"
proof -
  have "py_lower (py_strip ''PJSIP'') = ''pjsip''" "py_strip ''Sol'' = ''Sol''" by code_simp+
  moreover have "py_strip [] = []" by (simp add: py_strip_def strip_if_def)
  ultimately show ?thesis
    using assms by (simp add: normalize_trunk_entry_def Let_def opt_get_def str_or_empty_def blank_free export_row_def)
qed

lemma export_parsed:
  assumes "u \<noteq> []" and "\<forall>c\<in>set u. \<not> is_space c"
  shows "parse_trunk_json_batch (export_doc u) office_names 500 BATCH_MAX_BYTES = Inr [export_row 1 ''a1'', export_row 2 u]"
proof -
  have "py_strip ''11'' = ''11''" "py_strip ''12'' = ''12''" "py_strip ''Sol'' = ''Sol''" by code_simp+
  moreover have "\<forall>c\<in>set ''a1''. \<not> is_space c" by code_simp
  ultimately show ?thesis
    using export_entry_ok[OF assms] export_entry_ok[of "''a1''"]
    by (simp add: parse_trunk_json_batch_def export_doc_def BATCH_MAX_BYTES_def opt_get_def export_entry_def
        office_names_def str_or_empty_def Let_def numeral_2_eq_2)
qed

lemma office_line_env: "\<forall>n. calm_env (\<lambda>_ _. Inr False) (line_env n)" "inj (\<lambda>n. tv_id (line_env n))"
    "\<forall>n. \<forall>t\<in>set (db_trunks office_db). tr_id t \<noteq> tv_id (line_env n)"
proof -
  show "\<forall>n. calm_env (\<lambda>_ _. Inr False) (line_env n)" by (simp add: calm_env_def line_env_def office_env_def)
  show "inj (\<lambda>n. tv_id (line_env n))" by (auto simp: inj_on_def line_env_def)
  show "\<forall>n. \<forall>t\<in>set (db_trunks office_db). tr_id t \<noteq> tv_id (line_env n)"
    by (simp add: office_db_def trunk_a_def line_env_def numeral_3_eq_3)
qed

lemma export_row_importable:
  assumes "u \<noteq> ''u1''" and "tv_legacy env = (\<lambda>_ _. Inr False)"
  shows "validate_importable env ''T1'' ''P1'' (export_row n u\<lparr>ir_condo := Some ''C1''\<rparr>) office_db = Inr ()"
    and "find_identity office_db ''internal-7060'' u = None"
proof -
  show f: "find_identity office_db ''internal-7060'' u = None"
    using assms by (simp add: find_identity_None office_db_def trunk_a_def)
  have "\<not> blank_password (Some ''s3'')" by code_simp
  with f show "validate_importable env ''T1'' ''P1'' (export_row n u\<lparr>ir_condo := Some ''C1''\<rparr>) office_db = Inr ()"
    by (simp add: validate_importable_def export_row_def validate_create_inputs_def condo_key_def validate_scope_def
        get_pbx_def get_condo_def repo_get_def office_db_def prefix_ok_def profiles_def ensure_unique_def legacy_free_def assms(2))
qed

lemma export_row_valid:
  assumes "u \<noteq> ''u1''"
  shows "validate_importable (line_env n) ''T1'' ''P1'' (export_row n u\<lparr>ir_condo := Some ''C1''\<rparr>) office_db = Inr ()"
    and "find_identity office_db ''internal-7060'' u = None"
  using export_row_importable[OF assms, of "line_env n"] by (simp_all add: line_env_def office_env_def)


theorem long_username_leaves_half_a_batch_witness:
  "\<exists>w. import_trunk_json_batch line_env (export_doc (replicate 129 (CHR ''x''))) ''T1'' ''P1'' office_names [(''Sol'', ''C1'')]
     False 500 office_db = (Inl truncation, office_db\<lparr>db_trunks := [trunk_a, w]\<rparr>) \<and> tr_user w = ''a1''"
proof -
  let ?u = "replicate 129 (CHR ''x'')"
  have sp: "?u \<noteq> []" "\<forall>c\<in>set ?u. \<not> is_space c" "?u \<noteq> ''u1''" by code_simp+
  have e: "condo_id_of [(''Sol'', ''C1'')] (ir_condo_name (export_row n u)) = ''C1''" for n u
    by (simp add: condo_id_of_def export_row_def)
  have v: "validate_all line_env ''T1'' ''P1'' [export_row 1 ''a1''\<lparr>ir_condo := Some ''C1''\<rparr>, export_row 2 ?u\<lparr>ir_condo := Some ''C1''\<rparr>]
      office_db = Inr ()"
    using export_row_valid(1)[of "''a1''" 1] export_row_valid(1)[OF sp(3), of 2] by (simp add: export_row_def)
  have f: "find_identity office_db (ir_profile (export_row 1 ''a1'')) (ir_user (export_row 1 ''a1'')) = None"
    "find_identity office_db (ir_profile (export_row 2 ?u)) (ir_user (export_row 2 ?u)) = None"
    using export_row_valid(2)[of "''a1''"] export_row_valid(2)[OF sp(3)] by (simp_all add: export_row_def)
  have l: "ir_line (export_row 1 ''a1'') = 1" "length (ir_user (export_row 1 ''a1'')) \<le> 128"
    "128 < length (ir_user (export_row 2 ?u))" by (simp_all add: export_row_def)
  have fr: "\<forall>t\<in>set (db_trunks office_db). tr_id t \<noteq> tv_id (line_env 1)" using office_line_env(3) by blast
  from long_username_leaves_half_a_batch[OF office_ok office_line_env(1) fr export_parsed[OF sp(1,2)] l(1) e e _ _ v f l(2,3)]
  show ?thesis by (simp add: office_db_def export_row_def)
qed

theorem csv_import_accounts_for_rows_witness:
  "\<exists>res. import_trunk_csv line_env \<lparr>up_size = 90, up_document = Some ([''technology'', ''device_user'', ''device_password''],
      [[(''technology'', ''sip''), (''device_user'', ''u1''), (''device_password'', ''p'')],
       [(''technology'', ''iax''), (''device_user'', ''u5''), (''device_password'', ''p'')]])\<rparr> ''T1'' ''P1'' True office_db
     = (Inr res, office_db) \<and> res_rows res + res_unchanged res = 2"
proof -
  let ?c = "\<lparr>up_size = 90, up_document = Some ([''technology'', ''device_user'', ''device_password''],
      [[(''technology'', ''sip''), (''device_user'', ''u1''), (''device_password'', ''p'')],
       [(''technology'', ''iax''), (''device_user'', ''u5''), (''device_password'', ''p'')]])\<rparr>"
  have "py_lower (py_strip ''sip'') = ''sip''" "py_lower (py_strip ''iax'') = ''iax''" "py_strip ''u1'' = ''u1''"
    by code_simp+
  then have "fst (import_trunk_csv line_env ?c ''T1'' ''P1'' True office_db) = Inr \<lparr>res_dry_run = True, res_rows = 1, res_created = 0,
      res_updated = 0, res_unchanged = 1, res_rejected = 0, res_errors = []\<rparr>"
    by (simp add: import_trunk_csv_def parse_trunk_csv_def CSV_MAX_BYTES_def CSV_MAX_ROWS_def csv_get_def Let_def empty_result_def)
  then obtain res db' where i: "import_trunk_csv line_env ?c ''T1'' ''P1'' True office_db = (Inr res, db')"
    by (cases "import_trunk_csv line_env ?c ''T1'' ''P1'' True office_db") auto
  from csv_import_accounts_for_rows[OF office_ok i] i show ?thesis by auto
qed

end
