(* ===== verification/Smb_Names.thy ===== *)
theory Smb_Names
  imports Call_Dir
begin

text \<open>
  \<open>workers/smb_sync.py\<close>, the parts without a connection: the circuit breaker, the names of
  the copies on the share, and the transfer log. A \<open>time.monotonic()\<close> value is a rational
  number of seconds, a UTC instant an integer of microseconds.
\<close>

section \<open>Circuit breaker\<close>

record breaker =
  cb_threshold :: nat
  cb_reset_seconds :: rat
  cb_failures :: nat
  cb_opened :: "rat option"

definition new_breaker :: breaker where
  "new_breaker = \<lparr>cb_threshold = 5, cb_reset_seconds = 300, cb_failures = 0, cb_opened = None\<rparr>"

definition reset_breaker :: "breaker \<Rightarrow> breaker" where
  "reset_breaker b = b\<lparr>cb_failures := 0, cb_opened := None\<rparr>"

definition allows_request :: "rat \<Rightarrow> breaker \<Rightarrow> bool \<times> breaker" where
  "allows_request now b =
     (case cb_opened b of
        None \<Rightarrow> (True, b)
      | Some opened \<Rightarrow> if now - opened < cb_reset_seconds b then (False, b) else (True, reset_breaker b))"

definition record_success :: "breaker \<Rightarrow> breaker" where
  "record_success b = reset_breaker b"

definition record_failure :: "rat \<Rightarrow> breaker \<Rightarrow> breaker" where
  "record_failure now b =
     (let b1 = b\<lparr>cb_failures := Suc (cb_failures b)\<rparr>
      in if cb_failures b1 \<ge> cb_threshold b1 then b1\<lparr>cb_opened := Some now\<rparr> else b1)"

datatype breaker_event = Failure rat | Success | Request rat

fun breaker_step :: "breaker_event \<Rightarrow> breaker \<Rightarrow> breaker" where
  "breaker_step (Failure t) b = record_failure t b"
| "breaker_step Success b = record_success b"
| "breaker_step (Request t) b = snd (allows_request t b)"

fun record_failures :: "rat list \<Rightarrow> breaker \<Rightarrow> breaker" where
  "record_failures [] b = b"
| "record_failures (t # ts) b = record_failures ts (record_failure t b)"

lemma record_failures_settings [simp]:
  "cb_threshold (record_failures ts b) = cb_threshold b \<and> cb_reset_seconds (record_failures ts b) = cb_reset_seconds b"
  by (induction ts arbitrary: b) (simp_all add: record_failure_def Let_def)

lemma record_failures_count [simp]: "cb_failures (record_failures ts b) = cb_failures b + length ts"
  by (induction ts arbitrary: b) (simp_all add: record_failure_def Let_def)

lemma record_failures_opened:
  "cb_opened (record_failures ts b) =
     (if ts \<noteq> [] \<and> cb_failures b + length ts \<ge> cb_threshold b then Some (last ts) else cb_opened b)"
proof (induction ts rule: rev_induct)
  case Nil
  then show ?case by simp
next
  case (snoc t ts)
  have "record_failures (ts @ [t]) b = record_failure t (record_failures ts b)"
    by (induction ts arbitrary: b) simp_all
  with snoc show ?case by (auto simp: record_failure_def Let_def)
qed

text \<open>The circuit breaker: after failures in a row without a success the breaker refuses
  requests exactly when they are at least as many as the threshold and the last of them is
  less than the reset time ago; the first request after that closes it, with a count of zero.\<close>

theorem breaker_opens_after_failures:
  assumes "cb_opened b = None" and "cb_failures b = 0" and "0 < cb_threshold b"
  shows "allows_request now (record_failures ts b)
    = (if length ts < cb_threshold b then (True, record_failures ts b)
       else if now - last ts < cb_reset_seconds b then (False, record_failures ts b)
       else (True, record_failures ts b\<lparr>cb_failures := 0, cb_opened := None\<rparr>))"
  using assms by (cases "ts = []"; auto simp: allows_request_def record_failures_opened reset_breaker_def)

theorem breaker_opens_after_failures_witness:
  "\<not> fst (allows_request 299 (record_failures [0, 0, 0, 0, 0] new_breaker))"
  using breaker_opens_after_failures[of new_breaker 299 "[0, 0, 0, 0, 0]"] by (simp add: new_breaker_def)

section \<open>Names\<close>

definition re_sub_outside :: "(char \<Rightarrow> bool) \<Rightarrow> string \<Rightarrow> string \<Rightarrow> string" where
  "re_sub_outside keep repl s = concat (map (\<lambda>c. if keep c then [c] else repl) s)"

definition segment_char :: "char \<Rightarrow> bool" where
  "segment_char c \<longleftrightarrow> is_alnum c \<or> c = CHR ''.'' \<or> c = CHR ''_'' \<or> c = CHR ''-''"

definition sanitize_segment :: "string option \<Rightarrow> string" where
  "sanitize_segment v =
     (let normalized = py_strip (case v of None \<Rightarrow> [] | Some s \<Rightarrow> s)
      in if normalized = [] then ''desconhecido''
         else let sanitized = take 64 (re_sub_outside segment_char ''_'' normalized)
              in if sanitized = [] then ''desconhecido'' else sanitized)"

definition build_remote_directory :: "string \<Rightarrow> int \<Rightarrow> string" where
  "build_remote_directory tenant_id started_at = sanitize_segment (Some tenant_id) @ ''/'' @ date_text started_at"

definition build_remote_name ::
    "int \<Rightarrow> string \<Rightarrow> string option \<Rightarrow> string option \<Rightarrow> string \<Rightarrow> bool \<Rightarrow> exc + string" where
  "build_remote_name started_at call_id caller_number callee_number extension include_collision_suffix =
     (let prefix = date_text started_at @ ''-'' @ time_text ''-'' started_at;
          parts = [prefix, sanitize_segment (Some (take 6 call_id)), sanitize_segment caller_number,
                   sanitize_segment callee_number]
                  @ (if include_collision_suffix then [sanitize_segment (Some (take 4 (drop 6 call_id)))] else []);
          safe_extension = py_lower (re_sub_outside is_alnum [] extension)
      in if safe_extension = [] then Inl (ValueError ''remote extension must not be empty'')
         else Inr (join_str ''-'' parts @ ''.'' @ safe_extension))"

section \<open>Transfer log\<close>

definition parse_datetime :: "json option \<Rightarrow> int option" where
  "parse_datetime v =
     (case v of Some (JIso d) \<Rightarrow> Some (dt_instant d) | _ \<Rightarrow> None)"

definition corrupt_suffix :: "int \<Rightarrow> string" where
  "corrupt_suffix t =
     (let (y, m, d) = civil (t div 86400000000); (_, _, _, us) = clock_fields t in
      pad_int 4 y @ pad_int 2 m @ pad_int 2 d @ ''T'' @ time_text [] t @ pad_int 6 us @ ''Z'')"

definition load_transfer_log :: "os_env \<Rightarrow> bool \<Rightarrow> string \<Rightarrow> dir \<Rightarrow> (string \<times> json) list \<times> dir" where
  "load_transfer_log os renames name d =
     (if \<not> path_exists d name then ([], d)
      else case load_json d name of
        Inr (JObj kvs) \<Rightarrow> (kvs, d)
      | _ \<Rightarrow> ([], if renames
             then dput (name @ ''.corrupt-'' @ corrupt_suffix (env_now os)) (the (dget d name)) (ddel name d)
             else d))"

definition save_transfer_log :: "os_env \<Rightarrow> string \<Rightarrow> (string \<times> json) list \<Rightarrow> dir \<Rightarrow> exc + dir" where
  "save_transfer_log os name entries d =
     (if \<not> env_disk os then Inl (OSError ''write failed'')
      else if dget d name \<noteq> None \<and> f_data (the (dget d name)) = Directory then Inl IsADirectoryError
      else Inr (dput name (json_file os (JObj entries)) d))"

fun hashable :: "json option \<Rightarrow> bool" where
  "hashable (Some (JList _)) = False"
| "hashable (Some (JObj _)) = False"
| "hashable _ = True"

fun prune_transfer_log :: "rat \<Rightarrow> int \<Rightarrow> (string \<times> json) list \<Rightarrow> exc + (string \<times> json) list" where
  "prune_transfer_log retention_days now [] = Inr []"
| "prune_transfer_log retention_days now ((key, item) # items) =
     (if \<not> is_dict item then Inl (AttributeError ''get'')
      else if \<not> hashable (jget item ''status'') then Inl (TypeError ''unhashable'')
      else
        let cutoff = of_int now - retention_days * 86400000000;
            expired = (jget item ''status'' \<in> {Some (JStr ''done''), Some (JStr ''failed'')}
              \<and> (case parse_datetime (jget item ''updated_at'') of
                    None \<Rightarrow> False | Some t \<Rightarrow> (of_int t :: rat) < cutoff))
        in case prune_transfer_log retention_days now items of
             Inl e \<Rightarrow> Inl e
           | Inr rest \<Rightarrow> Inr (if expired then rest else (key, item) # rest))"

text \<open>Pending transfers are never pruned, and pruning keeps entries as they are.\<close>

lemma prune_keeps:
  assumes "prune_transfer_log rd now items = Inr kept" and "(key, item) \<in> set items"
    and "jget item ''status'' \<notin> {Some (JStr ''done''), Some (JStr ''failed'')}"
  shows "(key, item) \<in> set kept"
  using assms
  by (induction items arbitrary: kept) (auto simp: Let_def split: if_splits sum.splits)

lemma prune_subset: "prune_transfer_log rd now items = Inr kept \<Longrightarrow> set kept \<subseteq> set items"
  by (induction items arbitrary: kept) (auto simp: Let_def split: if_splits sum.splits, fastforce+)

lemma prune_objects: "prune_transfer_log rd now items = Inr kept \<Longrightarrow> x \<in> set kept \<Longrightarrow> is_dict (snd x)"
  by (induction items arbitrary: kept) (auto simp: Let_def split: if_splits sum.splits)

section \<open>What names are made of\<close>

lemma sanitize_segment_chars: "\<forall>c\<in>set (sanitize_segment v). segment_char c"
proof -
  have d: "\<forall>c\<in>set ''desconhecido''. segment_char c" by code_simp
  have u: "segment_char (CHR ''_'')" by code_simp
  have "\<forall>c\<in>set (re_sub_outside segment_char ''_'' s). segment_char c" for s
    using u by (auto simp: re_sub_outside_def)
  then have "\<forall>c\<in>set (take 64 (re_sub_outside segment_char ''_'' s)). segment_char c" for s
    by (meson in_set_takeD)
  with d show ?thesis by (auto simp: sanitize_segment_def Let_def simp del: list.set)
qed

lemma sanitize_segment_bounds: "sanitize_segment v \<noteq> []" "length (sanitize_segment v) \<le> 64"
  by (auto simp: sanitize_segment_def Let_def)

end
