(* ===== verification/Smb_Remote.thy ===== *)
theory Smb_Remote
  imports Smb_Names
begin

text \<open>
  \<open>workers/smb_sync.py\<close>, the side of the share: \<open>SMBBackupStrategy\<close> over a connection. The
  connection (pysmb) is an argument: a record of its operations on the share, with the clock
  and the sleep of the event loop; \<open>sha\<close> stands for SHA-256 in hex and \<open>smb_laws\<close> states what
  the operations do to the files of the share. Errors of every operation are allowed, also
  \<open>CancelledError\<close>, which is how a cancelled await ends.
\<close>

type_synonym bytes = "byte list"

record 's smb_conn =
  sc_connect :: "('s, bool) prog"
  sc_close :: "('s, unit) prog"
  sc_create_directory :: "string \<Rightarrow> ('s, unit) prog"
  sc_list_path :: "string \<Rightarrow> ('s, string list) prog"
  sc_retrieve :: "string \<Rightarrow> ('s, bytes) prog"
  sc_store :: "string \<Rightarrow> bytes \<Rightarrow> nat \<Rightarrow> bool \<Rightarrow> ('s, nat) prog"
  sc_rename :: "string \<Rightarrow> string \<Rightarrow> ('s, unit) prog"
  sc_delete :: "string \<Rightarrow> ('s, unit) prog"
  sc_clock :: "'s \<Rightarrow> rat"
  sc_sleep :: "rat \<Rightarrow> ('s, unit) prog"

definition smb_connect :: "'s smb_conn \<Rightarrow> ('s, unit) prog" where
  "smb_connect conn = bindp (sc_connect conn) (\<lambda>ok. if ok then ret () else throw (ConnectionError ''SMB connection rejected''))"

definition is_slash :: "char \<Rightarrow> bool" where
  "is_slash c \<longleftrightarrow> c = CHR ''/'' \<or> c = CHR 0x5C"

definition join_path :: "string list \<Rightarrow> string" where
  "join_path parts = join_str ''/'' (filter (\<lambda>w. w \<noteq> []) (map (strip_if is_slash) parts))"

fun ensure_segments :: "'s smb_conn \<Rightarrow> string \<Rightarrow> string list \<Rightarrow> ('s, unit) prog" where
  "ensure_segments conn current [] s = (Inr (), s)"
| "ensure_segments conn current (seg # segs) s =
     (let current = join_path [current, seg] in
      case catchp (sc_create_directory conn current) is_Exception
             (\<lambda>_. bindp (sc_list_path conn current) (\<lambda>_. ret ())) s of
        (Inl e, s1) \<Rightarrow> (Inl e, s1)
      | (Inr _, s1) \<Rightarrow> ensure_segments conn current segs s1)"

definition ensure_directories :: "'s smb_conn \<Rightarrow> string \<Rightarrow> ('s, unit) prog" where
  "ensure_directories conn remote_dir = ensure_segments conn [] (split_on (CHR ''/'') remote_dir)"

definition list_names_of :: "'s smb_conn \<Rightarrow> string \<Rightarrow> ('s, string list) prog" where
  "list_names_of conn remote_dir =
     bindp (sc_list_path conn remote_dir) (\<lambda>ns. ret (filter (\<lambda>n. n \<notin> {''.'', ''..''}) ns))"

definition remote_sha :: "'s smb_conn \<Rightarrow> (bytes \<Rightarrow> string) \<Rightarrow> string \<Rightarrow> string \<Rightarrow> ('s, string option) prog" where
  "remote_sha conn sha remote_dir name =
     bindp (list_names_of conn remote_dir) (\<lambda>names.
       if name \<notin> set names then ret None
       else bindp (sc_retrieve conn (join_path [remote_dir, name])) (\<lambda>data. ret (Some (sha data))))"

text \<open>\<open>try: ... finally: connection.close()\<close>.\<close>

definition closing_after :: "'s smb_conn \<Rightarrow> ('s, 'a) prog \<Rightarrow> ('s, 'a) prog" where
  "closing_after conn m s =
     (case m s of (r, s1) \<Rightarrow> (case sc_close conn s1 of (Inl e, s2) \<Rightarrow> (Inl e, s2) | (Inr _, s2) \<Rightarrow> (r, s2)))"

definition list_names :: "'s smb_conn \<Rightarrow> string \<Rightarrow> string \<Rightarrow> ('s, string list) prog" where
  "list_names conn smb_path remote_dir =
     bindp (smb_connect conn) (\<lambda>_. closing_after conn
       (bindp (ensure_directories conn (join_path [smb_path, remote_dir]))
         (\<lambda>_. list_names_of conn (join_path [smb_path, remote_dir]))))"

section \<open>Bandwidth\<close>

definition CHUNK_SIZE :: nat where "CHUNK_SIZE = 512 * 1024"

record limiter =
  li_bytes_per_second :: rat
  li_chunk_size :: nat

definition new_limiter :: "rat \<Rightarrow> exc + limiter" where
  "new_limiter megabytes_per_second =
     (if megabytes_per_second \<le> 0 then Inl (ValueError ''bandwidth limit must be positive'')
      else Inr \<lparr>li_bytes_per_second = megabytes_per_second * 1024 * 1024, li_chunk_size = CHUNK_SIZE\<rparr>)"

function store_loop :: "'s smb_conn \<Rightarrow> limiter \<Rightarrow> string \<Rightarrow> rat \<Rightarrow> nat \<Rightarrow> bytes \<Rightarrow> ('s, nat) prog" where
  "store_loop conn li path started_at off source s =
     (let chunk = take (li_chunk_size li) source in
      if chunk = [] then (Inr off, s)
      else case sc_store conn path chunk off (off = 0) s of
        (Inl e, s1) \<Rightarrow> (Inl e, s1)
      | (Inr _, s1) \<Rightarrow>
         (let off = off + length chunk;
              expected_elapsed = of_nat off / li_bytes_per_second li;
              delay = expected_elapsed - (sc_clock conn s1 - started_at)
          in case (if delay > 0 then sc_sleep conn delay s1 else (Inr (), s1)) of
               (Inl e, s2) \<Rightarrow> (Inl e, s2)
             | (Inr _, s2) \<Rightarrow> store_loop conn li path started_at off (drop (li_chunk_size li) source) s2))"
  by pat_completeness auto
termination
  by (relation "measure (\<lambda>(_, _, _, _, _, source, _). length source)") auto

declare store_loop.simps [simp del]

definition limiter_store :: "'s smb_conn \<Rightarrow> limiter \<Rightarrow> string \<Rightarrow> bytes \<Rightarrow> ('s, nat) prog" where
  "limiter_store conn li path source s = store_loop conn li path (sc_clock conn s) 0 source s"

section \<open>Publishing\<close>

definition resolve_remote_name ::
    "string \<Rightarrow> string \<Rightarrow> string \<Rightarrow> (string \<Rightarrow> ('s, string option) prog) \<Rightarrow> ('s, string) prog" where
  "resolve_remote_name base_name collision_name local_sha lookup =
     bindp (lookup base_name) (\<lambda>base_sha.
       if base_sha = None \<or> base_sha = Some local_sha then ret base_name
       else bindp (lookup collision_name) (\<lambda>collision_sha.
         if collision_sha = None \<or> collision_sha = Some local_sha then ret collision_name
         else throw RemoteCollisionError))"

definition verify_remote_temporary_and_rename ::
    "'s smb_conn \<Rightarrow> (bytes \<Rightarrow> string) \<Rightarrow> string \<Rightarrow> string \<Rightarrow> string \<Rightarrow> ('s, unit) prog" where
  "verify_remote_temporary_and_rename conn sha temporary_path final_path expected =
     bindp (sc_retrieve conn temporary_path) (\<lambda>data.
       if sha data \<noteq> expected
       then bindp (sc_delete conn temporary_path) (\<lambda>_. throw (OSError ''remote temporary checksum mismatch''))
       else sc_rename conn temporary_path final_path)"

record published =
  pb_sha256 :: string
  pb_remote_name :: string
  pb_bytes :: "nat option"
  pb_idempotent :: bool

text \<open>The three parts of the \<open>try\<close> of \<open>publish\<close>: the name, the transfer, the check of the copy.\<close>

definition publish_target ::
    "'s smb_conn \<Rightarrow> (bytes \<Rightarrow> string) \<Rightarrow> bytes \<Rightarrow> string \<Rightarrow> string \<Rightarrow> string \<Rightarrow> ('s, string \<times> bool) prog" where
  "publish_target conn sha source full_dir base_name collision_name =
     bindp (ensure_directories conn full_dir) (\<lambda>_.
     bindp (resolve_remote_name base_name collision_name (sha source) (remote_sha conn sha full_dir)) (\<lambda>remote_name.
     bindp (remote_sha conn sha full_dir remote_name) (\<lambda>existing_sha.
       ret (remote_name, existing_sha = Some (sha source)))))"

definition publish_transfer ::
    "'s smb_conn \<Rightarrow> (bytes \<Rightarrow> string) \<Rightarrow> limiter \<Rightarrow> bytes \<Rightarrow> string \<Rightarrow> string \<Rightarrow> ('s, published) prog" where
  "publish_transfer conn sha li source full_dir remote_name =
     (let remote_path = join_path [full_dir, remote_name]; tmp_path = remote_path @ ''.tmp'' in
      bindp (limiter_store conn li tmp_path source) (\<lambda>bytes_written.
      bindp (verify_remote_temporary_and_rename conn sha tmp_path remote_path (sha source)) (\<lambda>_.
      bindp (remote_sha conn sha full_dir remote_name) (\<lambda>copy_sha.
        if copy_sha \<noteq> Some (sha source)
        then bindp (sc_delete conn remote_path) (\<lambda>_. throw (OSError ''remote checksum mismatch''))
        else ret \<lparr>pb_sha256 = sha source, pb_remote_name = remote_name, pb_bytes = Some bytes_written,
               pb_idempotent = False\<rparr>))))"

text \<open>\<open>except Exception\<close> of \<open>publish\<close>, once there is a temporary: it is deleted if that works.\<close>

definition drop_temporary :: "'s smb_conn \<Rightarrow> string \<Rightarrow> exc \<Rightarrow> ('s, 'a) prog" where
  "drop_temporary conn tmp_path e =
     bindp (catchp (sc_delete conn tmp_path) is_Exception (\<lambda>_. ret ())) (\<lambda>_. throw e)"

definition publish_body ::
    "'s smb_conn \<Rightarrow> (bytes \<Rightarrow> string) \<Rightarrow> limiter \<Rightarrow> bytes \<Rightarrow> string \<Rightarrow> string \<Rightarrow> string \<Rightarrow> ('s, published) prog" where
  "publish_body conn sha li source full_dir base_name collision_name =
     bindp (publish_target conn sha source full_dir base_name collision_name) (\<lambda>(remote_name, present).
       if present
       then ret \<lparr>pb_sha256 = sha source, pb_remote_name = remote_name, pb_bytes = None, pb_idempotent = True\<rparr>
       else catchp (publish_transfer conn sha li source full_dir remote_name) is_Exception
              (drop_temporary conn (join_path [full_dir, remote_name] @ ''.tmp'')))"

definition publish ::
    "'s smb_conn \<Rightarrow> (bytes \<Rightarrow> string) \<Rightarrow> limiter \<Rightarrow> string \<Rightarrow> bytes \<Rightarrow> string \<Rightarrow> string \<Rightarrow> string
     \<Rightarrow> ('s, published) prog" where
  "publish conn sha li smb_path source remote_dir base_name collision_name =
     bindp (smb_connect conn) (\<lambda>_. closing_after conn
       (publish_body conn sha li source (join_path [smb_path, remote_dir]) base_name collision_name))"

text \<open>\<open>_publish_with_retry\<close>: the delays between the attempts that are left.\<close>

definition RETRY_DELAYS_SECONDS :: "rat list" where
  "RETRY_DELAYS_SECONDS = [1, 2, 4]"

fun publish_with_retry :: "'s smb_conn \<Rightarrow> ('s, 'a) prog \<Rightarrow> rat list \<Rightarrow> ('s, 'a) prog" where
  "publish_with_retry conn attempt [] s = attempt s"
| "publish_with_retry conn attempt (delay # delays) s =
     (case attempt s of
        (Inr r, s1) \<Rightarrow> (Inr r, s1)
      | (Inl e, s1) \<Rightarrow>
          if e = RemoteCollisionError \<or> \<not> is_OSError e then (Inl e, s1)
          else (case sc_sleep conn delay s1 of
                  (Inl e2, s2) \<Rightarrow> (Inl e2, s2)
                | (Inr _, s2) \<Rightarrow> publish_with_retry conn attempt delays s2))"

section \<open>Temporaries left on the share\<close>

fun clean_remote_names ::
    "'s smb_conn \<Rightarrow> string \<Rightarrow> string list \<Rightarrow> int \<Rightarrow> int \<Rightarrow> json \<Rightarrow> string list \<Rightarrow> (string \<times> json) list
     \<Rightarrow> ('s, (string \<times> json) list) prog" where
  "clean_remote_names conn full_dir names current rounds candidates [] updated s = (Inr updated, s)"
| "clean_remote_names conn full_dir names current rounds candidates (name # expected) updated s =
     (let temporary = name @ ''.tmp'' in
      if temporary \<notin> set names
      then clean_remote_names conn full_dir names current rounds candidates expected updated s
      else if \<not> is_dict candidates then (Inl (AttributeError ''get''), s)
      else case parse_datetime (jget candidates temporary) of
        None \<Rightarrow> clean_remote_names conn full_dir names current rounds candidates expected
                  (AList.update temporary (JIso (Aware current)) updated) s
      | Some first_seen \<Rightarrow>
          if current - first_seen < seconds rounds
          then clean_remote_names conn full_dir names current rounds candidates expected
                 (AList.update temporary (JIso (Aware first_seen)) updated) s
          else (case sc_delete conn (join_path [full_dir, temporary]) s of
                  (Inl e, s1) \<Rightarrow> (Inl e, s1)
                | (Inr _, s1) \<Rightarrow> clean_remote_names conn full_dir names current rounds candidates expected updated s1))"

definition cleanup_remote_temporaries ::
    "'s smb_conn \<Rightarrow> string \<Rightarrow> int \<Rightarrow> int \<Rightarrow> string \<Rightarrow> string list \<Rightarrow> json \<Rightarrow> ('s, (string \<times> json) list) prog" where
  "cleanup_remote_temporaries conn smb_path current rounds remote_dir expected_names candidates =
     (let full_dir = join_path [smb_path, remote_dir] in
      bindp (smb_connect conn) (\<lambda>_. closing_after conn
        (bindp (ensure_directories conn full_dir) (\<lambda>_.
         bindp (list_names_of conn full_dir) (\<lambda>names.
           clean_remote_names conn full_dir names current rounds candidates expected_names [])))))"


section \<open>What the operations do to the share\<close>

text \<open>\<open>frames view A m\<close>: whatever \<open>m\<close> ends with, the share changes on the paths in \<open>A\<close> only.\<close>

definition frames :: "('s \<Rightarrow> string \<Rightarrow> bytes option) \<Rightarrow> string set \<Rightarrow> ('s, 'a) prog \<Rightarrow> bool" where
  "frames view A m \<longleftrightarrow> (\<forall>s r s' p. m s = (r, s') \<longrightarrow> p \<notin> A \<longrightarrow> view s' p = view s p)"

text \<open>A path \<open>deleteFiles\<close> takes literally: it is a pattern otherwise.\<close>

definition plain :: "string \<Rightarrow> bool" where
  "plain p \<longleftrightarrow> CHR ''*'' \<notin> set p \<and> CHR ''?'' \<notin> set p"

definition splice :: "nat \<Rightarrow> bytes \<Rightarrow> bytes \<Rightarrow> bytes" where
  "splice off chunk old = take off old @ chunk @ drop (off + length chunk) old"

definition old_bytes :: "bool \<Rightarrow> bytes option \<Rightarrow> bytes" where
  "old_bytes tr v = (if tr then [] else case v of None \<Rightarrow> [] | Some d \<Rightarrow> d)"

text \<open>The name of a file in its directory.\<close>

definition file_name :: "string \<Rightarrow> bool" where
  "file_name n \<longleftrightarrow> n \<notin> {[], ''.'', ''..''} \<and> (\<forall>c\<in>set n. \<not> is_slash c)"

text \<open>
  The documented behaviour of the connection. Operations that only read leave the files as they
  are; a listing names every file of the directory; \<open>retrieveFile\<close> returns the bytes of the
  file; a store that returns has written the chunk at its offset, one that raises may have
  written anything to that file; a rename that raises may still have happened; a delete
  touches the one file of a plain path.
\<close>

definition smb_laws :: "'s smb_conn \<Rightarrow> ('s \<Rightarrow> string \<Rightarrow> bytes option) \<Rightarrow> bool" where
  "smb_laws conn view \<longleftrightarrow>
     frames view {} (sc_connect conn) \<and> frames view {} (sc_close conn)
   \<and> (\<forall>p. frames view {} (sc_create_directory conn p)) \<and> (\<forall>p. frames view {} (sc_list_path conn p))
   \<and> (\<forall>p. frames view {} (sc_retrieve conn p)) \<and> (\<forall>d. frames view {} (sc_sleep conn d))
   \<and> (\<forall>p n s ns s'. sc_list_path conn p s = (Inr ns, s') \<longrightarrow> file_name n \<longrightarrow> view s (join_path [p, n]) \<noteq> None
        \<longrightarrow> n \<in> set ns)
   \<and> (\<forall>p s d s'. sc_retrieve conn p s = (Inr d, s') \<longrightarrow> view s p = Some d)
   \<and> (\<forall>p c off tr. frames view {p} (sc_store conn p c off tr))
   \<and> (\<forall>p c off tr s n s'. sc_store conn p c off tr s = (Inr n, s') \<longrightarrow> off \<le> length (old_bytes tr (view s p))
        \<longrightarrow> view s' p = Some (splice off c (old_bytes tr (view s p))))
   \<and> (\<forall>a b s r s'. sc_rename conn a b s = (r, s') \<longrightarrow>
        view s' = (view s)(a := None, b := view s a) \<or> ((\<exists>e. r = Inl e) \<and> view s' = view s))
   \<and> (\<forall>p. plain p \<longrightarrow> frames view {p} (sc_delete conn p))"

text \<open>The event loop sleeps at least as long as it is told to.\<close>

definition clock_laws :: "'s smb_conn \<Rightarrow> bool" where
  "clock_laws conn \<longleftrightarrow>
     (\<forall>d s s'. sc_sleep conn d s = (Inr (), s') \<longrightarrow> sc_clock conn s + d \<le> sc_clock conn s')"

named_theorems frame_rules \<open>which paths a program may change\<close>

lemma frames_mono: "frames view A m \<Longrightarrow> A \<subseteq> B \<Longrightarrow> frames view B m"
  unfolding frames_def by blast

lemma framesD: "frames view A m \<Longrightarrow> m s = (r, s') \<Longrightarrow> p \<notin> A \<Longrightarrow> view s' p = view s p"
  by (auto simp: frames_def)

lemma frames_ret [frame_rules]: "frames view A (ret a)" "frames view A (throw e)"
  by (auto simp: frames_def)

lemma frames_bindp [frame_rules]:
  "frames view A m \<Longrightarrow> (\<And>a. frames view A (f a)) \<Longrightarrow> frames view A (bindp m f)"
  unfolding frames_def bindp_def by (fastforce split: prod.splits sum.splits)

lemma frames_catchp [frame_rules]:
  "frames view A m \<Longrightarrow> (\<And>e. frames view A (h e)) \<Longrightarrow> frames view A (catchp m p h)"
  unfolding frames_def catchp_def by (fastforce split: prod.splits sum.splits if_splits)

lemma frames_if [frame_rules]:
  "frames view A m \<Longrightarrow> frames view A m' \<Longrightarrow> frames view A (if b then m else m')"
  by simp

lemma frames_closing [frame_rules]:
  "frames view {} (sc_close conn) \<Longrightarrow> frames view A m \<Longrightarrow> frames view A (closing_after conn m)"
  unfolding frames_def closing_after_def by (fastforce split: prod.splits sum.splits)

lemma laws_frames:
  assumes "smb_laws conn view"
  shows "frames view A (sc_connect conn)" "frames view {} (sc_close conn)" "frames view A (sc_create_directory conn p)"
    "frames view A (sc_list_path conn p)" "frames view A (sc_retrieve conn p)" "frames view A (sc_sleep conn d)"
    "p \<in> A \<Longrightarrow> frames view A (sc_store conn p c off tr)" "plain p \<Longrightarrow> p \<in> A \<Longrightarrow> frames view A (sc_delete conn p)"
  using assms unfolding smb_laws_def by (meson frames_mono empty_subsetI insert_subset)+

lemma laws_retrieve: "smb_laws conn view \<Longrightarrow> sc_retrieve conn p s = (Inr d, s') \<Longrightarrow> view s p = Some d"
  by (simp add: smb_laws_def)

lemma laws_list:
  assumes "smb_laws conn view" and "sc_list_path conn p s = (Inr ns, s')" and "n \<notin> set ns" and "file_name n"
  shows "view s (join_path [p, n]) = None"
proof (rule ccontr)
  assume "view s (join_path [p, n]) \<noteq> None"
  moreover have "\<forall>p n s ns s'. sc_list_path conn p s = (Inr ns, s') \<longrightarrow> file_name n \<longrightarrow> view s (join_path [p, n]) \<noteq> None
        \<longrightarrow> n \<in> set ns"
    using assms(1) unfolding smb_laws_def by (elim conjE)
  ultimately show False using assms(2-4) by blast
qed

lemma laws_store: "smb_laws conn view \<Longrightarrow> sc_store conn p c off tr s = (Inr n, s')
    \<Longrightarrow> off \<le> length (old_bytes tr (view s p)) \<Longrightarrow> view s' p = Some (splice off c (old_bytes tr (view s p)))"
  by (simp add: smb_laws_def)

lemma laws_rename: "smb_laws conn view \<Longrightarrow> sc_rename conn a b s = (r, s')
    \<Longrightarrow> view s' = (view s)(a := None, b := view s a) \<or> ((\<exists>e. r = Inl e) \<and> view s' = view s)"
  by (simp add: smb_laws_def)

lemma frames_rename:
  assumes "smb_laws conn view" and "a \<in> A" and "b \<in> A"
  shows "frames view A (sc_rename conn a b)"
  using assms unfolding smb_laws_def frames_def by (metis fun_upd_other)

lemma frames_connect: "smb_laws conn view \<Longrightarrow> frames view A (smb_connect conn)"
  unfolding smb_connect_def by (intro frame_rules laws_frames)

lemma frames_ensure_segments: "smb_laws conn view \<Longrightarrow> frames view A (ensure_segments conn current segs)"
proof (induction segs arbitrary: current)
  case Nil
  then show ?case by (simp add: frames_def)
next
  case (Cons seg segs)
  have "frames view A (catchp (sc_create_directory conn (join_path [current, seg])) is_Exception
      (\<lambda>_. bindp (sc_list_path conn (join_path [current, seg])) (\<lambda>_. ret ())))"
    using Cons.prems by (intro frame_rules laws_frames)
  then have "frames view A (bindp (catchp (sc_create_directory conn (join_path [current, seg])) is_Exception
      (\<lambda>_. bindp (sc_list_path conn (join_path [current, seg])) (\<lambda>_. ret ())))
      (\<lambda>_. ensure_segments conn (join_path [current, seg]) segs))"
    by (rule frames_bindp) (rule Cons.IH[OF Cons.prems])
  then show ?case by (auto simp: frames_def bindp_def Let_def split: prod.splits sum.splits)
qed

lemma frames_reads:
  assumes "smb_laws conn view"
  shows "frames view A (ensure_directories conn d)" "frames view A (list_names_of conn d)"
    "frames view A (remote_sha conn sha d n)"
  using frames_ensure_segments[OF assms]
  unfolding ensure_directories_def list_names_of_def remote_sha_def
  by (auto intro!: frame_rules laws_frames assms)

lemma frames_store_loop:
  "smb_laws conn view \<Longrightarrow> path \<in> A \<Longrightarrow> frames view A (store_loop conn li path t0 off src)"
proof (induction "length src" arbitrary: off src rule: less_induct)
  case less
  show ?case
    unfolding frames_def
  proof (intro allI impI)
    fix s r s' p
    assume run: "store_loop conn li path t0 off src s = (r, s')" and p: "p \<notin> A"
    let ?c = "take (li_chunk_size li) src" and ?rest = "drop (li_chunk_size li) src"
    show "view s' p = view s p"
    proof (cases "?c = []")
      case True
      with run show ?thesis by (subst (asm) store_loop.simps) (simp add: Let_def)
    next
      case False
      then have l: "length ?rest < length src" by (cases src) auto
      obtain r1 s1 where 1: "sc_store conn path ?c off (off = 0) s = (r1, s1)" by force
      have v1: "view s1 p = view s p"
        using framesD[OF laws_frames(7)[OF less.prems] 1 p] .
      show ?thesis
      proof (cases r1)
        case (Inl e)
        with run 1 False v1 show ?thesis by (subst (asm) store_loop.simps) (simp add: Let_def)
      next
        case (Inr n)
        define delay where "delay = of_nat (off + length ?c) / li_bytes_per_second li - (sc_clock conn s1 - t0)"
        obtain r2 s2 where 2: "(if delay > 0 then sc_sleep conn delay s1 else (Inr (), s1)) = (r2, s2)" by force
        have v2: "view s2 p = view s1 p"
          using 2 framesD[OF laws_frames(6)[OF less.prems(1)], of delay s1 r2 s2 p "{}"] by (auto split: if_splits)
        have "(case r2 of Inl e \<Rightarrow> (Inl e, s2) | Inr _ \<Rightarrow> store_loop conn li path t0 (off + length ?c) ?rest s2) = (r, s')"
          using run 1 Inr False 2 unfolding delay_def
          by (subst (asm) store_loop.simps) (simp add: Let_def del: length_take of_nat_add)
        then have "view s' p = view s2 p"
          using framesD[OF less.hyps[OF l less.prems] _ p] by (auto split: sum.splits)
        with v1 v2 show ?thesis by simp
      qed
    qed
  qed
qed

lemma frames_store: "smb_laws conn view \<Longrightarrow> path \<in> A \<Longrightarrow> frames view A (limiter_store conn li path src)"
  using frames_store_loop unfolding frames_def limiter_store_def by blast


section \<open>The bandwidth limit\<close>

lemma store_loop_done:
  assumes "smb_laws conn view" and "clock_laws conn" and "0 < li_chunk_size li"
    and "store_loop conn li path t0 off src s = (Inr n, s')"
    and "0 < off \<Longrightarrow> view s path = Some pre" and "length pre = off"
  shows "n = off + length src \<and> (src \<noteq> [] \<longrightarrow> view s' path = Some (pre @ src)
    \<and> of_nat n / li_bytes_per_second li \<le> sc_clock conn s' - t0) \<and> (src = [] \<longrightarrow> s' = s)"
  using assms
proof (induction "length src" arbitrary: off src s pre rule: less_induct)
  case less
  let ?c = "take (li_chunk_size li) src" and ?rest = "drop (li_chunk_size li) src"
  show ?case
  proof (cases "src = []")
    case True
    with less.prems(4) show ?thesis by (subst (asm) store_loop.simps) simp
  next
    case False
    then have c: "?c \<noteq> []" and l: "length ?rest < length src" using less.prems(3) by (cases src; simp)+
    define delay where "delay s1 = of_nat (off + length ?c) / li_bytes_per_second li - (sc_clock conn s1 - t0)" for s1
    from less.prems(4) c obtain m s1 s2 where
      1: "sc_store conn path ?c off (off = 0) s = (Inr m, s1)"
      and 2: "(if delay s1 > 0 then sc_sleep conn (delay s1) s1 else (Inr (), s1)) = (Inr (), s2)"
      and 3: "store_loop conn li path t0 (off + length ?c) ?rest s2 = (Inr n, s')"
      unfolding delay_def
      by (subst (asm) store_loop.simps) (auto simp: Let_def simp del: length_take of_nat_add split: prod.splits sum.splits)
    have old: "old_bytes (off = 0) (view s path) = pre"
      using less.prems(5,6) by (cases "off = 0") (auto simp: old_bytes_def)
    have "view s1 path = Some (splice off ?c pre)"
      using laws_store[OF less.prems(1) 1] less.prems(6) old by simp
    then have v1: "view s1 path = Some (pre @ ?c)" using less.prems(6) by (simp add: splice_def)
    have v2: "view s2 path = Some (pre @ ?c)"
      using 2 v1 framesD[OF laws_frames(6)[OF less.prems(1)], of "delay s1" s1 "Inr ()" s2 path "{}"]
      by (auto split: if_splits)
    have late: "of_nat (off + length ?c) / li_bytes_per_second li \<le> sc_clock conn s2 - t0"
    proof (cases "delay s1 > 0")
      case True
      with 2 less.prems(2) have "sc_clock conn s1 + delay s1 \<le> sc_clock conn s2" by (simp add: clock_laws_def)
      then show ?thesis by (simp add: delay_def del: length_take of_nat_add)
    next
      case False
      with 2 show ?thesis by (simp add: delay_def del: length_take of_nat_add)
    qed
    have lp: "length (pre @ ?c) = off + length ?c" using less.prems(6) by simp
    have ih: "n = off + length ?c + length ?rest \<and> (?rest \<noteq> [] \<longrightarrow> view s' path = Some ((pre @ ?c) @ ?rest)
        \<and> of_nat n / li_bytes_per_second li \<le> sc_clock conn s' - t0) \<and> (?rest = [] \<longrightarrow> s' = s2)"
      by (rule less.hyps[OF l less.prems(1,2,3) 3 v2 lp])
    show ?thesis
    proof (cases "?rest = []")
      case True
      then have "?c = src" by (metis append.right_neutral append_take_drop_id)
      with True ih v2 late False show ?thesis by (simp del: length_take of_nat_add take_all_iff)
    next
      case 4: False
      have "length ?c + length ?rest = length src" by (metis append_take_drop_id length_append)
      moreover have "(pre @ ?c) @ ?rest = pre @ src" by simp
      ultimately show ?thesis using ih 4 False by auto
    qed
  qed
qed

text \<open>The bandwidth limit of a transfer: a store that returns has written the whole file to the
  path and has taken at least its size divided by the configured rate, whatever the sizes of the
  chunks and the speed of the share.\<close>

theorem transfer_within_bandwidth:
  assumes "smb_laws conn view" and "clock_laws conn" and "new_limiter mbs = Inr li"
    and "limiter_store conn li path source s = (Inr n, s')"
  shows "n = length source \<and> (source \<noteq> [] \<longrightarrow> view s' path = Some source)
    \<and> of_nat n \<le> mbs * 1024 * 1024 * (sc_clock conn s' - sc_clock conn s)"
proof -
  have li: "li_bytes_per_second li = mbs * 1024 * 1024" "0 < li_bytes_per_second li" "0 < li_chunk_size li"
    using assms(3) by (auto simp: new_limiter_def CHUNK_SIZE_def split: if_splits)
  have run: "store_loop conn li path (sc_clock conn s) 0 source s = (Inr n, s')"
    using assms(4) by (simp add: limiter_store_def)
  have d: "n = 0 + length source \<and> (source \<noteq> [] \<longrightarrow> view s' path = Some ([] @ source)
      \<and> of_nat n / li_bytes_per_second li \<le> sc_clock conn s' - sc_clock conn s) \<and> (source = [] \<longrightarrow> s' = s)"
    by (rule store_loop_done[OF assms(1,2) li(3) run]) simp_all
  then have "source \<noteq> [] \<Longrightarrow> of_nat n \<le> li_bytes_per_second li * (sc_clock conn s' - sc_clock conn s)"
    using li(2) by (simp add: pos_divide_le_eq mult.commute)
  with d li(1) show ?thesis by (cases "source = []") auto
qed

section \<open>Published copies\<close>

definition copy_at :: "('s \<Rightarrow> string \<Rightarrow> bytes option) \<Rightarrow> (bytes \<Rightarrow> string) \<Rightarrow> bytes \<Rightarrow> 's \<Rightarrow> string \<Rightarrow> bool" where
  "copy_at view sha source s p \<longleftrightarrow> (\<exists>data. view s p = Some data \<and> sha data = sha source)"

lemma frames_empty: "frames view {} m \<Longrightarrow> m s = (r, s') \<Longrightarrow> view s' = view s"
  by (auto simp: frames_def)

lemma remote_sha_facts:
  assumes "smb_laws conn view" and "remote_sha conn sha d n s = (Inr v, s')" and "file_name n"
  shows "view s' = view s" and "v = None \<Longrightarrow> view s (join_path [d, n]) = None"
    and "v = Some h \<Longrightarrow> \<exists>data. view s (join_path [d, n]) = Some data \<and> h = sha data"
proof -
  show "view s' = view s" by (rule frames_empty[OF frames_reads(3)[OF assms(1)] assms(2)])
  from assms(2) obtain ns s1 where
    l: "sc_list_path conn d s = (Inr ns, s1)"
    and r: "(if n \<notin> set ns then v = None else \<exists>data s2. sc_retrieve conn (join_path [d, n]) s1 = (Inr data, s2) \<and> v = Some (sha data))"
    using assms(3) by (auto simp: file_name_def remote_sha_def list_names_of_def bindp_eq_Inr split: if_splits)
  have v1: "view s1 = view s" by (rule frames_empty[OF laws_frames(4)[OF assms(1)] l])
  show "v = None \<Longrightarrow> view s (join_path [d, n]) = None"
    using r laws_list[OF assms(1) l _ assms(3)] by (auto split: if_splits)
  show "v = Some h \<Longrightarrow> \<exists>data. view s (join_path [d, n]) = Some data \<and> h = sha data"
  proof -
    assume h: "v = Some h"
    with r obtain data s2 where g: "sc_retrieve conn (join_path [d, n]) s1 = (Inr data, s2)" "h = sha data"
      by (auto split: if_splits)
    have "view s1 (join_path [d, n]) = Some data" by (rule laws_retrieve[OF assms(1) g(1)])
    with v1 g(2) show ?thesis by auto
  qed
qed

lemma verify_effect:
  assumes "smb_laws conn view" and "verify_remote_temporary_and_rename conn sha tmp P (sha source) s = (r, s')"
    and "plain tmp" and "tmp \<noteq> P" and "view s P = None"
  shows "(\<forall>p. p \<notin> {P, tmp} \<longrightarrow> view s' p = view s p) \<and> (view s' P = None \<or> copy_at view sha source s' P)
    \<and> (r = Inr () \<longrightarrow> copy_at view sha source s' P)"
proof -
  obtain q s1 where g: "sc_retrieve conn tmp s = (q, s1)" by force
  have v1: "view s1 = view s" by (rule frames_empty[OF laws_frames(5)[OF assms(1)] g])
  show ?thesis
  proof (cases q)
    case (Inl e)
    with assms(2,5) g v1 show ?thesis by (auto simp: verify_remote_temporary_and_rename_def)
  next
    case (Inr data)
    then have d: "view s tmp = Some data" using laws_retrieve[OF assms(1)] g by blast
    show ?thesis
    proof (cases "sha data = sha source")
      case True
      then have "sc_rename conn tmp P s1 = (r, s')"
        using assms(2) g Inr by (simp add: verify_remote_temporary_and_rename_def)
      from laws_rename[OF assms(1) this]
      have "view s' = (view s1)(tmp := None, P := view s1 tmp) \<or> ((\<exists>e. r = Inl e) \<and> view s' = view s1)" .
      with v1 d True assms(4,5) show ?thesis by (auto simp: copy_at_def)
    next
      case False
      then have run: "bindp (sc_delete conn tmp) (\<lambda>_. throw (OSError ''remote temporary checksum mismatch'')) s1 = (r, s')"
        using assms(2) g Inr by (simp add: verify_remote_temporary_and_rename_def)
      have "frames view {tmp} (bindp (sc_delete conn tmp) (\<lambda>_. throw (OSError ''remote temporary checksum mismatch'') :: ('a, unit) prog))"
        by (intro frame_rules laws_frames assms) simp
      from framesD[OF this run] have "\<And>p. p \<noteq> tmp \<Longrightarrow> view s' p = view s1 p" by simp
      moreover have "r \<noteq> Inr ()" using run by (auto simp: bindp_eq_Inr)
      ultimately show ?thesis using v1 assms(4,5) by auto
    qed
  qed
qed

lemma transfer_effect:
  assumes "smb_laws conn view" and "publish_transfer conn sha li source full name s = (r, s')"
    and "P = join_path [full, name]" and "plain P" and "file_name name" and "view s P = None"
  shows "(\<forall>p. p \<notin> {P, P @ ''.tmp''} \<longrightarrow> view s' p = view s p) \<and> (view s' P = None \<or> copy_at view sha source s' P)
    \<and> (\<forall>res. r = Inr res \<longrightarrow> copy_at view sha source s' P \<and> pb_remote_name res = name \<and> pb_sha256 res = sha source)"
proof -
  let ?tmp = "P @ ''.tmp''"
  have tmp: "plain ?tmp" using assms(4) by (simp add: plain_def)
  obtain q1 s1 where 1: "limiter_store conn li ?tmp source s = (q1, s1)" by force
  have v1: "\<And>p. p \<noteq> ?tmp \<Longrightarrow> view s1 p = view s p"
    using framesD[OF frames_store[OF assms(1)] 1, where A = "{?tmp}"] by simp
  have n1: "view s1 P = None" using v1[of P] assms(6) by simp
  show ?thesis
  proof (cases q1)
    case (Inl e)
    with assms(2,3) 1 v1 n1 show ?thesis by (auto simp: publish_transfer_def Let_def)
  next
    case q1: (Inr k)
    obtain q2 s2 where 2: "verify_remote_temporary_and_rename conn sha ?tmp P (sha source) s1 = (q2, s2)" by force
    note v2 = verify_effect[OF assms(1) 2 tmp _ n1]
    show ?thesis
    proof (cases q2)
      case (Inl e)
      with assms(2,3) 1 q1 2 v1 v2 show ?thesis by (auto simp: publish_transfer_def Let_def)
    next
      case q2: (Inr u)
      then have c2: "copy_at view sha source s2 P" using v2 by simp
      obtain q3 s3 where 3: "remote_sha conn sha full name s2 = (q3, s3)" by force
      have v3: "view s3 = view s2" by (rule frames_empty[OF frames_reads(3)[OF assms(1)] 3])
      have c3: "copy_at view sha source s3 P" using c2 v3 by (simp add: copy_at_def)
      have q3: "q3 = Inr v \<Longrightarrow> v = Some (sha source)" for v
        using remote_sha_facts(2,3)[OF assms(1) _ assms(5), of sha full s2 v s3] 3 c2 assms(3)
        by (cases v) (auto simp: copy_at_def)
      have "s' = s3 \<and> (\<forall>res. r = Inr res \<longrightarrow> pb_remote_name res = name \<and> pb_sha256 res = sha source)"
        using assms(2,3) 1 q1 2 q2 3 q3
        by (cases q3) (auto simp: publish_transfer_def Let_def)
      with v1 v2 v3 c3 show ?thesis by auto
    qed
  qed
qed

lemma target_facts:
  assumes "smb_laws conn view" and "publish_target conn sha source full base coll s = (Inr (name, present), s')"
    and "file_name base" and "file_name coll"
  shows "view s' = view s" and "name \<in> {base, coll}"
    and "if present then copy_at view sha source s (join_path [full, name]) else view s (join_path [full, name]) = None"
proof -
  from assms(2) obtain s1 s2 v where
    1: "ensure_directories conn full s = (Inr (), s1)"
    and 2: "resolve_remote_name base coll (sha source) (remote_sha conn sha full) s1 = (Inr name, s2)"
    and 3: "remote_sha conn sha full name s2 = (Inr v, s')" "present = (v = Some (sha source))"
    by (auto simp: publish_target_def bindp_eq_Inr)
  have v1: "view s1 = view s" by (rule frames_empty[OF frames_reads(1)[OF assms(1)] 1])
  have "frames view {} (resolve_remote_name base coll (sha source) (remote_sha conn sha full))"
    unfolding resolve_remote_name_def by (intro frame_rules frames_reads[OF assms(1)])
  from frames_empty[OF this 2] have v2: "view s2 = view s1" .
  have v3: "view s' = view s2" by (rule frames_empty[OF frames_reads(3)[OF assms(1)] 3(1)])
  show "view s' = view s" using v1 v2 v3 by simp
  show n: "name \<in> {base, coll}"
    using 2 by (auto simp: resolve_remote_name_def bindp_eq_Inr split: if_splits)
  have free: "view s1 (join_path [full, name]) = None \<or> copy_at view sha source s1 (join_path [full, name])"
  proof -
    from 2 obtain b sb where b: "remote_sha conn sha full base s1 = (Inr b, sb)"
      and rest: "(b = None \<or> b = Some (sha source)) \<and> name = base
        \<or> (\<exists>c sc. remote_sha conn sha full coll sb = (Inr c, sc) \<and> (c = None \<or> c = Some (sha source)) \<and> name = coll)"
      by (auto simp: resolve_remote_name_def bindp_eq_Inr split: if_splits)
    note fb = remote_sha_facts[OF assms(1) b assms(3)]
    from rest show ?thesis
    proof (elim disjE exE conjE)
      fix c sc assume c: "remote_sha conn sha full coll sb = (Inr c, sc)" "name = coll" and "c = None"
      with remote_sha_facts(2)[OF assms(1) c(1) assms(4)] fb(1) show ?thesis by simp
    next
      fix c sc assume c: "remote_sha conn sha full coll sb = (Inr c, sc)" "name = coll" and "c = Some (sha source)"
      with remote_sha_facts(3)[OF assms(1) c(1) assms(4)] fb(1) show ?thesis by (auto simp: copy_at_def)
    qed (use fb in \<open>auto simp: copy_at_def\<close>)
  qed
  have nd: "file_name name" using n assms(3,4) by auto
  show "if present then copy_at view sha source s (join_path [full, name]) else view s (join_path [full, name]) = None"
    using remote_sha_facts(3)[OF assms(1) 3(1) nd, of "sha source"] 3(2) free v1 v2
      remote_sha_facts(2)[OF assms(1) 3(1) nd] remote_sha_facts(3)[OF assms(1) 3(1) nd]
    by (cases v) (auto simp: copy_at_def)
qed


lemma closing_after_cases:
  assumes "closing_after conn m s = (r, s')" and "frames view {} (sc_close conn)"
  shows "\<exists>q s1. m s = (q, s1) \<and> view s' = view s1 \<and> (\<forall>x. r = Inr x \<longrightarrow> q = Inr x)"
proof -
  obtain q s1 where m: "m s = (q, s1)" by force
  obtain c s2 where c: "sc_close conn s1 = (c, s2)" by force
  have "view s2 = view s1" by (rule frames_empty[OF assms(2) c])
  moreover have "s' = s2" "\<forall>x. r = Inr x \<longrightarrow> q = Inr x"
    using assms(1) m c by (auto simp: closing_after_def split: sum.splits)
  ultimately show ?thesis using m by auto
qed

lemma drop_temporary_effect:
  assumes "smb_laws conn view" and "drop_temporary conn tmp e s = (r, s')" and "plain tmp"
  shows "\<forall>p. p \<noteq> tmp \<longrightarrow> view s' p = view s p" and "\<nexists>x. r = Inr x"
proof -
  have "frames view {tmp} (drop_temporary conn tmp e :: ('a, 'b) prog)"
    unfolding drop_temporary_def by (intro frame_rules laws_frames assms) simp_all
  from framesD[OF this assms(2)] show "\<forall>p. p \<noteq> tmp \<longrightarrow> view s' p = view s p" by simp
  show "\<nexists>x. r = Inr x" using assms(2) by (auto simp: drop_temporary_def bindp_eq_Inr)
qed

text \<open>
  What a publication may do to the share: outside the temporaries of its names nothing changes
  but a name that was free, and that one then holds a copy of the source.
\<close>

definition only_copies ::
    "('s \<Rightarrow> string \<Rightarrow> bytes option) \<Rightarrow> (bytes \<Rightarrow> string) \<Rightarrow> bytes \<Rightarrow> string \<Rightarrow> string set \<Rightarrow> 's \<Rightarrow> 's \<Rightarrow> bool" where
  "only_copies view sha source full names s s' \<longleftrightarrow>
     (\<forall>p. p \<notin> (\<lambda>n. join_path [full, n] @ ''.tmp'') ` names \<longrightarrow> view s' p \<noteq> view s p \<longrightarrow>
        view s p = None \<and> p \<in> (\<lambda>n. join_path [full, n]) ` names \<and> copy_at view sha source s' p)"

lemma copy_at_cong: "view s1 = view s2 \<Longrightarrow> copy_at view sha source s1 p = copy_at view sha source s2 p"
  by (simp add: copy_at_def)

lemma only_copies_same: "view s' = view s \<Longrightarrow> only_copies view sha source full names s s'"
  by (simp add: only_copies_def)

lemma only_copies_cong:
  "view s1 = view s \<Longrightarrow> view s2 = view s' \<Longrightarrow> only_copies view sha source full names s s'
    = only_copies view sha source full names s1 s2"
  by (simp add: only_copies_def copy_at_def)

lemma only_copiesI:
  assumes "n \<in> names" and "P = join_path [full, n]" and "view s P = None"
    and "\<And>p. p \<notin> {P, P @ ''.tmp''} \<Longrightarrow> view s' p = view s p" and "view s' P = None \<or> copy_at view sha source s' P"
  shows "only_copies view sha source full names s s'"
  unfolding only_copies_def
proof (intro allI impI)
  fix p assume p: "p \<notin> (\<lambda>n. join_path [full, n] @ ''.tmp'') ` names" "view s' p \<noteq> view s p"
  then have "p \<noteq> P @ ''.tmp''" using assms(1,2) by blast
  with assms(4) p(2) have pP: "p = P" by blast
  then have "copy_at view sha source s' p" using assms(3,5) p(2) by auto
  moreover have "p \<in> (\<lambda>n. join_path [full, n]) ` names" using pP assms(1,2) by blast
  ultimately show "view s p = None \<and> p \<in> (\<lambda>n. join_path [full, n]) ` names \<and> copy_at view sha source s' p"
    using pP assms(3) by simp
qed

lemma publish_body_effect:
  assumes laws: "smb_laws conn view" and run: "publish_body conn sha li source full base coll s = (r, s')"
    and nd: "file_name base" "file_name coll"
    and pl: "plain (join_path [full, base])" "plain (join_path [full, coll])"
  shows "only_copies view sha source full {base, coll} s s'
    \<and> (\<forall>res. r = Inr res \<longrightarrow> pb_remote_name res \<in> {base, coll} \<and> pb_sha256 res = sha source
        \<and> copy_at view sha source s' (join_path [full, pb_remote_name res]))"
proof -
  obtain q s1 where t: "publish_target conn sha source full base coll s = (q, s1)" by force
  show ?thesis
  proof (cases q)
    case (Inl e)
    have "frames view {} (publish_target conn sha source full base coll)"
      unfolding publish_target_def resolve_remote_name_def
      by (intro frame_rules frames_reads[OF laws])
    from frames_empty[OF this t] have "view s1 = view s" .
    moreover have "r = Inl e" "s' = s1" using run t Inl by (simp_all add: publish_body_def)
    ultimately show ?thesis using only_copies_same by simp
  next
    case (Inr np)
    obtain name present where np: "np = (name, present)" by (cases np)
    note tf = target_facts[OF laws t[unfolded Inr np] nd]
    let ?P = "join_path [full, name]"
    show ?thesis
    proof (cases present)
      case True
      have r: "r = Inr \<lparr>pb_sha256 = sha source, pb_remote_name = name, pb_bytes = None, pb_idempotent = True\<rparr>" "s' = s1"
        using run t Inr np True by (simp_all add: publish_body_def)
      have "copy_at view sha source s1 ?P" using tf(3) True copy_at_cong[OF tf(1)] by simp
      moreover have "only_copies view sha source full {base, coll} s s1" by (rule only_copies_same[OF tf(1)])
      ultimately show ?thesis using r tf(2) by simp
    next
      case False
      have nm: "file_name name" "plain ?P" using tf(2) nd pl by auto
      have n1: "view s1 ?P = None" using tf(1,3) False by simp
      obtain q2 s2 where x: "publish_transfer conn sha li source full name s1 = (q2, s2)" by force
      note te = transfer_effect[OF laws x refl nm(2,1) n1]
      have pt: "plain (?P @ ''.tmp'')" using nm(2) by (simp add: plain_def)
      have fin: "(\<forall>p. p \<noteq> ?P @ ''.tmp'' \<longrightarrow> view s' p = view s2 p) \<and> (\<forall>res. r = Inr res \<longrightarrow> q2 = Inr res \<and> s' = s2)"
      proof (cases q2)
        case (Inr res)
        then have "r = Inr res" "s' = s2"
          using run t \<open>q = Inr np\<close> np False x by (simp_all add: publish_body_def catchp_def)
        with Inr show ?thesis by simp
      next
        case (Inl e)
        have "(if is_Exception e then drop_temporary conn (?P @ ''.tmp'') e s2 else (Inl e, s2)) = (r, s')"
          using run t \<open>q = Inr np\<close> np False x Inl by (simp add: publish_body_def catchp_def)
        then show ?thesis
          using drop_temporary_effect[OF laws _ pt, of e s2 r s'] by (cases "is_Exception e") auto
      qed
      have "only_copies view sha source full {base, coll} s s'"
      proof (rule only_copiesI[OF tf(2) refl])
        show "view s ?P = None" using n1 tf(1) by simp
        show "view s' p = view s p" if "p \<notin> {?P, ?P @ ''.tmp''}" for p
          using that te fin tf(1) by simp
        have "view s' ?P = view s2 ?P" using fin by simp
        with te show "view s' ?P = None \<or> copy_at view sha source s' ?P" by (simp add: copy_at_def)
      qed
      moreover have "pb_remote_name res \<in> {base, coll} \<and> pb_sha256 res = sha source
          \<and> copy_at view sha source s' (join_path [full, pb_remote_name res])" if "r = Inr res" for res
        using that fin te tf(2) by simp
      ultimately show ?thesis by blast
    qed
  qed
qed

lemma publish_effect:
  assumes laws: "smb_laws conn view" and run: "publish conn sha li smb_path source dir base coll s = (r, s')"
    and full: "full = join_path [smb_path, dir]"
    and nd: "file_name base" "file_name coll"
    and pl: "plain (join_path [full, base])" "plain (join_path [full, coll])"
  shows "only_copies view sha source full {base, coll} s s'
    \<and> (\<forall>res. r = Inr res \<longrightarrow> pb_remote_name res \<in> {base, coll} \<and> pb_sha256 res = sha source
        \<and> copy_at view sha source s' (join_path [full, pb_remote_name res]))"
proof -
  obtain q s1 where c: "smb_connect conn s = (q, s1)" by force
  have v1: "view s1 = view s" by (rule frames_empty[OF frames_connect[OF laws] c])
  show ?thesis
  proof (cases q)
    case (Inl e)
    then have "r = Inl e" "s' = s1" using run c by (simp_all add: publish_def)
    with only_copies_same[OF v1] show ?thesis by simp
  next
    case (Inr u)
    then have "closing_after conn (publish_body conn sha li source full base coll) s1 = (r, s')"
      using run c full by (simp add: publish_def)
    from closing_after_cases[OF this laws_frames(2)[OF laws]] obtain q2 s2 where
      b: "publish_body conn sha li source full base coll s1 = (q2, s2)" "view s' = view s2"
        "\<forall>x. r = Inr x \<longrightarrow> q2 = Inr x" by blast
    note e = publish_body_effect[OF laws b(1) nd pl]
    have "only_copies view sha source full {base, coll} s s'"
      using e only_copies_cong[OF v1 b(2)[symmetric]] by simp
    moreover have "pb_remote_name res \<in> {base, coll} \<and> pb_sha256 res = sha source
          \<and> copy_at view sha source s' (join_path [full, pb_remote_name res])" if "r = Inr res" for res
      using that b(3) e copy_at_cong[OF b(2)] by simp
    ultimately show ?thesis by blast
  qed
qed

text \<open>What one attempt keeps, all attempts keep; a result is the result of the last attempt.\<close>

lemma retry_effect:
  assumes run: "publish_with_retry conn attempt delays s = (r, s')"
    and sleep: "\<And>d s q s'. sc_sleep conn d s = (q, s') \<Longrightarrow> I s \<Longrightarrow> I s'"
    and step: "\<And>s q s'. attempt s = (q, s') \<Longrightarrow> I s \<Longrightarrow> I s' \<and> (\<forall>x. q = Inr x \<longrightarrow> Q x s')"
    and "I s"
  shows "I s' \<and> (\<forall>x. r = Inr x \<longrightarrow> Q x s')"
  using run \<open>I s\<close>
proof (induction delays arbitrary: s)
  case Nil
  then show ?case using step by simp
next
  case (Cons d ds)
  obtain q s1 where a: "attempt s = (q, s1)" by force
  note st = step[OF a Cons.prems(2)]
  show ?case
  proof (cases "(\<exists>x. q = Inr x) \<or> (\<exists>e. q = Inl e \<and> (e = RemoteCollisionError \<or> \<not> is_OSError e))")
    case True
    with Cons.prems(1) a st show ?thesis by auto
  next
    case False
    then obtain e where e: "q = Inl e" "\<not> (e = RemoteCollisionError \<or> \<not> is_OSError e)" by (cases q) auto
    obtain w s2 where w: "sc_sleep conn d s1 = (w, s2)" by force
    have "I s2" using sleep[OF w] st by blast
    with Cons a e w show ?thesis by (cases w) auto
  qed
qed

section \<open>The temporaries of earlier transfers\<close>

text \<open>The temporaries a cleanup may delete: expected, and seen a round ago or longer.\<close>

definition stale_temporaries :: "string \<Rightarrow> string list \<Rightarrow> json \<Rightarrow> int \<Rightarrow> int \<Rightarrow> string set" where
  "stale_temporaries full expected candidates current rounds =
     {join_path [full, n @ ''.tmp''] | n. n \<in> set expected
        \<and> (\<exists>t. parse_datetime (jget candidates (n @ ''.tmp'')) = Some t \<and> current - t \<ge> seconds rounds)}"

lemma frames_clean_names:
  assumes "smb_laws conn view" and "\<forall>n\<in>set expected. plain (join_path [full, n @ ''.tmp''])"
    and "stale_temporaries full expected candidates current rounds \<subseteq> A"
  shows "frames view A (clean_remote_names conn full names current rounds candidates expected updated)"
  using assms(2,3)
proof (induction expected arbitrary: updated)
  case Nil
  then show ?case by (simp add: frames_def)
next
  case (Cons n ns)
  have sub: "stale_temporaries full ns candidates current rounds \<subseteq> A"
    using Cons.prems(2) unfolding stale_temporaries_def by auto
  have pl: "\<forall>n\<in>set ns. plain (join_path [full, n @ ''.tmp''])" using Cons.prems(1) by simp
  note ih = Cons.IH[OF pl sub]
  have del: "frames view A (sc_delete conn (join_path [full, n @ ''.tmp'']))"
    if "parse_datetime (jget candidates (n @ ''.tmp'')) = Some t" "\<not> current - t < seconds rounds" for t
  proof -
    have "join_path [full, n @ ''.tmp''] \<in> A"
      using Cons.prems(2) that unfolding stale_temporaries_def by fastforce
    with laws_frames(8)[OF assms(1)] Cons.prems(1) show ?thesis by simp
  qed
  show ?case
    unfolding frames_def
  proof (intro allI impI)
    fix s r s' p
    assume run: "clean_remote_names conn full names current rounds candidates (n # ns) updated s = (r, s')" and p: "p \<notin> A"
    show "view s' p = view s p"
    proof (cases "n @ ''.tmp'' \<in> set names \<and> is_dict candidates
        \<and> (\<exists>t. parse_datetime (jget candidates (n @ ''.tmp'')) = Some t \<and> \<not> current - t < seconds rounds)")
      case True
      then obtain t where t: "parse_datetime (jget candidates (n @ ''.tmp'')) = Some t" "\<not> current - t < seconds rounds" by blast
      obtain q s1 where d: "sc_delete conn (join_path [full, n @ ''.tmp'']) s = (q, s1)" by force
      have "view s1 p = view s p" by (rule framesD[OF del[OF t] d p])
      moreover have "view s' p = view s1 p"
        using run True t d framesD[OF ih _ p] by (cases q) (auto simp: Let_def)
      ultimately show ?thesis by simp
    next
      case False
      with run show ?thesis
        by (auto simp: Let_def intro: framesD[OF ih _ p] split: if_splits option.splits)
    qed
  qed
qed

lemma cleanup_frames:
  assumes "smb_laws conn view"
    and "\<forall>n\<in>set expected. plain (join_path [join_path [smb_path, dir], n @ ''.tmp''])"
  shows "frames view (stale_temporaries (join_path [smb_path, dir]) expected candidates current rounds)
    (cleanup_remote_temporaries conn smb_path current rounds dir expected candidates)"
  unfolding cleanup_remote_temporaries_def Let_def
  by (intro frame_rules frames_connect frames_reads frames_clean_names laws_frames assms order_refl)


section \<open>A share in memory\<close>

record mem =
  mm_files :: "(string \<times> bytes) list"
  mm_clock :: rat

definition mem_view :: "mem \<Rightarrow> string \<Rightarrow> bytes option" where
  "mem_view s p = map_of (mm_files s) p"

definition last_segment :: "string \<Rightarrow> string" where
  "last_segment p = rev (takeWhile (\<lambda>c. \<not> is_slash c) (rev p))"

definition mem_conn :: "mem smb_conn" where
  "mem_conn = \<lparr>
     sc_connect = ret True, sc_close = ret (), sc_create_directory = (\<lambda>_. ret ()),
     sc_list_path = (\<lambda>_ s. (Inr (map (last_segment \<circ> fst) (mm_files s)), s)),
     sc_retrieve = (\<lambda>p s. (case map_of (mm_files s) p of None \<Rightarrow> Inl OperationFailure | Some d \<Rightarrow> Inr d, s)),
     sc_store = (\<lambda>p c off tr s. (Inr (length c),
       s\<lparr>mm_files := AList.update p (splice off c (old_bytes tr (map_of (mm_files s) p))) (mm_files s)\<rparr>)),
     sc_rename = (\<lambda>a b s. (case map_of (mm_files s) a of
         None \<Rightarrow> (Inl OperationFailure, s)
       | Some d \<Rightarrow> (Inr (), s\<lparr>mm_files := AList.update b d (AList.delete a (mm_files s))\<rparr>))),
     sc_delete = (\<lambda>p s. (Inr (), s\<lparr>mm_files := AList.delete p (mm_files s)\<rparr>)),
     sc_clock = mm_clock,
     sc_sleep = (\<lambda>d s. (Inr (), s\<lparr>mm_clock := mm_clock s + d\<rparr>))\<rparr>"

lemma last_segment_join:
  assumes "file_name n"
  shows "last_segment (join_path [p, n]) = n"
proof -
  have n: "n \<noteq> []" "\<forall>c\<in>set n. \<not> is_slash c" using assms by (auto simp: file_name_def)
  have s: "strip_if is_slash n = n" using n(2) by (intro strip_if_keeps) auto
  have "is_slash (CHR ''/'')" by (simp add: is_slash_def)
  then have "takeWhile (\<lambda>c. \<not> is_slash c) (rev n @ CHR ''/'' # ys) = rev n" for ys
    using n(2) by (subst takeWhile_append2) simp_all
  then have "last_segment (pre @ CHR ''/'' # n) = n" for pre
    by (simp add: last_segment_def)
  then have 1: "last_segment (pre @ ''/'' @ n) = n" for pre by simp
  have "takeWhile (\<lambda>c. \<not> is_slash c) (rev n) = rev n"
    using n(2) by (subst takeWhile_eq_all_conv) simp
  then have 2: "last_segment n = n" by (simp only: last_segment_def rev_rev_ident)
  show ?thesis using n s 1 2 by (simp add: join_path_def)
qed

lemma mem_laws: "smb_laws mem_conn mem_view" "clock_laws mem_conn"
proof -
  have list: "n \<in> set (map (last_segment \<circ> fst) (mm_files s))"
    if "file_name n" "mem_view s (join_path [p, n]) \<noteq> None" for n p s
  proof -
    from that(2) obtain d where "(join_path [p, n], d) \<in> set (mm_files s)"
      by (auto simp: mem_view_def dest: map_of_SomeD)
    then show ?thesis using last_segment_join[OF that(1), of p] by force
  qed
  show "smb_laws mem_conn mem_view"
    unfolding smb_laws_def
    using list
    by (auto simp: mem_conn_def frames_def mem_view_def AList.update_conv AList.delete_conv fun_eq_iff
        split: option.splits if_splits)
  show "clock_laws mem_conn" by (simp add: clock_laws_def mem_conn_def)
qed

theorem transfer_within_bandwidth_witness:
  "\<exists>n s'. limiter_store mem_conn \<lparr>li_bytes_per_second = 1048576, li_chunk_size = CHUNK_SIZE\<rparr> ''a.tmp'' [1, 2, 3] \<lparr>mm_files = [], mm_clock = 0\<rparr>
     = (Inr n, s') \<and> mem_view s' ''a.tmp'' = Some [1, 2, 3] \<and> 3 \<le> 1048576 * mm_clock s'"
proof -
  let ?li = "\<lparr>li_bytes_per_second = 1048576, li_chunk_size = CHUNK_SIZE\<rparr>"
  have li: "new_limiter 1 = Inr ?li" by (simp add: new_limiter_def)
  have "fst (limiter_store mem_conn ?li ''a.tmp'' [1, 2, 3] \<lparr>mm_files = [], mm_clock = 0\<rparr>) = Inr 3"
    by (simp add: limiter_store_def store_loop.simps mem_conn_def CHUNK_SIZE_def Let_def)
  then obtain s' where s: "limiter_store mem_conn ?li ''a.tmp'' [1, 2, 3] \<lparr>mm_files = [], mm_clock = 0\<rparr> = (Inr 3, s')"
    by (cases "limiter_store mem_conn ?li ''a.tmp'' [1, 2, 3] \<lparr>mm_files = [], mm_clock = 0\<rparr>") auto
  from transfer_within_bandwidth[OF mem_laws li s] s show ?thesis by (auto simp: mem_conn_def)
qed

end
