(* ===== verification/Smb_Sync.thy ===== *)
theory Smb_Sync
  imports Smb_Remote Uploader Consumers Calls Config
begin

text \<open>
  \<open>workers/smb_sync.py\<close>: the backup of one call (\<open>process_call\<close>) and the cycle over all of
  them. A call's state is its directory, the share, the metrics and what the pending exception
  carries in \<open>remote_tmp_candidates\<close>. \<open>sv_ticks\<close> are the renewals of the lease before
  \<open>asyncio.wait\<close> returns, which touch the lease files only and are taken before the operation; the
  task that renews ends when one of them fails, and \<open>sv_fate\<close> says whether the operation or the timeout
  comes first otherwise. A cancelled operation ends where one of its awaits raises \<open>CancelledError\<close>.
\<close>

datatype wait_fate = OperationFirst | TimedOut

record sync_env =
  sv_os :: os_env
  sv_work :: os_env
  sv_end :: os_env
  sv_now :: int
  sv_mtime :: int
  sv_ffmpeg :: "content \<Rightarrow> ffmpeg_run"
  sv_stereo :: "content \<Rightarrow> content \<Rightarrow> ffmpeg_run"
  sv_ticks :: "os_env list"
  sv_fate :: wait_fate

text \<open>\<open>SMBBackupStrategy\<close> with what it uses: \<open>bk_bytes\<close> are the bytes of a file.\<close>

record 's backup =
  bk_conn :: "'s smb_conn"
  bk_sha :: "bytes \<Rightarrow> string"
  bk_bytes :: "content \<Rightarrow> bytes"
  bk_limiter :: limiter
  bk_path :: string
  bk_rounds :: int
  bk_ttl :: int

record 's sync_state =
  sy_dir :: dir
  sy_remote :: 's
  sy_metrics :: metrics
  sy_attached :: "json option"

section \<open>Local files\<close>

definition has_stable_mono_input :: "dir \<Rightarrow> bool" where
  "has_stable_mono_input d \<longleftrightarrow>
     list_all (\<lambda>ch. is_file d (wav_path ch) \<or> is_file d (raw_path ch)) [''tx'', ''rx'']"

definition wants_wav :: "dir \<Rightarrow> string \<Rightarrow> bool" where
  "wants_wav d ch \<longleftrightarrow> \<not> path_exists d (wav_path ch) \<and> path_exists d (raw_path ch)"

definition convert_missing :: "(content \<Rightarrow> ffmpeg_run) \<Rightarrow> os_env \<Rightarrow> string \<Rightarrow> (dir, unit) prog" where
  "convert_missing ffmpeg os ch d =
     (if wants_wav d ch
      then (case convert_to_wav ffmpeg os ch d of (Inl e, d1) \<Rightarrow> (Inl e, d1) | (Inr _, d1) \<Rightarrow> (Inr (), d1))
      else (Inr (), d))"

definition needs_conversion :: "dir \<Rightarrow> bool" where
  "needs_conversion d \<longleftrightarrow> list_ex (wants_wav d) [''tx'', ''rx'']"

definition convert_both :: "(content \<Rightarrow> ffmpeg_run) \<Rightarrow> os_env \<Rightarrow> (dir, unit) prog" where
  "convert_both ffmpeg os = for_p (convert_missing ffmpeg os) [''tx'', ''rx'']"

definition mono_pair :: "dir \<Rightarrow> (string \<times> string) option" where
  "mono_pair d = (if path_exists d ''tx.wav'' \<and> path_exists d ''rx.wav'' then Some (''tx.wav'', ''rx.wav'') else None)"

definition ensure_mono_pair ::
    "(content \<Rightarrow> ffmpeg_run) \<Rightarrow> os_env \<Rightarrow> int \<Rightarrow> string \<Rightarrow> string option \<Rightarrow> (dir, (string \<times> string) option) prog" where
  "ensure_mono_pair ffmpeg os ttl call_id lease_owner' d =
     (if \<not> needs_conversion d then (Inr (mono_pair d), d)
      else case acquire_lease os ttl d ''conversion'' call_id lease_owner' None None of
        (Inl e, d1) \<Rightarrow> (if is_busy e then Inr None else Inl e, d1)
      | (Inr lease, d1) \<Rightarrow>
         (case convert_both ffmpeg os d1 of
            (r, d2) \<Rightarrow>
              (case release_lease os d2 ''conversion'' (lease_owner lease) of
                 (Inl e, d3) \<Rightarrow> (Inl e, d3)
               | (Inr _, d3) \<Rightarrow> (case r of Inl e \<Rightarrow> (Inl e, d3) | Inr _ \<Rightarrow> (Inr (mono_pair d3), d3)))))"

definition stereo_failed :: "nat \<Rightarrow> string \<Rightarrow> exc" where
  "stereo_failed code stderr = RuntimeError (''ffmpeg stereo failed (exit '' @ nat_str code @ ''): ''
     @ drop (length stderr - 500) stderr)"

definition drop_stereo_tmp :: "exc \<Rightarrow> (dir, string) prog" where
  "drop_stereo_tmp e d =
     (case unlink_missing_ok ''stereo.tmp.wav'' d of Inl e' \<Rightarrow> (Inl e', d) | Inr d' \<Rightarrow> (Inl e, d'))"

definition generate_stereo ::
    "(content \<Rightarrow> content \<Rightarrow> ffmpeg_run) \<Rightarrow> os_env \<Rightarrow> string \<times> string \<Rightarrow> (dir, string) prog" where
  "generate_stereo ffmpeg os pair d =
     (case pair of (tx, rx) \<Rightarrow>
        if \<not> path_exists d tx \<or> \<not> path_exists d rx then (Inl FileNotFoundError, d)
        else (case ffmpeg (file_content d tx) (file_content d rx) of
            SpawnError e \<Rightarrow> (if e = CancelledError then drop_stereo_tmp e d else (Inl e, d))
          | Exit code stderr \<Rightarrow> drop_stereo_tmp (stereo_failed code stderr) d
          | Converted w \<Rightarrow>
              if path_exists d ''stereo.wav'' \<and> f_data (the (dget d ''stereo.wav'')) = Directory
              then (Inl IsADirectoryError, dput ''stereo.tmp.wav'' (wav_file os w) d)
              else (Inr ''stereo.wav'', dput ''stereo.wav'' (wav_file os w) (ddel ''stereo.tmp.wav'' d))))"

section \<open>One call\<close>

record call_md =
  md_started :: "int option"
  md_caller :: string
  md_callee :: string
  md_candidates :: json

definition or_unknown :: "string option \<Rightarrow> string" where
  "or_unknown v = (case v of None \<Rightarrow> ''desconhecido'' | Some s \<Rightarrow> if s = [] then ''desconhecido'' else s)"

text \<open>\<open>_load_call_metadata\<close> and \<open>resolve_call_metadata\<close>; rows is what the tenant's table holds.\<close>

definition load_call_metadata :: "string \<Rightarrow> call_row list \<Rightarrow> call_row option" where
  "load_call_metadata call_id rows = (case find_call call_id rows of [] \<Rightarrow> None | r # _ \<Rightarrow> Some r)"

definition resolve_call_metadata :: "string \<Rightarrow> exc + call_row list \<Rightarrow> int \<Rightarrow> exc + call_md" where
  "resolve_call_metadata call_id rows mtime =
     (case rows of
        Inl e \<Rightarrow> Inl e
      | Inr t \<Rightarrow>
         (case load_call_metadata call_id t of
            None \<Rightarrow> Inr \<lparr>md_started = Some mtime, md_caller = ''desconhecido'', md_callee = ''desconhecido'',
                md_candidates = JObj []\<rparr>
          | Some r \<Rightarrow> Inr \<lparr>md_started = Some (case ca_started r of None \<Rightarrow> mtime | Some t \<Rightarrow> t),
                md_caller = or_unknown (ca_caller r), md_callee = or_unknown (ca_callee r), md_candidates = JObj []\<rparr>))"

datatype sync_result = SyncPending string | SyncDone json published

definition on_remote :: "('s, 'a) prog \<Rightarrow> ('s sync_state, 'a) prog" where
  "on_remote m s = (case m (sy_remote s) of (r, x) \<Rightarrow> (r, s\<lparr>sy_remote := x\<rparr>))"

definition on_dir :: "(dir, 'a) prog \<Rightarrow> ('s sync_state, 'a) prog" where
  "on_dir m s = (case m (sy_dir s) of (r, d) \<Rightarrow> (r, s\<lparr>sy_dir := d\<rparr>))"

definition unlink_stereo :: "(dir, unit) prog" where
  "unlink_stereo d = (case unlink_missing_ok ''stereo.wav'' d of Inl e \<Rightarrow> (Inl e, d) | Inr d' \<Rightarrow> (Inr (), d'))"

definition transfer_names :: "int \<Rightarrow> string \<Rightarrow> call_md \<Rightarrow> exc + string \<times> string" where
  "transfer_names started call_id md =
     (case build_remote_name started call_id (Some (md_caller md)) (Some (md_callee md)) ''wav'' False of
        Inl e \<Rightarrow> Inl e
      | Inr base \<Rightarrow>
         (case build_remote_name started call_id (Some (md_caller md)) (Some (md_callee md)) ''wav'' True of
            Inl e \<Rightarrow> Inl e | Inr coll \<Rightarrow> Inr (base, coll)))"

text \<open>The part of \<open>_process_call_unbounded\<close> after the stereo file: the transfer.\<close>

definition transfer_stereo ::
    "'s backup \<Rightarrow> sync_env \<Rightarrow> string \<Rightarrow> string \<Rightarrow> string \<Rightarrow> json \<Rightarrow> ('s sync_state, sync_result) prog" where
  "transfer_stereo bk env remote_dir base coll candidates s =
     (case on_remote (cleanup_remote_temporaries (bk_conn bk) (bk_path bk) (sv_now env) (bk_rounds bk) remote_dir
             [base, coll] candidates) s of
        (Inl e, s1) \<Rightarrow> (Inl e, s1)
      | (Inr updated, s1) \<Rightarrow>
         (case on_remote (publish_with_retry (bk_conn bk)
                 (publish (bk_conn bk) (bk_sha bk) (bk_limiter bk) (bk_path bk)
                    (bk_bytes bk (file_content (sy_dir s1) ''stereo.wav'')) remote_dir base coll)
                 RETRY_DELAYS_SECONDS) s1 of
            (Inl e, s2) \<Rightarrow> (Inl e, if is_Exception e then s2\<lparr>sy_attached := Some (JObj updated)\<rparr> else s2)
          | (Inr pub, s2) \<Rightarrow>
             bindp (on_dir (mark_consumed (sv_work env) ''smb'')) (\<lambda>_.
             bindp (on_dir unlink_stereo) (\<lambda>_. ret (SyncDone (JObj updated) pub))) s2))"

definition process_call_unbounded ::
    "'s backup \<Rightarrow> sync_env \<Rightarrow> string \<Rightarrow> string \<Rightarrow> call_md \<Rightarrow> string option \<Rightarrow> ('s sync_state, sync_result) prog" where
  "process_call_unbounded bk env tenant_id call_id md lease_owner' s =
     (case on_dir (ensure_mono_pair (sv_ffmpeg env) (sv_work env) (bk_ttl bk) call_id lease_owner') s of
        (Inl e, s1) \<Rightarrow> (Inl e, s1)
      | (Inr None, s1) \<Rightarrow>
          (Inr (SyncPending ''mono_pair_incomplete''), s1\<lparr>sy_metrics := set_smb_conversion_pending 1 (sy_metrics s1)\<rparr>)
      | (Inr (Some pair), s1) \<Rightarrow>
         (case on_dir (generate_stereo (sv_stereo env) (sv_work env) pair) s1 of
            (Inl e, s2) \<Rightarrow> (Inl e, s2)
          | (Inr _, s2) \<Rightarrow>
             (let started = (case md_started md of None \<Rightarrow> sv_mtime env | Some t \<Rightarrow> t) in
              case transfer_names started call_id md of
                Inl e \<Rightarrow> (Inl e, s2)
              | Inr (base, coll) \<Rightarrow>
                  transfer_stereo bk env (build_remote_directory tenant_id started) base coll (md_candidates md) s2)))"

definition write_lease :: "os_env \<Rightarrow> int \<Rightarrow> dir \<Rightarrow> string \<Rightarrow> datetime option \<Rightarrow> (exc + string) \<times> dir" where
  "write_lease os ttl d call_id now =
     (case acquire_lease os ttl d ''smb'' call_id None now None of
        (Inl e, d') \<Rightarrow> (Inl e, d') | (Inr _, d') \<Rightarrow> (Inr ''.smb-processing'', d'))"

text \<open>The warning of an invalid lease is a log line only.\<close>

definition smb_has_valid_lease :: "os_env \<Rightarrow> dir \<Rightarrow> datetime option \<Rightarrow> exc + bool" where
  "smb_has_valid_lease os d now = has_valid_lease os d now"

text \<open>One turn of \<open>_renew_lease\<close> after its sleep; it raises when the task ends.\<close>

definition renew_turn :: "int \<Rightarrow> string \<Rightarrow> string option \<Rightarrow> os_env \<Rightarrow> (dir, unit) prog" where
  "renew_turn ttl call_id owner os d =
     (case owner of
        None \<Rightarrow> (case write_lease os ttl d call_id None of (Inl e, d') \<Rightarrow> (Inl e, d') | (Inr _, d') \<Rightarrow> (Inr (), d'))
      | Some ow \<Rightarrow>
         (case renew_lease os ttl d ''smb'' ow None None of
            (Inl e, d') \<Rightarrow> (Inl e, d')
          | (Inr True, d') \<Rightarrow> (Inr (), d')
          | (Inr False, d') \<Rightarrow> (Inl (OSError ''lease owner changed''), d')))"

definition process_call ::
    "'s backup \<Rightarrow> sync_env \<Rightarrow> string \<Rightarrow> string \<Rightarrow> call_md \<Rightarrow> ('s sync_state, sync_result) prog" where
  "process_call bk env tenant_id call_id md s =
     (case acquire_lease (sv_os env) (bk_ttl bk) (sy_dir s) ''smb'' call_id None None None of
        (Inl e, d) \<Rightarrow> (if is_busy e then Inr (SyncPending ''already_processing'') else Inl e, s\<lparr>sy_dir := d\<rparr>)
      | (Inr lease, d) \<Rightarrow>
         (case for_p (renew_turn (bk_ttl bk) call_id (Some (lease_owner lease))) (sv_ticks env) d of
            (renewed, d1) \<Rightarrow>
              (case process_call_unbounded bk env tenant_id call_id md (Some (lease_owner lease)) (s\<lparr>sy_dir := d1\<rparr>) of
                 (r, s1) \<Rightarrow>
                   (let res = (case renewed of
                          Inl _ \<Rightarrow> Inl (NameError ''record_lease_failure'')
                        | Inr _ \<Rightarrow> (case sv_fate env of OperationFirst \<Rightarrow> r | TimedOut \<Rightarrow> Inr (SyncPending ''timeout'')))
                    in case release_lease (sv_end env) (sy_dir s1) ''smb'' (lease_owner lease) of
                         (Inl e, d2) \<Rightarrow> (Inl e, s1\<lparr>sy_dir := d2\<rparr>)
                       | (Inr _, d2) \<Rightarrow> (res, s1\<lparr>sy_dir := d2\<rparr>)))))"

section \<open>The cycle\<close>

record cycle_env =
  ce_sync :: sync_env
  ce_rows :: "exc + call_row list"
  ce_mono :: rat
  ce_mono_failure :: rat
  ce_now :: int
  ce_log :: os_env

record 's cycle =
  cy_dirs :: "((string \<times> string) \<times> dir) list"
  cy_remote :: 's
  cy_metrics :: metrics
  cy_log :: "(string \<times> json) list"
  cy_files :: dir
  cy_breaker :: breaker
  cy_completed :: nat
  cy_failed :: nat

definition log_key :: "string \<Rightarrow> string \<Rightarrow> string" where
  "log_key tenant_id call_id = tenant_id @ ''/'' @ call_id"

definition log_entry :: "(string \<times> json) list \<Rightarrow> string \<Rightarrow> json" where
  "log_entry state key = (case map_of state key of None \<Rightarrow> JObj [] | Some j \<Rightarrow> j)"

definition get_or :: "json \<Rightarrow> string \<Rightarrow> json \<Rightarrow> json" where
  "get_or j k dflt = (case jget j k of None \<Rightarrow> dflt | Some v \<Rightarrow> v)"

text \<open>\<open>previous.get("attempts", 0) + 1\<close> on the integers the worker writes.\<close>

definition next_attempts :: "json \<Rightarrow> exc + json" where
  "next_attempts previous =
     (case get_or previous ''attempts'' (JInt 0) of
        JInt n \<Rightarrow> Inr (JInt (n + 1))
      | JBool b \<Rightarrow> Inr (JInt (if b then 2 else 1))
      | _ \<Rightarrow> Inl (TypeError ''unsupported operand''))"

definition opt_json :: "string option \<Rightarrow> json" where
  "opt_json v = (case v of None \<Rightarrow> JNull | Some s \<Rightarrow> JStr s)"

fun exc_class :: "exc \<Rightarrow> string" where
  "exc_class (OSError _) = ''OSError''"
| "exc_class FileNotFoundError = ''FileNotFoundError''"
| "exc_class FileExistsError = ''FileExistsError''"
| "exc_class IsADirectoryError = ''IsADirectoryError''"
| "exc_class (ConnectionError _) = ''ConnectionError''"
| "exc_class TimeoutError = ''TimeoutError''"
| "exc_class (RuntimeError _) = ''RuntimeError''"
| "exc_class (LeaseBusyError _) = ''LeaseBusyError''"
| "exc_class RemoteCollisionError = ''RemoteCollisionError''"
| "exc_class OperationFailure = ''OperationFailure''"
| "exc_class _ = ''Exception''"

definition retried :: "exc \<Rightarrow> bool" where
  "retried e \<longleftrightarrow> is_OSError e \<or> is_RuntimeError e \<or> e = OperationFailure"

definition result_entry ::
    "string \<Rightarrow> string \<Rightarrow> string \<Rightarrow> call_md \<Rightarrow> int \<Rightarrow> int \<Rightarrow> json \<Rightarrow> json \<Rightarrow> sync_result \<Rightarrow> json" where
  "result_entry folder tenant_id call_id md started now previous attempts res =
     (let dir = folder @ ''/'' @ tenant_id @ ''/'' @ call_id @ ''/'' in JObj
       [(''tenant_id'', JStr tenant_id), (''call_id'', JStr call_id), (''caller_number'', JStr (md_caller md)),
        (''callee_number'', JStr (md_callee md)), (''started_at'', JIso (Aware started)),
        (''tx_path'', JStr (dir @ ''tx.wav'')), (''rx_path'', JStr (dir @ ''rx.wav'')),
        (''stereo_path'', JStr (dir @ ''stereo.wav'')),
        (''status'', JStr (case res of SyncPending _ \<Rightarrow> ''pending'' | SyncDone _ _ \<Rightarrow> ''done'')),
        (''attempts'', attempts),
        (''sha256'', case res of SyncPending _ \<Rightarrow> JNull | SyncDone _ pub \<Rightarrow> JStr (pb_sha256 pub)),
        (''remote_name'', case res of SyncPending _ \<Rightarrow> JNull | SyncDone _ pub \<Rightarrow> JStr (pb_remote_name pub)),
        (''created_at'', get_or previous ''created_at'' (JIso (Aware now))),
        (''transferred_at'', case res of SyncPending _ \<Rightarrow> JNull | SyncDone _ _ \<Rightarrow> JIso (Aware now)),
        (''updated_at'', JIso (Aware now)),
        (''last_error'', case res of SyncPending reason \<Rightarrow> JStr reason | SyncDone _ _ \<Rightarrow> JNull),
        (''remote_tmp_candidates'', case res of SyncPending _ \<Rightarrow> JObj [] | SyncDone c _ \<Rightarrow> c)])"

definition error_entry :: "string \<Rightarrow> string \<Rightarrow> string \<Rightarrow> int \<Rightarrow> exc \<Rightarrow> json \<Rightarrow> json" where
  "error_entry tenant_id call_id status now e candidates = JObj
     [(''tenant_id'', JStr tenant_id), (''call_id'', JStr call_id), (''status'', JStr status),
      (''updated_at'', JIso (Aware now)), (''last_error'', JStr (exc_class e)),
      (''remote_tmp_candidates'', candidates)]"

definition put_dir :: "string \<times> string \<Rightarrow> dir \<Rightarrow> 's cycle \<Rightarrow> 's cycle" where
  "put_dir k d c = c\<lparr>cy_dirs := AList.update k d (cy_dirs c)\<rparr>"

text \<open>The \<open>try\<close> of the loop: None is \<open>continue\<close>, Some is the new entry of the log.\<close>

definition after_result ::
    "string \<Rightarrow> cycle_env \<Rightarrow> string \<Rightarrow> string \<Rightarrow> call_md \<Rightarrow> json \<Rightarrow> sync_result \<Rightarrow> ('s cycle, bool) prog" where
  "after_result folder env tenant_id call_id md previous res c =
     (if res \<in> {SyncPending ''already_processing'', SyncPending ''mono_pair_incomplete''} then (Inr False, c)
      else
        let is_done = (case res of SyncDone _ _ \<Rightarrow> True | _ \<Rightarrow> False);
            c = c\<lparr>cy_completed := cy_completed c + of_bool is_done\<rparr>
        in case next_attempts previous of
          Inl e \<Rightarrow> (Inl e, c)
        | Inr attempts \<Rightarrow>
           (let started = (case md_started md of None \<Rightarrow> sv_mtime (ce_sync env) | Some t \<Rightarrow> t);
                entry = result_entry folder tenant_id call_id md started (ce_now env) previous attempts res;
                c = c\<lparr>cy_log := AList.update (log_key tenant_id call_id) entry (cy_log c)\<rparr>
            in (Inr True,
                if is_done then c\<lparr>cy_metrics := record_smb_success (cy_metrics c), cy_breaker := record_success (cy_breaker c)\<rparr>
                else if res = SyncPending ''timeout''
                then c\<lparr>cy_metrics := record_smb_failure (cy_metrics c),
                       cy_breaker := record_failure (ce_mono_failure env) (cy_breaker c)\<rparr>
                else c)))"

definition after_error ::
    "cycle_env \<Rightarrow> string \<Rightarrow> string \<Rightarrow> json \<Rightarrow> json option \<Rightarrow> exc \<Rightarrow> ('s cycle, bool) prog" where
  "after_error env tenant_id call_id previous attached e c =
     (let candidates = (case attached of Some j \<Rightarrow> j | None \<Rightarrow> get_or previous ''remote_tmp_candidates'' (JObj []));
          log = (\<lambda>status. AList.update (log_key tenant_id call_id)
             (error_entry tenant_id call_id status (ce_now env) e candidates) (cy_log c))
      in if e = RemoteCollisionError
         then (Inr True, c\<lparr>cy_failed := Suc (cy_failed c), cy_metrics := record_smb_failure (cy_metrics c),
                 cy_log := log ''failed''\<rparr>)
         else if retried e
         then (Inr True, c\<lparr>cy_failed := Suc (cy_failed c), cy_metrics := record_smb_failure (cy_metrics c),
                 cy_breaker := record_failure (ce_mono_failure env) (cy_breaker c), cy_log := log ''pending''\<rparr>)
         else (Inl e, c))"

definition backup_call ::
    "'s backup \<Rightarrow> string \<Rightarrow> cycle_env \<Rightarrow> string \<Rightarrow> string \<Rightarrow> dir \<Rightarrow> json \<Rightarrow> ('s cycle, bool) prog" where
  "backup_call bk folder env tenant_id call_id d previous c =
     (case resolve_call_metadata call_id (ce_rows env) (sv_mtime (ce_sync env)) of
        Inl e \<Rightarrow> after_error env tenant_id call_id previous None e c
      | Inr md0 \<Rightarrow>
         (let md = md0\<lparr>md_candidates := get_or previous ''remote_tmp_candidates'' (JObj [])\<rparr> in
          case process_call bk (ce_sync env) tenant_id call_id md
                 \<lparr>sy_dir = d, sy_remote = cy_remote c, sy_metrics = cy_metrics c, sy_attached = None\<rparr> of
            (r, s) \<Rightarrow>
              (let c1 = put_dir (tenant_id, call_id) (sy_dir s) (c\<lparr>cy_remote := sy_remote s, cy_metrics := sy_metrics s\<rparr>)
               in case r of
                    Inl e \<Rightarrow> after_error env tenant_id call_id previous (sy_attached s) e c1
                  | Inr res \<Rightarrow> after_result folder env tenant_id call_id md previous res c1)))"

text \<open>One turn: the breaker may stop the loop, a call may be skipped, else it is logged.\<close>

datatype turn = Stop | Skip | Logged

definition cycle_turn ::
    "'s backup \<Rightarrow> string \<Rightarrow> cycle_env \<Rightarrow> string \<Rightarrow> string \<Rightarrow> ('s cycle, turn) prog" where
  "cycle_turn bk folder env tenant_id call_id c =
     (case allows_request (ce_mono env) (cy_breaker c) of
        (False, b) \<Rightarrow> (Inr Stop, c\<lparr>cy_breaker := b\<rparr>)
      | (True, b) \<Rightarrow>
         (let c = c\<lparr>cy_breaker := b\<rparr>; previous = log_entry (cy_log c) (log_key tenant_id call_id);
              d = (case map_of (cy_dirs c) (tenant_id, call_id) of None \<Rightarrow> [] | Some d \<Rightarrow> d)
          in if jget previous ''status'' = Some (JStr ''done'') then (Inr Skip, c)
             else case has_valid_lease (sv_os (ce_sync env)) d None of
               Inl e \<Rightarrow> (Inl e, c)
             | Inr busy \<Rightarrow>
                if busy \<or> \<not> has_stable_mono_input d then (Inr Skip, c)
                else (case backup_call bk folder env tenant_id call_id d previous c of
                        (Inl e, c1) \<Rightarrow> (Inl e, c1)
                      | (Inr logged, c1) \<Rightarrow> (Inr (if logged then Logged else Skip), c1))))"

fun cycle_loop ::
    "'s backup \<Rightarrow> string \<Rightarrow> string \<Rightarrow> (string \<times> string \<Rightarrow> cycle_env) \<Rightarrow> (string \<times> string) list \<Rightarrow> ('s cycle, unit) prog" where
  "cycle_loop bk folder log_name envs [] c = (Inr (), c)"
| "cycle_loop bk folder log_name envs ((tenant_id, call_id) # calls) c =
     (case cycle_turn bk folder (envs (tenant_id, call_id)) tenant_id call_id c of
        (Inl e, c1) \<Rightarrow> (Inl e, c1)
      | (Inr Stop, c1) \<Rightarrow> (Inr (), c1)
      | (Inr Skip, c1) \<Rightarrow> cycle_loop bk folder log_name envs calls c1
      | (Inr Logged, c1) \<Rightarrow>
         (case save_transfer_log (ce_log (envs (tenant_id, call_id))) log_name (cy_log c1) (cy_files c1) of
            Inl e \<Rightarrow> (Inl e, c1)
          | Inr files \<Rightarrow> cycle_loop bk folder log_name envs calls (c1\<lparr>cy_files := files\<rparr>)))"

datatype cycle_result = Disabled | CircuitOpen | AlreadyRunning | CycleDone nat nat nat

definition TRANSFER_LOG_RETENTION_DAYS :: rat where "TRANSFER_LOG_RETENTION_DAYS = 7"

definition run_cycle ::
    "settings \<Rightarrow> 's backup \<Rightarrow> string \<Rightarrow> string \<Rightarrow> os_env \<Rightarrow> bool \<Rightarrow> rat \<Rightarrow> rat \<Rightarrow> (string \<times> string \<Rightarrow> cycle_env)
     \<Rightarrow> ('s cycle, cycle_result) prog" where
  "run_cycle cfg bk folder log_name os renames tick elapsed envs c =
     (if \<not> SMB_ENABLED cfg then (Inr Disabled, c)
      else case allows_request tick (cy_breaker c) of
        (False, b) \<Rightarrow> (Inr CircuitOpen, c\<lparr>cy_breaker := b\<rparr>)
      | (True, b) \<Rightarrow>
         (case load_transfer_log os renames log_name (cy_files c) of
            (entries, files) \<Rightarrow>
             (let c1 = c\<lparr>cy_breaker := b, cy_files := files\<rparr> in
              case prune_transfer_log TRANSFER_LOG_RETENTION_DAYS (env_now os) entries of
                Inl e \<Rightarrow> (Inl e, c1)
              | Inr state \<Rightarrow>
                 (case new_limiter (SMB_BANDWIDTH_LIMIT_MBS cfg) of
                    Inl e \<Rightarrow> (Inl e, c1)
                  | Inr li \<Rightarrow>
                     (let calls = map fst (cy_dirs c1);
                          c2 = c1\<lparr>cy_log := state, cy_completed := 0, cy_failed := 0,
                                 cy_metrics := set_smb_queue_size (int (length calls)) (cy_metrics c1)\<rparr>
                      in case cycle_loop (bk\<lparr>bk_limiter := li\<rparr>) folder log_name envs calls c2 of
                           (Inl e, c3) \<Rightarrow> (Inl e, c3)
                         | (Inr _, c3) \<Rightarrow>
                             (Inr (CycleDone (length calls) (cy_completed c3) (cy_failed c3)),
                              c3\<lparr>cy_metrics := observe_smb_latency elapsed (cy_metrics c3)\<rparr>))))))"

text \<open>\<open>run_smb_sync\<close>: a cycle that finds the lock of the process taken does nothing.\<close>

definition run_smb_sync :: "bool \<Rightarrow> ('s cycle, cycle_result) prog \<Rightarrow> ('s cycle, cycle_result) prog" where
  "run_smb_sync locked cycle c = (if locked then (Inr AlreadyRunning, c) else cycle c)"


section \<open>Names on the share\<close>

lemma plain_append [simp]: "plain (a @ b) \<longleftrightarrow> plain a \<and> plain b"
  by (auto simp: plain_def)

lemma plain_Cons [simp]: "plain (x # b) \<longleftrightarrow> x \<noteq> CHR ''*'' \<and> x \<noteq> CHR ''?'' \<and> plain b"
  by (auto simp: plain_def)

lemma plain_Nil [simp]: "plain []"
  by (simp add: plain_def)

text \<open>Names are portable: letters, digits, dots, underscores and hyphens.\<close>

definition portable :: "string \<Rightarrow> bool" where
  "portable s \<longleftrightarrow> (\<forall>c\<in>set s. segment_char c)"

lemma portable_append [simp]: "portable (a @ b) \<longleftrightarrow> portable a \<and> portable b"
  by (auto simp: portable_def)

lemma portable_Cons [simp]: "portable (x # b) \<longleftrightarrow> segment_char x \<and> portable b"
  by (auto simp: portable_def)

lemma portable_Nil [simp]: "portable []"
  by (simp add: portable_def)

lemma segment_char_ascii [simp]:
  "segment_char (CHR ''-'')" "segment_char (CHR ''.'')" "segment_char (CHR ''0'')"
  "segment_char (CHR ''w'')" "segment_char (CHR ''a'')" "segment_char (CHR ''v'')"
  by code_simp+

lemma portable_plain: "portable s \<Longrightarrow> plain s"
proof -
  have "\<not> segment_char (CHR ''*'')" "\<not> segment_char (CHR ''?'')" by code_simp+
  then show "portable s \<Longrightarrow> plain s" by (auto simp: portable_def plain_def)
qed

lemma portable_slash_free: "portable s \<Longrightarrow> c \<in> set s \<Longrightarrow> \<not> is_slash c"
proof -
  have "\<not> segment_char (CHR ''/'')" "\<not> segment_char (CHR 0x5C)" by code_simp+
  then show "portable s \<Longrightarrow> c \<in> set s \<Longrightarrow> \<not> is_slash c" by (auto simp: portable_def is_slash_def)
qed

lemma pad_int_portable [simp]: "portable (pad_int w i)"
proof -
  have "portable (nat_str n)" for n
    using nat_str_digits[of n] by (simp add: portable_def segment_char_def is_alnum_def)
  moreover have "portable (replicate n (CHR ''0''))" for n by (induction n) simp_all
  ultimately show ?thesis by (simp add: pad_int_def pad_nat_def Let_def)
qed

lemma date_text_portable [simp]: "portable (date_text t)"
  by (simp add: date_text_def split: prod.splits)

lemma time_text_portable [simp]: "portable sep \<Longrightarrow> portable (time_text sep t)"
  by (simp add: time_text_def split: prod.splits)

lemma segment_portable [simp]: "portable (sanitize_segment v)"
  using sanitize_segment_chars[of v] by (simp add: portable_def)

lemma join_str_portable: "portable sep \<Longrightarrow> \<forall>w\<in>set ws. portable w \<Longrightarrow> portable (join_str sep ws)"
  by (induction sep ws rule: join_str.induct) simp_all

lemma join_str_plain: "plain sep \<Longrightarrow> \<forall>w\<in>set ws. plain w \<Longrightarrow> plain (join_str sep ws)"
  by (induction sep ws rule: join_str.induct) simp_all

lemma strip_if_subset: "set (strip_if p s) \<subseteq> set s"
  unfolding strip_if_def by (auto dest!: set_dropWhileD)

lemma strip_plain: "plain s \<Longrightarrow> plain (strip_if p s)"
  using strip_if_subset[of p s] unfolding plain_def by blast

lemma join_path_plain: "\<forall>w\<in>set ws. plain w \<Longrightarrow> plain (join_path ws)"
  unfolding join_path_def by (rule join_str_plain) (auto intro: strip_plain)

lemma join_str_last:
  assumes "w \<noteq> []"
  shows "\<exists>pre. join_str sep (ws @ [w]) = pre @ w"
proof (induction ws)
  case Nil
  then show ?case by simp
next
  case (Cons v ws)
  then obtain pre where "join_str sep (ws @ [w]) = pre @ w" by blast
  then show ?case by (cases "ws @ [w]") (auto intro: exI[of _ "v @ sep @ pre"])
qed

text \<open>A name that ends in a character other than a slash keeps its end in a joined path.\<close>

definition suffix_of :: "string \<Rightarrow> string \<Rightarrow> bool" where
  "suffix_of suf p \<longleftrightarrow> (\<exists>pre. p = pre @ suf)"

lemma strip_if_suffix:
  assumes "suf \<noteq> []" and "\<forall>c\<in>set suf. \<not> is_slash c"
  shows "suffix_of suf (strip_if is_slash (a @ suf))"
proof -
  have d: "dropWhile is_slash (a @ suf) = dropWhile is_slash a @ suf"
  proof (induction a)
    case Nil
    then show ?case using assms by (cases suf) auto
  qed simp
  have "dropWhile is_slash (rev suf @ b) = rev suf @ b" for b
    using assms by (cases suf rule: rev_cases) auto
  then have "strip_if is_slash (a @ suf) = dropWhile is_slash a @ suf"
    unfolding strip_if_def d by simp
  then show ?thesis by (auto simp: suffix_of_def)
qed

lemma join_path_suffix:
  assumes "suf \<noteq> []" and "\<forall>c\<in>set suf. \<not> is_slash c"
  shows "suffix_of suf (join_path [d, a @ suf])"
proof -
  obtain pre where pre: "strip_if is_slash (a @ suf) = pre @ suf"
    using strip_if_suffix[OF assms] by (auto simp: suffix_of_def)
  then have "pre @ suf \<noteq> []" using assms(1) by simp
  with pre have "join_path [d, a @ suf] = (if strip_if is_slash d = [] then pre @ suf
      else strip_if is_slash d @ ''/'' @ pre @ suf)"
    by (simp add: join_path_def)
  then show ?thesis by (auto simp: suffix_of_def intro: exI[of _ "strip_if is_slash d @ ''/'' @ pre"])
qed

definition is_tmp :: "string \<Rightarrow> bool" where
  "is_tmp p \<longleftrightarrow> suffix_of ''.tmp'' p"

lemma is_tmp_append [simp]: "is_tmp (p @ ''.tmp'')"
  by (auto simp: is_tmp_def suffix_of_def)

lemma join_path_tmp [simp]: "is_tmp (join_path [d, n @ ''.tmp''])"
  unfolding is_tmp_def by (rule join_path_suffix) (auto simp: is_slash_def)

lemma build_remote_name_ok:
  assumes "build_remote_name started call_id a b ''wav'' coll = Inr n"
  shows "plain n" and "file_name n"
proof -
  have w: "py_lower (re_sub_outside is_alnum [] ''wav'') = ''wav''" by code_simp
  have n: "n = join_str ''-'' ([date_text started @ ''-'' @ time_text ''-'' started, sanitize_segment (Some (take 6 call_id)),
      sanitize_segment a, sanitize_segment b] @ (if coll then [sanitize_segment (Some (take 4 (drop 6 call_id)))] else []))
      @ ''.wav''"
    using assms by (simp add: build_remote_name_def w)
  have p: "portable n" unfolding n by (auto intro!: join_str_portable)
  then show "plain n" by (rule portable_plain)
  from n obtain m where "n = m @ ''.wav''" by blast
  with portable_slash_free[OF p] show "file_name n" by (auto simp: file_name_def append_eq_Cons_conv)
qed

lemma transfer_names_ok:
  assumes "transfer_names started call_id md = Inr (base, coll)"
  shows "plain base" "plain coll" "file_name base" "file_name coll"
  using assms build_remote_name_ok by (auto simp: transfer_names_def split: sum.splits)

lemma remote_directory_plain: "plain (build_remote_directory tenant t)"
  by (simp add: build_remote_directory_def portable_plain)

section \<open>The files on the share\<close>

text \<open>\<open>kept view s s'\<close>: every file of the share that is no temporary is as it was.\<close>

definition kept :: "('s \<Rightarrow> string \<Rightarrow> bytes option) \<Rightarrow> 's \<Rightarrow> 's \<Rightarrow> bool" where
  "kept view s s' \<longleftrightarrow> (\<forall>p data. view s p = Some data \<longrightarrow> \<not> is_tmp p \<longrightarrow> view s' p = Some data)"

lemma kept_refl [simp]: "kept view s s"
  by (simp add: kept_def)

lemma kept_trans [trans]: "kept view s1 s2 \<Longrightarrow> kept view s2 s3 \<Longrightarrow> kept view s1 s3"
  by (simp add: kept_def)

lemma kept_frames: "frames view A m \<Longrightarrow> m s = (r, s') \<Longrightarrow> \<forall>p\<in>A. is_tmp p \<Longrightarrow> kept view s s'"
  unfolding kept_def frames_def by metis

lemma kept_copies:
  assumes "only_copies view sha source full names s s'"
  shows "kept view s s'"
  unfolding kept_def
proof (intro allI impI)
  fix p data assume p: "view s p = Some data" "\<not> is_tmp p"
  then have "p \<notin> (\<lambda>n. join_path [full, n] @ ''.tmp'') ` names" by auto
  with assms p(1) show "view s' p = Some data" unfolding only_copies_def by (metis option.distinct(1))
qed

text \<open>What a strategy must be: a connection that follows the documentation, a plain share path.\<close>

definition backup_ok :: "'s backup \<Rightarrow> ('s \<Rightarrow> string \<Rightarrow> bytes option) \<Rightarrow> bool" where
  "backup_ok bk view \<longleftrightarrow> smb_laws (bk_conn bk) view \<and> plain (bk_path bk)"

lemma publish_retry_effect:
  assumes bk: "backup_ok bk view" and nm: "transfer_names t call_id md = Inr (base, coll)" and d: "plain dir"
    and run: "publish_with_retry (bk_conn bk) (publish (bk_conn bk) (bk_sha bk) (bk_limiter bk) (bk_path bk) source dir base coll)
       delays s = (r, s')"
  shows "kept view s s' \<and> (\<forall>pub. r = Inr pub \<longrightarrow> pb_sha256 pub = bk_sha bk source
    \<and> pb_remote_name pub \<in> {base, coll}
    \<and> copy_at view (bk_sha bk) source s' (join_path [join_path [bk_path bk, dir], pb_remote_name pub]))"
proof (rule retry_effect[OF run, where I = "kept view s"])
  note n = transfer_names_ok[OF nm]
  have laws: "smb_laws (bk_conn bk) view" using bk by (simp add: backup_ok_def)
  have pl: "plain (join_path [join_path [bk_path bk, dir], base])" "plain (join_path [join_path [bk_path bk, dir], coll])"
    using bk d n by (auto intro!: join_path_plain simp: backup_ok_def)
  show "kept view s s" by simp
  show "kept view s s2" if "sc_sleep (bk_conn bk) x s1 = (q, s2)" "kept view s s1" for x s1 q s2
    using kept_trans[OF that(2) kept_frames[OF laws_frames(6)[OF laws, of "{}"] that(1)]] by simp
  fix s1 q s2
  assume p: "publish (bk_conn bk) (bk_sha bk) (bk_limiter bk) (bk_path bk) source dir base coll s1 = (q, s2)"
    and k: "kept view s s1"
  note e = publish_effect[OF laws p refl n(3,4) pl]
  have "kept view s1 s2" by (rule kept_copies) (rule conjunct1[OF e])
  with k have "kept view s s2" by (rule kept_trans)
  with e show "kept view s s2 \<and> (\<forall>pub. q = Inr pub \<longrightarrow> pb_sha256 pub = bk_sha bk source
    \<and> pb_remote_name pub \<in> {base, coll}
    \<and> copy_at view (bk_sha bk) source s2 (join_path [join_path [bk_path bk, dir], pb_remote_name pub]))"
    by simp
qed

lemma cleanup_kept:
  assumes bk: "backup_ok bk view" and "plain base" "plain coll" "plain dir"
    and run: "cleanup_remote_temporaries (bk_conn bk) (bk_path bk) now rounds dir [base, coll] candidates s = (r, s')"
  shows "kept view s s'"
proof -
  have laws: "smb_laws (bk_conn bk) view" using bk by (simp add: backup_ok_def)
  have "\<forall>n\<in>set [base, coll]. plain (join_path [join_path [bk_path bk, dir], n @ ''.tmp''])"
    using assms(1-4) by (auto intro!: join_path_plain simp: backup_ok_def)
  note fr = cleanup_frames[OF laws this, of candidates now rounds]
  show ?thesis
  proof (rule kept_frames[OF fr run], rule ballI)
    fix p assume "p \<in> stale_temporaries (join_path [bk_path bk, dir]) [base, coll] candidates now rounds"
    then obtain n where "p = join_path [join_path [bk_path bk, dir], n @ ''.tmp'']"
      by (auto simp: stale_temporaries_def)
    then show "is_tmp p" by simp
  qed
qed


section \<open>One backup\<close>

lemma on_remote_eq: "on_remote m s = (r, s') \<longleftrightarrow> (\<exists>x. m (sy_remote s) = (r, x) \<and> s' = s\<lparr>sy_remote := x\<rparr>)"
  by (auto simp: on_remote_def split: prod.splits)

lemma on_dir_eq: "on_dir m s = (r, s') \<longleftrightarrow> (\<exists>d. m (sy_dir s) = (r, d) \<and> s' = s\<lparr>sy_dir := d\<rparr>)"
  by (auto simp: on_dir_def split: prod.splits)

lemma convert_to_wav_other:
  "convert_to_wav ffmpeg os ch d = (r, d') \<Longrightarrow> n \<notin> {wav_path ch, tmp_wav_path ch} \<Longrightarrow> dget d' n = dget d n"
  by (auto simp: convert_to_wav_def unlink_missing_ok_def split: sum.splits option.splits if_splits ffmpeg_run.splits)

lemma convert_missing_other:
  "convert_missing ffmpeg os ch d = (r, d') \<Longrightarrow> n \<notin> {wav_path ch, tmp_wav_path ch} \<Longrightarrow> dget d' n = dget d n"
  using convert_to_wav_other[of ffmpeg os ch d]
  by (auto simp: convert_missing_def split: if_splits prod.splits sum.splits)

definition mono_files :: "string set" where
  "mono_files = {''tx.wav'', ''tx.tmp.wav'', ''rx.wav'', ''rx.tmp.wav''}"

lemma ensure_mono_pair_other:
  assumes "ensure_mono_pair ffmpeg os ttl cid ow d = (r, d')" and "n \<notin> mono_files \<union> lease_files ''conversion''"
  shows "dget d' n = dget d n"
proof (cases "needs_conversion d")
  case False
  with assms show ?thesis by (simp add: ensure_mono_pair_def)
next
  case True
  obtain q d1 where a: "acquire_lease os ttl d ''conversion'' cid ow None None = (q, d1)" by force
  have d1: "dget d1 n = dget d n" using acquire_lease_other[OF a] assms(2) by blast
  show ?thesis
  proof (cases q)
    case (Inl e)
    with assms(1) True a d1 show ?thesis by (simp add: ensure_mono_pair_def)
  next
    case (Inr lease)
    obtain q2 d2 where f: "convert_both ffmpeg os d1 = (q2, d2)" by force
    have d2: "dget d2 n = dget d n"
    proof (rule for_p_inv[where P = "\<lambda>x. dget x n = dget d n", OF _ d1 f[unfolded convert_both_def]])
      fix ch x qq y
      assume "ch \<in> set [''tx'', ''rx'']" "dget x n = dget d n" "convert_missing ffmpeg os ch x = (qq, y)"
      with assms(2) show "dget y n = dget d n"
        by (auto simp: mono_files_def wav_path_def tmp_wav_path_def dest!: convert_missing_other[where n = n])
    qed
    obtain q3 d3 where rel: "release_lease os d2 ''conversion'' (lease_owner lease) = (q3, d3)" by force
    have "dget d3 n = dget d2 n" using release_lease_other[OF rel] assms(2) by blast
    moreover have "d' = d3"
      using assms(1) True a Inr f rel by (auto simp: ensure_mono_pair_def split: sum.splits)
    ultimately show ?thesis using d2 by simp
  qed
qed

lemma ensure_mono_pair_pair:
  assumes "ensure_mono_pair ffmpeg os ttl cid ow d = (Inr (Some pair), d')"
  shows "pair = (''tx.wav'', ''rx.wav'')" and "path_exists d' ''tx.wav''" and "path_exists d' ''rx.wav''"
  using assms by (auto simp: ensure_mono_pair_def mono_pair_def split: if_splits prod.splits sum.splits)

lemma generate_stereo_effect:
  assumes "generate_stereo ffmpeg os pair d = (r, d')"
  shows "n \<notin> {''stereo.wav'', ''stereo.tmp.wav''} \<Longrightarrow> dget d' n = dget d n"
    and "r = Inr p \<Longrightarrow> \<exists>w. ffmpeg (file_content d (fst pair)) (file_content d (snd pair)) = Converted w
      \<and> file_content d' ''stereo.wav'' = Wav w"
  using assms
  by (auto simp: generate_stereo_def drop_stereo_tmp_def unlink_missing_ok_def file_content_def wav_file_def new_file_def
      split: prod.splits if_splits ffmpeg_run.splits option.splits sum.splits)

lemma transfer_stereo_effect:
  assumes bk: "backup_ok bk view" and nm: "transfer_names t call_id md = Inr (base, coll)" and d: "plain dir"
    and run: "transfer_stereo bk env dir base coll candidates s = (r, s')"
  shows "kept view (sy_remote s) (sy_remote s')
    \<and> (\<forall>n. n \<notin> {marker_file ''smb'', ''stereo.wav''} \<longrightarrow> dget (sy_dir s') n = dget (sy_dir s) n)
    \<and> (\<forall>res. r = Inr res \<longrightarrow> (\<exists>c pub. res = SyncDone c pub \<and> is_file (sy_dir s') (marker_file ''smb'')
        \<and> pb_sha256 pub = bk_sha bk (bk_bytes bk (file_content (sy_dir s) ''stereo.wav''))
        \<and> pb_remote_name pub \<in> {base, coll}
        \<and> copy_at view (bk_sha bk) (bk_bytes bk (file_content (sy_dir s) ''stereo.wav'')) (sy_remote s')
            (join_path [join_path [bk_path bk, dir], pb_remote_name pub])))"
proof -
  note n = transfer_names_ok[OF nm]
  obtain q s1 where c: "on_remote (cleanup_remote_temporaries (bk_conn bk) (bk_path bk) (sv_now env) (bk_rounds bk) dir
             [base, coll] candidates) s = (q, s1)" by force
  then have k1: "kept view (sy_remote s) (sy_remote s1)" and s1: "sy_dir s1 = sy_dir s"
    using cleanup_kept[OF bk n(1,2) d] by (auto simp: on_remote_eq)
  show ?thesis
  proof (cases q)
    case (Inl e)
    with run c k1 s1 show ?thesis by (auto simp: transfer_stereo_def)
  next
    case (Inr updated)
    let ?src = "bk_bytes bk (file_content (sy_dir s) ''stereo.wav'')"
    obtain q2 s2 where p: "on_remote (publish_with_retry (bk_conn bk)
                 (publish (bk_conn bk) (bk_sha bk) (bk_limiter bk) (bk_path bk) ?src dir base coll)
                 RETRY_DELAYS_SECONDS) s1 = (q2, s2)" by force
    then obtain x where x: "publish_with_retry (bk_conn bk)
         (publish (bk_conn bk) (bk_sha bk) (bk_limiter bk) (bk_path bk) ?src dir base coll)
         RETRY_DELAYS_SECONDS (sy_remote s1) = (q2, x)" and s2: "s2 = s1\<lparr>sy_remote := x\<rparr>"
      by (auto simp: on_remote_eq)
    note e = publish_retry_effect[OF bk nm d x]
    have k2: "kept view (sy_remote s) (sy_remote s2)" using kept_trans[OF k1] e s2 by simp
    show ?thesis
    proof (cases q2)
      case e2: (Inl e2)
      have "r = Inl e2 \<and> sy_remote s' = sy_remote s2 \<and> sy_dir s' = sy_dir s2"
        using run c Inr p e2 s1 by (auto simp: transfer_stereo_def split: if_splits)
      with k2 s1 s2 show ?thesis by simp
    next
      case q2: (Inr pub)
      have fin: "bindp (on_dir (mark_consumed (sv_work env) ''smb'')) (\<lambda>_.
             bindp (on_dir unlink_stereo) (\<lambda>_. ret (SyncDone (JObj updated) pub))) s2 = (r, s')"
        using run c Inr p q2 s1 by (simp add: transfer_stereo_def)
      have mk: "\<And>q3 d3. mark_consumed (sv_work env) ''smb'' (sy_dir s2) = (q3, d3) \<Longrightarrow>
          \<forall>n. n \<noteq> marker_file ''smb'' \<longrightarrow> dget d3 n = dget (sy_dir s2) n"
        by (auto simp: mark_consumed_def marker_def split: if_splits)
      have un: "\<And>q3 dd d3. unlink_stereo dd = (q3, d3) \<Longrightarrow> \<forall>n. n \<noteq> ''stereo.wav'' \<longrightarrow> dget d3 n = dget dd n"
        by (auto simp: unlink_stereo_def unlink_missing_ok_def split: option.splits if_splits)
      have r: "sy_remote s' = x"
        using fin s2 by (auto simp: bindp_def on_dir_def split: prod.splits sum.splits)
      have dir: "\<forall>n. n \<notin> {marker_file ''smb'', ''stereo.wav''} \<longrightarrow> dget (sy_dir s') n = dget (sy_dir s) n"
        using fin mk un s2 s1
        by (auto simp: bindp_def on_dir_def split: prod.splits sum.splits)
      have doneI: "res = SyncDone (JObj updated) pub \<and> is_file (sy_dir s') (marker_file ''smb'')" if res: "r = Inr res" for res
      proof -
        from fin res obtain m d3 d4 where m: "mark_consumed (sv_work env) ''smb'' (sy_dir s2) = (Inr m, d3)"
          and u: "unlink_stereo d3 = (Inr (), d4)" and z: "res = SyncDone (JObj updated) pub" "sy_dir s' = d4"
          by (auto simp: bindp_eq_Inr on_dir_eq)
        have "marker_file ''smb'' \<noteq> ''stereo.wav''" by (simp add: marker_file_def)
        then have "dget d4 (marker_file ''smb'') = dget d3 (marker_file ''smb'')" using un[OF u] by simp
        with mark_consumed_get(3)[OF m] z show ?thesis by (simp add: is_file_def)
      qed
      show ?thesis using k2 s2 r dir doneI e q2 by (auto simp: copy_at_def)
    qed
  qed
qed


text \<open>The files a backup may change besides the lease files.\<close>

definition smb_files :: "string set" where
  "smb_files = mono_files \<union> lease_files ''conversion'' \<union> {''stereo.wav'', ''stereo.tmp.wav'', marker_file ''smb''}"

lemma unbounded_effect:
  assumes bk: "backup_ok bk view" and run: "process_call_unbounded bk env tenant call_id md ow s = (r, s')"
  shows "kept view (sy_remote s) (sy_remote s')
    \<and> (\<forall>n. n \<notin> smb_files \<longrightarrow> dget (sy_dir s') n = dget (sy_dir s) n)
    \<and> (\<forall>c pub. r = Inr (SyncDone c pub) \<longrightarrow> is_file (sy_dir s') (marker_file ''smb'')
        \<and> (\<exists>w d. sv_stereo env (file_content (sy_dir s') ''tx.wav'') (file_content (sy_dir s') ''rx.wav'') = Converted w
          \<and> pb_sha256 pub = bk_sha bk (bk_bytes bk (Wav w))
          \<and> copy_at view (bk_sha bk) (bk_bytes bk (Wav w)) (sy_remote s') (join_path [d, pb_remote_name pub])))"
proof -
  obtain q s1 where 1: "on_dir (ensure_mono_pair (sv_ffmpeg env) (sv_work env) (bk_ttl bk) call_id ow) s = (q, s1)" by force
  then obtain d1 where d1: "ensure_mono_pair (sv_ffmpeg env) (sv_work env) (bk_ttl bk) call_id ow (sy_dir s) = (q, d1)"
    and s1: "s1 = s\<lparr>sy_dir := d1\<rparr>" by (auto simp: on_dir_eq)
  have f1: "\<forall>n. n \<notin> smb_files \<longrightarrow> dget d1 n = dget (sy_dir s) n"
    using ensure_mono_pair_other[OF d1] by (simp add: smb_files_def)
  show ?thesis
  proof (cases "\<exists>pair. q = Inr (Some pair)")
    case False
    then have "(\<exists>e. q = Inl e) \<or> q = Inr None" by (cases q) (metis, metis not_Some_eq)
    with run 1 have "sy_remote s' = sy_remote s" "sy_dir s' = d1" "\<nexists>c pub. r = Inr (SyncDone c pub)"
      using s1 by (auto simp: process_call_unbounded_def)
    with f1 show ?thesis by auto
  next
    case True
    then obtain pair where q: "q = Inr (Some pair)" by blast
    note pr = ensure_mono_pair_pair[OF d1[unfolded q]]
    obtain q2 s2 where 2: "on_dir (generate_stereo (sv_stereo env) (sv_work env) pair) s1 = (q2, s2)" by force
    then obtain d2 where d2: "generate_stereo (sv_stereo env) (sv_work env) pair d1 = (q2, d2)"
      and s2: "s2 = s1\<lparr>sy_dir := d2\<rparr>" by (auto simp: on_dir_eq s1)
    have f2: "\<forall>n. n \<notin> smb_files \<longrightarrow> dget d2 n = dget (sy_dir s) n"
      using generate_stereo_effect(1)[OF d2] f1 by (simp add: smb_files_def)
    let ?t = "case md_started md of None \<Rightarrow> sv_mtime env | Some t \<Rightarrow> t"
    show ?thesis
    proof (cases "(\<exists>e. q2 = Inl e) \<or> (\<exists>e. transfer_names ?t call_id md = Inl e)")
      case True
      with run 1 q 2 have "s' = s2" "\<nexists>x. r = Inr x"
        by (auto simp: process_call_unbounded_def Let_def split: sum.splits)
      with f2 s1 s2 show ?thesis by auto
    next
      case False
      then obtain p base coll where q2: "q2 = Inr p" and nm: "transfer_names ?t call_id md = Inr (base, coll)"
        by (cases q2; cases "transfer_names ?t call_id md") auto
      have tr: "transfer_stereo bk env (build_remote_directory tenant ?t) base coll (md_candidates md) s2 = (r, s')"
        using run 1 q 2 q2 nm by (simp add: process_call_unbounded_def Let_def)
      note e = transfer_stereo_effect[OF bk nm remote_directory_plain tr]
      note e2 = conjunct1[OF conjunct2[OF e]]
      have f3: "\<forall>n. n \<notin> smb_files \<longrightarrow> dget (sy_dir s') n = dget (sy_dir s) n"
        using e2 f2 s2 by (simp add: smb_files_def)
      obtain w where w: "sv_stereo env (file_content d1 ''tx.wav'') (file_content d1 ''rx.wav'') = Converted w"
        "file_content d2 ''stereo.wav'' = Wav w"
        using generate_stereo_effect(2)[OF d2 q2] pr(1) by auto
      have "dget (sy_dir s') n = dget d1 n" if "n = ''tx.wav'' \<or> n = ''rx.wav''" for n
      proof -
        have "n \<notin> {marker_file ''smb'', ''stereo.wav''}" "n \<notin> {''stereo.wav'', ''stereo.tmp.wav''}"
          using that by (auto simp: marker_file_def)
        then show ?thesis using e2 generate_stereo_effect(1)[OF d2, of n] s2 by simp
      qed
      then have "file_content (sy_dir s') ''tx.wav'' = file_content d1 ''tx.wav''"
        "file_content (sy_dir s') ''rx.wav'' = file_content d1 ''rx.wav''"
        by (simp_all add: file_content_def)
      then have w': "sv_stereo env (file_content (sy_dir s') ''tx.wav'') (file_content (sy_dir s') ''rx.wav'') = Converted w"
        "file_content (sy_dir s2) ''stereo.wav'' = Wav w"
        using w s2 by simp_all
      have res: "is_file (sy_dir s') (marker_file ''smb'') \<and> pb_sha256 pub = bk_sha bk (bk_bytes bk (Wav w))
          \<and> (\<exists>d. copy_at view (bk_sha bk) (bk_bytes bk (Wav w)) (sy_remote s') (join_path [d, pb_remote_name pub]))"
        if "r = Inr (SyncDone c pub)" for c pub
        using e that unfolding w'(2) by blast
      have "kept view (sy_remote s) (sy_remote s')" using e s1 s2 by simp
      with f3 res w'(1) show ?thesis by blast
    qed
  qed
qed

lemma stage_smb_not_smb_files [simp]: "stage_file ''smb'' \<notin> smb_files"
  by (simp add: smb_files_def mono_files_def lease_files_def stage_file_def LIFECYCLE_LOCK_FILE_def marker_file_def)

lemma turn_effect:
  assumes "renew_turn ttl cid (Some ow) os d = (r, d')"
  shows "n \<notin> lease_files ''smb'' \<Longrightarrow> dget d' n = dget d n"
    and "lease_held d ''smb'' ow \<Longrightarrow> (r = Inr () \<longrightarrow> lease_held d' ''smb'' ow)
      \<and> (lease_held d' ''smb'' ow \<or> dget d' (stage_file ''smb'') = None)"
proof -
  obtain q where q: "renew_lease os ttl d ''smb'' ow None None = (q, d')" "r = Inr () \<Longrightarrow> q = Inr True"
    using assms by (auto simp: renew_turn_def split: prod.splits sum.splits bool.splits)
  show "n \<notin> lease_files ''smb'' \<Longrightarrow> dget d' n = dget d n" using renew_lease_other[OF q(1)] .
  assume h: "lease_held d ''smb'' ow"
  show "(r = Inr () \<longrightarrow> lease_held d' ''smb'' ow) \<and> (lease_held d' ''smb'' ow \<or> dget d' (stage_file ''smb'') = None)"
    using held_renewed[OF h] held_not_renewed[OF h] q by (cases "q = Inr True") auto
qed

lemma turns_effect:
  assumes "for_p (renew_turn ttl cid (Some ow)) ticks d = (r, d')"
  shows "n \<notin> lease_files ''smb'' \<Longrightarrow> dget d' n = dget d n"
    and "lease_held d ''smb'' ow \<Longrightarrow> lease_held d' ''smb'' ow \<or> dget d' (stage_file ''smb'') = None"
proof -
  assume "n \<notin> lease_files ''smb''"
  then show "dget d' n = dget d n"
    by (intro for_p_inv[where P = "\<lambda>x. dget x n = dget d n", OF _ refl assms]) (use turn_effect(1) in metis)
next
  show "lease_held d ''smb'' ow \<Longrightarrow> lease_held d' ''smb'' ow \<or> dget d' (stage_file ''smb'') = None"
    using assms
  proof (induction ticks arbitrary: d)
    case Nil
    then show ?case by simp
  next
    case (Cons os ticks)
    obtain q d1 where q: "renew_turn ttl cid (Some ow) os d = (q, d1)" by force
    from turn_effect(2)[OF q Cons.prems(1)] Cons.IH[of d1] Cons.prems(2) q show ?case
      by (cases q) auto
  qed
qed

text \<open>A call that gets its lease: the operation ran on a directory that differs in the lease files only,
  and at the end the lease is gone.\<close>

lemma process_call_between:
  assumes bk: "backup_ok bk view" and run: "process_call bk env tenant call_id md s = (r, s')"
    and a: "acquire_lease (sv_os env) (bk_ttl bk) (sy_dir s) ''smb'' call_id None None None = (Inr lease, d)"
  shows "\<exists>renewed d1 q s1 d2. for_p (renew_turn (bk_ttl bk) call_id (Some (lease_owner lease))) (sv_ticks env) d = (renewed, d1)
    \<and> process_call_unbounded bk env tenant call_id md (Some (lease_owner lease)) (s\<lparr>sy_dir := d1\<rparr>) = (q, s1)
    \<and> s' = s1\<lparr>sy_dir := d2\<rparr> \<and> (\<forall>n. n \<notin> lease_files ''smb'' \<longrightarrow> dget d2 n = dget (sy_dir s1) n)
    \<and> (\<forall>c pub. r = Inr (SyncDone c pub) \<longrightarrow> q = Inr (SyncDone c pub))
    \<and> (uuid_ok (env_uuid (sv_os env)) \<and> call_id \<noteq> [] \<longrightarrow> dget d2 (stage_file ''smb'') = None
        \<and> (isl renewed \<longrightarrow> r = Inl (NameError ''record_lease_failure'')))"
proof -
  obtain renewed d1 where t: "for_p (renew_turn (bk_ttl bk) call_id (Some (lease_owner lease))) (sv_ticks env) d = (renewed, d1)"
    by force
  obtain q s1 where u: "process_call_unbounded bk env tenant call_id md (Some (lease_owner lease)) (s\<lparr>sy_dir := d1\<rparr>) = (q, s1)"
    by force
  obtain q2 d2 where rel: "release_lease (sv_end env) (sy_dir s1) ''smb'' (lease_owner lease) = (q2, d2)" by force
  have s': "s' = s1\<lparr>sy_dir := d2\<rparr>" and dn: "r = Inr (SyncDone c pub) \<Longrightarrow> q = Inr (SyncDone c pub)"
    and lost: "isl renewed \<Longrightarrow> \<exists>b. q2 = Inr b \<Longrightarrow> r = Inl (NameError ''record_lease_failure'')" for c pub
    using run a t u rel
    by (auto simp: process_call_def Let_def split: sum.splits wait_fate.splits)
  have gone: "(\<exists>b. q2 = Inr b) \<and> dget d2 (stage_file ''smb'') = None" if "uuid_ok (env_uuid (sv_os env))" "call_id \<noteq> []"
  proof -
    have "lease_held d1 ''smb'' (lease_owner lease) \<or> dget d1 (stage_file ''smb'') = None"
      using turns_effect(2)[OF t acquired_held[OF a that]] .
    moreover have "dget (sy_dir s1) (stage_file ''smb'') = dget d1 (stage_file ''smb'')"
      using unbounded_effect[OF bk u] by simp
    ultimately have "lease_held (sy_dir s1) ''smb'' (lease_owner lease) \<or> dget (sy_dir s1) (stage_file ''smb'') = None"
      using lease_held_cong[of "sy_dir s1" "''smb''" d1] by simp
    from release_after_hold[OF this acquire_lease_written(2)[OF a], of "sv_end env"] rel show ?thesis by auto
  qed
  show ?thesis using t u s' release_lease_other[OF rel] dn gone lost by blast
qed

lemma process_call_effect:
  assumes bk: "backup_ok bk view" and run: "process_call bk env tenant call_id md s = (r, s')"
  shows "kept view (sy_remote s) (sy_remote s')"
    and "\<And>c pub. r = Inr (SyncDone c pub) \<Longrightarrow> is_file (sy_dir s') (marker_file ''smb'')
        \<and> (\<exists>w d. sv_stereo env (file_content (sy_dir s') ''tx.wav'') (file_content (sy_dir s') ''rx.wav'') = Converted w
          \<and> pb_sha256 pub = bk_sha bk (bk_bytes bk (Wav w))
          \<and> copy_at view (bk_sha bk) (bk_bytes bk (Wav w)) (sy_remote s') (join_path [d, pb_remote_name pub]))"
proof -
  obtain q d where a: "acquire_lease (sv_os env) (bk_ttl bk) (sy_dir s) ''smb'' call_id None None None = (q, d)" by force
  have "kept view (sy_remote s) (sy_remote s') \<and> (\<forall>c pub. r = Inr (SyncDone c pub) \<longrightarrow> is_file (sy_dir s') (marker_file ''smb'')
        \<and> (\<exists>w d. sv_stereo env (file_content (sy_dir s') ''tx.wav'') (file_content (sy_dir s') ''rx.wav'') = Converted w
          \<and> pb_sha256 pub = bk_sha bk (bk_bytes bk (Wav w))
          \<and> copy_at view (bk_sha bk) (bk_bytes bk (Wav w)) (sy_remote s') (join_path [d, pb_remote_name pub])))"
  proof (cases q)
    case (Inl e)
    then have "s' = s\<lparr>sy_dir := d\<rparr>" "\<nexists>c pub. r = Inr (SyncDone c pub)"
      using run a by (auto simp: process_call_def split: if_splits)
    then show ?thesis by simp
  next
    case (Inr lease)
    from process_call_between[OF bk run a[unfolded Inr]] obtain d1 q1 s1 d2 where
      u: "process_call_unbounded bk env tenant call_id md (Some (lease_owner lease)) (s\<lparr>sy_dir := d1\<rparr>) = (q1, s1)"
      and s': "s' = s1\<lparr>sy_dir := d2\<rparr>" and keep: "\<And>n. n \<notin> lease_files ''smb'' \<Longrightarrow> dget d2 n = dget (sy_dir s1) n"
      and dn: "\<And>c pub. r = Inr (SyncDone c pub) \<Longrightarrow> q1 = Inr (SyncDone c pub)"
      by blast
    note e = unbounded_effect[OF bk u]
    have "file_content d2 ''tx.wav'' = file_content (sy_dir s1) ''tx.wav''" "file_content d2 ''rx.wav'' = file_content (sy_dir s1) ''rx.wav''"
      "is_file d2 (marker_file ''smb'') = is_file (sy_dir s1) (marker_file ''smb'')"
      using keep by (simp_all add: file_content_def is_file_def lease_files_def stage_file_def LIFECYCLE_LOCK_FILE_def marker_file_def)
    with e dn s' show ?thesis by simp
  qed
  then show "kept view (sy_remote s) (sy_remote s')"
    and "\<And>c pub. r = Inr (SyncDone c pub) \<Longrightarrow> is_file (sy_dir s') (marker_file ''smb'')
        \<and> (\<exists>w d. sv_stereo env (file_content (sy_dir s') ''tx.wav'') (file_content (sy_dir s') ''rx.wav'') = Converted w
          \<and> pb_sha256 pub = bk_sha bk (bk_bytes bk (Wav w))
          \<and> copy_at view (bk_sha bk) (bk_bytes bk (Wav w)) (sy_remote s') (join_path [d, pb_remote_name pub]))"
    by blast+
qed


text \<open>C14. What a backup that reports done has done: the share holds a copy of the stereo mix of the two
  channels under the logged name and checksum, the call directory has the marker the cleanup waits
  for, and the lease of the stage is gone.\<close>

theorem done_backup_is_on_the_share:
  assumes bk: "backup_ok bk view" and run: "process_call bk env tenant call_id md s = (Inr (SyncDone c pub), s')"
    and ids: "uuid_ok (env_uuid (sv_os env))" "call_id \<noteq> []"
  shows "(\<exists>w d. sv_stereo env (file_content (sy_dir s') ''tx.wav'') (file_content (sy_dir s') ''rx.wav'') = Converted w
      \<and> pb_sha256 pub = bk_sha bk (bk_bytes bk (Wav w))
      \<and> copy_at view (bk_sha bk) (bk_bytes bk (Wav w)) (sy_remote s') (join_path [d, pb_remote_name pub]))
    \<and> is_file (sy_dir s') (marker_file ''smb'') \<and> dget (sy_dir s') (stage_file ''smb'') = None"
proof -
  note e = process_call_effect(2)[OF bk run refl]
  obtain lease d where a: "acquire_lease (sv_os env) (bk_ttl bk) (sy_dir s) ''smb'' call_id None None None = (Inr lease, d)"
    using run by (auto simp: process_call_def split: prod.splits sum.splits if_splits)
  have "dget (sy_dir s') (stage_file ''smb'') = None"
    using process_call_between[OF bk run a] ids by auto
  with e show ?thesis by blast
qed

section \<open>The cycle\<close>

lemma after_result_remote [simp]: "cy_remote (snd (after_result folder env t c md p res cy)) = cy_remote cy"
  by (simp add: after_result_def Let_def split: sum.splits)

lemma after_error_remote [simp]: "cy_remote (snd (after_error env t c p att e cy)) = cy_remote cy"
  by (simp add: after_error_def Let_def)

lemma backup_call_kept:
  assumes bk: "backup_ok bk view" and run: "backup_call bk folder env t c d prev cy = (r, cy')"
  shows "kept view (cy_remote cy) (cy_remote cy')"
proof (cases "resolve_call_metadata c (ce_rows env) (sv_mtime (ce_sync env))")
  case (Inl e)
  then have "cy' = snd (after_error env t c prev None e cy)" using run by (simp add: backup_call_def)
  then show ?thesis by simp
next
  case (Inr md0)
  let ?md = "md0\<lparr>md_candidates := get_or prev ''remote_tmp_candidates'' (JObj [])\<rparr>"
  obtain q s where p: "process_call bk (ce_sync env) t c ?md
      \<lparr>sy_dir = d, sy_remote = cy_remote cy, sy_metrics = cy_metrics cy, sy_attached = None\<rparr> = (q, s)" by force
  have k: "kept view (cy_remote cy) (sy_remote s)" using process_call_effect(1)[OF bk p] by simp
  let ?c1 = "put_dir (t, c) (sy_dir s) (cy\<lparr>cy_remote := sy_remote s, cy_metrics := sy_metrics s\<rparr>)"
  have "cy_remote ?c1 = sy_remote s" by (simp add: put_dir_def)
  moreover have "cy' = (case q of Inl e \<Rightarrow> snd (after_error env t c prev (sy_attached s) e ?c1)
      | Inr res \<Rightarrow> snd (after_result folder env t c ?md prev res ?c1))"
    using run Inr p by (cases q) (simp_all add: backup_call_def)
  ultimately have "cy_remote cy' = sy_remote s" by (cases q) simp_all
  with k show ?thesis by simp
qed

lemma cycle_turn_kept:
  assumes bk: "backup_ok bk view" and run: "cycle_turn bk folder env t c cy = (r, cy')"
  shows "kept view (cy_remote cy) (cy_remote cy')"
proof -
  obtain ok b where b: "allows_request (ce_mono env) (cy_breaker cy) = (ok, b)" by force
  let ?cy = "cy\<lparr>cy_breaker := b\<rparr>"
  have "cy_remote cy' = cy_remote cy \<or> (\<exists>d prev q. backup_call bk folder env t c d prev ?cy = (q, cy'))"
    using run b by (auto simp: cycle_turn_def Let_def split: bool.splits if_splits sum.splits prod.splits)
  then show ?thesis using backup_call_kept[OF bk, of folder env t c _ _ ?cy _ cy'] by (auto simp: kept_def)
qed

lemma cycle_loop_kept:
  "backup_ok bk view \<Longrightarrow> cycle_loop bk folder lname envs calls cy = (r, cy') \<Longrightarrow> kept view (cy_remote cy) (cy_remote cy')"
proof (induction bk folder lname envs calls cy arbitrary: r rule: cycle_loop.induct)
  case (1 bk folder lname envs c)
  then show ?case by simp
next
  case (2 bk folder lname envs t c calls cy)
  obtain q cy1 where q: "cycle_turn bk folder (envs (t, c)) t c cy = (q, cy1)" by force
  have k: "kept view (cy_remote cy) (cy_remote cy1)" by (rule cycle_turn_kept[OF "2.prems"(1) q])
  consider "cy' = cy1" | "q = Inr Skip" "cycle_loop bk folder lname envs calls cy1 = (r, cy')"
    | files where "q = Inr Logged" "save_transfer_log (ce_log (envs (t, c))) lname (cy_log cy1) (cy_files cy1) = Inr files"
        "cycle_loop bk folder lname envs calls (cy1\<lparr>cy_files := files\<rparr>) = (r, cy')"
    using "2.prems"(2) q by (auto split: sum.splits turn.splits)
  then show ?case
  proof cases
    case 1
    with k show ?thesis by simp
  next
    case 2
    from "2.IH"(1)[OF q[symmetric] this(1) refl "2.prems"(1) this(2)] k show ?thesis by (rule kept_trans[rotated])
  next
    case 3
    have "kept view (cy_remote (cy1\<lparr>cy_files := files\<rparr>)) (cy_remote cy')"
      by (rule "2.IH"(2)[OF q[symmetric] 3(1) refl 3(2) "2.prems"(1) 3(3)])
    then have "kept view (cy_remote cy1) (cy_remote cy')" by simp
    with k show ?thesis by (rule kept_trans)
  qed
qed

text \<open>C13. A backup cycle never harms the share: whatever happens in it, timeouts, name collisions and
  failures of the connection included, every file of the share other than the temporaries is there
  afterwards with the same bytes.\<close>

theorem cycle_keeps_the_share:
  assumes "backup_ok bk view" and "run_cycle cfg bk folder lname os renames tick elapsed envs cy = (r, cy')"
    and "view (cy_remote cy) p = Some data" and "\<not> suffix_of ''.tmp'' p"
  shows "view (cy_remote cy') p = Some data"
proof -
  have "kept view (cy_remote cy) (cy_remote cy')"
  proof -
    have bk: "backup_ok (bk\<lparr>bk_limiter := li\<rparr>) view" for li
      using assms(1) by (simp add: backup_ok_def)
    consider "cy_remote cy' = cy_remote cy"
      | li c2 q c3 where "cycle_loop (bk\<lparr>bk_limiter := li\<rparr>) folder lname envs (map fst (cy_dirs cy)) c2 = (q, c3)"
          "cy_remote c2 = cy_remote cy" "cy_remote cy' = cy_remote c3"
      using assms(2) by (auto simp: run_cycle_def Let_def split: if_splits prod.splits sum.splits bool.splits)
    then show ?thesis
    proof cases
      case 1
      then show ?thesis by (simp add: kept_def)
    next
      case 2
      from cycle_loop_kept[OF bk 2(1)] 2(2,3) show ?thesis by simp
    qed
  qed
  with assms(3,4) show ?thesis by (simp add: kept_def is_tmp_def)
qed

text \<open>A lost lease stops the cycle: when a renewal of a call fails, \<open>process_call\<close> raises
  NameError, because \<open>record_lease_failure\<close> is not imported; no clause of the loop catches it, so
  the calls after it are not backed up and nothing of the turn is logged.\<close>

theorem lost_lease_stops_the_cycle:
  assumes "allows_request (ce_mono (envs (t, c))) (cy_breaker cy) = (True, b)"
    and "map_of (cy_dirs cy) (t, c) = Some d" and "jget (log_entry (cy_log cy) (log_key t c)) ''status'' \<noteq> Some (JStr ''done'')"
    and "has_valid_lease (sv_os (ce_sync (envs (t, c)))) d None = Inr False" and "has_stable_mono_input d"
    and "ce_rows (envs (t, c)) = Inr rows"
    and "acquire_lease (sv_os (ce_sync (envs (t, c)))) (bk_ttl bk) d ''smb'' c None None None = (Inr lease, d1)"
    and "fst (for_p (renew_turn (bk_ttl bk) c (Some (lease_owner lease))) (sv_ticks (ce_sync (envs (t, c)))) d1) = Inl e"
    and "uuid_ok (env_uuid (sv_os (ce_sync (envs (t, c)))))" and "c \<noteq> []"
    and bk: "backup_ok bk view" and loop: "cycle_loop bk folder lname envs ((t, c) # calls) cy = (r, cy')"
  shows "r = Inl (NameError ''record_lease_failure'') \<and> cy_log cy' = cy_log cy \<and> cy_files cy' = cy_files cy
    \<and> (\<forall>k. k \<noteq> (t, c) \<longrightarrow> map_of (cy_dirs cy') k = map_of (cy_dirs cy) k)"
proof -
  let ?env = "envs (t, c)" and ?prev = "log_entry (cy_log cy) (log_key t c)"
  obtain md0 where md0: "resolve_call_metadata c (ce_rows ?env) (sv_mtime (ce_sync ?env)) = Inr md0"
    using assms(6) by (cases "load_call_metadata c rows") (simp_all add: resolve_call_metadata_def)
  let ?md = "md0\<lparr>md_candidates := get_or ?prev ''remote_tmp_candidates'' (JObj [])\<rparr>"
  let ?s = "\<lparr>sy_dir = d, sy_remote = cy_remote cy, sy_metrics = cy_metrics cy, sy_attached = None\<rparr>"
  obtain r0 s0 where run: "process_call bk (ce_sync ?env) t c ?md ?s = (r0, s0)" by force
  have "acquire_lease (sv_os (ce_sync ?env)) (bk_ttl bk) (sy_dir ?s) ''smb'' c None None None = (Inr lease, d1)"
    using assms(7) by simp
  from process_call_between[OF bk run this] assms(8-10) obtain s1 d2 where "s0 = s1\<lparr>sy_dir := d2\<rparr>"
    "r0 = Inl (NameError ''record_lease_failure'')"
    by auto
  with run have p: "process_call bk (ce_sync ?env) t c ?md ?s = (Inl (NameError ''record_lease_failure''), s1\<lparr>sy_dir := d2\<rparr>)"
    by simp
  let ?c1 = "put_dir (t, c) d2 (cy\<lparr>cy_breaker := b, cy_remote := sy_remote s1, cy_metrics := sy_metrics s1\<rparr>)"
  have "backup_call bk folder ?env t c d ?prev (cy\<lparr>cy_breaker := b\<rparr>) = (Inl (NameError ''record_lease_failure''), ?c1)"
    using md0 p by (simp add: backup_call_def after_error_def retried_def Let_def)
  then have "cycle_loop bk folder lname envs ((t, c) # calls) cy = (Inl (NameError ''record_lease_failure''), ?c1)"
    using assms(1-5) by (simp add: cycle_turn_def)
  with loop show ?thesis by (auto simp: put_dir_def AList.update_conv')
qed


section \<open>A small backup\<close>

definition mix_ffmpeg :: "content \<Rightarrow> content \<Rightarrow> ffmpeg_run" where
  "mix_ffmpeg tx rx = (case tx of Wav w \<Rightarrow> Converted (w\<lparr>wav_channels := 2\<rparr>) | _ \<Rightarrow> Exit 1 [])"

definition wav_bytes :: "content \<Rightarrow> bytes" where
  "wav_bytes c = (case c of Wav w \<Rightarrow> le_bytes (wav_frames w) | _ \<Rightarrow> [])"

definition sample_backup :: "mem backup" where
  "sample_backup = \<lparr>bk_conn = mem_conn, bk_sha = map (\<lambda>b. char_of (unat b)), bk_bytes = wav_bytes,
     bk_limiter = \<lparr>li_bytes_per_second = 1048576, li_chunk_size = 4\<rparr>, bk_path = ''rec'', bk_rounds = 900, bk_ttl = 120\<rparr>"

definition sync_env_of :: "os_env list \<Rightarrow> sync_env" where
  "sync_env_of ticks = \<lparr>sv_os = env_a, sv_work = env_a, sv_end = env_a, sv_now = 5, sv_mtime = 0,
     sv_ffmpeg = (\<lambda>_. Exit 1 []), sv_stereo = mix_ffmpeg, sv_ticks = ticks, sv_fate = OperationFirst\<rparr>"

definition mono_dir :: dir where
  "mono_dir = [(''tx.wav'', wav_file env_a (wav_of [1, 2])), (''rx.wav'', wav_file env_a (wav_of [3, 4]))]"

definition empty_share :: mem where
  "empty_share = \<lparr>mm_files = [(''rec/old.wav'', [9])], mm_clock = 0\<rparr>"

definition sample_md :: call_md where
  "sample_md = \<lparr>md_started = Some 0, md_caller = ''41'', md_callee = ''100'', md_candidates = JObj []\<rparr>"

lemma sample_backup_ok: "backup_ok sample_backup mem_view"
  using mem_laws by (simp add: backup_ok_def sample_backup_def)

definition is_done :: "exc + sync_result \<Rightarrow> bool" where
  "is_done r = (case r of Inr (SyncDone _ _) \<Rightarrow> True | _ \<Rightarrow> False)"

lemma is_doneD: "is_done r \<Longrightarrow> \<exists>c pub. r = Inr (SyncDone c pub)"
  by (auto simp: is_done_def split: sum.splits sync_result.splits)

lemma mono_dir_facts:
  "dget mono_dir (stage_file st) = None" "has_valid_lease env_a mono_dir None = Inr False" "has_stable_mono_input mono_dir"
  "\<exists>l d. acquire_lease env_a 120 mono_dir ''smb'' ''call-1'' None None None = (Inr l, d)"
proof -
  have g: "dget mono_dir (stage_file st) = None" for st
    by (simp add: mono_dir_def dget_def stage_file_def)
  then show "dget mono_dir (stage_file st) = None" .
  show "has_valid_lease env_a mono_dir None = Inr False"
    using g by (simp add: has_valid_lease_def LEASE_STAGES_def lease_path_eq read_lease_def load_json_def)
  show "has_stable_mono_input mono_dir"
    by (simp add: has_stable_mono_input_def mono_dir_def is_file_def dget_def wav_path_def wav_file_def new_file_def)
  have v: "lease_at mono_dir st = None" for st
    using g by (simp add: lease_at_def read_lease_def load_json_def)
  have r: "readable mono_dir" "plain_files mono_dir"
    using g by (simp_all add: readable_def plain_files_def read_lease_def load_json_def)
  have nc: "no_conflict mono_dir t ow" for t ow
    using v by (simp add: no_conflict_def active_lease_def)
  show "\<exists>l d. acquire_lease env_a 120 mono_dir ''smb'' ''call-1'' None None None = (Inr l, d)"
    using acquire_lease_refines_aux[of mono_dir env_a "''smb''" None "''call-1''" None 120 None] r nc
    by (auto simp: Let_def split: prod.splits)
qed

definition sample_source :: bytes where
  "sample_source = [1, 0, 2, 0]"

lemma sample_remote:
  "transfer_names 0 ''call-1'' sample_md = Inr (''1970-01-01-00-00-00-call-1-41-100.wav'', ''1970-01-01-00-00-00-call-1-41-100-desconhecido.wav'')"
  "build_remote_directory ''t'' 0 = ''t/1970-01-01''"
  "cleanup_remote_temporaries mem_conn ''rec'' 5 900 ''t/1970-01-01''
     [''1970-01-01-00-00-00-call-1-41-100.wav'', ''1970-01-01-00-00-00-call-1-41-100-desconhecido.wav''] (JObj []) empty_share
   = (Inr [], empty_share)"
  "\<not> isl (fst (publish mem_conn (map (\<lambda>b. char_of (unat b))) \<lparr>li_bytes_per_second = 1048576, li_chunk_size = 4\<rparr> ''rec''
     sample_source ''t/1970-01-01'' ''1970-01-01-00-00-00-call-1-41-100.wav'' ''1970-01-01-00-00-00-call-1-41-100-desconhecido.wav''
     empty_share))"
  by code_simp+

lemma sample_done:
  "\<exists>c pub s'. process_call sample_backup (sync_env_of []) ''t'' ''call-1'' sample_md
     \<lparr>sy_dir = mono_dir, sy_remote = empty_share, sy_metrics = [], sy_attached = None\<rparr> = (Inr (SyncDone c pub), s')"
proof -
  let ?env = "sync_env_of []"
  obtain lease d where a: "acquire_lease env_a 120 mono_dir ''smb'' ''call-1'' None None None = (Inr lease, d)"
    using mono_dir_facts(4) by blast
  note w = acquire_lease_written[OF a]
  have o: "dget d n = dget mono_dir n" if "n \<notin> lease_files ''smb''" for n
    using acquire_lease_other[OF a that] .
  have wav: "dget d ''tx.wav'' = Some (wav_file env_a (wav_of [1, 2]))" "dget d ''rx.wav'' = Some (wav_file env_a (wav_of [3, 4]))"
    "dget d ''stereo.wav'' = None" "dget d (marker_file ''smb'') = None"
    using o by (simp_all add: lease_files_def stage_file_def LIFECYCLE_LOCK_FILE_def mono_dir_def marker_file_def) (simp_all add: dget_def)
  let ?s = "\<lparr>sy_dir = d, sy_remote = empty_share, sy_metrics = [], sy_attached = None\<rparr>"
  have pair: "ensure_mono_pair (sv_ffmpeg ?env) env_a 120 ''call-1'' (Some (lease_owner lease)) d = (Inr (Some (''tx.wav'', ''rx.wav'')), d)"
    using wav by (simp add: ensure_mono_pair_def needs_conversion_def wants_wav_def path_exists_def wav_path_def mono_pair_def)
  let ?w = "wav_of [1, 2]\<lparr>wav_channels := 2\<rparr>"
  let ?d2 = "dput ''stereo.wav'' (wav_file env_a ?w) (ddel ''stereo.tmp.wav'' d)"
  have st: "generate_stereo mix_ffmpeg env_a (''tx.wav'', ''rx.wav'') d = (Inr ''stereo.wav'', ?d2)"
    using wav by (simp add: generate_stereo_def path_exists_def file_content_def mix_ffmpeg_def wav_file_def new_file_def)
  have src: "wav_bytes (file_content ?d2 ''stereo.wav'') = sample_source"
  proof -
    have "le_bytes [1, 2] = sample_source" by code_simp
    then show ?thesis by (simp add: file_content_def wav_file_def new_file_def wav_bytes_def wav_of_def)
  qed
  obtain pub x where p: "publish mem_conn (map (\<lambda>b. char_of (unat b))) \<lparr>li_bytes_per_second = 1048576, li_chunk_size = 4\<rparr> ''rec''
     sample_source ''t/1970-01-01'' ''1970-01-01-00-00-00-call-1-41-100.wav'' ''1970-01-01-00-00-00-call-1-41-100-desconhecido.wav''
     empty_share = (Inr pub, x)"
    using sample_remote(4) by (metis isl_def prod.exhaust_sel sum.exhaust_sel)
  have "consumer_name_ok ''smb''" by code_simp
  then obtain m d3 where mk: "mark_consumed env_a ''smb'' ?d2 = (Inr m, d3)" "dget d3 ''stereo.wav'' = dget ?d2 ''stereo.wav''"
    using wav(4) by (auto simp: mark_consumed_def env_a_def marker_file_def)
  then obtain d4 where un: "unlink_stereo d3 = (Inr (), d4)"
    by (auto simp: unlink_stereo_def unlink_missing_ok_def wav_file_def new_file_def)
  have u: "process_call_unbounded sample_backup ?env ''t'' ''call-1'' sample_md (Some (lease_owner lease)) ?s
      = (Inr (SyncDone (JObj []) pub), ?s\<lparr>sy_dir := d4, sy_remote := x\<rparr>)"
    using pair st src p mk(1) un sample_remote(1-3)
    by (simp add: process_call_unbounded_def on_dir_def on_remote_def sync_env_of_def sample_backup_def transfer_stereo_def
        sample_md_def RETRY_DELAYS_SECONDS_def bindp_def)
  have "dget d4 (stage_file ''smb'') = Some (json_file env_a (lease_payload lease))"
    using unbounded_effect[OF sample_backup_ok u] w(1) by simp
  then obtain b d5 where "release_lease env_a d4 ''smb'' (lease_owner lease) = (Inr b, d5)"
    using release_written[OF _ w(2)] by blast
  with a u show ?thesis by (simp add: process_call_def sync_env_of_def sample_backup_def)
qed

theorem done_backup_is_on_the_share_witness:
  "\<exists>c pub s' p w. process_call sample_backup (sync_env_of []) ''t'' ''call-1'' sample_md
     \<lparr>sy_dir = mono_dir, sy_remote = empty_share, sy_metrics = [], sy_attached = None\<rparr> = (Inr (SyncDone c pub), s')
   \<and> copy_at mem_view (bk_sha sample_backup) (wav_bytes (Wav w)) (sy_remote s') p \<and> is_file (sy_dir s') (marker_file ''smb'')"
proof -
  obtain c pub s' where run: "process_call sample_backup (sync_env_of []) ''t'' ''call-1'' sample_md
     \<lparr>sy_dir = mono_dir, sy_remote = empty_share, sy_metrics = [], sy_attached = None\<rparr> = (Inr (SyncDone c pub), s')"
    using sample_done by blast
  have "bk_bytes sample_backup = wav_bytes" "env_uuid (sv_os (sync_env_of [])) = uuid_a"
    by (simp_all add: sample_backup_def sync_env_of_def env_a_def)
  with done_backup_is_on_the_share[OF sample_backup_ok run] run show ?thesis by auto
qed

definition sample_cycle :: "mem cycle" where
  "sample_cycle = \<lparr>cy_dirs = [((''t'', ''call-1''), mono_dir)], cy_remote = empty_share, cy_metrics = [], cy_log = [],
     cy_files = [], cy_breaker = new_breaker, cy_completed = 0, cy_failed = 0\<rparr>"

definition sample_cycle_env :: "string \<times> string \<Rightarrow> cycle_env" where
  "sample_cycle_env _ = \<lparr>ce_sync = sync_env_of [env_a\<lparr>env_disk := False\<rparr>], ce_rows = Inr [], ce_mono = 0, ce_mono_failure = 0, ce_now = 0,
     ce_log = env_a\<rparr>"

theorem cycle_keeps_the_share_witness:
  "mem_view (cy_remote (snd (run_cycle (default_settings\<lparr>SMB_ENABLED := True\<rparr>) sample_backup [] ''log.json'' env_a True 0 0
     sample_cycle_env sample_cycle))) ''rec/old.wav'' = Some [9]"
proof -
  have "\<not> suffix_of ''.tmp'' ''rec/old.wav''" by (auto simp: suffix_of_def append_eq_Cons_conv Cons_eq_append_conv)
  then show ?thesis
    using cycle_keeps_the_share[OF sample_backup_ok prod.collapse[symmetric]]
    by (simp add: sample_cycle_def empty_share_def mem_view_def)
qed

lemma renewed_needs_disk: "renew_lease env ttl d stage owner now ttls = (Inr True, d') \<Longrightarrow> env_disk env"
  by (auto simp: renew_lease_def locked_call_directory_def renew_unlocked_def acquire_lease_unlocked_def write_doc_def
      write_exclusive_def Let_def split: sum.splits prod.splits if_splits)

theorem lost_lease_stops_the_cycle_witness:
  "fst (cycle_loop sample_backup [] ''log.json'' sample_cycle_env [(''t'', ''call-1''), (''t'', ''call-2'')] sample_cycle)
     = Inl (NameError ''record_lease_failure'')"
proof -
  obtain l d1 where a: "acquire_lease env_a 120 mono_dir ''smb'' ''call-1'' None None None = (Inr l, d1)"
    using mono_dir_facts(4) by blast
  obtain r cy' where c: "cycle_loop sample_backup [] ''log.json'' sample_cycle_env [(''t'', ''call-1''), (''t'', ''call-2'')] sample_cycle
    = (r, cy')" by force
  have f: "allows_request (ce_mono (sample_cycle_env (''t'', ''call-1''))) (cy_breaker sample_cycle) = (True, new_breaker)"
    "map_of (cy_dirs sample_cycle) (''t'', ''call-1'') = Some mono_dir"
    "jget (log_entry (cy_log sample_cycle) (log_key ''t'' ''call-1'')) ''status'' \<noteq> Some (JStr ''done'')"
    "has_valid_lease (sv_os (ce_sync (sample_cycle_env (''t'', ''call-1'')))) mono_dir None = Inr False"
    "ce_rows (sample_cycle_env (''t'', ''call-1'')) = Inr []"
    "acquire_lease (sv_os (ce_sync (sample_cycle_env (''t'', ''call-1'')))) (bk_ttl sample_backup) mono_dir ''smb'' ''call-1'' None None None = (Inr l, d1)"
    using a mono_dir_facts(2)
    by (simp_all add: sample_cycle_env_def sample_cycle_def new_breaker_def allows_request_def log_entry_def sync_env_of_def sample_backup_def)
  let ?os = "env_a\<lparr>env_disk := False\<rparr>"
  obtain q d2 where q: "renew_lease ?os 120 d1 ''smb'' (lease_owner l) None None = (q, d2)" by force
  have "q \<noteq> Inr True" using renewed_needs_disk[of ?os] q by auto
  moreover have "lease_held d1 ''smb'' (lease_owner l)" by (rule acquired_held[OF a]) (simp_all add: env_a_def)
  ultimately obtain e where "q = Inl e" using held_not_renewed[OF _ q] by blast
  with q have "fst (for_p (renew_turn (bk_ttl sample_backup) ''call-1'' (Some (lease_owner l)))
      (sv_ticks (ce_sync (sample_cycle_env (''t'', ''call-1'')))) d1) = Inl e"
    by (simp add: renew_turn_def sample_cycle_env_def sync_env_of_def sample_backup_def)
  from lost_lease_stops_the_cycle[OF f(1-4) mono_dir_facts(3) f(5,6) this _ _ sample_backup_ok c] c show ?thesis
    by (simp add: sample_cycle_env_def sync_env_of_def env_a_def)
qed

end
