(* ===== verification/Esl_Frames.thy ===== *)
theory Esl_Frames
  imports Zenith_Prelude
begin

text \<open>
  The framing of \<open>ESLClient._read_events\<close> (\<open>telephony/esl_client.py\<close>): a block of header
  lines, a blank line, and a body of exactly \<open>Content-Length\<close> bytes. \<open>next_frame\<close> is one turn of
  the inner loop, with Python's slices, so a negative length does what it does there; \<open>drain\<close>
  is the inner loop, on fuel because a negative length can keep it from ending, and
  \<open>read_chunks\<close> the outer loop over what the socket delivers. The main lemma is that the events
  do not depend on how the stream was cut into chunks.
\<close>

section \<open>Python's integers and slices\<close>

text \<open>Digits with single underscores between them.\<close>

fun int_digits :: "bool \<Rightarrow> nat \<Rightarrow> string \<Rightarrow> nat option" where
  "int_digits seen acc [] = (if seen then Some acc else None)"
| "int_digits seen acc (c # cs) =
     (if is_digit c then int_digits True (acc * 10 + (of_char c - 48)) cs
      else if c = CHR ''_'' \<and> seen \<and> cs \<noteq> [] \<and> is_digit (hd cs) then int_digits seen acc cs
      else None)"

definition py_int :: "string \<Rightarrow> int option" where
  "py_int s =
     (case py_strip s of
        [] \<Rightarrow> None
      | c # t \<Rightarrow>
         if c = CHR ''-'' then map_option (\<lambda>n. - int n) (int_digits False 0 t)
         else if c = CHR ''+'' then map_option int (int_digits False 0 t)
         else map_option int (int_digits False 0 (c # t)))"

definition slice_index :: "int \<Rightarrow> string \<Rightarrow> nat" where
  "slice_index i s = (if i < 0 then nat (int (length s) + i) else min (nat i) (length s))"

definition py_slice :: "int \<Rightarrow> int \<Rightarrow> string \<Rightarrow> string" where
  "py_slice i j s = take (slice_index j s - slice_index i s) (drop (slice_index i s) s)"

definition py_slice_from :: "int \<Rightarrow> string \<Rightarrow> string" where
  "py_slice_from i s = drop (slice_index i s) s"

section \<open>The reader\<close>

definition after_colon :: "string \<Rightarrow> string" where
  "after_colon line = tl (dropWhile (\<lambda>c. c \<noteq> CHR '':'') line)"

fun first_length :: "string list \<Rightarrow> exc + int" where
  "first_length [] = Inr 0"
| "first_length (line # rest) =
     (if starts_with ''content-length:'' (py_lower line)
      then (case py_int (after_colon line) of None \<Rightarrow> Inl (ValueError ''int'') | Some n \<Rightarrow> Inr n)
      else first_length rest)"

definition content_length :: "string \<Rightarrow> exc + int" where
  "content_length header_block = first_length (split_on LF header_block)"

definition next_frame :: "string \<Rightarrow> exc + (string \<times> string) option" where
  "next_frame buf =
     (case py_find [LF, LF] buf of
        None \<Rightarrow> Inr None
      | Some header_end \<Rightarrow>
         (case content_length (take header_end buf) of
            Inl e \<Rightarrow> Inl e
          | Inr n \<Rightarrow>
             (let body_start = int header_end + 2 in
              if int (length buf) < body_start + n then Inr None
              else Inr (Some (py_slice body_start (body_start + n) buf, py_slice_from (body_start + n) buf)))))"

text \<open>The inner loop: the rest of the buffer, or None when the fuel did not suffice.\<close>

fun drain :: "nat \<Rightarrow> (string \<Rightarrow> ('s, unit) prog) \<Rightarrow> string \<Rightarrow> ('s, string option) prog" where
  "drain 0 process buf s = (Inr None, s)"
| "drain (Suc n) process buf s =
     (case next_frame buf of
        Inl e \<Rightarrow> (Inl e, s)
      | Inr None \<Rightarrow> (Inr (Some buf), s)
      | Inr (Some (body, rest)) \<Rightarrow>
         (case process body s of (Inl e, s') \<Rightarrow> (Inl e, s') | (Inr _, s') \<Rightarrow> drain n process rest s'))"

text \<open>
  The outer loop on the results of \<open>reader.read\<close>, each with what the environment answers while
  its events are handled. It still waits when no result is left: the value is the buffer.
\<close>

fun read_chunks ::
    "('e \<Rightarrow> string \<Rightarrow> ('s, unit) prog) \<Rightarrow> string \<Rightarrow> ('e \<times> (exc + string)) list \<Rightarrow> ('s, string option) prog" where
  "read_chunks process buf [] s = (Inr (Some buf), s)"
| "read_chunks process buf ((env, Inl e) # cs) s = (Inl e, s)"
| "read_chunks process buf ((env, Inr chunk) # cs) s =
     (if chunk = [] then (Inl (ConnectionError ''ESL connection closed''), s)
      else case drain (length (buf @ chunk) + 1) (process env) (buf @ chunk) s of
          (Inl e, s') \<Rightarrow> (Inl e, s')
        | (Inr None, s') \<Rightarrow> (Inr None, s')
        | (Inr (Some rest), s') \<Rightarrow> read_chunks process rest cs s')"

section \<open>The inner loop ends\<close>

text \<open>A buffer none of whose tails announces a negative length.\<close>

definition lengths_natural :: "string \<Rightarrow> bool" where
  "lengths_natural buf \<longleftrightarrow> (\<forall>k h n. py_find [LF, LF] (drop k buf) = Some h
      \<longrightarrow> content_length (take h (drop k buf)) = Inr n \<longrightarrow> 0 \<le> n)"

lemma py_find_bound: "py_find p s = Some k \<Longrightarrow> k + length p \<le> length s"
proof (induction s arbitrary: k)
  case Nil
  then show ?case by (simp split: if_splits)
next
  case (Cons c s)
  have "starts_with p (c # s) \<Longrightarrow> length p \<le> length (c # s)"
    by (metis length_append le_add1 starts_with_iff)
  with Cons show ?case by (auto split: if_splits)
qed

lemma next_frame_shrinks:
  assumes "next_frame buf = Inr (Some (body, rest))" and "lengths_natural buf"
  shows "\<exists>k\<ge>2. rest = drop k buf \<and> k \<le> length buf"
proof -
  obtain h n where h: "py_find [LF, LF] buf = Some h" "content_length (take h buf) = Inr n"
    "\<not> int (length buf) < int h + 2 + n" "rest = py_slice_from (int h + 2 + n) buf"
    using assms(1) by (auto simp: next_frame_def Let_def split: option.splits sum.splits if_splits)
  have "0 \<le> n" using assms(2) h(1,2) unfolding lengths_natural_def by (metis drop0)
  then show ?thesis
    using h(3,4) by (intro exI[of _ "nat (int h + 2 + n)"]) (auto simp: py_slice_from_def slice_index_def)
qed

lemma lengths_natural_drop: "lengths_natural buf \<Longrightarrow> lengths_natural (drop k buf)"
  unfolding lengths_natural_def by (metis drop_drop)

lemma drain_ends:
  assumes "lengths_natural buf" and "length buf < fuel"
  shows "fst (drain fuel process buf s) \<noteq> Inr None"
  using assms
proof (induction fuel process buf s rule: drain.induct)
  case (1 process buf s)
  then show ?case by simp
next
  case (2 n process buf s)
  show ?case
  proof (cases "\<exists>body rest. next_frame buf = Inr (Some (body, rest))")
    case False
    then show ?thesis by (auto split: sum.splits option.splits)
  next
    case True
    then obtain body rest where f: "next_frame buf = Inr (Some (body, rest))" by blast
    obtain k where k: "2 \<le> k" "rest = drop k buf" "k \<le> length buf"
      using next_frame_shrinks[OF f "2.prems"(1)] by blast
    obtain q s1 where q: "process body s = (q, s1)" by force
    have "fst (drain n process rest s1) \<noteq> Inr None" if "q = Inr u" for u
      using "2.IH"[OF f refl refl q[symmetric] that] "2.prems" k lengths_natural_drop[of buf k] by simp
    with f q show ?thesis by (auto split: sum.splits)
  qed
qed

text \<open>A negative length can hold the inner loop: minus the length of its own header and the blank line.\<close>

definition stuck_header :: string where
  "stuck_header = ''Content-Length: -21'' @ [LF, LF]"

section \<open>How the stream is cut does not matter\<close>

definition frame :: "string \<times> string \<Rightarrow> string" where
  "frame f = fst f @ [LF, LF] @ snd f"

text \<open>A header without a blank line that announces the length of its body.\<close>

definition framed :: "string \<times> string \<Rightarrow> bool" where
  "framed f \<longleftrightarrow> \<not> contains_str [LF, LF] (fst f @ [LF]) \<and> content_length (fst f) = Inr (int (length (snd f)))"

lemma find_blank_line: "\<not> contains_str [LF, LF] (h @ [LF]) \<Longrightarrow> py_find [LF, LF] (h @ [LF, LF] @ rest) = Some (length h)"
proof (induction h)
  case Nil
  then show ?case by (simp add: starts_with_def)
next
  case (Cons c h)
  then show ?case by (cases h) (auto simp: starts_with_def)
qed

lemma no_blank_line: "\<not> contains_str p s \<Longrightarrow> p \<noteq> [] \<Longrightarrow> py_find p s = None"
  by (induction s) auto

lemma starts_with_take: "starts_with p (take n s) \<Longrightarrow> starts_with p s"
  by (metis append.assoc append_take_drop_id starts_with_iff)

lemma contains_take: "contains_str p (take n s) \<Longrightarrow> contains_str p s"
proof (induction s arbitrary: n)
  case Nil
  then show ?case by simp
next
  case (Cons c s)
  show ?case
  proof (cases n)
    case 0
    with Cons.prems show ?thesis by (simp add: starts_with_def)
  next
    case (Suc m)
    with Cons.prems have "starts_with p (c # take m s) \<or> contains_str p (take m s)" by simp
    then show ?thesis
    proof
      assume "starts_with p (c # take m s)"
      then have "starts_with p (take (Suc m) (c # s))" by simp
      from starts_with_take[OF this] show ?thesis by simp
    next
      assume "contains_str p (take m s)"
      from Cons.IH[OF this] show ?thesis by simp
    qed
  qed
qed

lemma next_frame_whole:
  assumes "framed f"
  shows "next_frame (frame f @ rest) = Inr (Some (snd f, rest))"
proof -
  have f: "py_find [LF, LF] (frame f @ rest) = Some (length (fst f))"
    using assms find_blank_line[of "fst f" "snd f @ rest"] by (simp add: framed_def frame_def)
  have t: "take (length (fst f)) (frame f @ rest) = fst f" by (simp add: frame_def)
  have i: "slice_index (int (length (fst f)) + 2) (frame f @ rest) = length (fst f) + 2"
    "slice_index (int (length (fst f)) + 2 + int (length (snd f))) (frame f @ rest) = length (fst f) + 2 + length (snd f)"
    by (simp_all add: slice_index_def frame_def)
  show ?thesis
    using assms f t i
    by (simp add: next_frame_def framed_def Let_def py_slice_def py_slice_from_def) (simp add: frame_def)
qed

lemma next_frame_part:
  assumes "framed f" and "n < length (frame f)"
  shows "next_frame (take n (frame f)) = Inr None"
proof (cases "n < length (fst f) + 2")
  case True
  then have "take n (frame f) = take n (fst f @ [LF])"
    by (simp add: frame_def) (cases "n - length (fst f)"; auto simp: take_Cons')
  moreover have "\<not> contains_str [LF, LF] (take n (fst f @ [LF]))"
    using assms(1) contains_take unfolding framed_def by blast
  ultimately have "py_find [LF, LF] (take n (frame f)) = None"
    using no_blank_line by (metis list.discI)
  then show ?thesis by (simp add: next_frame_def)
next
  case False
  then obtain b where b: "take n (frame f) = fst f @ [LF, LF] @ take (n - length (fst f) - 2) (snd f)"
    by (auto simp: frame_def take_Cons' numeral_2_eq_2)
  have "length (take n (frame f)) = n" using assms(2) by simp
  with assms b find_blank_line[of "fst f"] show ?thesis
    by (simp add: next_frame_def framed_def Let_def frame_def)
qed

text \<open>
  One call of the inner loop on the start of a stream of frames: it handles the whole frames
  in order and keeps the rest, which is a proper part of the next frame.
\<close>

lemma drain_frames:
  assumes "\<forall>f\<in>set fs. framed f" and "buf @ more = concat (map frame fs)" and "length buf < fuel"
  shows "\<exists>fs1 fs2 rest. fs = fs1 @ fs2 \<and> rest @ more = concat (map frame fs2)
    \<and> (more = [] \<longrightarrow> fs2 = [])
    \<and> drain fuel process buf s =
        (case for_p process (map snd fs1) s of (Inl e, s') \<Rightarrow> (Inl e, s') | (Inr _, s') \<Rightarrow> (Inr (Some rest), s'))"
  using assms
proof (induction fs arbitrary: buf fuel s)
  case Nil
  then obtain m where "fuel = Suc m" by (cases fuel) auto
  with Nil show ?case by (intro exI[of _ "[]"]) (simp add: next_frame_def)
next
  case (Cons f fs)
  then obtain m where m: "fuel = Suc m" by (cases fuel) auto
  show ?case
  proof (cases "length buf < length (frame f)")
    case True
    from Cons.prems(2) have "take (length buf) (buf @ more) = take (length buf) (frame f @ concat (map frame fs))" by simp
    then have b: "buf = take (length buf) (frame f)" using True by simp
    from next_frame_part[OF _ True] Cons.prems(1) have "next_frame buf = Inr None" using b by simp
    moreover have "more \<noteq> []"
    proof
      assume "more = []"
      then have "length (frame f) \<le> length buf" using Cons.prems(2) by simp
      with True show False by simp
    qed
    ultimately show ?thesis
      using Cons.prems(2) m by (intro exI[of _ "[]"] exI[of _ "f # fs"] exI[of _ buf]) simp
  next
    case False
    have "take (length (frame f)) (buf @ more) = frame f" using Cons.prems(2) by simp
    then have "take (length (frame f)) buf = frame f" using False by simp
    then obtain buf2 where b: "buf = frame f @ buf2" by (metis append_take_drop_id)
    with Cons.prems have nb: "next_frame buf = Inr (Some (snd f, buf2))" "buf2 @ more = concat (map frame fs)"
      using next_frame_whole[of f buf2] by auto
    have len: "length buf2 < m" using b m Cons.prems(3) by (simp add: frame_def)
    obtain q s1 where q: "process (snd f) s = (q, s1)" by force
    obtain fs1 fs2 rest where r: "fs = fs1 @ fs2" "rest @ more = concat (map frame fs2)" "more = [] \<longrightarrow> fs2 = []"
      "drain m process buf2 s1 =
        (case for_p process (map snd fs1) s1 of (Inl e, s') \<Rightarrow> (Inl e, s') | (Inr _, s') \<Rightarrow> (Inr (Some rest), s'))"
      using Cons.IH[OF _ nb(2) len, of s1] Cons.prems(1) by auto
    show ?thesis
      using r nb q m by (intro exI[of _ "f # fs1"] exI[of _ fs2] exI[of _ rest]) (simp split: sum.split)
  qed
qed

lemma chunks_frames:
  assumes "\<forall>f\<in>set fs. framed f" and "buf @ concat chunks = concat (map frame fs)" and "\<forall>c\<in>set chunks. c \<noteq> []"
    and "chunks = [] \<longrightarrow> fs = []"
  shows "read_chunks (\<lambda>_. process) buf (map (\<lambda>c. (env, Inr c)) chunks) s =
    (case for_p process (map snd fs) s of (Inl e, s') \<Rightarrow> (Inl e, s') | (Inr _, s') \<Rightarrow> (Inr (Some []), s'))"
  using assms
proof (induction chunks arbitrary: buf fs s)
  case Nil
  then show ?case by simp
next
  case (Cons c chunks)
  have split: "(buf @ c) @ concat chunks = concat (map frame fs)" using Cons.prems(2) by simp
  obtain fs1 fs2 rest where r: "fs = fs1 @ fs2" "rest @ concat chunks = concat (map frame fs2)"
    "concat chunks = [] \<longrightarrow> fs2 = []"
    "drain (length (buf @ c) + 1) process (buf @ c) s =
      (case for_p process (map snd fs1) s of (Inl e, s') \<Rightarrow> (Inl e, s') | (Inr _, s') \<Rightarrow> (Inr (Some rest), s'))"
    using drain_frames[OF Cons.prems(1) split, of "length (buf @ c) + 1" process s] by auto
  obtain q s1 where q: "for_p process (map snd fs1) s = (q, s1)" by force
  have "read_chunks (\<lambda>_. process) rest (map (\<lambda>c. (env, Inr c)) chunks) s1 =
      (case for_p process (map snd fs2) s1 of (Inl e, s') \<Rightarrow> (Inl e, s') | (Inr _, s') \<Rightarrow> (Inr (Some []), s'))"
    using Cons.IH[OF _ r(2), of s1] Cons.prems(1,3) r(1,3) by auto
  with r(1,4) q Cons.prems(3) show ?case
    by (simp add: for_p_append split: sum.split)
qed

end
