(* ===== verification/Redis.thy ===== *)
theory Redis
  imports Zenith_Prelude
begin

text \<open>
  What the program uses of the Redis server. The server is not code of the repository, so its
  commands are a record of programs over the server's state, and what the program relies on is
  \<open>redis_laws\<close>: a command that answers did what its documentation says to the text or the set
  under its key and nothing to any other key; a command that raises did that or nothing.
  \<open>texts\<close> and \<open>sets\<close> read the state; an absent set is empty. A key that expires between two
  commands is a change made by the server, outside the commands. \<open>mem_redis\<close> is a server that
  keeps the laws, for the witnesses; it fails on the keys it is told to fail on.
\<close>

record 'r redis =
  rd_setex :: "string \<Rightarrow> int \<Rightarrow> string \<Rightarrow> ('r, unit) prog"
  rd_get :: "string \<Rightarrow> ('r, string option) prog"
  rd_delete :: "string \<Rightarrow> ('r, unit) prog"
  rd_sadd :: "string \<Rightarrow> string \<Rightarrow> ('r, unit) prog"
  rd_srem :: "string \<Rightarrow> string \<Rightarrow> ('r, unit) prog"
  rd_scard :: "string \<Rightarrow> ('r, nat) prog"
  rd_smembers :: "string \<Rightarrow> ('r, string list) prog"
  rd_expire :: "string \<Rightarrow> int \<Rightarrow> ('r, unit) prog"
  rd_hset :: "string \<Rightarrow> (string \<times> string) list \<Rightarrow> ('r, unit) prog"

text \<open>A command on one key that reads, and one that turns a view at its key by \<open>f\<close>.\<close>

definition looks :: "('r, 'a) prog \<Rightarrow> ('r \<Rightarrow> 'a \<Rightarrow> bool) \<Rightarrow> bool" where
  "looks m answer \<longleftrightarrow> (\<forall>r. snd (m r) = r \<and> (\<forall>a. fst (m r) = Inr a \<longrightarrow> answer r a))"

definition alters :: "('r, 'a) prog \<Rightarrow> ('r \<Rightarrow> string \<Rightarrow> 'v) \<Rightarrow> string \<Rightarrow> ('v \<Rightarrow> 'v) \<Rightarrow> bool" where
  "alters m view k f \<longleftrightarrow>
     (\<forall>r res r'. m r = (res, r') \<longrightarrow>
        (\<forall>q. q \<noteq> k \<longrightarrow> view r' q = view r q)
        \<and> (view r' k = f (view r k) \<or> (\<exists>e. res = Inl e) \<and> view r' k = view r k))"

definition redis_laws :: "'r redis \<Rightarrow> ('r \<Rightarrow> string \<Rightarrow> string option) \<Rightarrow> ('r \<Rightarrow> string \<Rightarrow> string set) \<Rightarrow> bool" where
  "redis_laws R texts sets \<longleftrightarrow>
     (\<forall>k n v. alters (rd_setex R k n v) texts k (\<lambda>_. Some v) \<and> alters (rd_setex R k n v) sets k id)
   \<and> (\<forall>k. looks (rd_get R k) (\<lambda>r a. a = texts r k))
   \<and> (\<forall>k. alters (rd_delete R k) texts k (\<lambda>_. None))
   \<and> (\<forall>k m. alters (rd_sadd R k m) sets k (insert m) \<and> alters (rd_sadd R k m) texts k id)
   \<and> (\<forall>k m. alters (rd_srem R k m) sets k (\<lambda>s. s - {m}) \<and> alters (rd_srem R k m) texts k id)
   \<and> (\<forall>k. looks (rd_scard R k) (\<lambda>r a. a = card (sets r k)))
   \<and> (\<forall>k. looks (rd_smembers R k) (\<lambda>r a. set a = sets r k))
   \<and> (\<forall>k n. alters (rd_expire R k n) sets k id \<and> alters (rd_expire R k n) texts k id)
   \<and> (\<forall>k kvs. alters (rd_hset R k kvs) sets k id \<and> alters (rd_hset R k kvs) texts k id)"

lemma altersD:
  assumes "alters m view k f" and "m r = (res, r')"
  shows "q \<noteq> k \<Longrightarrow> view r' q = view r q"
    and "res = Inr a \<Longrightarrow> view r' k = f (view r k)"
    and "view r' k = f (view r k) \<or> view r' k = view r k"
  using assms by (auto simp: alters_def)

lemma alters_id: "alters m view k id \<Longrightarrow> m r = (res, r') \<Longrightarrow> view r' = view r"
  unfolding alters_def by (intro ext) (metis id_apply)

lemma looksD:
  assumes "looks m answer" and "m r = (res, r')"
  shows "r' = r" and "res = Inr a \<Longrightarrow> answer r a"
  using assms unfolding looks_def by (metis snd_conv, metis fst_conv)

text \<open>The laws one by one, as the clients use them.\<close>

lemma setex_alters:
  "redis_laws R texts sets \<Longrightarrow> alters (rd_setex R k n v) texts k (\<lambda>_. Some v)"
  "redis_laws R texts sets \<Longrightarrow> alters (rd_setex R k n v) sets k id"
  unfolding redis_laws_def by blast+

lemma get_looks:
  "redis_laws R texts sets \<Longrightarrow> looks (rd_get R k) (\<lambda>r a. a = texts r k)"
  unfolding redis_laws_def by blast

lemma delete_alters:
  "redis_laws R texts sets \<Longrightarrow> alters (rd_delete R k) texts k (\<lambda>_. None)"
  unfolding redis_laws_def by blast

lemma sadd_alters:
  "redis_laws R texts sets \<Longrightarrow> alters (rd_sadd R k m) sets k (insert m)"
  "redis_laws R texts sets \<Longrightarrow> alters (rd_sadd R k m) texts k id"
  unfolding redis_laws_def by blast+

lemma srem_alters:
  "redis_laws R texts sets \<Longrightarrow> alters (rd_srem R k m) sets k (\<lambda>s. s - {m})"
  "redis_laws R texts sets \<Longrightarrow> alters (rd_srem R k m) texts k id"
  unfolding redis_laws_def by blast+

lemma scard_looks:
  "redis_laws R texts sets \<Longrightarrow> looks (rd_scard R k) (\<lambda>r a. a = card (sets r k))"
  unfolding redis_laws_def by blast

lemma smembers_looks:
  "redis_laws R texts sets \<Longrightarrow> looks (rd_smembers R k) (\<lambda>r a. set a = sets r k)"
  unfolding redis_laws_def by blast

lemma expire_alters:
  "redis_laws R texts sets \<Longrightarrow> alters (rd_expire R k n) sets k id"
  "redis_laws R texts sets \<Longrightarrow> alters (rd_expire R k n) texts k id"
  unfolding redis_laws_def by blast+

section \<open>A server in memory\<close>

record mem_server =
  ms_texts :: "(string \<times> string) list"
  ms_sets :: "(string \<times> string) list"
  ms_down :: "string list"

definition mem_texts :: "mem_server \<Rightarrow> string \<Rightarrow> string option" where
  "mem_texts s k = map_of (ms_texts s) k"

definition mem_sets :: "mem_server \<Rightarrow> string \<Rightarrow> string set" where
  "mem_sets s k = set (map snd (filter (\<lambda>p. fst p = k) (ms_sets s)))"

definition on_key :: "string \<Rightarrow> (mem_server \<Rightarrow> 'a \<times> mem_server) \<Rightarrow> (mem_server, 'a) prog" where
  "on_key k f s = (if k \<in> set (ms_down s) then (Inl (OtherError ''RedisError''), s)
     else case f s of (a, s') \<Rightarrow> (Inr a, s'))"

definition mem_redis :: "mem_server redis" where
  "mem_redis =
     \<lparr>rd_setex = (\<lambda>k _ v. on_key k (\<lambda>s. ((), s\<lparr>ms_texts := AList.update k v (ms_texts s)\<rparr>))),
      rd_get = (\<lambda>k. on_key k (\<lambda>s. (mem_texts s k, s))),
      rd_delete = (\<lambda>k. on_key k (\<lambda>s. ((), s\<lparr>ms_texts := AList.delete k (ms_texts s),
          ms_sets := filter (\<lambda>p. fst p \<noteq> k) (ms_sets s)\<rparr>))),
      rd_sadd = (\<lambda>k m. on_key k (\<lambda>s. ((), s\<lparr>ms_sets := List.insert (k, m) (ms_sets s)\<rparr>))),
      rd_srem = (\<lambda>k m. on_key k (\<lambda>s. ((), s\<lparr>ms_sets := removeAll (k, m) (ms_sets s)\<rparr>))),
      rd_scard = (\<lambda>k. on_key k (\<lambda>s. (card (mem_sets s k), s))),
      rd_smembers = (\<lambda>k. on_key k (\<lambda>s. (remdups (map snd (filter (\<lambda>p. fst p = k) (ms_sets s))), s))),
      rd_expire = (\<lambda>k _. on_key k (\<lambda>s. ((), s))),
      rd_hset = (\<lambda>k _. on_key k (\<lambda>s. ((), s)))\<rparr>"

lemma on_key_alters:
  assumes "\<And>s. (\<forall>q. q \<noteq> k \<longrightarrow> view (snd (g s)) q = view s q) \<and> view (snd (g s)) k = f (view s k)"
  shows "alters (on_key k g) view k f"
  using assms unfolding alters_def on_key_def
  by (auto split: prod.splits if_splits) (metis snd_conv)+

lemma on_key_looks: "(\<And>s. snd (g s) = s \<and> answer s (fst (g s))) \<Longrightarrow> looks (on_key k g) answer"
  unfolding looks_def on_key_def by (auto split: prod.splits) (metis snd_conv, metis fst_conv)

lemma mem_sets_iff: "mem_sets s k = {m. (k, m) \<in> set (ms_sets s)}"
  by (force simp: mem_sets_def)

lemma mem_redis_laws: "redis_laws mem_redis mem_texts mem_sets"
  unfolding redis_laws_def mem_redis_def
  by (auto intro!: on_key_alters on_key_looks rev_image_eqI simp: mem_texts_def mem_sets_iff AList.update_conv AList.delete_conv)

end
