(* ===== verification/Trunk_State.thy ===== *)
theory Trunk_State
  imports Trunks Redis Py_Data
begin

text \<open>
  \<open>telephony/trunk_state.py\<close>: the registration state of the trunks (a column of the public
  table) and the set of active calls of each trunk (a Redis set). A session's statements may
  raise where \<open>session_env\<close> says so, keyed by what they ask for; the rows of a statement that
  raises are as they were. The telephony server is seen through the two lists the ESL client
  reads from it. Iterating over a Python set has no order; the difference of two sets is taken
  in the order of its first one, and the theorems do not depend on it.
\<close>

section \<open>Registration events\<close>

text \<open>The text of the first of the keys whose value is truthy, empty when none is.\<close>

definition ev_text :: "json \<Rightarrow> string \<Rightarrow> string" where
  "ev_text ev k = (case jget ev k of None \<Rightarrow> [] | Some v \<Rightarrow> if truthy v then py_str v else [])"

fun first_text :: "json \<Rightarrow> string list \<Rightarrow> string" where
  "first_text ev [] = []"
| "first_text ev (k # ks) = (if ev_text ev k \<noteq> [] then ev_text ev k else first_text ev ks)"

record registration_event =
  re_status :: string
  re_profile :: string
  re_user :: string

definition status_by_event :: "(string \<times> string) list" where
  "status_by_event =
     [(''sofia::register'', ''registered''), (''sofia::unregister'', ''unregistered''),
      (''sofia::expire'', ''unregistered''), (''SOFIA_REGISTER'', ''registered''),
      (''SOFIA_UNREGISTER'', ''unregistered'')]"

definition normalize_registration_event :: "json \<Rightarrow> registration_event option" where
  "normalize_registration_event ev =
     (let event_type = first_text ev [''Event-Subclass'', ''Event-Name''];
          profile = first_text ev [''profile-name'', ''Profile-Name'', ''variable_sofia_profile_name''];
          username = first_text ev [''from-user'', ''from_user'', ''user'', ''username'', ''sip_auth_username'',
            ''variable_sip_auth_username'', ''Caller-Caller-ID-Number'']
      in case map_of status_by_event event_type of
           None \<Rightarrow> None
         | Some status \<Rightarrow>
            if profile = [] \<or> username = [] then None
            else Some \<lparr>re_status = status, re_profile = profile, re_user = username\<rparr>)"

section \<open>The repository\<close>

record session_env =
  se_now :: int
  se_query :: "string \<Rightarrow> exc option"
  se_mark :: "exc option"
  se_update :: "string \<Rightarrow> exc option"
  se_ids :: "exc option"

definition mark_registered_unknown :: "session_env \<Rightarrow> (public_db, nat) prog" where
  "mark_registered_unknown env db =
     (case se_mark env of
        Some e \<Rightarrow> (Inl e, db)
      | None \<Rightarrow>
         (Inr (length (filter (\<lambda>t. tr_status t = ''registered'') (db_trunks db))),
          db\<lparr>db_trunks := map (\<lambda>t. if tr_status t = ''registered'' then t\<lparr>tr_status := ''unknown''\<rparr> else t) (db_trunks db)\<rparr>))"

definition stamp :: "int \<Rightarrow> string \<Rightarrow> trunk_row \<Rightarrow> trunk_row" where
  "stamp now status t =
     (if status = ''registered'' then t\<lparr>tr_status := status, tr_registered_at := Some now\<rparr>
      else if status = ''unregistered'' then t\<lparr>tr_status := status, tr_unregistered_at := Some now\<rparr>
      else t\<lparr>tr_status := status\<rparr>)"

text \<open>Any other status than the three of the check constraint is refused when a row has the id.\<close>

definition set_registration_status :: "session_env \<Rightarrow> string \<Rightarrow> string \<Rightarrow> (public_db, unit) prog" where
  "set_registration_status env trunk_id status db =
     (case se_update env trunk_id of
        Some e \<Rightarrow> (Inl e, db)
      | None \<Rightarrow>
         if status \<notin> set reg_statuses \<and> (\<exists>t\<in>set (db_trunks db). tr_id t = trunk_id)
         then (Inl (SQLAlchemyError ''ck_ata_trunks_registration_status''), db)
         else (Inr (), db\<lparr>db_trunks :=
           map (\<lambda>t. if tr_id t = trunk_id then stamp (se_now env) status t else t) (db_trunks db)\<rparr>))"

definition list_enabled_ids :: "session_env \<Rightarrow> (public_db, string list) prog" where
  "list_enabled_ids env db =
     (case se_ids env of
        Some e \<Rightarrow> (Inl e, db)
      | None \<Rightarrow> (Inr (map tr_id (filter tr_enabled (db_trunks db))), db))"

text \<open>\<open>scalar_one_or_none\<close> raises when the query has more than one row.\<close>

definition resolve :: "session_env \<Rightarrow> string \<Rightarrow> string \<Rightarrow> (public_db, string option) prog" where
  "resolve env profile auth_username db =
     (if profile = [] \<or> auth_username = [] then (Inr None, db)
      else case se_query env auth_username of
        Some e \<Rightarrow> (Inl e, db)
      | None \<Rightarrow>
         (case filter (\<lambda>t. tr_profile t = profile \<and> tr_user t = auth_username \<and> tr_enabled t) (db_trunks db) of
            [] \<Rightarrow> (Inr None, db)
          | [t] \<Rightarrow> (Inr (Some (tr_id t)), db)
          | _ \<Rightarrow> (Inl (SQLAlchemyError ''MultipleResultsFound''), db)))"

section \<open>The service\<close>

record ('r, 'n) trunk_world =
  tw_db :: public_db
  tw_redis :: 'r
  tw_esl :: 'n

definition on_db :: "(public_db, 'a) prog \<Rightarrow> (('r, 'n, 'm) trunk_world_scheme, 'a) prog" where
  "on_db p w = (case p (tw_db w) of (r, d) \<Rightarrow> (r, w\<lparr>tw_db := d\<rparr>))"

definition on_redis :: "('r, 'a) prog \<Rightarrow> (('r, 'n, 'm) trunk_world_scheme, 'a) prog" where
  "on_redis p w = (case p (tw_redis w) of (r, d) \<Rightarrow> (r, w\<lparr>tw_redis := d\<rparr>))"

definition on_esl :: "('n, 'a) prog \<Rightarrow> (('r, 'n, 'm) trunk_world_scheme, 'a) prog" where
  "on_esl p w = (case p (tw_esl w) of (r, d) \<Rightarrow> (r, w\<lparr>tw_esl := d\<rparr>))"

definition ACTIVE_CALL_TTL_SECONDS :: int where
  "ACTIVE_CALL_TTL_SECONDS = 86400"

definition call_key :: "string \<Rightarrow> string" where
  "call_key trunk_id = ''zenith:trunk:active_calls:'' @ trunk_id"

definition apply_registration_event :: "session_env \<Rightarrow> json \<Rightarrow> (public_db, bool) prog" where
  "apply_registration_event env ev =
     (case normalize_registration_event ev of
        None \<Rightarrow> ret False
      | Some n \<Rightarrow>
         bindp (resolve env (re_profile n) (re_user n))
           (\<lambda>found. case found of
              None \<Rightarrow> ret False
            | Some trunk_id \<Rightarrow>
               bindp (set_registration_status env trunk_id (re_status n)) (\<lambda>_. ret True)))"

definition track_call :: "'r redis \<Rightarrow> string \<Rightarrow> string \<Rightarrow> bool \<Rightarrow> ('r, nat) prog" where
  "track_call R trunk_id call_uuid active =
     (if trunk_id = [] \<or> call_uuid = [] then ret 0
      else
        bindp ((if active then rd_sadd R else rd_srem R) (call_key trunk_id) call_uuid) (\<lambda>_.
        bindp (rd_expire R (call_key trunk_id) ACTIVE_CALL_TTL_SECONDS) (\<lambda>_.
        rd_scard R (call_key trunk_id))))"

definition active_calls :: "'r redis \<Rightarrow> string \<Rightarrow> ('r, nat) prog" where
  "active_calls R trunk_id = rd_scard R (call_key trunk_id)"

text \<open>What \<open>reconcile\<close> asks the ESL client: pairs of profile and user, of trunk and call.\<close>

record 'n esl_lists =
  es_registrations :: "('n, (string \<times> string) list) prog"
  es_channels :: "('n, (string \<times> string) list) prog"

record reconcile_result =
  rr_unknown :: nat
  rr_registered :: nat
  rr_errors :: nat

definition reconcile_row :: "session_env \<Rightarrow> string \<times> string \<Rightarrow> (public_db, bool) prog" where
  "reconcile_row env row =
     bindp (resolve env (fst row) (snd row))
       (\<lambda>found. case found of
          None \<Rightarrow> ret False
        | Some trunk_id \<Rightarrow> bindp (set_registration_status env trunk_id ''registered'') (\<lambda>_. ret True))"

definition count_row :: "bool \<Rightarrow> reconcile_result \<Rightarrow> reconcile_result" where
  "count_row ok res = (if ok then res\<lparr>rr_registered := rr_registered res + 1\<rparr> else res\<lparr>rr_errors := rr_errors res + 1\<rparr>)"

fun reconcile_rows ::
    "session_env \<Rightarrow> (string \<times> string) list \<Rightarrow> reconcile_result \<Rightarrow> (public_db, reconcile_result) prog" where
  "reconcile_rows env [] res db = (Inr res, db)"
| "reconcile_rows env (row # rows) res db =
     (case reconcile_row env row db of
        (Inr ok, db') \<Rightarrow> reconcile_rows env rows (count_row ok res) db'
      | (Inl e, db') \<Rightarrow> if is_Exception e then reconcile_rows env rows (count_row False res) db' else (Inl e, db'))"

definition expected_calls :: "(string \<times> string) list \<Rightarrow> string \<Rightarrow> string list" where
  "expected_calls channels trunk_id =
     remdups (map snd (filter (\<lambda>c. fst c = trunk_id \<and> fst c \<noteq> [] \<and> snd c \<noteq> []) channels))"

definition minus_list :: "string list \<Rightarrow> string list \<Rightarrow> string list" where
  "minus_list xs ys = filter (\<lambda>x. x \<notin> set ys) xs"

definition sync_trunk :: "'r redis \<Rightarrow> (string \<times> string) list \<Rightarrow> string \<Rightarrow> ('r, unit) prog" where
  "sync_trunk R channels trunk_id =
     bindp (rd_smembers R (call_key trunk_id)) (\<lambda>current.
     bindp (for_p (rd_srem R (call_key trunk_id)) (minus_list current (expected_calls channels trunk_id))) (\<lambda>_.
     bindp (for_p (rd_sadd R (call_key trunk_id)) (minus_list (expected_calls channels trunk_id) current)) (\<lambda>_.
     rd_expire R (call_key trunk_id) ACTIVE_CALL_TTL_SECONDS)))"

definition reconcile_active_calls ::
    "session_env \<Rightarrow> 'r redis \<Rightarrow> 'n esl_lists \<Rightarrow> reconcile_result \<Rightarrow> (('r, 'n, 'm) trunk_world_scheme, reconcile_result) prog" where
  "reconcile_active_calls env R esl res =
     catchp
       (bindp (on_esl (es_channels esl)) (\<lambda>channels.
        bindp (on_db (list_enabled_ids env)) (\<lambda>trunk_ids.
        bindp (on_redis (for_p (sync_trunk R channels) trunk_ids)) (\<lambda>_. ret res))))
       is_Exception (\<lambda>_. ret (res\<lparr>rr_errors := rr_errors res + 1\<rparr>))"

definition reconcile ::
    "session_env \<Rightarrow> 'r redis \<Rightarrow> 'n esl_lists \<Rightarrow> (('r, 'n, 'm) trunk_world_scheme, reconcile_result) prog" where
  "reconcile env R esl =
     bindp (on_db (mark_registered_unknown env)) (\<lambda>unknown.
       let res = \<lparr>rr_unknown = unknown, rr_registered = 0, rr_errors = 0\<rparr> in
       bindp (catchp (bindp (on_esl (es_registrations esl)) (\<lambda>rows. ret (Some rows))) is_Exception (\<lambda>_. ret None))
         (\<lambda>registrations. case registrations of
            None \<Rightarrow> ret (res\<lparr>rr_errors := 1\<rparr>)
          | Some rows \<Rightarrow>
             bindp (on_db (reconcile_rows env rows res)) (reconcile_active_calls env R esl)))"

section \<open>What a reconciliation leaves in the table\<close>

definition listed :: "(string \<times> string) set \<Rightarrow> trunk_row \<Rightarrow> bool" where
  "listed rows t \<longleftrightarrow> tr_enabled t \<and> (tr_profile t, tr_user t) \<in> rows"

definition stamp_listed :: "int \<Rightarrow> (string \<times> string) set \<Rightarrow> public_db \<Rightarrow> public_db" where
  "stamp_listed now rows db =
     db\<lparr>db_trunks := map (\<lambda>t. if listed rows t then stamp now ''registered'' t else t) (db_trunks db)\<rparr>"

lemma stamp_keeps [simp]:
  "tr_id (stamp now st t) = tr_id t" "tr_profile (stamp now st t) = tr_profile t" "tr_user (stamp now st t) = tr_user t"
  "tr_enabled (stamp now st t) = tr_enabled t" "tr_tenant (stamp now st t) = tr_tenant t"
  "tr_prefix (stamp now st t) = tr_prefix t" "tr_pbx (stamp now st t) = tr_pbx t" "tr_condo (stamp now st t) = tr_condo t"
  "tr_status (stamp now st t) = st" "tr_transport (stamp now st t) = tr_transport t"
  "tr_error_code (stamp now st t) = tr_error_code t" "tr_secret (stamp now st t) = tr_secret t"
  by (simp_all add: stamp_def)

lemma listed_stamp [simp]: "listed rows (stamp now st t) = listed rows t"
  by (simp add: listed_def)

lemma stamp_stamp [simp]: "stamp now st (stamp now st t) = stamp now st t"
  by (simp add: stamp_def)

lemma stamp_listed_empty [simp]: "stamp_listed now {} db = db"
  by (simp add: stamp_listed_def listed_def)

lemma stamp_listed_compose: "stamp_listed now B (stamp_listed now A db) = stamp_listed now (A \<union> B) db"
proof -
  have "(\<lambda>t. if listed B t then stamp now ''registered'' t else t) (if listed A t then stamp now ''registered'' t else t)
    = (if listed (A \<union> B) t then stamp now ''registered'' t else t)" for t
    by (auto simp: listed_def)
  then show ?thesis by (simp add: stamp_listed_def o_def)
qed

lemma stamp_listed_ids [simp]:
  "map tr_id (db_trunks (stamp_listed now rows db)) = map tr_id (db_trunks db)"
  by (simp add: stamp_listed_def o_def if_distrib cong: if_cong)

lemma resolve_state: "resolve env p u db = (r, db') \<Longrightarrow> db' = db"
  by (auto simp: resolve_def split: if_splits option.splits list.splits)

lemma resolve_found:
  assumes "resolve env p u db = (Inr (Some i), db')" and "distinct (map tr_id (db_trunks db))"
    and "t \<in> set (db_trunks db)"
  shows "tr_id t = i \<longleftrightarrow> listed {(p, u)} t"
proof -
  let ?m = "\<lambda>t. tr_profile t = p \<and> tr_user t = u \<and> tr_enabled t"
  obtain q where q: "filter ?m (db_trunks db) = [q]" "tr_id q = i"
    using assms(1) by (auto simp: resolve_def split: if_splits option.splits list.splits)
  have mem: "x \<in> set (db_trunks db) \<and> ?m x \<longleftrightarrow> x = q" for x
    using arg_cong[OF q(1), of set] by auto
  have "tr_id t = i \<longleftrightarrow> t = q"
    using assms(2,3) q(2) mem[of q] by (auto simp: distinct_map inj_on_def)
  then show ?thesis using mem[of t] assms(3) by (auto simp: listed_def)
qed

lemma reconcile_row_effect:
  assumes "distinct (map tr_id (db_trunks db))" and "reconcile_row env row db = (r, db')"
  shows "db' = db \<or> (r = Inr True \<and> db' = stamp_listed (se_now env) {row} db)"
proof (cases "\<exists>i. resolve env (fst row) (snd row) db = (Inr (Some i), db)")
  case False
  with assms(2) show ?thesis
    using resolve_state[of env "fst row" "snd row" db]
    by (auto simp: reconcile_row_def bindp_def split: prod.splits sum.splits option.splits)
next
  case True
  then obtain i where i: "resolve env (fst row) (snd row) db = (Inr (Some i), db)" by blast
  from resolve_found[OF i assms(1)] have "t \<in> set (db_trunks db) \<Longrightarrow> (tr_id t = i) = listed {row} t" for t
    by simp
  then have "map (\<lambda>t. if tr_id t = i then stamp (se_now env) ''registered'' t else t) (db_trunks db)
    = map (\<lambda>t. if listed {row} t then stamp (se_now env) ''registered'' t else t) (db_trunks db)"
    by simp
  with i assms(2) show ?thesis
    by (auto simp: reconcile_row_def set_registration_status_def reg_statuses_def bindp_def stamp_listed_def
        split: option.splits)
qed

lemma reconcile_rows_effect:
  assumes "distinct (map tr_id (db_trunks db))" and "reconcile_rows env rows res db = (r, db')"
  shows "\<exists>done_rows. done_rows \<subseteq> set rows \<and> db' = stamp_listed (se_now env) done_rows db"
  using assms
proof (induction env rows res db rule: reconcile_rows.induct)
  case (1 env res db)
  then show ?case by (intro exI[of _ "{}"]) simp
next
  case (2 env row rows res db)
  obtain q db1 where q: "reconcile_row env row db = (q, db1)" by force
  obtain A where A: "A \<subseteq> {row}" "db1 = stamp_listed (se_now env) A db"
    using reconcile_row_effect[OF "2.prems"(1) q] by (metis empty_subsetI stamp_listed_empty subset_refl)
  have d1: "distinct (map tr_id (db_trunks db1))" using "2.prems"(1) A(2) by simp
  have "(\<exists>res'. reconcile_rows env rows res' db1 = (r, db')) \<or> db' = db1"
    using "2.prems"(2) q by (auto split: sum.splits if_splits)
  moreover have "\<exists>B. B \<subseteq> set rows \<and> db' = stamp_listed (se_now env) B db1"
    if "reconcile_rows env rows res' db1 = (r, db')" for res'
  proof (cases q)
    case (Inl e)
    then show ?thesis
      using "2.IH"(1)[OF q[symmetric] Inl _ d1] "2.prems"(2) q by (cases "is_Exception e") (auto intro!: exI[of _ "{}"])
  next
    case (Inr ok)
    with "2.IH"(2)[OF q[symmetric] Inr d1] "2.prems"(2) q show ?thesis by simp
  qed
  ultimately obtain B where "B \<subseteq> set rows" "db' = stamp_listed (se_now env) B db1"
    by (metis empty_subsetI stamp_listed_empty)
  with A show ?case
    by (intro exI[of _ "A \<union> B"]) (auto simp: stamp_listed_compose)
qed

text \<open>Without failing statements every row that names a trunk is applied.\<close>

lemma reconcile_row_total:
  assumes "trunks_sound pub (db_trunks db)" and "se_query env (snd row) = None" and "\<And>i. se_update env i = None"
    and "fst row \<noteq> []" and "snd row \<noteq> []"
  shows "\<exists>ok. reconcile_row env row db = (Inr ok, stamp_listed (se_now env) {row} db)"
proof -
  let ?m = "\<lambda>t. tr_profile t = fst row \<and> tr_user t = snd row \<and> tr_enabled t"
  have m: "?m t \<longleftrightarrow> listed {row} t" for t
    by (cases row) (auto simp: listed_def)
  have d: "distinct (map tr_id (db_trunks db))"
    using assms(1) pairwise_distinct[of trunks_apart "db_trunks db" tr_id]
    by (auto simp: trunks_sound_def trunks_apart_def)
  have "pairwise trunks_apart t \<Longrightarrow> length (filter ?m t) \<le> 1" for t
    by (induction t) (auto simp: trunks_apart_def same_identity_def filter_empty_conv)
  then have len: "length (filter ?m (db_trunks db)) \<le> 1"
    using assms(1) by (simp add: trunks_sound_def)
  show ?thesis
  proof (cases "filter ?m (db_trunks db)")
    case Nil
    then have "stamp_listed (se_now env) {row} db = db"
      by (auto simp: stamp_listed_def filter_empty_conv m map_idI)
    with Nil assms show ?thesis by (intro exI[of _ False]) (simp add: reconcile_row_def resolve_def)
  next
    case (Cons q qs)
    with len have "filter ?m (db_trunks db) = [q]" by simp
    then have r: "resolve env (fst row) (snd row) db = (Inr (Some (tr_id q)), db)"
      using assms by (simp add: resolve_def)
    from resolve_found[OF r d] assms(3) show ?thesis
      by (auto simp: reconcile_row_def r set_registration_status_def reg_statuses_def stamp_listed_def cong: map_cong)
  qed
qed

text \<open>Changing only the columns of the registration state keeps the table sound.\<close>

definition keeps_identity :: "(trunk_row \<Rightarrow> trunk_row) \<Rightarrow> bool" where
  "keeps_identity f \<longleftrightarrow> (\<forall>t. \<exists>st reg unreg. st \<in> insert (tr_status t) (set reg_statuses)
     \<and> f t = t\<lparr>tr_status := st, tr_registered_at := reg, tr_unregistered_at := unreg\<rparr>)"

lemma sound_map:
  assumes "trunks_sound pub t" and "keeps_identity f"
  shows "trunks_sound pub (map f t)"
proof -
  have f: "\<exists>st reg unreg. st \<in> insert (tr_status x) (set reg_statuses)
     \<and> f x = x\<lparr>tr_status := st, tr_registered_at := reg, tr_unregistered_at := unreg\<rparr>" for x
    using assms(2) by (simp add: keeps_identity_def)
  have "trunk_row_ok pub x \<Longrightarrow> trunk_row_ok pub (f x)" for x
    using f[of x] by (auto simp: trunk_row_ok_def)
  moreover have "trunks_apart x y \<Longrightarrow> trunks_apart (f x) (f y)" for x y
    using f[of x] f[of y] by (auto simp: trunks_apart_def same_identity_def same_prefix_def)
  then have "pairwise trunks_apart t \<Longrightarrow> pairwise trunks_apart (map f t)"
    by (induction t) auto
  ultimately show ?thesis using assms(1) by (auto simp: trunks_sound_def)
qed

lemma keeps_identity_if: "keeps_identity f \<Longrightarrow> keeps_identity (\<lambda>t. if P t then f t else t)"
  unfolding keeps_identity_def
proof (intro allI)
  fix t :: trunk_row
  assume f: "\<forall>t. \<exists>st reg unreg. st \<in> insert (tr_status t) (set reg_statuses)
    \<and> f t = t\<lparr>tr_status := st, tr_registered_at := reg, tr_unregistered_at := unreg\<rparr>"
  have "t = t\<lparr>tr_status := tr_status t, tr_registered_at := tr_registered_at t, tr_unregistered_at := tr_unregistered_at t\<rparr>"
    by simp
  with f show "\<exists>st reg unreg. st \<in> insert (tr_status t) (set reg_statuses)
    \<and> (if P t then f t else t) = t\<lparr>tr_status := st, tr_registered_at := reg, tr_unregistered_at := unreg\<rparr>"
    by (cases "P t") (simp, metis insertI1)
qed

lemma keeps_identity_stamp: "st \<in> set reg_statuses \<Longrightarrow> keeps_identity (stamp now st)"
  unfolding keeps_identity_def stamp_def
proof (intro allI)
  fix t :: trunk_row
  assume st: "st \<in> set reg_statuses"
  have "st = ''registered'' \<Longrightarrow> t\<lparr>tr_status := st, tr_registered_at := Some now\<rparr>
      = t\<lparr>tr_status := st, tr_registered_at := Some now, tr_unregistered_at := tr_unregistered_at t\<rparr>"
    "st = ''unregistered'' \<Longrightarrow> t\<lparr>tr_status := st, tr_unregistered_at := Some now\<rparr>
      = t\<lparr>tr_status := st, tr_registered_at := tr_registered_at t, tr_unregistered_at := Some now\<rparr>"
    "t\<lparr>tr_status := st\<rparr>
      = t\<lparr>tr_status := st, tr_registered_at := tr_registered_at t, tr_unregistered_at := tr_unregistered_at t\<rparr>"
    by simp_all
  with st show "\<exists>st' reg unreg. st' \<in> insert (tr_status t) (set reg_statuses)
    \<and> (if st = ''registered'' then t\<lparr>tr_status := st, tr_registered_at := Some now\<rparr>
       else if st = ''unregistered'' then t\<lparr>tr_status := st, tr_unregistered_at := Some now\<rparr>
       else t\<lparr>tr_status := st\<rparr>) = t\<lparr>tr_status := st', tr_registered_at := reg, tr_unregistered_at := unreg\<rparr>"
    by (metis insertI2)
qed

lemma keeps_identity_unknown: "keeps_identity (\<lambda>t. t\<lparr>tr_status := ''unknown''\<rparr>)"
  unfolding keeps_identity_def
proof (intro allI)
  fix t :: trunk_row
  have "t\<lparr>tr_status := ''unknown''\<rparr>
    = t\<lparr>tr_status := ''unknown'', tr_registered_at := tr_registered_at t, tr_unregistered_at := tr_unregistered_at t\<rparr>"
    by simp
  then show "\<exists>st reg unreg. st \<in> insert (tr_status t) (set reg_statuses)
    \<and> t\<lparr>tr_status := ''unknown''\<rparr> = t\<lparr>tr_status := st, tr_registered_at := reg, tr_unregistered_at := unreg\<rparr>"
    by (metis insertI2 list.set_intros(1) reg_statuses_def)
qed

lemma reconcile_rows_total:
  assumes "trunks_sound pub (db_trunks db)" and "\<And>u. se_query env u = None" and "\<And>i. se_update env i = None"
    and "\<And>row. row \<in> set rows \<Longrightarrow> fst row \<noteq> [] \<and> snd row \<noteq> []"
  shows "\<exists>res'. reconcile_rows env rows res db = (Inr res', stamp_listed (se_now env) (set rows) db)"
  using assms(1,4)
proof (induction rows arbitrary: res db)
  case Nil
  then show ?case by simp
next
  case (Cons row rows)
  obtain ok where ok: "reconcile_row env row db = (Inr ok, stamp_listed (se_now env) {row} db)"
    using reconcile_row_total[OF Cons.prems(1) assms(2,3)] Cons.prems(2) by fastforce
  have "keeps_identity (\<lambda>t. if listed {row} t then stamp (se_now env) ''registered'' t else t)"
    by (rule keeps_identity_if[OF keeps_identity_stamp]) (simp add: reg_statuses_def)
  then have "trunks_sound pub (db_trunks (stamp_listed (se_now env) {row} db))"
    using sound_map[OF Cons.prems(1)] by (simp add: stamp_listed_def)
  from Cons.IH[OF this, of "count_row ok res"] Cons.prems(2) ok show ?case
    by (auto simp: stamp_listed_compose)
qed

lemma on_parts [simp]:
  "tw_db (snd (on_redis p w)) = tw_db w" "tw_db (snd (on_esl q w)) = tw_db w"
  "tw_redis (snd (on_db c w)) = tw_redis w" "tw_esl (snd (on_db c w)) = tw_esl w"
  "tw_esl (snd (on_redis p w)) = tw_esl w" "tw_redis (snd (on_esl q w)) = tw_redis w"
  by (simp_all add: on_db_def on_redis_def on_esl_def split: prod.splits)

lemma list_enabled_ids_reads: "reads_only (list_enabled_ids env)"
  by (simp add: reads_only_def list_enabled_ids_def split: option.splits)

lemma on_db_reads: "reads_only p \<Longrightarrow> reads_only (on_db p)"
  by (auto simp: reads_only_def on_db_def split: prod.splits) (metis snd_conv trunk_world.surjective trunk_world.update_convs(1))

lemma reconcile_active_calls_db:
  assumes "reconcile_active_calls env R esl res w = (r, w')"
  shows "tw_db w' = tw_db w"
proof -
  have 1: "tw_db w1 = tw_db w0" if "on_esl q w0 = (x, w1)" for q x and w0 w1 :: "('a, 'b, 'c) trunk_world_scheme"
    using on_parts(2)[of q w0] that by simp
  have 2: "tw_db w1 = tw_db w0" if "on_db (list_enabled_ids env) w0 = (x, w1)" for x and w0 w1 :: "('a, 'b, 'c) trunk_world_scheme"
    using reads_onlyD[OF on_db_reads[OF list_enabled_ids_reads] that] by simp
  have 3: "tw_db w1 = tw_db w0" if "on_redis q w0 = (x, w1)" for q x and w0 w1 :: "('a, 'b, 'c) trunk_world_scheme"
    using on_parts(1)[of q w0] that by simp
  show ?thesis
    using assms
    by (auto simp: reconcile_active_calls_def catchp_def bindp_def dest!: 1 2 3
        split: prod.splits sum.splits if_splits)
qed

text \<open>The table after a reconciliation, and the list it was made from.\<close>

lemma reconcile_effect:
  assumes "trunks_sound pub (db_trunks (tw_db w))" and "reconcile env R esl w = (Inr res, w')"
  shows "\<exists>n marked. mark_registered_unknown env (tw_db w) = (Inr n, marked)
     \<and> ((\<exists>e. fst (es_registrations esl (tw_esl w)) = Inl e) \<and> tw_db w' = marked
        \<or> (\<exists>rows r0 res1. fst (es_registrations esl (tw_esl w)) = Inr rows
             \<and> reconcile_rows env rows r0 marked = (Inr res1, tw_db w')))"
proof (cases "se_mark env")
  case (Some e)
  with assms(2) show ?thesis
    by (simp add: reconcile_def bindp_def on_db_def mark_registered_unknown_def)
next
  case None
  then obtain n marked where m: "mark_registered_unknown env (tw_db w) = (Inr n, marked)"
    by (simp add: mark_registered_unknown_def)
  obtain q n1 where q: "es_registrations esl (tw_esl w) = (q, n1)" by force
  show ?thesis
  proof (cases q)
    case (Inl e)
    with assms(2) m q have "tw_db w' = marked"
      by (auto simp: reconcile_def bindp_def on_db_def on_esl_def catchp_def split: if_splits)
    with Inl q m show ?thesis by auto
  next
    case (Inr rows)
    let ?r0 = "\<lparr>rr_unknown = n, rr_registered = 0, rr_errors = 0\<rparr>"
    obtain p db2 where p: "reconcile_rows env rows ?r0 marked = (p, db2)" by force
    from assms(2) m q Inr p obtain res1 where r1: "p = Inr res1"
      "reconcile_active_calls env R esl res1 (w\<lparr>tw_esl := n1, tw_db := db2\<rparr>) = (Inr res, w')"
      by (cases p) (auto simp: reconcile_def bindp_def on_db_def on_esl_def catchp_def)
    from reconcile_active_calls_db[OF r1(2)] have "tw_db w' = db2" by simp
    with Inr q m p r1(1) show ?thesis by auto
  qed
qed

definition mark_all :: "public_db \<Rightarrow> public_db" where
  "mark_all db = db\<lparr>db_trunks :=
     map (\<lambda>t. if tr_status t = ''registered'' then t\<lparr>tr_status := ''unknown''\<rparr> else t) (db_trunks db)\<rparr>"

lemma mark_result: "mark_registered_unknown env db = (Inr n, d) \<Longrightarrow> d = mark_all db"
  by (auto simp: mark_registered_unknown_def mark_all_def split: option.splits)

lemma mark_all_sound: "trunks_sound pub (db_trunks db) \<Longrightarrow> trunks_sound pub (db_trunks (mark_all db))"
  unfolding mark_all_def by (simp add: sound_map keeps_identity_if keeps_identity_unknown)

lemma mark_all_none: "t \<in> set (db_trunks (mark_all db)) \<Longrightarrow> tr_status t \<noteq> ''registered''"
  by (auto simp: mark_all_def)

lemma sound_ids: "trunks_sound pub t \<Longrightarrow> distinct (map tr_id t)"
  using pairwise_distinct[of trunks_apart t tr_id] by (auto simp: trunks_sound_def trunks_apart_def)

lemma stamp_listed_status:
  assumes "t \<in> set (db_trunks (stamp_listed now rows db))"
    and "\<And>u. u \<in> set (db_trunks db) \<Longrightarrow> tr_status u \<noteq> ''registered''"
  shows "tr_status t = ''registered'' \<longleftrightarrow> listed rows t"
    and "tr_status t = ''registered'' \<Longrightarrow> tr_registered_at t = Some now"
  using assms by (auto simp: stamp_listed_def stamp_def listed_def)

text \<open>C15. After a reconciliation that returns, the trunks that count as registered are enabled
  trunks the telephony server listed a moment before, stamped with the time of this
  reconciliation, whatever statements failed on the way; and when no statement fails they are
  exactly those. A trunk that was registered before and is not listed is unknown.\<close>

theorem reconcile_registers_exactly_the_listed:
  assumes "db_ok (tw_db w)" and "reconcile env R esl w = (Inr res, w')"
    and "fst (es_registrations esl (tw_esl w)) = Inr rows"
    and "\<forall>row\<in>set rows. fst row \<noteq> [] \<and> snd row \<noteq> []" and "t \<in> set (db_trunks (tw_db w'))"
  shows "(tr_status t = ''registered'' \<longrightarrow> listed (set rows) t \<and> tr_registered_at t = Some (se_now env))
    \<and> ((\<forall>u. se_query env u = None) \<and> (\<forall>i. se_update env i = None) \<longrightarrow>
         (tr_status t = ''registered'' \<longleftrightarrow> listed (set rows) t))"
proof -
  have s0: "trunks_sound (tw_db w) (db_trunks (tw_db w))" using assms(1) by (simp add: db_ok_def)
  obtain n marked r0 res1 where "mark_registered_unknown env (tw_db w) = (Inr n, marked)"
    "reconcile_rows env rows r0 marked = (Inr res1, tw_db w')"
    using reconcile_effect[OF s0 assms(2)] unfolding assms(3) by blast
  then have r: "reconcile_rows env rows r0 (mark_all (tw_db w)) = (Inr res1, tw_db w')"
    using mark_result by blast
  note s = mark_all_sound[OF s0]
  from reconcile_rows_effect[OF sound_ids[OF s] r] obtain D where
    D: "D \<subseteq> set rows" "tw_db w' = stamp_listed (se_now env) D (mark_all (tw_db w))" by blast
  note st = stamp_listed_status[OF assms(5)[unfolded D(2)] mark_all_none]
  have 1: "tr_status t = ''registered'' \<longrightarrow> listed (set rows) t \<and> tr_registered_at t = Some (se_now env)"
    using st D(1) by (auto simp: listed_def)
  have 2: "tr_status t = ''registered'' \<longleftrightarrow> listed (set rows) t"
    if "\<forall>u. se_query env u = None" "\<forall>i. se_update env i = None"
  proof -
    have "tw_db w' = stamp_listed (se_now env) (set rows) (mark_all (tw_db w))"
      using reconcile_rows_total[OF s, of env rows r0] that assms(4) r by auto
    from stamp_listed_status(1)[OF assms(5)[unfolded this]] mark_all_none show ?thesis by blast
  qed
  from 1 2 show ?thesis by blast
qed

section \<open>Active calls\<close>

lemma for_srem:
  assumes "redis_laws R texts sets" and "for_p (rd_srem R k) xs r = (res, r')"
  shows "(\<forall>q. q \<noteq> k \<longrightarrow> sets r' q = sets r q) \<and> (res = Inr () \<longrightarrow> sets r' k = sets r k - set xs)"
  using assms(2)
proof (induction xs arbitrary: r)
  case Nil
  then show ?case by simp
next
  case (Cons x xs)
  obtain p r1 where p: "rd_srem R k x r = (p, r1)" by force
  note a = altersD[OF srem_alters(1)[OF assms(1)] p]
  show ?case
  proof (cases p)
    case (Inl e)
    with Cons.prems p a(1) show ?thesis by auto
  next
    case (Inr u)
    with Cons.prems p have "for_p (rd_srem R k) xs r1 = (res, r')" by simp
    from Cons.IH[OF this] a(1,2) Inr show ?thesis by auto
  qed
qed

lemma for_sadd:
  assumes "redis_laws R texts sets" and "for_p (rd_sadd R k) xs r = (res, r')"
  shows "(\<forall>q. q \<noteq> k \<longrightarrow> sets r' q = sets r q) \<and> (res = Inr () \<longrightarrow> sets r' k = sets r k \<union> set xs)"
  using assms(2)
proof (induction xs arbitrary: r)
  case Nil
  then show ?case by simp
next
  case (Cons x xs)
  obtain p r1 where p: "rd_sadd R k x r = (p, r1)" by force
  note a = altersD[OF sadd_alters(1)[OF assms(1)] p]
  show ?case
  proof (cases p)
    case (Inl e)
    with Cons.prems p a(1) show ?thesis by auto
  next
    case (Inr u)
    with Cons.prems p have "for_p (rd_sadd R k) xs r1 = (res, r')" by simp
    from Cons.IH[OF this] a(1,2) Inr show ?thesis by auto
  qed
qed

lemma set_minus_list [simp]: "set (minus_list xs ys) = set xs - set ys"
  by (auto simp: minus_list_def)

lemma sync_trunk_effect:
  assumes laws: "redis_laws R texts sets" and s: "sync_trunk R ch i r = (res, r')"
  shows "(\<forall>q. q \<noteq> call_key i \<longrightarrow> sets r' q = sets r q)
    \<and> (res = Inr () \<longrightarrow> sets r' (call_key i) = set (expected_calls ch i))"
proof -
  let ?k = "call_key i" and ?e = "expected_calls ch i"
  obtain p0 r0 where 0: "rd_smembers R ?k r = (p0, r0)" by force
  note l = looksD[OF smembers_looks[OF laws] 0]
  show ?thesis
  proof (cases p0)
    case (Inl e)
    with s 0 l(1) show ?thesis by (auto simp: sync_trunk_def)
  next
    case cur: (Inr cur)
    obtain p1 r1 where 1: "for_p (rd_srem R ?k) (minus_list cur ?e) r = (p1, r1)" by force
    note f1 = for_srem[OF laws 1]
    show ?thesis
    proof (cases p1)
      case (Inl e)
      with s 0 1 l(1) cur f1 show ?thesis by (auto simp: sync_trunk_def)
    next
      case i1: (Inr u)
      obtain p2 r2 where 2: "for_p (rd_sadd R ?k) (minus_list ?e cur) r1 = (p2, r2)" by force
      note f2 = for_sadd[OF laws 2]
      show ?thesis
      proof (cases p2)
        case (Inl e)
        with s 0 1 2 l(1) cur i1 f1 f2 show ?thesis by (auto simp: sync_trunk_def)
      next
        case i2: (Inr v)
        with s 0 1 2 l(1) cur i1 have "rd_expire R ?k ACTIVE_CALL_TTL_SECONDS r2 = (res, r')"
          by (simp add: sync_trunk_def)
        from alters_id[OF expire_alters(1)[OF laws] this] have "sets r' = sets r2" .
        with l cur i1 i2 f1 f2 show ?thesis by auto
      qed
    qed
  qed
qed

lemma call_key_inj [simp]: "call_key a = call_key b \<longleftrightarrow> a = b"
  by (simp add: call_key_def)

lemma for_sync:
  assumes laws: "redis_laws R texts sets" and "for_p (sync_trunk R ch) ids r = (Inr (), r')"
  shows "sets r' (call_key i) = (if i \<in> set ids then set (expected_calls ch i) else sets r (call_key i))"
  using assms(2)
proof (induction ids arbitrary: r)
  case Nil
  then show ?case by simp
next
  case (Cons j ids)
  obtain p r1 where p: "sync_trunk R ch j r = (p, r1)" by force
  with Cons.prems have "p = Inr ()" "for_p (sync_trunk R ch) ids r1 = (Inr (), r')"
    by (auto split: sum.splits)
  from Cons.IH[OF this(2)] sync_trunk_effect[OF laws p] this(1) show ?case by auto
qed

lemma set_expected_calls: "set (expected_calls ch i) = {u. (i, u) \<in> set ch \<and> i \<noteq> [] \<and> u \<noteq> []}"
  by (force simp: expected_calls_def)

text \<open>C17. A reconciliation of the active calls that reports no error leaves, for every enabled
  trunk, exactly the calls the telephony server lists for it: calls whose hangup event was
  lost are gone and calls whose start was missed are there. Other trunks keep theirs.\<close>

theorem reconciled_calls_match_the_channels:
  assumes "redis_laws R texts sets"
    and "reconcile_active_calls env R esl res w = (Inr res', w')" and "rr_errors res' = rr_errors res"
    and "fst (es_channels esl (tw_esl w)) = Inr channels"
  shows "sets (tw_redis w') (call_key i) =
    (if \<exists>t\<in>set (db_trunks (tw_db w)). tr_id t = i \<and> tr_enabled t
     then {u. (i, u) \<in> set channels \<and> i \<noteq> [] \<and> u \<noteq> []} else sets (tw_redis w) (call_key i))"
proof -
  obtain n1 where n1: "es_channels esl (tw_esl w) = (Inr channels, n1)"
    using assms(4) by (cases "es_channels esl (tw_esl w)") simp
  have ids: "se_ids env = None"
    using assms(2,3) n1
    by (cases "se_ids env") (auto simp: reconcile_active_calls_def catchp_def bindp_def on_esl_def on_db_def
        list_enabled_ids_def split: if_splits)
  let ?ids = "map tr_id (filter tr_enabled (db_trunks (tw_db w)))"
  obtain p r1 where p: "for_p (sync_trunk R channels) ?ids (tw_redis w) = (p, r1)" by force
  from assms(2,3) n1 ids p have "p = Inr ()" "tw_redis w' = r1"
    by (auto simp: reconcile_active_calls_def catchp_def bindp_def on_esl_def on_db_def on_redis_def
        list_enabled_ids_def split: sum.splits if_splits)
  with for_sync[OF assms(1), of channels ?ids "tw_redis w" r1 i] p show ?thesis
    by (auto simp: set_expected_calls)
qed

section \<open>Histories of the registration state\<close>

text \<open>
  One step of the table of trunks: a call of the services (\<open>trunk_step\<close>), the loss of the ESL
  connection, a registration event, or the rows of a reconciliation. Whatever a step raises,
  the table goes on from what it left.
\<close>

inductive trunk_evolves :: "public_db \<Rightarrow> public_db \<Rightarrow> bool" where
  serviced: "trunk_evolves db (trunk_step x db)"
| disconnected: "trunk_evolves db (snd (mark_registered_unknown env db))"
| signalled: "trunk_evolves db (snd (apply_registration_event env ev db))"
| reconciled: "trunk_evolves db (snd (reconcile_rows env rows res db))"

inductive_cases trunk_evolvesE: "trunk_evolves db db'"

definition stamped :: "trunk_row \<Rightarrow> bool" where
  "stamped t \<longleftrightarrow> (tr_status t = ''registered'' \<longrightarrow> tr_registered_at t \<noteq> None)
     \<and> (tr_status t = ''unregistered'' \<longrightarrow> tr_unregistered_at t \<noteq> None)"

definition stamped_db :: "public_db \<Rightarrow> bool" where
  "stamped_db db \<longleftrightarrow> db_ok db \<and> (\<forall>t\<in>set (db_trunks db). stamped t)"

lemma stamped_stamp [simp]: "stamped t \<Longrightarrow> stamped (stamp now st t)"
  by (auto simp: stamped_def stamp_def)

lemma stamped_change: "stamped t \<Longrightarrow> stamped (change_trunk ch s b t)"
  by (simp add: stamped_def change_trunk_def Let_def)

lemma trunk_update_stamped:
  assumes "\<forall>t\<in>set (db_trunks db). stamped t" and "trunk_update env tenant i ch db = (r, db')"
  shows "\<forall>t\<in>set (db_trunks db'). stamped t"
  using trunk_update_cases[OF assms(2)]
proof (elim disjE exE conjE)
  fix e assume "r = Inl e" "db' = db"
  with assms(1) show ?thesis by simp
next
  fix t secret
  let ?f = "change_trunk ch secret (sip_identity_changed ch t \<or> secret \<noteq> None)"
  assume g: "get_trunk db i = Some t"
    and u: "repo_update tr_id (trunk_violation db) (tv_commit env) i ?f (db_trunks db) = (r, db_trunks db')"
  from repo_get_split[OF g[unfolded get_trunk_def]] obtain xs ys where
    s: "db_trunks db = xs @ t # ys" "\<And>q. replace_row tr_id i q (db_trunks db) = xs @ q # ys" by blast
  have "db_trunks db' = db_trunks db \<or> db_trunks db' = xs @ ?f t # ys"
    using u g s(2) by (auto simp: repo_update_def get_trunk_def split: option.splits)
  with assms(1) s(1) show ?thesis by (auto simp: stamped_change)
qed

lemma trunk_create_stamped:
  assumes "\<forall>t\<in>set (db_trunks db). stamped t"
    and "trunk_create env tenant pbx condo prefix user pw prof enabled transport db = (r, db')"
  shows "\<forall>t\<in>set (db_trunks db'). stamped t"
  using trunk_create_cases[OF assms(2)] assms(1) by (auto simp: new_trunk_def stamped_def)

lemma trunk_step_stamped:
  assumes "stamped_db db"
  shows "stamped_db (trunk_step x db)"
proof -
  have ok: "db_ok db" and st: "\<forall>t\<in>set (db_trunks db). stamped t" using assms by (auto simp: stamped_db_def)
  have "\<forall>t\<in>set (db_trunks (trunk_step x db)). stamped t"
  proof (cases x)
    case (CondoCreate env tenant pbx name ext en)
    with st condo_create_ok[OF ok prod.collapse[symmetric]] show ?thesis by simp
  next
    case (CondoUpdate env tenant i ch)
    with st condo_update_ok[OF ok prod.collapse[symmetric]] show ?thesis by simp
  next
    case (TrunkCreate env tenant pbx condo prefix user pw prof en tr)
    with trunk_create_stamped[OF st prod.collapse[symmetric]] show ?thesis by simp
  next
    case (TrunkUpdate env tenant i ch)
    with trunk_update_stamped[OF st prod.collapse[symmetric]] show ?thesis by simp
  next
    case (TrunkImport env tenant pbx row)
    obtain r db' where u: "upsert_imported env tenant pbx row db = (r, db')" by force
    then have "\<forall>t\<in>set (db_trunks db'). stamped t"
      by (auto simp: upsert_imported_def split: option.splits prod.splits sum.splits
          dest: trunk_create_stamped[OF st] trunk_update_stamped[OF st])
    with u TrunkImport show ?thesis by simp
  qed
  with tm.inv_step[OF ok] show ?thesis by (simp add: stamped_db_def)
qed

lemma scoped_map:
  assumes "db_ok db" and "keeps_identity f"
  shows "db_ok (db\<lparr>db_trunks := map f (db_trunks db)\<rparr>)"
proof -
  have "trunk_scoped db (f t) = trunk_scoped db t" for t
  proof -
    obtain st reg unreg where "f t = t\<lparr>tr_status := st, tr_registered_at := reg, tr_unregistered_at := unreg\<rparr>"
      using assms(2) unfolding keeps_identity_def by blast
    then show ?thesis by (simp add: trunk_scoped_def)
  qed
  with assms sound_map[of db "db_trunks db" f] show ?thesis
    by (auto simp: db_ok_def)
qed

lemma stamped_map:
  assumes "stamped_db db" and "keeps_identity f" and "\<And>t. stamped t \<Longrightarrow> stamped (f t)"
  shows "stamped_db (db\<lparr>db_trunks := map f (db_trunks db)\<rparr>)"
  using assms scoped_map[of db f] by (auto simp: stamped_db_def)

lemma stamped_set_status:
  assumes "stamped_db db" and "set_registration_status env i st db = (r, db')" and "st \<in> set reg_statuses"
  shows "stamped_db db'"
proof -
  have "stamped_db (db\<lparr>db_trunks := map (\<lambda>t. if tr_id t = i then stamp (se_now env) st t else t) (db_trunks db)\<rparr>)"
    by (rule stamped_map[OF assms(1) keeps_identity_if[OF keeps_identity_stamp[OF assms(3)]]]) simp
  with assms show ?thesis by (auto simp: set_registration_status_def split: option.splits if_splits)
qed

lemma normalized_status: "normalize_registration_event ev = Some n \<Longrightarrow> re_status n \<in> set reg_statuses"
proof -
  assume n: "normalize_registration_event ev = Some n"
  have "map_of status_by_event x = Some s \<Longrightarrow> s \<in> set reg_statuses" for x s
    by (drule map_of_SomeD) (auto simp: status_by_event_def reg_statuses_def)
  with n show ?thesis
    by (auto simp: normalize_registration_event_def Let_def simp del: first_text.simps split: option.splits if_splits)
qed

lemma apply_event_stamped:
  assumes "stamped_db db" and "apply_registration_event env ev db = (r, db')"
  shows "stamped_db db'"
proof (cases "normalize_registration_event ev")
  case None
  with assms show ?thesis by (simp add: apply_registration_event_def)
next
  case (Some n)
  obtain q d where q: "resolve env (re_profile n) (re_user n) db = (q, d)" by force
  have d: "d = db" using resolve_state[OF q] .
  show ?thesis
  proof (cases "\<exists>i. q = Inr (Some i)")
    case False
    with assms Some q d show ?thesis
      by (auto simp: apply_registration_event_def bindp_def split: sum.splits option.splits)
  next
    case True
    then obtain i where i: "q = Inr (Some i)" by blast
    obtain x db1 where x: "set_registration_status env i (re_status n) db = (x, db1)" by force
    have "db' = db1" using assms(2) Some q d i x
      by (auto simp: apply_registration_event_def bindp_def split: sum.splits)
    with stamped_set_status[OF assms(1) x normalized_status[OF Some]] show ?thesis by simp
  qed
qed

lemma stamp_listed_stamped: "stamped_db db \<Longrightarrow> stamped_db (stamp_listed now rows db)"
  unfolding stamp_listed_def
  by (rule stamped_map) (auto intro!: keeps_identity_if keeps_identity_stamp simp: reg_statuses_def)

lemma mark_stamped:
  assumes "stamped_db db"
  shows "stamped_db (snd (mark_registered_unknown env db))"
proof -
  have "stamped_db (mark_all db)"
    unfolding mark_all_def
    by (rule stamped_map[OF assms keeps_identity_if[OF keeps_identity_unknown]]) (simp add: stamped_def)
  with assms show ?thesis by (simp add: mark_registered_unknown_def mark_all_def split: option.splits)
qed

lemma trunk_evolves_stamped:
  assumes "trunk_evolves db db'" and "stamped_db db"
  shows "stamped_db db'"
  using assms
proof (cases rule: trunk_evolves.cases)
  case (serviced x)
  with trunk_step_stamped[OF assms(2)] show ?thesis by simp
next
  case (disconnected env)
  with mark_stamped[OF assms(2)] show ?thesis by simp
next
  case (signalled env ev)
  with apply_event_stamped[OF assms(2) prod.collapse[symmetric]] show ?thesis by simp
next
  case (reconciled env rows res)
  have "distinct (map tr_id (db_trunks db))"
    using assms(2) sound_ids by (auto simp: stamped_db_def db_ok_def)
  from reconcile_rows_effect[OF this prod.collapse[symmetric]] stamp_listed_stamped[OF assms(2)] reconciled
  show ?thesis by metis
qed

text \<open>C16. Over any history of service calls, lost connections, registration events and
  reconciliations, whatever fails on the way, a registered trunk carries the time it
  registered, an unregistered one the time it left, and no two trunks share a SIP identity.\<close>

theorem registration_states_are_stamped:
  assumes "trunk_evolves\<^sup>*\<^sup>* db0 db" and "db_ok db0" and "db_trunks db0 = []"
    and "t \<in> set (db_trunks db)" and "u \<in> set (db_trunks db)"
  shows "(tr_status t = ''registered'' \<longrightarrow> tr_registered_at t \<noteq> None)
    \<and> (tr_status t = ''unregistered'' \<longrightarrow> tr_unregistered_at t \<noteq> None)
    \<and> (same_identity t u \<longrightarrow> t = u)"
proof -
  have "stamped_db db"
    using assms(1) by (induction rule: rtranclp_induct) (use assms(2,3) trunk_evolves_stamped in \<open>auto simp: stamped_db_def\<close>)
  moreover have "pairwise trunks_apart x \<Longrightarrow> t \<in> set x \<Longrightarrow> u \<in> set x \<Longrightarrow> t \<noteq> u \<Longrightarrow> trunks_apart t u" for x
    by (induction x) (auto simp: trunks_apart_sym[of t u])
  ultimately show ?thesis
    using assms(4,5) by (auto simp: stamped_db_def stamped_def db_ok_def trunks_sound_def trunks_apart_def)
qed

section \<open>An office\<close>

definition calm_env :: session_env where
  "calm_env = \<lparr>se_now = 70, se_query = (\<lambda>_. None), se_mark = None, se_update = (\<lambda>_. None), se_ids = None\<rparr>"

definition office_esl :: "nat esl_lists" where
  "office_esl = \<lparr>es_registrations = ret [(''internal'', ''u1'')], es_channels = ret [(''K1'', ''call-1'')]\<rparr>"

definition office_world :: "(mem_server, nat) trunk_world" where
  "office_world = \<lparr>tw_db = office_db, tw_redis = \<lparr>ms_texts = [], ms_sets = [(call_key ''K1'', ''call-0'')], ms_down = []\<rparr>,
     tw_esl = 0\<rparr>"

definition empty_office :: public_db where
  "empty_office = office_db\<lparr>db_trunks := []\<rparr>"

theorem reconcile_registers_exactly_the_listed_witness:
  "\<exists>res w'. reconcile calm_env mem_redis office_esl office_world = (Inr res, w')
     \<and> (\<forall>t\<in>set (db_trunks (tw_db w')). tr_status t = ''registered'' \<longleftrightarrow> listed {(''internal'', ''u1'')} t)"
proof -
  have "case fst (reconcile calm_env mem_redis office_esl office_world) of Inr _ \<Rightarrow> True | Inl _ \<Rightarrow> False"
    by code_simp
  then obtain res w' where r: "reconcile calm_env mem_redis office_esl office_world = (Inr res, w')"
    by (cases "reconcile calm_env mem_redis office_esl office_world") (auto split: sum.splits)
  have "tr_status t = ''registered'' \<longleftrightarrow> listed {(''internal'', ''u1'')} t" if "t \<in> set (db_trunks (tw_db w'))" for t
    using reconcile_registers_exactly_the_listed[OF _ r, of "[(''internal'', ''u1'')]" t] that office_ok
    by (simp add: office_world_def office_esl_def calm_env_def)
  with r show ?thesis by blast
qed

definition zero_result :: reconcile_result where
  "zero_result = \<lparr>rr_unknown = 0, rr_registered = 0, rr_errors = 0\<rparr>"

theorem reconciled_calls_match_the_channels_witness:
  "\<exists>res w'. reconcile_active_calls calm_env mem_redis office_esl zero_result office_world = (Inr res, w')
     \<and> mem_sets (tw_redis w') (call_key ''K1'') = {''call-1''}"
proof -
  have "case fst (reconcile_active_calls calm_env mem_redis office_esl zero_result office_world) of
      Inr res \<Rightarrow> rr_errors res = 0 | Inl _ \<Rightarrow> False"
    by code_simp
  then obtain res w' where r: "reconcile_active_calls calm_env mem_redis office_esl zero_result office_world = (Inr res, w')"
      "rr_errors res = rr_errors zero_result"
    by (cases "reconcile_active_calls calm_env mem_redis office_esl zero_result office_world")
      (auto simp: zero_result_def split: sum.splits)
  have "mem_sets (tw_redis w') (call_key ''K1'') = {''call-1''}"
    using reconciled_calls_match_the_channels[OF mem_redis_laws r, of "[(''K1'', ''call-1'')]" "''K1''"]
    by (auto simp: office_world_def office_esl_def office_db_def trunk_a_def)
  with r(1) show ?thesis by blast
qed

definition left_event :: json where
  "left_event = JObj [(''Event-Subclass'', JStr ''sofia::unregister''), (''profile-name'', JStr ''internal''),
     (''from-user'', JStr ''u2'')]"

definition one_trunk_db :: public_db where
  "one_trunk_db = trunk_step (TrunkCreate office_env ''T1'' ''P1'' ''C1'' None ''u2'' (Some ''pw'') ''internal'' True ''udp'') empty_office"

theorem registration_states_are_stamped_witness:
  "\<exists>t\<in>set (db_trunks (snd (apply_registration_event calm_env left_event one_trunk_db))).
     tr_status t = ''unregistered'' \<and> tr_unregistered_at t \<noteq> None"
proof -
  let ?db = "snd (apply_registration_event calm_env left_event one_trunk_db)"
  have h: "trunk_evolves\<^sup>*\<^sup>* empty_office ?db"
    unfolding one_trunk_db_def
    by (rule converse_rtranclp_into_rtranclp, rule serviced, rule r_into_rtranclp, rule signalled)
  have "case db_trunks ?db of [t] \<Rightarrow> tr_status t = ''unregistered'' | _ \<Rightarrow> False" by code_simp
  then obtain t where t: "db_trunks ?db = [t]" "tr_status t = ''unregistered''"
    by (auto split: list.splits)
  have "db_ok empty_office" "db_trunks empty_office = []"
    by (simp_all add: empty_office_def db_ok_def office_db_def tenant_a_def trunks_sound_def condos_sound_def condo_row_ok_def)
  from registration_states_are_stamped[OF h this, of t t] t show ?thesis by simp
qed

end
