(* ===== verification/Entities.thy ===== *)
theory Entities
  imports Json_Text Events
begin

text \<open>
  \<open>extraction/regex_layer.py\<close>, \<open>extraction/llm_layer.py\<close> and \<open>ai/consensus_graph.py\<close>: the
  entities found in a transcript by regular expressions, their correction by a local language
  model, and the loop that decides on them. \<open>rx_run\<close> is the backtracking match of the part of
  \<open>re\<close> the patterns use (classes, greedy optional classes, word boundaries) on code points
  below 256. The HTTP server of the model is a program argument; the graph library runs the
  nodes in the order of its edges.
\<close>

section \<open>Regular expressions\<close>

definition rx_word :: "char \<Rightarrow> bool" where
  "rx_word c \<longleftrightarrow> py_alnum c \<or> c = CHR ''_''"

definition rx_space :: "char \<Rightarrow> bool" where
  "rx_space c \<longleftrightarrow> is_space c"

datatype rx = Cls "char \<Rightarrow> bool" | Opt "char \<Rightarrow> bool" | Bound

definition at_bound :: "char option \<Rightarrow> string \<Rightarrow> bool" where
  "at_bound prev s \<longleftrightarrow>
     (case prev of None \<Rightarrow> False | Some c \<Rightarrow> rx_word c) \<noteq> (case s of [] \<Rightarrow> False | c # _ \<Rightarrow> rx_word c)"

text \<open>The length of the match at the head of the text, given the character before it.\<close>

fun rx_run :: "rx list \<Rightarrow> char option \<Rightarrow> string \<Rightarrow> nat option" where
  "rx_run [] prev s = Some 0"
| "rx_run (Bound # r) prev s = (if at_bound prev s then rx_run r prev s else None)"
| "rx_run (Cls p # r) prev s =
     (case s of [] \<Rightarrow> None | c # t \<Rightarrow> if p c then map_option Suc (rx_run r (Some c) t) else None)"
| "rx_run (Opt p # r) prev s =
     (case s of
        [] \<Rightarrow> rx_run r prev s
      | c # t \<Rightarrow>
         if p c then (case rx_run r (Some c) t of Some n \<Rightarrow> Some (Suc n) | None \<Rightarrow> rx_run r prev s)
         else rx_run r prev s)"

text \<open>\<open>finditer\<close>: spans from the left without overlap; \<open>k\<close> characters belong to the last match.\<close>

fun rx_scan :: "rx list \<Rightarrow> nat \<Rightarrow> nat \<Rightarrow> char option \<Rightarrow> string \<Rightarrow> (nat \<times> nat) list" where
  "rx_scan p k pos prev [] = []"
| "rx_scan p k pos prev (c # t) =
     (if k > 0 then rx_scan p (k - 1) (pos + 1) (Some c) t
      else case rx_run p prev (c # t) of
          Some (Suc n) \<Rightarrow> (pos, pos + Suc n) # rx_scan p n (pos + 1) (Some c) t
        | _ \<Rightarrow> rx_scan p 0 (pos + 1) (Some c) t)"

definition finditer :: "rx list \<Rightarrow> string \<Rightarrow> (nat \<times> nat) list" where
  "finditer p s = rx_scan p 0 0 None s"

definition slice :: "nat \<Rightarrow> nat \<Rightarrow> string \<Rightarrow> string" where
  "slice a b s = take (b - a) (drop a s)"

section \<open>The patterns\<close>

definition digits_rx :: "nat \<Rightarrow> rx list" where
  "digits_rx n = replicate n (Cls is_digit)"

definition lit :: "char \<Rightarrow> char \<Rightarrow> bool" where
  "lit a c \<longleftrightarrow> c = a"

definition dash_or_space :: "char \<Rightarrow> bool" where
  "dash_or_space c \<longleftrightarrow> c = CHR ''-'' \<or> rx_space c"

definition PATTERNS :: "(string \<times> rx list) list" where
  "PATTERNS =
     [(''cpf'', [Bound] @ digits_rx 3 @ [Opt (lit (CHR ''.''))] @ digits_rx 3 @ [Opt (lit (CHR ''.''))] @ digits_rx 3
         @ [Opt (lit (CHR ''-''))] @ digits_rx 2 @ [Bound]),
      (''rg'', [Bound, Cls is_digit, Opt is_digit, Opt (lit (CHR ''.''))] @ digits_rx 3 @ [Opt (lit (CHR ''.''))]
         @ digits_rx 3 @ [Opt (lit (CHR ''-'')), Cls (\<lambda>c. is_digit c \<or> c = CHR ''x'' \<or> c = CHR ''X''), Bound]),
      (''phone'', [Bound, Opt (lit (CHR ''(''))] @ digits_rx 2 @ [Opt (lit (CHR '')'')), Opt rx_space] @ digits_rx 4
         @ [Opt is_digit, Opt (lit (CHR ''-''))] @ digits_rx 4 @ [Bound]),
      (''plate'', [Bound, Cls is_alpha, Cls is_alpha, Cls is_alpha, Opt dash_or_space, Cls is_digit, Cls is_alnum]
         @ digits_rx 2 @ [Bound]),
      (''cep'', [Bound] @ digits_rx 5 @ [Opt (lit (CHR ''-''))] @ digits_rx 3 @ [Bound]),
      (''credit_card'', [Bound] @ digits_rx 4 @ [Opt dash_or_space] @ digits_rx 4 @ [Opt dash_or_space] @ digits_rx 4
         @ [Opt dash_or_space] @ digits_rx 4 @ [Bound])]"

text \<open>The check digits of a CPF, modulo 11.\<close>

fun weighted :: "nat \<Rightarrow> string \<Rightarrow> nat" where
  "weighted w [] = 0"
| "weighted w (c # cs) = (of_char c - 48) * w + weighted (w - 1) cs"

definition check_digit :: "string \<Rightarrow> nat" where
  "check_digit base = (let r = weighted (length base + 1) base mod 11 in if r < 2 then 0 else 11 - r)"

definition is_valid_cpf :: "string \<Rightarrow> bool" where
  "is_valid_cpf raw =
     (let digits = filter is_digit raw in
      if length digits \<noteq> 11 \<or> digits = replicate 11 (hd digits) then False
      else
        let first = check_digit (take 9 digits);
            second = check_digit (take 9 digits @ nat_str first)
        in [digits ! 9] = nat_str first \<and> [digits ! 10] = nat_str second)"

definition validator_ok :: "string \<Rightarrow> string \<Rightarrow> bool" where
  "validator_ok label v \<longleftrightarrow> (if label = ''cpf'' then is_valid_cpf v else True)"

definition SENSITIVE_PATTERNS :: "string list" where
  "SENSITIVE_PATTERNS = [''credit_card'']"

record found =
  fd_value :: string
  fd_start :: nat
  fd_end :: nat
  fd_sensitive :: bool

definition found_at :: "string \<Rightarrow> string \<Rightarrow> nat \<times> nat \<Rightarrow> found" where
  "found_at label s sp = \<lparr>fd_value = slice (fst sp) (snd sp) s, fd_start = fst sp, fd_end = snd sp,
     fd_sensitive = (label \<in> set SENSITIVE_PATTERNS)\<rparr>"

definition label_matches :: "string \<Rightarrow> rx list \<Rightarrow> string \<Rightarrow> found list" where
  "label_matches label p s =
     map (found_at label s) (filter (\<lambda>sp. validator_ok label (slice (fst sp) (snd sp) s)) (finditer p s))"

definition extract_entities :: "string \<Rightarrow> (string \<times> found list) list" where
  "extract_entities s = filter (\<lambda>kv. snd kv \<noteq> []) (map (\<lambda>(label, p). (label, label_matches label p s)) PATTERNS)"

fun any_match :: "string \<Rightarrow> string \<Rightarrow> (nat \<times> nat) list \<Rightarrow> bool" where
  "any_match label s [] = False"
| "any_match label s (sp # sps) = (validator_ok label (slice (fst sp) (snd sp) s) \<or> any_match label s sps)"

definition suspicious_labels :: "string list" where
  "suspicious_labels = [''cpf'', ''rg'', ''plate'', ''credit_card'']"

definition has_suspicion :: "string \<Rightarrow> bool" where
  "has_suspicion s \<longleftrightarrow>
     list_ex (\<lambda>label. case map_of PATTERNS label of None \<Rightarrow> False | Some p \<Rightarrow> any_match label s (finditer p s))
       suspicious_labels"

section \<open>The local language model\<close>

definition ENTITY_TYPES :: "string list" where
  "ENTITY_TYPES = [''cpf'', ''rg'', ''phone'', ''plate'', ''cep'', ''credit_card'']"

text \<open>\<open>str(e)\<close> for the exceptions a request raises.\<close>

fun exc_text :: "exc \<Rightarrow> string" where
  "exc_text (ValueError s) = s"
| "exc_text (OtherError s) = s"
| "exc_text (AttributeError s) = s"
| "exc_text (TypeError s) = s"
| "exc_text (KeyError s) = repr_str s"
| "exc_text (OSError s) = s"
| "exc_text (ConnectionError s) = s"
| "exc_text (RuntimeError s) = s"
| "exc_text _ = []"

definition llm_fallback :: "json \<Rightarrow> string \<Rightarrow> string \<Rightarrow> json" where
  "llm_fallback raw entity_type err =
     JObj [(''entity_type'', JStr entity_type), (''value'', raw), (''corrected'', JBool False),
       (''confidence'', JFloat 0 ''0.0''), (''error'', JStr err)]"

definition quoted :: "string \<Rightarrow> string" where
  "quoted s = [CHR 0x22] @ s @ [CHR 0x22]"

definition llm_prompt :: "string \<Rightarrow> string \<Rightarrow> string \<Rightarrow> string" where
  "llm_prompt raw entity_type context =
     ''Extraia e corrija o seguinte dado do tipo '' @ [CHR 0x27] @ entity_type @ [CHR 0x27] @ '' do texto abaixo.''
     @ [CHR 0x0A] @ ''Contexto: '' @ context @ [CHR 0x0A] @ ''Valor bruto: '' @ raw @ [CHR 0x0A, CHR 0x0A]
     @ ''Responda APENAS com JSON: {'' @ quoted ''entity_type'' @ '': '' @ quoted entity_type @ '', '' @ quoted ''value''
     @ '': '' @ quoted ''...'' @ '', '' @ quoted ''corrected'' @ '': true/false, '' @ quoted ''confidence'' @ '': 0.0-1.0}''
     @ [CHR 0x0A] @ ''N'' @ [CHR 0xE3] @ ''o inclua explica'' @ [CHR 0xE7, CHR 0xF5] @ ''es.''"

record 'n llm =
  ll_url :: string
  ll_model :: string
  ll_post :: "string \<Rightarrow> json \<Rightarrow> ('n, nat \<times> string) prog"

definition new_llm :: "string \<Rightarrow> string \<Rightarrow> (string \<Rightarrow> json \<Rightarrow> ('n, nat \<times> string) prog) \<Rightarrow> 'n llm" where
  "new_llm base_url model post =
     \<lparr>ll_url = rev (dropWhile (\<lambda>c. c = CHR ''/'') (rev base_url)), ll_model = model, ll_post = post\<rparr>"

text \<open>The answer of the model: \<open>raise_for_status\<close>, \<open>resp.json()\<close> and the checks on its parts.\<close>

definition llm_answer :: "nat \<times> string \<Rightarrow> exc + json" where
  "llm_answer resp =
     (if fst resp < 200 \<or> 300 \<le> fst resp then Inl (OtherError ''HTTPStatusError'')
      else case json_loads (snd resp) of
        None \<Rightarrow> Inl (ValueError ''JSONDecodeError'')
      | Some payload \<Rightarrow>
         if \<not> is_dict payload then Inl (AttributeError ''get'')
         else (case jget payload ''response'' of
             Some (JStr response) \<Rightarrow>
               (case json_loads response of
                  None \<Rightarrow> Inl (ValueError ''JSONDecodeError'')
                | Some result \<Rightarrow>
                   if is_dict result then Inr result
                   else Inl (ValueError (''resposta da LLM n'' @ [CHR 0xE3] @ ''o '' @ [CHR 0xE9] @ '' um objeto JSON'')))
           | _ \<Rightarrow> Inl (ValueError ''resposta da LLM ausente'')))"

definition sanitize :: "'n llm \<Rightarrow> json \<Rightarrow> string \<Rightarrow> string \<Rightarrow> ('n, json) prog" where
  "sanitize L raw entity_type context =
     (case raw of
        JStr v \<Rightarrow>
          if v = [] then ret (llm_fallback raw entity_type (''valor bruto inv'' @ [CHR 0xE1] @ ''lido''))
          else if entity_type \<notin> set ENTITY_TYPES
          then ret (llm_fallback raw entity_type (''tipo de entidade inv'' @ [CHR 0xE1] @ ''lido''))
          else catchp
            (bindp (ll_post L (ll_url L @ ''/api/generate'')
                 (JObj [(''model'', JStr (ll_model L)), (''prompt'', JStr (llm_prompt v entity_type context)),
                    (''stream'', JBool False)]))
               (\<lambda>resp. lift_res (llm_answer resp)))
            is_Exception (\<lambda>e. ret (llm_fallback raw entity_type (exc_text e)))
      | _ \<Rightarrow> ret (llm_fallback raw entity_type (''valor bruto inv'' @ [CHR 0xE1] @ ''lido'')))"

section \<open>The consensus loop\<close>

record agent_state =
  as_call :: string
  as_transcript :: string
  as_entities :: "(string \<times> found list) list"
  as_sentiment :: string
  as_score :: rat
  as_action :: string
  as_justification :: string
  as_notes :: string
  as_decision :: string
  as_bypass :: bool
  as_iteration :: nat

definition extractor_node :: "agent_state \<Rightarrow> agent_state" where
  "extractor_node st = st\<lparr>as_entities := extract_entities (as_transcript st), as_iteration := as_iteration st + 1\<rparr>"

fun review_matches :: "'n llm \<Rightarrow> string \<Rightarrow> string \<Rightarrow> found list \<Rightarrow> string \<Rightarrow> ('n, string) prog" where
  "review_matches L entity_type context [] note_text s = (Inr note_text, s)"
| "review_matches L entity_type context (m # ms) note_text s =
     (if fd_sensitive m
      then (case sanitize L (JStr (fd_value m)) entity_type context s of
              (Inl e, s') \<Rightarrow> (Inl e, s')
            | (Inr j, s') \<Rightarrow> review_matches L entity_type context ms
                (note_text @ ''Sanitized '' @ entity_type @ '': '' @ py_str j @ [CHR 0x0A]) s')
      else review_matches L entity_type context ms note_text s)"

fun review_entities :: "'n llm \<Rightarrow> string \<Rightarrow> (string \<times> found list) list \<Rightarrow> string \<Rightarrow> ('n, string) prog" where
  "review_entities L context [] note_text s = (Inr note_text, s)"
| "review_entities L context ((k, ms) # kvs) note_text s =
     (case review_matches L k context ms note_text s of
        (Inl e, s') \<Rightarrow> (Inl e, s') | (Inr t, s') \<Rightarrow> review_entities L context kvs t s')"

definition reviewer_node :: "'n llm \<Rightarrow> agent_state \<Rightarrow> ('n, agent_state) prog" where
  "reviewer_node L st =
     bindp (review_entities L (as_transcript st) (as_entities st) []) (\<lambda>t. ret (st\<lparr>as_notes := t\<rparr>))"

text \<open>\<open>-0.3\<close> is the double nearest to it.\<close>

definition score_threshold :: rat where
  "score_threshold = - 5404319552844595 / 18014398509481984"

definition decide :: "agent_state \<Rightarrow> string" where
  "decide st =
     (if as_bypass st then ''bypass''
      else if as_entities st \<noteq> [] \<and> score_threshold \<le> as_score st then ''approved'' else ''rejected'')"

definition decider_node :: "agent_state \<Rightarrow> agent_state" where
  "decider_node st = st\<lparr>as_decision := decide st\<rparr>"

definition loops_again :: "agent_state \<Rightarrow> bool" where
  "loops_again st \<longleftrightarrow> as_decision st = ''rejected'' \<and> as_iteration st < 3"

definition consensus_round :: "'n llm \<Rightarrow> agent_state \<Rightarrow> ('n, agent_state) prog" where
  "consensus_round L st = bindp (reviewer_node L (extractor_node st)) (\<lambda>st'. ret (decider_node st'))"

lemma reviewer_node_state:
  "reviewer_node L st s = (Inr st', s') \<Longrightarrow> \<exists>t. st' = st\<lparr>as_notes := t\<rparr>"
  by (auto simp: reviewer_node_def bindp_eq_Inr)

lemma consensus_round_state:
  assumes "consensus_round L st s = (Inr st', s')"
  shows "\<exists>t. st' = decider_node (extractor_node st\<lparr>as_notes := t\<rparr>)"
  using assms by (auto simp: consensus_round_def bindp_eq_Inr dest!: reviewer_node_state)

function consensus_loop :: "'n llm \<Rightarrow> agent_state \<Rightarrow> ('n, agent_state) prog" where
  "consensus_loop L st s =
     (case consensus_round L st s of
        (Inl e, s') \<Rightarrow> (Inl e, s')
      | (Inr st', s') \<Rightarrow> if loops_again st' then consensus_loop L st' s' else (Inr st', s'))"
  by pat_completeness auto

termination
  by (relation "measure (\<lambda>(L, st, s). 3 - as_iteration st)")
    (auto dest!: consensus_round_state[OF sym] simp: decider_node_def extractor_node_def loops_again_def)

declare consensus_loop.simps [simp del]

definition initial_state :: "string \<Rightarrow> string \<Rightarrow> string \<Rightarrow> rat \<Rightarrow> agent_state" where
  "initial_state call_id transcript sentiment score =
     \<lparr>as_call = call_id, as_transcript = transcript, as_entities = [], as_sentiment = sentiment, as_score = score,
      as_action = [], as_justification = [], as_notes = [], as_decision = ''pending'', as_bypass = False,
      as_iteration = 0\<rparr>"

definition found_json :: "found \<Rightarrow> json" where
  "found_json m = JObj [(''value'', JStr (fd_value m)), (''start'', JInt (int (fd_start m))),
     (''end'', JInt (int (fd_end m))), (''sensitive'', JBool (fd_sensitive m))]"

definition entities_json :: "(string \<times> found list) list \<Rightarrow> json" where
  "entities_json kvs = JObj (map (\<lambda>(k, ms). (k, JList (map found_json ms))) kvs)"

definition consensus_run ::
    "'n llm \<Rightarrow> (string \<Rightarrow> stream_entry \<Rightarrow> ('n, string) prog) \<Rightarrow> string \<Rightarrow> string \<Rightarrow> json \<Rightarrow> string \<Rightarrow> rat
     \<Rightarrow> ('n, agent_state) prog" where
  "consensus_run L xadd stream call_id transcript sentiment score =
     (case transcript of
        JStr text \<Rightarrow>
          bindp (consensus_loop L (initial_state call_id text sentiment score)) (\<lambda>st.
          bindp (publish xadd stream
             [(''call_id'', JStr call_id), (''event'', JStr ''consensus_complete''), (''decision'', JStr (as_decision st)),
              (''entities'', JStr (py_str (entities_json (as_entities st))))]) (\<lambda>_. ret st))
      | _ \<Rightarrow> throw (TypeError ''transcript deve ser uma string''))"

section \<open>What the extractor finds\<close>





lemma any_match_iff: "any_match label s sps \<longleftrightarrow> filter (\<lambda>sp. validator_ok label (slice (fst sp) (snd sp) s)) sps \<noteq> []"
  by (induction sps) auto

lemma distinct_labels: "distinct (map fst PATTERNS)"
  by (simp add: PATTERNS_def)

lemma extracted_labels: "label \<in> fst ` set (extract_entities s) \<longleftrightarrow>
    (\<exists>p. map_of PATTERNS label = Some p \<and> label_matches label p s \<noteq> [])"
proof -
  have "label \<in> fst ` set (filter (\<lambda>kv. snd kv \<noteq> []) (map (\<lambda>(l, p). (l, f l p)) ps)) \<longleftrightarrow>
      (\<exists>p. (label, p) \<in> set ps \<and> f label p \<noteq> [])" for f :: "string \<Rightarrow> rx list \<Rightarrow> found list" and ps
    by (induction ps) auto
  then show ?thesis
    unfolding extract_entities_def map_of_eq_Some_iff[OF distinct_labels] .
qed

text \<open>\<open>has_suspicion\<close> is the cheap form of \<open>extract\<close>: a text is suspicious exactly when the
  extraction reports a CPF, an RG, a plate or a credit card, so a CPF with wrong check digits
  raises no suspicion.\<close>

theorem suspicion_is_extraction:
  "has_suspicion s \<longleftrightarrow> (\<exists>label \<in> {''cpf'', ''rg'', ''plate'', ''credit_card''}. label \<in> fst ` set (extract_entities s))"
proof -
  have "has_suspicion s \<longleftrightarrow> (\<exists>label\<in>set suspicious_labels. label \<in> fst ` set (extract_entities s))"
    unfolding has_suspicion_def list_ex_iff extracted_labels
    by (intro bex_cong refl) (simp add: any_match_iff label_matches_def split: option.splits)
  then show ?thesis by (simp add: suspicious_labels_def)
qed


section \<open>The loop ends\<close>

definition never_cancelled :: "'n llm \<Rightarrow> bool" where
  "never_cancelled L \<longleftrightarrow> (\<forall>url body n. fst (ll_post L url body n) \<noteq> Inl CancelledError)"

lemma llm_answer_Exception: "llm_answer resp = Inl e \<Longrightarrow> is_Exception e"
  by (auto simp: llm_answer_def split: if_splits option.splits json.splits)

lemma catch_all_returns:
  "fst (m s) \<noteq> Inl CancelledError \<Longrightarrow> \<exists>j s'. catchp m is_Exception (\<lambda>e. ret (h e)) s = (Inr j, s')"
  by (cases "m s"; cases "fst (m s)"; cases "projl (fst (m s))") (auto simp: catchp_def)

lemma sanitize_returns:
  assumes "never_cancelled L"
  shows "\<exists>j s'. sanitize L (JStr v) entity_type context s = (Inr j, s')"
proof -
  have 1: "fst (bindp (ll_post L url body) (\<lambda>resp. lift_res (llm_answer resp)) s) \<noteq> Inl CancelledError" for url body
  proof (cases "ll_post L url body s")
    case (Pair r s')
    have "r \<noteq> Inl CancelledError"
      using assms Pair unfolding never_cancelled_def by (metis fst_conv)
    with Pair show ?thesis by (cases r) (auto simp: bindp_def dest: llm_answer_Exception)
  qed
  show ?thesis unfolding sanitize_def json.case
    by (cases "v = []"; cases "entity_type \<in> set ENTITY_TYPES") (simp_all add: catch_all_returns 1)
qed

lemma review_matches_returns:
  assumes "never_cancelled L"
  shows "\<exists>t s'. review_matches L k context ms note_text s = (Inr t, s')"
proof (induction ms arbitrary: note_text s)
  case Nil
  then show ?case by simp
next
  case (Cons m ms)
  obtain j s' where "sanitize L (JStr (fd_value m)) k context s = (Inr j, s')"
    using sanitize_returns[OF assms] by blast
  with Cons.IH show ?case by simp
qed

lemma review_entities_returns:
  assumes "never_cancelled L"
  shows "\<exists>t s'. review_entities L context kvs note_text s = (Inr t, s')"
proof (induction kvs arbitrary: note_text s)
  case Nil
  then show ?case by simp
next
  case (Cons kv kvs)
  obtain k ms where kv: "kv = (k, ms)" by force
  obtain t s' where "review_matches L k context ms note_text s = (Inr t, s')"
    using review_matches_returns[OF assms] by blast
  with Cons.IH kv show ?case by simp
qed

lemma consensus_round_returns:
  assumes "never_cancelled L"
  shows "\<exists>t s'. consensus_round L st s = (Inr (decider_node (extractor_node st\<lparr>as_notes := t\<rparr>)), s')"
proof -
  let ?st = "extractor_node st"
  obtain t s' where "review_entities L (as_transcript ?st) (as_entities ?st) [] s = (Inr t, s')"
    using review_entities_returns[OF assms] by blast
  then have "consensus_round L st s = (Inr (decider_node (?st\<lparr>as_notes := t\<rparr>)), s')"
    by (simp add: consensus_round_def reviewer_node_def)
  moreover have "extractor_node (st\<lparr>as_notes := t\<rparr>) = ?st\<lparr>as_notes := t\<rparr>"
    by (simp add: extractor_node_def)
  ultimately show ?thesis by auto
qed

definition text_decision :: "string \<Rightarrow> rat \<Rightarrow> string" where
  "text_decision text score =
     (if extract_entities text \<noteq> [] \<and> score_threshold \<le> score then ''approved'' else ''rejected'')"

lemma consensus_loop_result:
  assumes "never_cancelled L" and "\<not> as_bypass st" and "as_iteration st < 3"
  shows "\<exists>st' s'. consensus_loop L st s = (Inr st', s') \<and> as_entities st' = extract_entities (as_transcript st)
    \<and> as_decision st' = text_decision (as_transcript st) (as_score st)
    \<and> as_iteration st' = (if text_decision (as_transcript st) (as_score st) = ''rejected'' then 3 else as_iteration st + 1)"
  using assms(2,3)
proof (induction "3 - as_iteration st" arbitrary: st s rule: less_induct)
  case less
  obtain t s1 where r: "consensus_round L st s = (Inr (decider_node (extractor_node st\<lparr>as_notes := t\<rparr>)), s1)"
    using consensus_round_returns[OF assms(1)] by blast
  let ?st1 = "decider_node (extractor_node st\<lparr>as_notes := t\<rparr>)"
  have f: "as_decision ?st1 = text_decision (as_transcript st) (as_score st)" "as_iteration ?st1 = as_iteration st + 1"
    "as_entities ?st1 = extract_entities (as_transcript st)" "as_transcript ?st1 = as_transcript st"
    "as_score ?st1 = as_score st" "\<not> as_bypass ?st1"
    using less.prems(1) by (simp_all add: decider_node_def extractor_node_def decide_def text_decision_def)
  show ?case
  proof (cases "loops_again ?st1")
    case False
    with r f less.prems show ?thesis by (subst consensus_loop.simps) (auto simp: loops_again_def)
  next
    case True
    then have "as_iteration ?st1 < 3" "as_decision ?st1 = ''rejected''" by (auto simp: loops_again_def)
    with less.hyps[of ?st1 s1] f less.prems True r show ?thesis
      by (subst consensus_loop.simps) auto
  qed
qed

text \<open>The consensus loop always ends, whatever the language model answers or raises: it
  approves after one round a transcript with entities and a score of at least -0.3, and
  rejects any other after exactly three rounds. The rounds cannot disagree, so the two
  repetitions of a rejected transcript never change the decision.\<close>

theorem consensus_always_decides:
  assumes "never_cancelled L"
  shows "\<exists>st s'. consensus_loop L (initial_state call_id text sentiment score) s = (Inr st, s')
    \<and> as_decision st = (if extract_entities text \<noteq> [] \<and> score_threshold \<le> score then ''approved'' else ''rejected'')
    \<and> as_iteration st = (if as_decision st = ''rejected'' then 3 else 1)
    \<and> as_entities st = extract_entities text"
proof -
  let ?i = "initial_state call_id text sentiment score"
  have i: "as_transcript ?i = text" "as_score ?i = score" "as_iteration ?i = 0" "\<not> as_bypass ?i"
    by (simp_all add: initial_state_def)
  from consensus_loop_result[OF assms i(4), of s] obtain st s' where
    "consensus_loop L ?i s = (Inr st, s')" "as_entities st = extract_entities text"
    "as_decision st = text_decision text score"
    "as_iteration st = (if text_decision text score = ''rejected'' then 3 else 1)"
    unfolding i by auto
  then show ?thesis
    by (intro exI[of _ st] exI[of _ s']) (simp add: text_decision_def)
qed

section \<open>A transcript\<close>

definition dead_llm :: "nat llm" where
  "dead_llm = \<lparr>ll_url = ''http://llm'', ll_model = ''mistral:7b'', ll_post = (\<lambda>_ _ n. (Inl (ConnectionError ''refused''), n + 1))\<rparr>"


theorem consensus_always_decides_witness:
  "\<exists>st s'. consensus_loop dead_llm (initial_state ''c'' ''oi'' ''neutral'' 0) 0 = (Inr st, s')
     \<and> as_decision st = ''rejected'' \<and> as_iteration st = 3"
proof -
  have "never_cancelled dead_llm" by (simp add: never_cancelled_def dead_llm_def)
  moreover have "extract_entities ''oi'' = []" by code_simp
  ultimately show ?thesis
    using consensus_always_decides[of dead_llm "''c''" "''oi''" "''neutral''" 0 0] by auto
qed

end
