(* ===== verification/Agent_Assist.thy ===== *)
theory Agent_Assist
  imports Entities Redis Run_Laws Json_Laws "HOL-Library.Multiset"
begin

text \<open>
  \<open>api/websockets.py\<close>: the agents' widgets. A room (a call or an agent) holds the sockets that
  joined it; a broadcast sends one payload to each socket of a room and drops those whose send
  fails. A socket is a number; which sends succeed, and the address a socket comes from, is in
  \<open>hub_env\<close>. A function is one step: tasks that change the rooms while a send is awaited are not
  modelled.
\<close>

record hub =
  hb_rooms :: "(string \<times> nat list) list"
  hb_sent :: "(nat \<times> string) list"

record hub_env =
  he_up :: "nat \<Rightarrow> bool"
  he_host :: "nat \<Rightarrow> string option"
  he_accept :: "exc option"

definition client_host :: "hub_env \<Rightarrow> nat \<Rightarrow> string" where
  "client_host env ws = (case he_host env ws of None \<Rightarrow> [] | Some h \<Rightarrow> h)"

definition disconnect :: "string \<Rightarrow> nat \<Rightarrow> (hub, unit) prog" where
  "disconnect room ws h =
     (case map_of (hb_rooms h) room of
        None \<Rightarrow> (Inr (), h)
      | Some xs \<Rightarrow>
         if ws \<notin> set xs then (Inl (ValueError ''list.remove(x): x not in list''), h)
         else if remove1 ws xs = [] then (Inr (), h\<lparr>hb_rooms := AList.delete room (hb_rooms h)\<rparr>)
         else (Inr (), h\<lparr>hb_rooms := AList.update room (remove1 ws xs) (hb_rooms h)\<rparr>))"

fun send_all :: "hub_env \<Rightarrow> string \<Rightarrow> nat list \<Rightarrow> nat list \<Rightarrow> hub \<Rightarrow> nat list \<times> hub" where
  "send_all env payload [] stale h = (stale, h)"
| "send_all env payload (ws # xs) stale h =
     (if he_up env ws then send_all env payload xs stale (h\<lparr>hb_sent := hb_sent h @ [(ws, payload)]\<rparr>)
      else send_all env payload xs (stale @ [ws]) h)"

definition broadcast :: "hub_env \<Rightarrow> string \<Rightarrow> json \<Rightarrow> (hub, unit) prog" where
  "broadcast env room ev h =
     (case map_of (hb_rooms h) room of
        None \<Rightarrow> (Inr (), h)
      | Some xs \<Rightarrow> (case send_all env (json_dumps ev) xs [] h of (stale, h') \<Rightarrow> for_p (disconnect room) stale h'))"

definition ev_doc :: "string \<Rightarrow> (string \<times> json) list \<Rightarrow> json" where
  "ev_doc name data = JObj [(''event'', JStr name), (''data'', JObj data)]"

definition pending_text :: string where
  "pending_text = ''Associa'' @ [CHR 0xE7, CHR 0xE3] @ ''o de ramal pendente. Digite *88 no seu softphone corporativo para vincular este widget ao seu ramal.''"

definition requested_text :: string where
  "requested_text = ''Vincula'' @ [CHR 0xE7, CHR 0xE3] @ ''o solicitada. Disque *88 do seu ramal corporativo.''"

record 'r assist =
  ai_redis :: 'r
  ai_hub :: hub

definition on_hub :: "(hub, 'a) prog \<Rightarrow> ('r assist, 'a) prog" where
  "on_hub p w = (case p (ai_hub w) of (r, h) \<Rightarrow> (r, w\<lparr>ai_hub := h\<rparr>))"

definition on_server :: "('r, 'a) prog \<Rightarrow> ('r assist, 'a) prog" where
  "on_server p w = (case p (ai_redis w) of (r, h) \<Rightarrow> (r, w\<lparr>ai_redis := h\<rparr>))"

definition try_auto_link :: "'r redis \<Rightarrow> hub_env \<Rightarrow> string \<Rightarrow> string \<Rightarrow> ('r assist, unit) prog" where
  "try_auto_link R env agent_uuid client_ip =
     bindp (on_server (rd_get R (''zenith:sip:ip_to_extension:'' @ client_ip))) (\<lambda>extension.
       if extension \<noteq> None \<and> extension \<noteq> Some []
       then bindp (on_server (rd_get R (''zenith:sip:extension_to_pbx:'' @ the extension))) (\<lambda>pbx_id.
         on_hub (broadcast env agent_uuid (ev_doc ''session_linked''
           [(''agent_uuid'', JStr agent_uuid), (''ramal_sip'', JStr (the extension)),
            (''pbx_id'', JStr (case pbx_id of None \<Rightarrow> [] | Some p \<Rightarrow> p)), (''pbx_name'', JStr []),
            (''strategy'', JStr ''automatic_ip_matching'')])))
       else on_hub (broadcast env agent_uuid (ev_doc ''session_waiting_linkage''
           [(''agent_uuid'', JStr agent_uuid), (''message'', JStr pending_text)])))"

definition join_room :: "string \<Rightarrow> nat \<Rightarrow> hub \<Rightarrow> hub" where
  "join_room room ws h =
     h\<lparr>hb_rooms := AList.update room ((case map_of (hb_rooms h) room of None \<Rightarrow> [] | Some xs \<Rightarrow> xs) @ [ws]) (hb_rooms h)\<rparr>"

definition widget_connect :: "'r redis \<Rightarrow> hub_env \<Rightarrow> string \<Rightarrow> nat \<Rightarrow> ('r assist, unit) prog" where
  "widget_connect R env call_id ws =
     (case he_accept env of
        Some e \<Rightarrow> throw e
      | None \<Rightarrow> bindp (on_hub (modifyp (join_room call_id ws)))
          (\<lambda>_. try_auto_link R env call_id (client_host env ws)))"

text \<open>Redis takes text and numbers only; any other value of \<open>agent_uuid\<close> is refused by its client.\<close>

fun redis_value :: "json \<Rightarrow> string option" where
  "redis_value (JStr s) = Some s"
| "redis_value (JIso d) = Some (isoformat d)"
| "redis_value (JInt i) = Some (int_str i)"
| "redis_value (JFloat _ l) = Some l"
| "redis_value _ = None"

fun room_of :: "json \<Rightarrow> string option" where
  "room_of (JStr s) = Some s"
| "room_of (JIso d) = Some (isoformat d)"
| "room_of _ = None"

definition manual_linkage_request :: "'r redis \<Rightarrow> hub_env \<Rightarrow> string \<Rightarrow> nat \<Rightarrow> json \<Rightarrow> ('r assist, unit) prog" where
  "manual_linkage_request R env agent_uuid ws data =
     (if \<not> is_dict data then throw (AttributeError ''get'')
      else
        let agent = (case jget data ''agent_uuid'' of None \<Rightarrow> JStr agent_uuid | Some v \<Rightarrow> v);
            session_key = ''zenith:ws:agent_session:'' @ py_str agent
        in case redis_value agent of
             None \<Rightarrow> throw (OtherError ''DataError'')
           | Some v \<Rightarrow>
              bindp (on_server (rd_hset R session_key [(''agent_uuid'', v), (''status'', ''awaiting_linkage''),
                  (''ip'', client_host env ws)])) (\<lambda>_.
              bindp (on_server (rd_expire R session_key 120)) (\<lambda>_.
              case room_of agent of
                None \<Rightarrow> ret ()
              | Some room \<Rightarrow> on_hub (broadcast env room (ev_doc ''session_waiting_linkage''
                  [(''agent_uuid'', agent), (''message'', JStr requested_text)])))))"

definition handle_message :: "'r redis \<Rightarrow> hub_env \<Rightarrow> string \<Rightarrow> nat \<Rightarrow> string \<Rightarrow> ('r assist, unit) prog" where
  "handle_message R env agent_uuid ws raw =
     (case json_loads raw of
        None \<Rightarrow> ret ()
      | Some msg \<Rightarrow>
         if \<not> is_dict msg then throw (AttributeError ''get'')
         else if jget msg ''event'' = Some (JStr ''manual_linkage_request'')
         then manual_linkage_request R env agent_uuid ws (case jget msg ''data'' of None \<Rightarrow> JObj [] | Some d \<Rightarrow> d)
         else ret ())"

definition handle_transcript :: "hub_env \<Rightarrow> string \<Rightarrow> string \<Rightarrow> string \<Rightarrow> (hub, unit) prog" where
  "handle_transcript env call_id text speaker =
     bindp (broadcast env call_id (JObj [(''type'', JStr ''transcript''), (''speaker'', JStr speaker), (''text'', JStr text)]))
       (\<lambda>_. if extract_entities text \<noteq> []
            then broadcast env call_id (JObj [(''type'', JStr ''entities''), (''data'', entities_json (extract_entities text))])
            else ret ())"

definition handle_alert :: "hub_env \<Rightarrow> string \<Rightarrow> string \<Rightarrow> string \<Rightarrow> string \<Rightarrow> (hub, unit) prog" where
  "handle_alert env call_id alert_type message severity =
     broadcast env call_id (JObj [(''type'', JStr ''alert''), (''alert_type'', JStr alert_type),
        (''message'', JStr message), (''severity'', JStr severity)])"

section \<open>What a broadcast does\<close>

lemma send_all_result:
  "send_all env payload xs stale h =
     (stale @ filter (\<lambda>ws. \<not> he_up env ws) xs,
      h\<lparr>hb_sent := hb_sent h @ map (\<lambda>ws. (ws, payload)) (filter (he_up env) xs)\<rparr>)"
  by (induction xs arbitrary: stale h) auto

text \<open>The sockets that stay in a room, an empty room being forgotten.\<close>

definition keep_room :: "string \<Rightarrow> nat list \<Rightarrow> hub \<Rightarrow> hub" where
  "keep_room room xs h = h\<lparr>hb_rooms := (if xs = [] then AList.delete room (hb_rooms h) else AList.update room xs (hb_rooms h))\<rparr>"

lemma update_same: "map_of al k = Some v \<Longrightarrow> AList.update k v al = al"
  by (induction al) auto

lemma disconnects:
  assumes "map_of (hb_rooms h) room = Some xs" and "mset stale \<subseteq># mset xs" and "xs \<noteq> []"
  shows "for_p (disconnect room) stale h = (Inr (), keep_room room (fold remove1 stale xs) h)"
  using assms
proof (induction stale arbitrary: xs h)
  case Nil
  then show ?case by (simp add: keep_room_def update_same)
next
  case (Cons w stale)
  from Cons.prems(2) have w: "w \<in> set xs" by (auto dest: mset_subset_eqD)
  from Cons.prems(2) w have sub: "mset stale \<subseteq># mset (remove1 w xs)"
    by (simp add: insert_subset_eq_iff)
  show ?case
  proof (cases "remove1 w xs = []")
    case True
    with sub have "stale = []" by simp
    with True w Cons.prems(1) show ?thesis by (simp add: disconnect_def keep_room_def)
  next
    case False
    let ?h = "h\<lparr>hb_rooms := AList.update room (remove1 w xs) (hb_rooms h)\<rparr>"
    have "map_of (hb_rooms ?h) room = Some (remove1 w xs)" by (simp add: AList.update_conv)
    from Cons.IH[OF this sub False] False w Cons.prems(1) show ?thesis
      by (simp add: disconnect_def keep_room_def AList.update_last AList.delete_update_same)
  qed
qed

lemma fold_remove1_filter:
  "(\<And>z. z \<in> set zs \<Longrightarrow> P z) \<Longrightarrow> fold remove1 (filter (\<lambda>w. \<not> P w) ys) (zs @ ys) = zs @ filter P ys"
proof (induction ys arbitrary: zs)
  case Nil
  then show ?case by simp
next
  case (Cons y ys)
  show ?case
  proof (cases "P y")
    case True
    with Cons.IH[of "zs @ [y]"] Cons.prems show ?thesis by auto
  next
    case False
    then have "y \<notin> set zs" using Cons.prems by blast
    with Cons.IH[of zs] Cons.prems False show ?thesis by (simp add: remove1_append)
  qed
qed

lemma broadcast_result:
  assumes "map_of (hb_rooms h) room = Some xs" and "xs \<noteq> []"
  shows "broadcast env room ev h = (Inr (), keep_room room (filter (he_up env) xs)
      (h\<lparr>hb_sent := hb_sent h @ map (\<lambda>ws. (ws, json_dumps ev)) (filter (he_up env) xs)\<rparr>))"
proof -
  let ?h = "h\<lparr>hb_sent := hb_sent h @ map (\<lambda>ws. (ws, json_dumps ev)) (filter (he_up env) xs)\<rparr>"
  have "map_of (hb_rooms ?h) room = Some xs" using assms(1) by simp
  from disconnects[OF this, of "filter (\<lambda>ws. \<not> he_up env ws) xs"] assms(2)
  show ?thesis
    using assms(1) fold_remove1_filter[of "[]" "he_up env" xs]
    by (simp add: broadcast_def send_all_result multiset_filter_subset)
qed

text \<open>No function leaves an empty room behind, so a room's sockets are never none.\<close>

definition rooms_ok :: "hub \<Rightarrow> bool" where
  "rooms_ok h \<longleftrightarrow> (\<forall>xs\<in>snd ` set (hb_rooms h). xs \<noteq> [])"

lemma rooms_ok_get: "rooms_ok h \<Longrightarrow> map_of (hb_rooms h) room = Some xs \<Longrightarrow> xs \<noteq> []"
  by (auto simp: rooms_ok_def dest!: map_of_SomeD)

lemma rooms_ok_update: "rooms_ok h \<Longrightarrow> xs \<noteq> [] \<Longrightarrow> rooms_ok (h\<lparr>hb_rooms := AList.update room xs (hb_rooms h)\<rparr>)"
proof -
  have "set (AList.update room xs al) \<subseteq> insert (room, xs) (set al)" for al :: "(string \<times> nat list) list"
    by (induction al) auto
  then show "rooms_ok h \<Longrightarrow> xs \<noteq> [] \<Longrightarrow> ?thesis" by (fastforce simp: rooms_ok_def)
qed

lemma rooms_ok_delete: "rooms_ok h \<Longrightarrow> rooms_ok (h\<lparr>hb_rooms := AList.delete room (hb_rooms h)\<rparr>)"
  by (auto simp: rooms_ok_def AList.delete_eq)

datatype hub_op = Join string nat | Leave string nat | Cast hub_env string json

fun hub_step :: "hub_op \<Rightarrow> hub \<Rightarrow> hub" where
  "hub_step (Join room ws) h = join_room room ws h"
| "hub_step (Leave room ws) h = snd (disconnect room ws h)"
| "hub_step (Cast env room ev) h = snd (broadcast env room ev h)"

interpretation hubs: machine hub_step rooms_ok
proof
  fix h x
  assume ok: "rooms_ok h"
  show "rooms_ok (hub_step x h)"
  proof (cases x)
    case (Join room ws)
    with ok show ?thesis by (simp add: join_room_def rooms_ok_update)
  next
    case (Leave room ws)
    with ok show ?thesis
      by (auto simp: disconnect_def rooms_ok_update rooms_ok_delete split: option.splits)
  next
    case (Cast env room ev)
    show ?thesis
    proof (cases "map_of (hb_rooms h) room")
      case None
      with Cast ok show ?thesis by (simp add: broadcast_def)
    next
      case (Some xs)
      let ?h = "h\<lparr>hb_sent := hb_sent h @ map (\<lambda>ws. (ws, json_dumps ev)) (filter (he_up env) xs)\<rparr>"
      have "rooms_ok ?h" using ok by (simp add: rooms_ok_def)
      with broadcast_result[OF Some rooms_ok_get[OF ok Some]] Cast show ?thesis
        using rooms_ok_update[of ?h] rooms_ok_delete[of ?h] by (auto simp: keep_room_def)
    qed
  qed
qed

text \<open>After any history of widgets joining, leaving and being written to, a broadcast returns
  without an exception, hands the payload once to every socket of the room whose send works,
  in the order they joined, keeps exactly those sockets, and touches no other room.\<close>

theorem broadcast_reaches_the_room:
  assumes "map_of (hb_rooms (run_ops hub_step ops \<lparr>hb_rooms = [], hb_sent = []\<rparr>)) room = Some xs"
    and "broadcast env room ev (run_ops hub_step ops \<lparr>hb_rooms = [], hb_sent = []\<rparr>) = (r, h')"
  shows "r = Inr ()
    \<and> hb_sent h' = hb_sent (run_ops hub_step ops \<lparr>hb_rooms = [], hb_sent = []\<rparr>)
        @ map (\<lambda>ws. (ws, json_dumps ev)) (filter (he_up env) xs)
    \<and> map_of (hb_rooms h') room = (if filter (he_up env) xs = [] then None else Some (filter (he_up env) xs))
    \<and> (\<forall>other. other \<noteq> room \<longrightarrow> map_of (hb_rooms h') other
         = map_of (hb_rooms (run_ops hub_step ops \<lparr>hb_rooms = [], hb_sent = []\<rparr>)) other)"
proof -
  let ?h0 = "\<lparr>hb_rooms = [], hb_sent = []\<rparr>"
  have "rooms_ok ?h0" by (simp add: rooms_ok_def)
  then have "rooms_ok (run_ops hub_step ops ?h0)" by (rule hubs.run_inv)
  from broadcast_result[OF assms(1) rooms_ok_get[OF this assms(1)]] assms(2) show ?thesis
    by (auto simp: keep_room_def AList.update_conv AList.delete_conv)
qed

theorem broadcast_reaches_the_room_witness:
  "fst (broadcast \<lparr>he_up = (\<lambda>ws. ws = 2), he_host = (\<lambda>_. None), he_accept = None\<rparr> ''call-1'' (JStr ''x'')
      (run_ops hub_step [Join ''call-1'' 1, Join ''call-1'' 2] \<lparr>hb_rooms = [], hb_sent = []\<rparr>)) = Inr ()"
  using broadcast_reaches_the_room[of "[Join ''call-1'' 1, Join ''call-1'' 2]" "''call-1''" "[1, 2]"
      "\<lparr>he_up = (\<lambda>ws. ws = 2), he_host = (\<lambda>_. None), he_accept = None\<rparr>" "JStr ''x''"]
  by (simp add: join_room_def) (metis prod.collapse)

section \<open>What the agents read\<close>

definition transcript_doc :: "string \<Rightarrow> string \<Rightarrow> json" where
  "transcript_doc spoken speaker = JObj [(''type'', JStr ''transcript''), (''speaker'', JStr speaker), (''text'', JStr spoken)]"

definition entities_doc :: "string \<Rightarrow> json" where
  "entities_doc spoken = JObj [(''type'', JStr ''entities''), (''data'', entities_json (extract_entities spoken))]"

lemma extracted_once: "distinct (map fst (extract_entities s))"
proof -
  have "map fst (map (\<lambda>(label, p). (label, label_matches label p s)) PATTERNS) = map fst PATTERNS"
    by (simp add: case_prod_beta comp_def)
  then show ?thesis
    unfolding extract_entities_def using distinct_labels by (intro distinct_map_filter) (simp only:)
qed

lemma docs_plain: "json_plain (transcript_doc spoken speaker)" "json_plain (entities_doc spoken)"
proof -
  have "json_plain (entities_json es)" if "distinct (map fst es)" for es
    using that by (auto simp: entities_json_def found_json_def comp_def case_prod_beta)
  then show "json_plain (transcript_doc spoken speaker)" "json_plain (entities_doc spoken)"
    using extracted_once by (simp_all add: transcript_doc_def entities_doc_def)
qed

lemma broadcast_sends:
  assumes "rooms_ok h" and "map_of (hb_rooms h) room = Some xs" and "json_plain doc"
  shows "\<exists>h'. broadcast env room doc h = (Inr (), h')
    \<and> (\<exists>sent. hb_sent h' = hb_sent h @ sent
        \<and> map (map_prod id json_loads) sent = map (\<lambda>ws. (ws, Some doc)) (filter (he_up env) xs))
    \<and> map_of (hb_rooms h') = (map_of (hb_rooms h))(room := if filter (he_up env) xs = [] then None else Some (filter (he_up env) xs))
    \<and> rooms_ok h'"
proof -
  let ?h = "h\<lparr>hb_sent := hb_sent h @ map (\<lambda>ws. (ws, json_dumps doc)) (filter (he_up env) xs)\<rparr>"
  have "rooms_ok ?h" using assms(1) by (simp add: rooms_ok_def)
  then have "rooms_ok (keep_room room (filter (he_up env) xs) ?h)"
    using rooms_ok_update[of ?h] rooms_ok_delete[of ?h] by (auto simp: keep_room_def)
  with broadcast_result[OF assms(2) rooms_ok_get[OF assms(1,2)], of env doc] loads_dumps[OF assms(3)]
  show ?thesis by (auto simp: keep_room_def comp_def AList.update_conv' AList.delete_conv' fun_upd_def)
qed

definition said :: "string \<Rightarrow> string \<Rightarrow> json list" where
  "said spoken speaker = transcript_doc spoken speaker # (if extract_entities spoken = [] then [] else [entities_doc spoken])"

text \<open>C40. After any history of widgets joining, leaving and being written to, a piece of transcript
  reaches the agents of the call as it was said: every socket of the room whose send works is
  sent, as JSON that reads back exactly, the words with their speaker, and then, if there are
  any, the entities extracted from them; the other sockets leave the room, and no other room is
  touched. The words may be any text, quotes, control characters and accents included.\<close>

theorem agents_read_what_was_said:
  assumes "h = run_ops hub_step ops \<lparr>hb_rooms = [], hb_sent = []\<rparr>"
    and "map_of (hb_rooms h) call_id = Some xs"
    and "handle_transcript env call_id spoken speaker h = (r, h')"
  shows "r = Inr ()
    \<and> (\<exists>sent. hb_sent h' = hb_sent h @ sent
        \<and> map (map_prod id json_loads) sent
          = concat (map (\<lambda>doc. map (\<lambda>ws. (ws, Some doc)) (filter (he_up env) xs)) (said spoken speaker)))
    \<and> map_of (hb_rooms h') = (map_of (hb_rooms h))(call_id := if filter (he_up env) xs = [] then None else Some (filter (he_up env) xs))"
proof -
  have "rooms_ok h" unfolding assms(1) by (rule hubs.run_inv) (simp add: rooms_ok_def)
  from broadcast_sends[OF this assms(2) docs_plain(1)] obtain h1 sent where 1:
    "broadcast env call_id (transcript_doc spoken speaker) h = (Inr (), h1)" "hb_sent h1 = hb_sent h @ sent"
    "map (map_prod id json_loads) sent = map (\<lambda>ws. (ws, Some (transcript_doc spoken speaker))) (filter (he_up env) xs)"
    "map_of (hb_rooms h1) = (map_of (hb_rooms h))(call_id := if filter (he_up env) xs = [] then None else Some (filter (he_up env) xs))"
    "rooms_ok h1" by blast
  show ?thesis
  proof (cases "extract_entities spoken = []")
    case True
    with 1 assms(3) show ?thesis by (simp add: handle_transcript_def bindp_def said_def transcript_doc_def[symmetric])
  next
    case False
    note run = 1(1)[unfolded transcript_doc_def] assms(3)[unfolded handle_transcript_def]
    show ?thesis
    proof (cases "filter (he_up env) xs = []")
      case True
      with 1 run False show ?thesis by (simp add: bindp_def said_def broadcast_def entities_doc_def)
    next
      case up: False
      then have "map_of (hb_rooms h1) call_id = Some (filter (he_up env) xs)" by (simp add: 1(4))
      from broadcast_sends[OF 1(5) this docs_plain(2)[of spoken], of env, unfolded filter_filter conj_absorb]
      obtain h2 more where 2:
        "broadcast env call_id (entities_doc spoken) h1 = (Inr (), h2)" "hb_sent h2 = hb_sent h1 @ more"
        "map (map_prod id json_loads) more = map (\<lambda>ws. (ws, Some (entities_doc spoken))) (filter (he_up env) xs)"
        "map_of (hb_rooms h2) = (map_of (hb_rooms h1))(call_id := if filter (he_up env) xs = [] then None else Some (filter (he_up env) xs))"
        by blast
      with 1 run False show ?thesis by (simp add: bindp_def said_def entities_doc_def[symmetric])
    qed
  qed
qed

definition two_agents :: "hub_op list" where
  "two_agents = [Join ''call-1'' 1, Join ''call-1'' 2, Join ''call-2'' 3]"

definition one_up :: hub_env where
  "one_up = \<lparr>he_up = (\<lambda>ws. ws \<noteq> 1), he_host = (\<lambda>_. None), he_accept = None\<rparr>"

theorem agents_read_what_was_said_witness:
  "\<exists>h' sent. handle_transcript one_up ''call-1'' ''ele disse \"oi\", placa ABC-1234'' ''agent''
      (run_ops hub_step two_agents \<lparr>hb_rooms = [], hb_sent = []\<rparr>) = (Inr (), h')
    \<and> hb_sent h' = sent
    \<and> map (map_prod id json_loads) sent =
        [(2, Some (JObj [(''type'', JStr ''transcript''), (''speaker'', JStr ''agent''),
            (''text'', JStr ''ele disse \"oi\", placa ABC-1234'')])),
         (2, Some (JObj [(''type'', JStr ''entities''), (''data'', JObj [(''plate'', JList [JObj
            [(''value'', JStr ''ABC-1234''), (''start'', JInt 22), (''end'', JInt 30), (''sensitive'', JBool False)]])])]))]
    \<and> map_of (hb_rooms h') ''call-1'' = Some [2]"
proof -
  let ?h = "run_ops hub_step two_agents \<lparr>hb_rooms = [], hb_sent = []\<rparr>"
  let ?s = "''ele disse \"oi\", placa ABC-1234''"
  obtain r h' where run: "handle_transcript one_up ''call-1'' ?s ''agent'' ?h = (r, h')" by (metis prod.collapse)
  have h: "?h = \<lparr>hb_rooms = [(''call-1'', [1, 2]), (''call-2'', [3])], hb_sent = []\<rparr>"
    by (simp add: two_agents_def join_room_def)
  have e: "extract_entities ?s = [(''plate'', [\<lparr>fd_value = ''ABC-1234'', fd_start = 22, fd_end = 30, fd_sensitive = False\<rparr>])]"
    by code_simp
  have "map_of (hb_rooms ?h) ''call-1'' = Some [1, 2]" by (simp add: h)
  from agents_read_what_was_said[OF refl this run] show ?thesis
    using run by (simp add: said_def e h one_up_def transcript_doc_def entities_doc_def entities_json_def found_json_def)
qed

end
