(* ===== verification/Esl.thy ===== *)
theory Esl
  imports Esl_Frames Trunk_State Calls Ingestor Agent_Assist
begin

text \<open>
  \<open>telephony/esl_client.py\<close>: the client of the telephony server's event socket. It turns the
  events of calls and registrations into operations of the other components: call records,
  capture of audio, state of the trunks, agents' widgets. The two connections to the server are
  programs over its state (\<open>'n\<close>), Redis programs over its own (\<open>'r\<close>); \<open>esl_env\<close> is what the
  clock, the database and the disk answer while one event is handled. Tables of calls are kept
  by tenant. A handler is one step.
\<close>

datatype conn = EventConn | CommandConn

record 'n esl_net =
  en_open :: "conn \<Rightarrow> ('n, unit) prog"
  en_read :: "conn \<Rightarrow> ('n, string) prog"
  en_write :: "conn \<Rightarrow> string \<Rightarrow> ('n, unit) prog"
  en_closing :: "'n \<Rightarrow> bool"

record 'n esl_conn =
  ec_connected :: bool
  ec_running :: bool
  ec_command :: bool
  ec_uuids :: "(string \<times> (string \<times> string)) list"
  ec_net :: 'n

record ('r, 'n) esl_world = "('r, 'n esl_conn) trunk_world" +
  ew_calls :: "(string \<times> call_row list) list"
  ew_ingestor :: ingestor
  ew_hub :: hub
  ew_metrics :: metrics

record esl_cfg =
  el_password :: string
  el_callback_host :: string

record esl_env =
  ee_calls :: call_env
  ee_ingest :: ingest_env
  ee_session :: session_env
  ee_hub :: hub_env

definition SIP_IP_KEY_TTL :: int where
  "SIP_IP_KEY_TTL = 3600"

definition on_net :: "('n, 'a) prog \<Rightarrow> ('n esl_conn, 'a) prog" where
  "on_net p c = (case p (ec_net c) of (r, n) \<Rightarrow> (r, c\<lparr>ec_net := n\<rparr>))"

definition calls_of :: "('r, 'n) esl_world \<Rightarrow> string \<Rightarrow> call_row list" where
  "calls_of w tenant = (case map_of (ew_calls w) tenant of None \<Rightarrow> [] | Some t \<Rightarrow> t)"

definition on_calls :: "string \<Rightarrow> (call_row list, 'a) prog \<Rightarrow> (('r, 'n) esl_world, 'a) prog" where
  "on_calls tenant p w = (case p (calls_of w tenant) of (r, t) \<Rightarrow> (r, w\<lparr>ew_calls := AList.update tenant t (ew_calls w)\<rparr>))"

definition on_ingestor :: "(ingestor, 'a) prog \<Rightarrow> (('r, 'n) esl_world, 'a) prog" where
  "on_ingestor p w = (case p (ew_ingestor w) of (r, x) \<Rightarrow> (r, w\<lparr>ew_ingestor := x\<rparr>))"

definition on_widgets :: "(hub, 'a) prog \<Rightarrow> (('r, 'n) esl_world, 'a) prog" where
  "on_widgets p w = (case p (ew_hub w) of (r, x) \<Rightarrow> (r, w\<lparr>ew_hub := x\<rparr>))"

section \<open>Connections and commands\<close>

definition accepted :: "string \<Rightarrow> bool" where
  "accepted response \<longleftrightarrow> contains_str ''+OK'' response \<or> contains_str ''OK'' response"

text \<open>Open, read the greeting, authenticate.\<close>

definition handshake :: "'n esl_net \<Rightarrow> esl_cfg \<Rightarrow> conn \<Rightarrow> ('n esl_conn, unit) prog" where
  "handshake N cfg k =
     bindp (on_net (en_open N k)) (\<lambda>_.
     bindp (on_net (en_read N k)) (\<lambda>_.
     bindp (on_net (en_write N k (''auth '' @ el_password cfg @ [LF, LF]))) (\<lambda>_.
     bindp (on_net (en_read N k)) (\<lambda>response.
       if accepted response then ret () else throw (ConnectionError ''ESL auth failed'')))))"

definition connect_command :: "'n esl_net \<Rightarrow> esl_cfg \<Rightarrow> ('n esl_conn, unit) prog" where
  "connect_command N cfg =
     bindp (handshake N cfg CommandConn) (\<lambda>_. modifyp (\<lambda>c. c\<lparr>ec_command := True\<rparr>))"

definition send_command :: "'n esl_net \<Rightarrow> esl_cfg \<Rightarrow> string \<Rightarrow> string \<Rightarrow> ('n esl_conn, string) prog" where
  "send_command N cfg prefix command c =
     bindp (if \<not> ec_command c \<or> en_closing N (ec_net c) then connect_command N cfg else ret ()) (\<lambda>_.
       catchp (bindp (on_net (en_write N CommandConn (prefix @ '' '' @ command @ [LF, LF])))
            (\<lambda>_. on_net (en_read N CommandConn)))
         is_OSError (\<lambda>e. bindp (modifyp (\<lambda>c. c\<lparr>ec_command := False\<rparr>)) (\<lambda>_. throw e))) c"

definition send_api :: "'n esl_net \<Rightarrow> esl_cfg \<Rightarrow> string \<Rightarrow> ('n esl_conn, string) prog" where
  "send_api N cfg command = send_command N cfg ''api'' command"

definition send_bgapi :: "'n esl_net \<Rightarrow> esl_cfg \<Rightarrow> string \<Rightarrow> ('n esl_conn, string) prog" where
  "send_bgapi N cfg command = send_command N cfg ''bgapi'' command"

definition map_uuids :: "string \<Rightarrow> string \<Rightarrow> string \<Rightarrow> 'n esl_conn \<Rightarrow> 'n esl_conn" where
  "map_uuids call_id agent customer c = c\<lparr>ec_uuids := AList.update call_id (agent, customer) (ec_uuids c)\<rparr>"

definition get_agent_uuid :: "string \<Rightarrow> 'n esl_conn \<Rightarrow> string option" where
  "get_agent_uuid call_id c = map_option fst (map_of (ec_uuids c) call_id)"

definition get_customer_uuid :: "string \<Rightarrow> 'n esl_conn \<Rightarrow> string option" where
  "get_customer_uuid call_id c = map_option snd (map_of (ec_uuids c) call_id)"

section \<open>What the server lists\<close>

text \<open>\<open>(?:Auth-User|User)\s*[:=]\s*([^\s,|]+)\<close>, without case, at the head of the text.\<close>

definition user_field :: "string \<Rightarrow> string option" where
  "user_field s =
     (let key = (if starts_with ''auth-user'' (py_lower s) then Some 9 else if starts_with ''user'' (py_lower s) then Some 4 else None)
      in case key of
           None \<Rightarrow> None
         | Some n \<Rightarrow>
            (case dropWhile rx_space (drop n s) of
               c # t \<Rightarrow>
                 if c \<noteq> CHR '':'' \<and> c \<noteq> CHR ''='' then None
                 else (case takeWhile (\<lambda>d. \<not> rx_space d \<and> d \<noteq> CHR '','' \<and> d \<noteq> CHR ''|'') (dropWhile rx_space t) of
                    [] \<Rightarrow> None | u \<Rightarrow> Some u)
             | [] \<Rightarrow> None))"

fun search_user :: "string \<Rightarrow> string option" where
  "search_user [] = None"
| "search_user (c # t) = (case user_field (c # t) of Some u \<Rightarrow> Some u | None \<Rightarrow> search_user t)"

definition profile_rows :: "string \<Rightarrow> string \<Rightarrow> (string \<times> string) list" where
  "profile_rows profile raw = map (Pair profile) (List.map_filter search_user (splitlines raw))"

definition list_registrations :: "'n esl_net \<Rightarrow> esl_cfg \<Rightarrow> ('n esl_conn, (string \<times> string) list) prog" where
  "list_registrations N cfg =
     bindp (send_api N cfg ''sofia status profile internal reg'') (\<lambda>a.
     bindp (send_api N cfg ''sofia status profile internal-7060 reg'') (\<lambda>b.
       ret (profile_rows ''internal'' a @ profile_rows ''internal-7060'' b)))"

fun channel_rows :: "json list \<Rightarrow> exc + (string \<times> string) list" where
  "channel_rows [] = Inr []"
| "channel_rows (row # rows) =
     (if \<not> is_dict row then Inl (AttributeError ''get'')
      else case channel_rows rows of
          Inl e \<Rightarrow> Inl e
        | Inr cs \<Rightarrow>
           (let trunk_id = ev_text row ''variable_zenith_trunk_id''; call_uuid = first_text row [''uuid'', ''call_uuid'']
            in Inr (if trunk_id \<noteq> [] \<and> call_uuid \<noteq> [] then (trunk_id, call_uuid) # cs else cs)))"

definition parse_channels :: "string \<Rightarrow> exc + (string \<times> string) list" where
  "parse_channels raw =
     (case py_find ''{'' raw of
        None \<Rightarrow> Inr []
      | Some k \<Rightarrow>
         (case json_loads (drop k raw) of
            None \<Rightarrow> Inr []
          | Some payload \<Rightarrow>
             (case jget payload ''rows'' of
                None \<Rightarrow> Inr []
              | Some (JList rows) \<Rightarrow> channel_rows rows
              | Some (JObj kvs) \<Rightarrow> if kvs = [] then Inr [] else Inl (AttributeError ''get'')
              | Some (JStr s) \<Rightarrow> if s = [] then Inr [] else Inl (AttributeError ''get'')
              | Some _ \<Rightarrow> Inl (TypeError ''not iterable''))))"

definition list_trunk_channels :: "'n esl_net \<Rightarrow> esl_cfg \<Rightarrow> ('n esl_conn, (string \<times> string) list) prog" where
  "list_trunk_channels N cfg =
     bindp (send_api N cfg ''show channels as json'') (\<lambda>raw. lift_res (parse_channels raw))"

definition server_lists :: "'n esl_net \<Rightarrow> esl_cfg \<Rightarrow> 'n esl_conn esl_lists" where
  "server_lists N cfg = \<lparr>es_registrations = list_registrations N cfg, es_channels = list_trunk_channels N cfg\<rparr>"

section \<open>Trunk state\<close>

text \<open>\<open>try: ... except Exception: log\<close>.\<close>

definition guarded :: "('s, 'a) prog \<Rightarrow> ('s, unit) prog" where
  "guarded p = catchp (bindp p (\<lambda>_. ret ())) is_Exception (\<lambda>_. ret ())"

definition handle_trunk_registration :: "esl_env \<Rightarrow> json \<Rightarrow> (('r, 'n) esl_world, unit) prog" where
  "handle_trunk_registration env ev = guarded (on_db (apply_registration_event (ee_session env) ev))"

definition call_id_of :: "json \<Rightarrow> string" where
  "call_id_of ev = first_text ev [''Caller-Unique-ID'', ''Unique-ID'']"

definition track_trunk_call :: "'r redis \<Rightarrow> json \<Rightarrow> bool \<Rightarrow> (('r, 'n) esl_world, unit) prog" where
  "track_trunk_call R ev active =
     (let trunk_id = ev_text ev ''variable_zenith_trunk_id''; call_uuid = call_id_of ev
      in if trunk_id = [] \<or> call_uuid = [] then ret ()
         else guarded (on_redis (track_call R trunk_id call_uuid active)))"

definition mark_trunks_unknown :: "esl_env \<Rightarrow> (('r, 'n) esl_world, unit) prog" where
  "mark_trunks_unknown env = guarded (on_db (mark_registered_unknown (ee_session env)))"

definition reconcile_trunks :: "'r redis \<Rightarrow> 'n esl_net \<Rightarrow> esl_cfg \<Rightarrow> esl_env \<Rightarrow> (('r, 'n) esl_world, unit) prog" where
  "reconcile_trunks R N cfg env = guarded (reconcile (ee_session env) R (server_lists N cfg))"

definition events_command :: string where
  "events_command = ''events json CHANNEL_CREATE CHANNEL_ANSWER CHANNEL_HANGUP ''
     @ ''SOFIA_REGISTER SOFIA_UNREGISTER CUSTOM sofia::register sofia::unregister sofia::expire'' @ [LF, LF]"

definition connect :: "'r redis \<Rightarrow> 'n esl_net \<Rightarrow> esl_cfg \<Rightarrow> esl_env \<Rightarrow> (('r, 'n) esl_world, unit) prog" where
  "connect R N cfg env =
     bindp (on_esl (handshake N cfg EventConn)) (\<lambda>_.
     bindp (on_esl (on_net (en_write N EventConn events_command))) (\<lambda>_.
     bindp (on_esl (modifyp (\<lambda>c. c\<lparr>ec_connected := True\<rparr>))) (\<lambda>_.
     reconcile_trunks R N cfg env)))"

section \<open>SIP mappings\<close>

text \<open>\<open>re.search(r"(\d+\.\d+\.\d+\.\d+)", s)\<close>: at the head, then from the left.\<close>

definition digit_run :: "string \<Rightarrow> (string \<times> string) option" where
  "digit_run s = (case takeWhile is_digit s of [] \<Rightarrow> None | d \<Rightarrow> Some (d, dropWhile is_digit s))"

fun dotted :: "nat \<Rightarrow> string \<Rightarrow> string option" where
  "dotted 0 s = map_option fst (digit_run s)"
| "dotted (Suc n) s =
     (case digit_run s of
        Some (d, CHR ''.'' # t) \<Rightarrow> map_option (\<lambda>r. d @ ''.'' @ r) (dotted n t)
      | _ \<Rightarrow> None)"

fun search_ip :: "string \<Rightarrow> string option" where
  "search_ip [] = None"
| "search_ip (c # t) = (case dotted 3 (c # t) of Some ip \<Rightarrow> Some ip | None \<Rightarrow> search_ip t)"

definition extract_ip :: "json \<Rightarrow> string" where
  "extract_ip ev =
     (let sip_ip = first_text ev [''sip_network_ip'', ''Caller-Network-Addr'']
      in if sip_ip \<noteq> [] then sip_ip
         else case search_ip (first_text ev [''Caller-Source'', ''sip_via_host'']) of None \<Rightarrow> [] | Some ip \<Rightarrow> ip)"

definition ip_key :: "string \<Rightarrow> string" where
  "ip_key ip = ''zenith:sip:ip_to_extension:'' @ ip"

definition extension_key :: "string \<Rightarrow> string" where
  "extension_key extension = ''zenith:sip:extension_to_ip:'' @ extension"

definition cache_sip_mapping :: "'r redis \<Rightarrow> string \<Rightarrow> string \<Rightarrow> ('r, unit) prog" where
  "cache_sip_mapping R extension ip =
     bindp (rd_setex R (ip_key ip) SIP_IP_KEY_TTL extension) (\<lambda>_.
     rd_setex R (extension_key extension) SIP_IP_KEY_TTL ip)"

definition remove_sip_mapping :: "'r redis \<Rightarrow> string \<Rightarrow> ('r, unit) prog" where
  "remove_sip_mapping R extension =
     bindp (rd_get R (extension_key extension)) (\<lambda>ip.
     bindp (if ip \<noteq> None \<and> ip \<noteq> Some [] then rd_delete R (ip_key (the ip)) else ret ()) (\<lambda>_.
     rd_delete R (extension_key extension)))"

definition from_user_of :: "json \<Rightarrow> string" where
  "from_user_of ev = first_text ev [''Caller-Caller-ID-Number'', ''sip_from_user'']"

definition handle_register :: "'r redis \<Rightarrow> esl_env \<Rightarrow> json \<Rightarrow> (('r, 'n) esl_world, unit) prog" where
  "handle_register R env ev =
     (if from_user_of ev = [] \<or> extract_ip ev = [] then ret ()
      else bindp (on_redis (cache_sip_mapping R (from_user_of ev) (extract_ip ev)))
             (\<lambda>_. handle_trunk_registration env ev))"

definition handle_unregister :: "'r redis \<Rightarrow> esl_env \<Rightarrow> json \<Rightarrow> (('r, 'n) esl_world, unit) prog" where
  "handle_unregister R env ev =
     bindp (if from_user_of ev \<noteq> [] then on_redis (remove_sip_mapping R (from_user_of ev)) else ret ())
       (\<lambda>_. handle_trunk_registration env ev)"

section \<open>Calls\<close>

definition opt_text :: "string \<Rightarrow> string option" where
  "opt_text s = (if s = [] then None else Some s)"

definition field_is :: "json \<Rightarrow> string \<Rightarrow> string \<Rightarrow> bool" where
  "field_is ev k v \<longleftrightarrow> jget ev k = Some (JStr v)"

definition tenant_of :: "json \<Rightarrow> string" where
  "tenant_of ev = ev_text ev ''variable_zenith_tenant_id''"

definition handle_manual_linkage :: "esl_env \<Rightarrow> json \<Rightarrow> (('r, 'n) esl_world, unit) prog" where
  "handle_manual_linkage env ev =
     (if from_user_of ev = [] \<or> extract_ip ev = [] then ret ()
      else on_widgets (broadcast (ee_hub env) ''manual_linkage''
        (ev_doc ''manual_linkage_detected''
          [(''extension'', JStr (from_user_of ev)), (''source_ip'', JStr (extract_ip ev)),
           (''channel_uuid'', (case jget ev ''Unique-ID'' of None \<Rightarrow> JStr [] | Some v \<Rightarrow> v))])))"

definition handle_channel_create :: "'r redis \<Rightarrow> esl_env \<Rightarrow> json \<Rightarrow> (('r, 'n) esl_world, unit) prog" where
  "handle_channel_create R env ev =
     bindp (track_trunk_call R ev True) (\<lambda>_.
       if field_is ev ''Caller-Destination-Number'' ''*88'' then handle_manual_linkage env ev
       else if call_id_of ev = [] then ret ()
       else if \<not> field_is ev ''Call-Direction'' ''inbound'' then ret ()
       else if tenant_of ev = [] then ret ()
       else guarded (on_calls (tenant_of ev) (create_ringing_call_record (ee_calls env) (call_id_of ev)
              (ev_text ev ''variable_zenith_pbx_id'')
              (first_text ev [''variable_zenith_agent_extension'', ''variable_sip_from_user''])
              (opt_text (ev_text ev ''Caller-Caller-ID-Number''))
              (opt_text (ev_text ev ''Caller-Destination-Number'')))))"

definition audio_command :: "esl_cfg \<Rightarrow> string \<Rightarrow> string" where
  "audio_command cfg call_id =
     ''uuid_audio_stream '' @ call_id @ '' start ws://'' @ el_callback_host cfg @ ''/audio-stream/'' @ call_id
     @ '' stereo 16000 '' @ json_dumps (JObj [(''call_id'', JStr call_id)])"

text \<open>A refused command is only logged.\<close>

definition start_audio_capture :: "'n esl_net \<Rightarrow> esl_cfg \<Rightarrow> string \<Rightarrow> (('r, 'n) esl_world, unit) prog" where
  "start_audio_capture N cfg call_id =
     on_esl (catchp (bindp (send_bgapi N cfg (audio_command cfg call_id)) (\<lambda>_. ret ())) is_OSError (\<lambda>_. ret ()))"

definition drop_count :: "metrics \<Rightarrow> metrics" where
  "drop_count = metric_inc (''call_dropped_no_tenant_total'', []) 1"

definition record_answer :: "esl_env \<Rightarrow> json \<Rightarrow> (call_row list, unit) prog" where
  "record_answer env ev =
     bindp (mark_call_in_progress (ee_calls env) (call_id_of ev)) (\<lambda>promoted.
       if promoted then ret ()
       else create_call_record (ee_calls env) (call_id_of ev) (ev_text ev ''variable_zenith_pbx_id'')
              (ev_text ev ''variable_zenith_agent_extension'') (opt_text (ev_text ev ''Caller-Caller-ID-Number''))
              (opt_text (ev_text ev ''Caller-Destination-Number'')))"

definition handle_channel_answer ::
    "'r redis \<Rightarrow> 'n esl_net \<Rightarrow> esl_cfg \<Rightarrow> esl_env \<Rightarrow> json \<Rightarrow> (('r, 'n) esl_world, unit) prog" where
  "handle_channel_answer R N cfg env ev =
     bindp (track_trunk_call R ev True) (\<lambda>_.
       if call_id_of ev = [] then ret ()
       else bindp (on_ingestor (modifyp (register_stream_metadata (call_id_of ev) (tenant_of ev)
              (ev_text ev ''variable_zenith_pbx_id'') (ev_text ev ''variable_zenith_agent_extension'')))) (\<lambda>_.
         if tenant_of ev \<noteq> []
         then bindp (guarded (on_calls (tenant_of ev) (record_answer env ev)))
                (\<lambda>_. start_audio_capture N cfg (call_id_of ev))
         else if field_is ev ''Call-Direction'' ''inbound''
         then modifyp (\<lambda>w. w\<lparr>ew_metrics := drop_count (ew_metrics w)\<rparr>)
         else ret ()))"

definition handle_channel_hangup :: "'r redis \<Rightarrow> esl_env \<Rightarrow> json \<Rightarrow> (('r, 'n) esl_world, unit) prog" where
  "handle_channel_hangup R env ev =
     (if call_id_of ev = [] then ret ()
      else bindp (track_trunk_call R ev False) (\<lambda>_.
           bindp (if tenant_of ev \<noteq> []
                  then on_calls (tenant_of ev) (finalize_call_record (ee_calls env) (call_id_of ev)
                         (opt_text (ev_text ev ''Hangup-Cause'')))
                  else ret ()) (\<lambda>_.
           bindp (on_ingestor (finalize_stream (ee_ingest env) (call_id_of ev))) (\<lambda>_. ret ()))))"

section \<open>Events\<close>

definition trunk_subclasses :: "string list" where
  "trunk_subclasses = [''sofia::register'', ''sofia::unregister'', ''sofia::expire'']"

definition dispatch ::
    "'r redis \<Rightarrow> 'n esl_net \<Rightarrow> esl_cfg \<Rightarrow> esl_env \<Rightarrow> json \<Rightarrow> (('r, 'n) esl_world, unit) prog" where
  "dispatch R N cfg env ev =
     (if field_is ev ''Event-Name'' ''SOFIA_REGISTER'' then handle_register R env ev
      else if field_is ev ''Event-Name'' ''SOFIA_UNREGISTER'' then handle_unregister R env ev
      else if field_is ev ''Event-Name'' ''CUSTOM'' \<and> list_ex (field_is ev ''Event-Subclass'') trunk_subclasses
      then handle_trunk_registration env ev
      else if field_is ev ''Event-Name'' ''CHANNEL_CREATE'' then handle_channel_create R env ev
      else if field_is ev ''Event-Name'' ''CHANNEL_ANSWER'' then handle_channel_answer R N cfg env ev
      else if field_is ev ''Event-Name'' ''CHANNEL_HANGUP'' then handle_channel_hangup R env ev
      else ret ())"

definition process_event ::
    "'r redis \<Rightarrow> 'n esl_net \<Rightarrow> esl_cfg \<Rightarrow> esl_env \<Rightarrow> string \<Rightarrow> (('r, 'n) esl_world, unit) prog" where
  "process_event R N cfg env raw =
     (case json_loads raw of
        None \<Rightarrow> ret ()
      | Some ev \<Rightarrow>
         if \<not> is_dict ev then throw (AttributeError ''get'')
         else catchp (dispatch R N cfg env ev) is_Exception (\<lambda>_. ret ()))"

definition read_events ::
    "'r redis \<Rightarrow> 'n esl_net \<Rightarrow> esl_cfg \<Rightarrow> (esl_env \<times> (exc + string)) list \<Rightarrow> (('r, 'n) esl_world, string option) prog" where
  "read_events R N cfg chunks = read_chunks (process_event R N cfg) [] chunks"

text \<open>One turn of the event loop: what the reads give until the turn fails, or none is left.\<close>

record esl_turn =
  et_env :: esl_env
  et_chunks :: "(esl_env \<times> (exc + string)) list"

definition turn_body :: "'r redis \<Rightarrow> 'n esl_net \<Rightarrow> esl_cfg \<Rightarrow> esl_turn \<Rightarrow> (('r, 'n) esl_world, unit) prog" where
  "turn_body R N cfg tn w =
     bindp (if ec_connected (tw_esl w) then ret () else connect R N cfg (et_env tn)) (\<lambda>_.
     bindp (read_events R N cfg (et_chunks tn)) (\<lambda>_. ret ())) w"

definition lost_connection :: "esl_env \<Rightarrow> (('r, 'n) esl_world, unit) prog" where
  "lost_connection env =
     bindp (on_esl (modifyp (\<lambda>c. c\<lparr>ec_connected := False\<rparr>))) (\<lambda>_. mark_trunks_unknown env)"

text \<open>The loop ends on a cancellation, and with any exception that is not caught.\<close>

fun event_loop ::
    "'r redis \<Rightarrow> 'n esl_net \<Rightarrow> esl_cfg \<Rightarrow> esl_turn list \<Rightarrow> (('r, 'n) esl_world, unit) prog" where
  "event_loop R N cfg [] w = (Inr (), w)"
| "event_loop R N cfg (tn # tns) w =
     (if \<not> ec_running (tw_esl w) then (Inr (), w)
      else case turn_body R N cfg tn w of
          (Inr _, w') \<Rightarrow> (Inr (), w')
        | (Inl e, w') \<Rightarrow>
           if is_OSError e
           then (case lost_connection (et_env tn) w' of
                   (Inl e', w'') \<Rightarrow> (Inl e', w'')
                 | (Inr _, w'') \<Rightarrow> event_loop R N cfg tns w'')
           else if e = CancelledError then (Inr (), w')
           else (Inl e, w'))"

definition start_event_listener :: "'n esl_conn \<Rightarrow> bool \<times> 'n esl_conn" where
  "start_event_listener c = (if ec_running c then (False, c) else (True, c\<lparr>ec_running := True\<rparr>))"

definition stop_event_listener :: "'n esl_conn \<Rightarrow> 'n esl_conn" where
  "stop_event_listener c = c\<lparr>ec_running := False\<rparr>"

definition esl_close :: "'n esl_conn \<Rightarrow> 'n esl_conn" where
  "esl_close c = c\<lparr>ec_running := False, ec_connected := False\<rparr>"

section \<open>Fillers\<close>

definition FILLER_PHRASES :: "(string \<times> string) list" where
  "FILLER_PHRASES =
     [(''processing'', ''/usr/share/freeswitch/sounds/zenith/filler_processing.wav''),
      (''please_wait'', ''/usr/share/freeswitch/sounds/zenith/filler_please_wait.wav''),
      (''default'', ''/usr/share/freeswitch/sounds/zenith/filler_processing.wav'')]"

definition phrase_path :: "string \<Rightarrow> string" where
  "phrase_path phrase =
     (case map_of FILLER_PHRASES phrase of Some p \<Rightarrow> p | None \<Rightarrow> the (map_of FILLER_PHRASES ''default''))"

text \<open>None is \<open>success: False\<close>; otherwise the command and the response.\<close>

definition play_to_customer ::
    "'n esl_net \<Rightarrow> esl_cfg \<Rightarrow> string \<Rightarrow> string \<Rightarrow> ('n esl_conn, (string \<times> string) option) prog" where
  "play_to_customer N cfg call_id phrase c =
     (case get_customer_uuid call_id c of
        None \<Rightarrow> (Inr None, c)
      | Some u \<Rightarrow>
         if u = [] then (Inr None, c)
         else (let command = ''uuid_play '' @ u @ '' '' @ phrase_path phrase
               in bindp (send_api N cfg command) (\<lambda>response. ret (Some (command, response))) c))"

section \<open>What an event can change\<close>

lemma guarded_result: "fst (guarded p s) = Inr () \<or> fst (guarded p s) = Inl CancelledError"
  by (cases "p s"; cases "fst (p s)"; cases "projl (fst (p s))") (auto simp: guarded_def catchp_def bindp_def)

lemma guarded_state: "snd (guarded p s) = snd (p s)"
  by (auto simp: guarded_def catchp_def bindp_def split: prod.splits sum.splits)

lemma keeps_guarded [keep_rules]: "keeps f p \<Longrightarrow> keeps f (guarded p)"
  by (simp add: keeps_def guarded_state)




lemma calls_on_calls: "calls_of (snd (on_calls tenant p w)) other =
    (if other = tenant then snd (p (calls_of w tenant)) else calls_of w other)"
  by (simp add: on_calls_def calls_of_def AList.update_conv split: prod.splits)

lemma keeps_on_calls [keep_rules]: "tenant \<noteq> other \<Longrightarrow> keeps (\<lambda>w. calls_of w other) (on_calls tenant p)"
  by (simp add: keeps_def calls_on_calls)








lemma process_event_result:
  "fst (process_event R N cfg env raw w) =
     (case json_loads raw of
        None \<Rightarrow> Inr ()
      | Some ev \<Rightarrow>
         if \<not> is_dict ev then Inl (AttributeError ''get'')
         else if fst (dispatch R N cfg env ev w) = Inl CancelledError then Inl CancelledError else Inr ())"
proof (cases "json_loads raw")
  case None
  then show ?thesis by (simp add: process_event_def)
next
  case (Some ev)
  obtain q w' where q: "dispatch R N cfg env ev w = (q, w')" by force
  then show ?thesis
  proof (cases q)
    case (Inl e)
    with Some q show ?thesis by (cases e) (simp_all add: process_event_def catchp_def)
  next
    case (Inr u)
    with Some q show ?thesis by (simp add: process_event_def catchp_def)
  qed
qed

text \<open>A handler that fails never stops the listener: for a body that is a JSON object, or not
  JSON at all, handling it returns, a cancellation apart. A body that is JSON but not an
  object raises \<open>AttributeError\<close> outside the \<open>try\<close>, which the event loop does not catch.\<close>

theorem event_failures_stay_inside:
  "fst (process_event R N cfg env raw w) =
     (case json_loads raw of
        None \<Rightarrow> Inr ()
      | Some ev \<Rightarrow>
         if \<not> is_dict ev then Inl (AttributeError ''get'')
         else if fst (dispatch R N cfg env ev w) = Inl CancelledError then Inl CancelledError else Inr ())"
  by (rule process_event_result)

section \<open>Addresses of extensions\<close>

lemma keys_apart [simp]: "ip_key ip \<noteq> extension_key e" "extension_key e \<noteq> ip_key ip" "ip_key a = ip_key b \<longleftrightarrow> a = b"
  by (simp_all add: ip_key_def extension_key_def)

lemma cached_mapping:
  assumes "redis_laws R texts sets" and "cache_sip_mapping R e ip r = (Inr (), r')"
  shows "texts r' (ip_key ip) = Some e" and "texts r' (extension_key e) = Some ip"
    and "k \<noteq> ip_key ip \<Longrightarrow> k \<noteq> extension_key e \<Longrightarrow> texts r' k = texts r k"
proof -
  obtain r1 where 1: "rd_setex R (ip_key ip) SIP_IP_KEY_TTL e r = (Inr (), r1)"
      and 2: "rd_setex R (extension_key e) SIP_IP_KEY_TTL ip r1 = (Inr (), r')"
    using assms(2) by (auto simp: cache_sip_mapping_def bindp_eq_Inr)
  note a = altersD[OF setex_alters(1)[OF assms(1)] 1] and b = altersD[OF setex_alters(1)[OF assms(1)] 2]
  show "texts r' (ip_key ip) = Some e" using a(2) b(1)[of "ip_key ip"] by simp
  show "texts r' (extension_key e) = Some ip" using b(2) by simp
  show "k \<noteq> ip_key ip \<Longrightarrow> k \<noteq> extension_key e \<Longrightarrow> texts r' k = texts r k" using a(1) b(1) by simp
qed

lemma removed_mapping:
  assumes "redis_laws R texts sets" and "remove_sip_mapping R e r = (Inr (), r')"
  shows "texts r' (extension_key e) = None"
    and "texts r (extension_key e) = Some ip \<Longrightarrow> ip \<noteq> [] \<Longrightarrow> texts r' (ip_key ip) = None"
    and "texts r (extension_key e) \<noteq> Some ip \<Longrightarrow> texts r' (ip_key ip) = texts r (ip_key ip)"
proof -
  obtain a r1 r2 where 1: "rd_get R (extension_key e) r = (Inr a, r1)"
      and 2: "(if a \<noteq> None \<and> a \<noteq> Some [] then rd_delete R (ip_key (the a)) else ret ()) r1 = (Inr (), r2)"
      and 3: "rd_delete R (extension_key e) r2 = (Inr (), r')"
    using assms(2) by (auto simp: remove_sip_mapping_def bindp_eq_Inr simp del: ret_apply)
  note g = looksD[OF get_looks[OF assms(1)] 1]
  note d = altersD[OF delete_alters[OF assms(1)] 3]
  have r2: "if a \<noteq> None \<and> a \<noteq> Some [] then texts r2 (ip_key (the a)) = None
      \<and> (\<forall>k. k \<noteq> ip_key (the a) \<longrightarrow> texts r2 k = texts r k) else r2 = r"
  proof (cases "a \<noteq> None \<and> a \<noteq> Some []")
    case True
    with 2 have "rd_delete R (ip_key (the a)) r1 = (Inr (), r2)" by simp
    from altersD[OF delete_alters[OF assms(1)] this] g(1) True show ?thesis by simp
  next
    case False
    with 2 g(1) show ?thesis by auto
  qed
  show "texts r' (extension_key e) = None" using d(2) by simp
  show "texts r (extension_key e) = Some ip \<Longrightarrow> ip \<noteq> [] \<Longrightarrow> texts r' (ip_key ip) = None"
    using g(2)[OF refl] r2 d(1)[of "ip_key ip"] by auto
  show "texts r (extension_key e) \<noteq> Some ip \<Longrightarrow> texts r' (ip_key ip) = texts r (ip_key ip)"
    using g(2)[OF refl] r2 d(1)[of "ip_key ip"] by (cases "texts r (extension_key e)") (auto split: if_splits)
qed

text \<open>An extension that registers again from another address leaves its old address behind:
  after it unregisters, both keys of the new address are gone, but the old address still leads
  to the extension until it expires, and a widget that connects from there is linked to it.\<close>

theorem moved_extension_keeps_its_old_address:
  assumes "redis_laws R texts sets" and "cache_sip_mapping R e ip1 r = (Inr (), r1)"
    and "cache_sip_mapping R e ip2 r1 = (Inr (), r2)" and "remove_sip_mapping R e r2 = (Inr (), r3)"
    and "ip1 \<noteq> ip2" and "ip2 \<noteq> []"
  shows "texts r3 (ip_key ip1) = Some e \<and> texts r3 (ip_key ip2) = None \<and> texts r3 (extension_key e) = None"
  using assms(5,6) cached_mapping[OF assms(1,2)] cached_mapping[OF assms(1,3)] removed_mapping[OF assms(1,4)]
  by simp

theorem moved_extension_keeps_its_old_address_witness:
  "\<exists>r3. mem_texts r3 (ip_key ''10.0.0.1'') = Some ''100'' \<and> mem_texts r3 (ip_key ''10.0.0.2'') = None"
proof -
  have c: "\<exists>s'. cache_sip_mapping mem_redis e ip s = (Inr (), s') \<and> ms_down s' = []" if "ms_down s = []" for e ip s
    using that by (simp add: cache_sip_mapping_def mem_redis_def on_key_def bindp_def)
  have d: "\<exists>s'. remove_sip_mapping mem_redis e s = (Inr (), s')" if "ms_down s = []" for e s
    using that by (simp add: remove_sip_mapping_def mem_redis_def on_key_def bindp_def)
  have "ms_down \<lparr>ms_texts = [], ms_sets = [], ms_down = []\<rparr> = []" by simp
  with c d obtain r1 r2 r3 where r: "cache_sip_mapping mem_redis ''100'' ''10.0.0.1'' \<lparr>ms_texts = [], ms_sets = [], ms_down = []\<rparr> = (Inr (), r1)"
    "cache_sip_mapping mem_redis ''100'' ''10.0.0.2'' r1 = (Inr (), r2)" "remove_sip_mapping mem_redis ''100'' r2 = (Inr (), r3)"
    by metis
  from moved_extension_keeps_its_old_address[OF mem_redis_laws r] show ?thesis by auto
qed

section \<open>Reading the stream\<close>

text \<open>C20. The events that are handled, and their order, do not depend on how the network cuts the
  stream: reading frames (a header without a blank line that announces the length of its body)
  in any non-empty chunks leaves exactly what handling their bodies one after the other
  leaves, an empty buffer, and the exception of the first body that raises, if one does.\<close>

theorem events_independent_of_chunks:
  assumes "\<forall>f\<in>set fs. framed f" and "concat chunks = concat (map frame fs)" and "\<forall>c\<in>set chunks. c \<noteq> []"
  shows "read_events R N cfg (map (\<lambda>c. (env, Inr c)) chunks) w =
    (case for_p (process_event R N cfg env) (map snd fs) w of
       (Inl e, w') \<Rightarrow> (Inl e, w') | (Inr _, w') \<Rightarrow> (Inr (Some []), w'))"
proof -
  have e: "map (\<lambda>c. (env, Inr c)) chunks = [] \<Longrightarrow> fs = []"
  proof -
    assume "map (\<lambda>c. (env, Inr c)) chunks = []"
    then have "concat (map frame fs) = []" using assms(2) by simp
    then show "fs = []" by (cases fs) (auto simp: frame_def)
  qed
  have c: "read_chunks (\<lambda>_. process_event R N cfg env) [] (map (\<lambda>c. (env, Inr c)) chunks) w =
      (case for_p (process_event R N cfg env) (map snd fs) w of
         (Inl e, w') \<Rightarrow> (Inl e, w') | (Inr _, w') \<Rightarrow> (Inr (Some []), w'))"
    by (rule chunks_frames[OF assms(1) _ assms(3)]) (use assms(2) e in auto)
  have "read_chunks process buf (map (\<lambda>c. (env, Inr c)) cs) w' = read_chunks (\<lambda>_. process env) buf (map (\<lambda>c. (env, Inr c)) cs) w'"
    for process :: "esl_env \<Rightarrow> string \<Rightarrow> (('a, 'b) esl_world, unit) prog" and buf cs w'
    by (induction cs arbitrary: buf w') (auto split: prod.splits sum.splits option.splits)
  with c show ?thesis by (simp add: read_events_def)
qed


lemma stuck_frame: "next_frame stuck_header = Inr (Some ([], stuck_header))"
  by code_simp

text \<open>A negative length is taken as it is, and can hold the reader for ever: a header that
  announces minus the bytes of itself yields an empty body and the same buffer again, so no
  number of turns of the inner loop gets past it.\<close>

theorem negative_length_never_ends:
  "drain n (process_event R N cfg env) stuck_header w = (Inr None, w)"
proof -
  have "json_loads [] = None" by (simp add: json_loads_def skip_ws_def)
  then have "process_event R N cfg env [] w = (Inr (), w)" by (simp add: process_event_def)
  then show ?thesis by (induction n) (simp_all add: stuck_frame)
qed

section \<open>The life of a call\<close>









section \<open>Coming back after a lost connection\<close>

definition greet :: "'n esl_net \<Rightarrow> esl_cfg \<Rightarrow> ('n esl_conn, unit) prog" where
  "greet N cfg = bindp (handshake N cfg EventConn) (\<lambda>_. on_net (en_write N EventConn events_command))"

text \<open>The client's side of the connection after \<open>k\<close> attempts that failed.\<close>

fun after_failures :: "'n esl_net \<Rightarrow> esl_cfg \<Rightarrow> nat \<Rightarrow> 'n esl_conn \<Rightarrow> 'n esl_conn" where
  "after_failures N cfg 0 c = c"
| "after_failures N cfg (Suc k) c = after_failures N cfg k ((snd (greet N cfg c))\<lparr>ec_connected := False\<rparr>)"

definition conn_part :: "('n esl_conn \<Rightarrow> bool) \<Rightarrow> bool" where
  "conn_part f \<longleftrightarrow> (\<forall>c n b. f (c\<lparr>ec_net := n\<rparr>) = f c \<and> f (c\<lparr>ec_command := b\<rparr>) = f c)"

lemma conn_parts: "conn_part ec_running" "conn_part ec_connected"
  by (simp_all add: conn_part_def)

lemma keeps_on_net: "conn_part f \<Longrightarrow> keeps f (on_net p)"
  by (auto simp: keeps_def conn_part_def on_net_def split: prod.splits)

lemma keeps_handshake: "conn_part f \<Longrightarrow> keeps f (handshake N cfg k)"
  unfolding handshake_def by (intro keep_rules keeps_on_net)

lemma keeps_greet: "conn_part f \<Longrightarrow> keeps f (greet N cfg)"
  unfolding greet_def by (intro keep_rules keeps_on_net keeps_handshake)

lemma keeps_send_command:
  assumes "conn_part f"
  shows "keeps f (send_command N cfg prefix command)"
proof -
  have k: "keeps f (connect_command N cfg)" "keeps f (modifyp (\<lambda>c. c\<lparr>ec_command := False\<rparr>))"
    using assms unfolding connect_command_def
    by (auto intro!: keep_rules keeps_handshake simp: conn_part_def)
  show ?thesis
  proof (rule keepsI)
    fix c r c'
    assume s: "send_command N cfg prefix command c = (r, c')"
    let ?m = "bindp (if \<not> ec_command c \<or> en_closing N (ec_net c) then connect_command N cfg else ret ()) (\<lambda>_.
       catchp (bindp (on_net (en_write N CommandConn (prefix @ '' '' @ command @ [LF, LF])))
            (\<lambda>_. on_net (en_read N CommandConn)))
         is_OSError (\<lambda>e. bindp (modifyp (\<lambda>c. c\<lparr>ec_command := False\<rparr>)) (\<lambda>_. throw e)))"
    have "keeps f ?m" by (intro keep_rules keeps_on_net[OF assms] k)
    from keepsD[OF this, of c r c'] s show "f c' = f c" unfolding send_command_def by simp
  qed
qed

lemma keeps_lists:
  assumes "conn_part f"
  shows "keeps f (list_registrations N cfg)" and "keeps f (list_trunk_channels N cfg)"
  unfolding list_registrations_def list_trunk_channels_def send_api_def
  by (intro keep_rules keeps_send_command[OF assms])+

lemma keeps_esl_view:
  "keeps (\<lambda>w. f (tw_esl w)) (on_db p)" "keeps (\<lambda>w. f (tw_esl w)) (on_redis q)"
  "keeps f m \<Longrightarrow> keeps (\<lambda>w. f (tw_esl w)) (on_esl m)"
  by (auto simp: keeps_def on_db_def on_redis_def on_esl_def split: prod.splits) (metis snd_conv)

lemma keeps_reconcile:
  assumes "conn_part f"
  shows "keeps (\<lambda>w. f (tw_esl w)) (reconcile_trunks R N cfg env :: (('r, 'n) esl_world, unit) prog)"
proof -
  have opt: "keeps g m \<Longrightarrow> (\<And>x. keeps g (k x)) \<Longrightarrow> keeps g (case y of None \<Rightarrow> m | Some x \<Rightarrow> k x)"
    for g :: "('r, 'n) esl_world \<Rightarrow> bool" and m :: "(('r, 'n) esl_world, reconcile_result) prog"
      and y :: "(string \<times> string) list option" and k
    by (cases y) auto
  show ?thesis
    unfolding reconcile_trunks_def reconcile_def reconcile_active_calls_def server_lists_def Let_def
    by (simp, intro keep_rules opt keeps_esl_view keeps_lists[OF assms])
qed

lemma connect_greets:
  "connect R N cfg env = bindp (on_esl (greet N cfg)) (\<lambda>_.
     bindp (on_esl (modifyp (\<lambda>c. c\<lparr>ec_connected := True\<rparr>))) (\<lambda>_. reconcile_trunks R N cfg env))"
  by (auto simp: fun_eq_iff connect_def greet_def on_esl_def bindp_def split: prod.splits sum.splits)

text \<open>C22. The listener recovers: if the server refuses \<open>k\<close> attempts to connect and accepts the next,
  the event loop is connected again after \<open>k + 1\<close> turns, and is still running, whatever the
  statements that mark and reconcile the trunks do meanwhile.\<close>

theorem listener_reconnects:
  assumes "length tns = k + 1" and "ec_running (tw_esl w)" and "\<not> ec_connected (tw_esl w)"
    and "\<forall>i<k. \<exists>e. fst (greet N cfg (after_failures N cfg i (tw_esl w))) = Inl e \<and> is_OSError e"
    and "fst (greet N cfg (after_failures N cfg k (tw_esl w))) = Inr ()"
    and "\<forall>tn\<in>set tns. se_mark (ee_session (et_env tn)) \<noteq> Some CancelledError \<and> et_chunks tn = []"
  shows "ec_connected (tw_esl (snd (event_loop R N cfg tns w))) \<and> ec_running (tw_esl (snd (event_loop R N cfg tns w)))"
  using assms
proof (induction k arbitrary: tns w)
  case 0
  then obtain tn where tn: "tns = [tn]" "et_chunks tn = []" by (cases tns) auto
  obtain c1 where c1: "greet N cfg (tw_esl w) = (Inr (), c1)" using "0.prems"(5) by (cases "greet N cfg (tw_esl w)") auto
  have run: "ec_running c1" using keepsD[OF keeps_greet[OF conn_parts(1)] c1] "0.prems"(2) by simp
  let ?w1 = "w\<lparr>tw_esl := c1\<lparr>ec_connected := True\<rparr>\<rparr>"
  obtain q w2 where q: "reconcile_trunks R N cfg (et_env tn) ?w1 = (q, w2)" by force
  have conn: "ec_connected (tw_esl w2)" "ec_running (tw_esl w2)"
    using keepsD[OF keeps_reconcile[OF conn_parts(1)] q] keepsD[OF keeps_reconcile[OF conn_parts(2)] q] run by simp_all
  have "q = Inr () \<or> q = Inl CancelledError"
    using guarded_result[of "reconcile (ee_session (et_env tn)) R (server_lists N cfg)" ?w1] q
    by (simp add: reconcile_trunks_def)
  moreover have "turn_body R N cfg tn w = (q, w2)"
    using c1 q "0.prems"(3) tn(2) \<open>q = Inr () \<or> q = Inl CancelledError\<close>
    by (auto simp: turn_body_def connect_greets on_esl_def bindp_def read_events_def)
  ultimately show ?case
    using conn "0.prems"(2) tn(1) by auto
next
  case (Suc k)
  then obtain tn ts where tns: "tns = tn # ts" "length ts = k + 1" by (cases tns) auto
  obtain e c1 where e: "greet N cfg (tw_esl w) = (Inl e, c1)" "is_OSError e"
    using Suc.prems(4) by (metis after_failures.simps(1) prod.collapse zero_less_Suc)
  let ?w1 = "w\<lparr>tw_esl := c1\<rparr>"
  have t: "turn_body R N cfg tn w = (Inl e, ?w1)"
    using e(1) Suc.prems(3) by (simp add: turn_body_def connect_greets on_esl_def bindp_def)
  let ?c = "c1\<lparr>ec_connected := False\<rparr>"
  let ?m = "mark_registered_unknown (ee_session (et_env tn))"
  have "fst (?m d) \<noteq> Inl CancelledError" for d
    using Suc.prems(6) tns(1) by (auto simp: mark_registered_unknown_def split: option.splits)
  then obtain w2 where m: "mark_trunks_unknown (et_env tn) (w\<lparr>tw_esl := ?c\<rparr>) = (Inr (), w2)"
    using guarded_result[of "on_db ?m" "w\<lparr>tw_esl := ?c\<rparr>"]
    by (cases "?m (tw_db w)"; cases "fst (?m (tw_db w))"; cases "projl (fst (?m (tw_db w)))")
      (auto simp: mark_trunks_unknown_def guarded_def catchp_def bindp_def on_db_def, metis fst_conv)
  have w2: "tw_esl w2 = ?c"
    using keepsD[OF keeps_guarded[OF keeps_esl_view(1)[of id]], of "?m" "w\<lparr>tw_esl := ?c\<rparr>"] m
    by (simp add: mark_trunks_unknown_def)
  have loss: "lost_connection (et_env tn) ?w1 = (Inr (), w2)"
    using m by (simp add: lost_connection_def on_esl_def bindp_def)
  have run: "ec_running c1" using keepsD[OF keeps_greet[OF conn_parts(1)] e(1)] Suc.prems(2) by simp
  have "\<forall>i<k. \<exists>e. fst (greet N cfg (after_failures N cfg i ?c)) = Inl e \<and> is_OSError e"
    using Suc.prems(4) e(1) by fastforce
  moreover have "fst (greet N cfg (after_failures N cfg k ?c)) = Inr ()"
    using Suc.prems(5) e(1) by simp
  ultimately have "ec_connected (tw_esl (snd (event_loop R N cfg ts w2))) \<and> ec_running (tw_esl (snd (event_loop R N cfg ts w2)))"
    using Suc.IH[of ts w2] tns Suc.prems(6) run w2 by simp
  then show ?case using tns(1) t loss e(2) Suc.prems(2) by simp
qed

section \<open>A call, event by event\<close>


definition call_fields :: "string \<Rightarrow> (string \<times> string) list" where
  "call_fields name = [(''Event-Name'', name), (''Unique-ID'', ''c1''), (''Call-Direction'', ''inbound''),
     (''variable_zenith_tenant_id'', ''T1''), (''Hangup-Cause'', ''NORMAL_CLEARING'')]"

definition call_doc :: "string \<Rightarrow> json" where
  "call_doc name = JObj (map (\<lambda>kv. (fst kv, JStr (snd kv))) (call_fields name))"



definition deaf_net :: "nat esl_net" where
  "deaf_net = \<lparr>en_open = (\<lambda>_ n. (if n = 0 then Inr () else Inl (ConnectionError ''refused''), n - 1)),
     en_read = (\<lambda>_. ret ''+OK accepted''), en_write = (\<lambda>_ _. ret ()), en_closing = (\<lambda>_. False)\<rparr>"

definition lab_cfg :: esl_cfg where
  "lab_cfg = \<lparr>el_password = ''pw'', el_callback_host = ''api:8000''\<rparr>"

definition env_at :: "int \<Rightarrow> esl_env" where
  "env_at now = \<lparr>ee_calls = call_env_at now, ee_ingest = calm, ee_session = calm_env,
     ee_hub = \<lparr>he_up = (\<lambda>_. True), he_host = (\<lambda>_. None), he_accept = None\<rparr>\<rparr>"

definition lab :: "(mem_server, nat) esl_world" where
  "lab = \<lparr>tw_db = office_db, tw_redis = \<lparr>ms_texts = [], ms_sets = [], ms_down = []\<rparr>,
     tw_esl = \<lparr>ec_connected = False, ec_running = True, ec_command = False, ec_uuids = [], ec_net = 1\<rparr>,
     ew_calls = [], ew_ingestor = ringing, ew_hub = \<lparr>hb_rooms = [], hb_sent = []\<rparr>, ew_metrics = []\<rparr>"




lemma lab_calls [simp]: "calls_of lab ''T1'' = []"
  by (simp add: calls_of_def lab_def)

lemma lab_track [simp]: "track_trunk_call R (call_doc name) b w = (Inr (), w)"
  by (simp add: track_trunk_call_def call_doc_def call_fields_def ev_text_def)


lemma lab_ids [simp]: "call_id_of (call_doc name) = ''c1''" "tenant_of (call_doc name) = ''T1''" "is_dict (call_doc name)"
  "field_is (call_doc name) ''Call-Direction'' ''inbound''" "\<not> field_is (call_doc name) ''Caller-Destination-Number'' x"
  "map_of (ig_recordings (ew_ingestor lab)) ''c1'' = None"
  by (simp_all add: call_doc_def call_fields_def call_id_of_def tenant_of_def ev_text_def field_is_def lab_def ringing_def
      register_stream_metadata_def)







definition plain_frame :: "string \<times> string" where
  "plain_frame = (''Content-Length: 2'' @ [LF] @ ''Content-Type: text/event-json'', ''{}'')"

theorem events_independent_of_chunks_witness:
  "read_events mem_redis deaf_net lab_cfg
     (map (\<lambda>c. (env_at 5, Inr c)) [take 7 (frame plain_frame), drop 7 (frame plain_frame)]) lab
   = (Inr (Some []), lab)"
proof -
  have f: "\<forall>f\<in>set [plain_frame]. framed f" by (simp add: framed_def plain_frame_def) code_simp
  have j: "json_loads ''{}'' = Some (JObj [])" by code_simp
  have "process_event mem_redis deaf_net lab_cfg (env_at 5) ''{}'' lab = (Inr (), lab)"
    by (simp add: process_event_def j dispatch_def field_is_def catchp_def)
  then show ?thesis
    using events_independent_of_chunks[OF f, of "[take 7 (frame plain_frame), drop 7 (frame plain_frame)]"
        mem_redis deaf_net lab_cfg "env_at 5" lab]
    by (simp add: plain_frame_def frame_def)
qed


definition lab_turn :: esl_turn where
  "lab_turn = \<lparr>et_env = env_at 5, et_chunks = []\<rparr>"

definition shy_net :: "nat esl_net" where
  "shy_net = deaf_net\<lparr>en_open := (\<lambda>_ n. (if n = 0 then Inr () else Inl (ConnectionError ''refused''), n - 1))\<rparr>"

theorem listener_reconnects_witness:
  "ec_connected (tw_esl (snd (event_loop mem_redis shy_net lab_cfg [lab_turn, lab_turn] lab)))"
proof -
  let ?c = "tw_esl lab"
  have g: "greet shy_net lab_cfg ?c = (Inl (ConnectionError ''refused''), ?c\<lparr>ec_net := 0\<rparr>)"
    by (simp add: greet_def handshake_def on_net_def bindp_def shy_net_def deaf_net_def lab_def)
  have c: "after_failures shy_net lab_cfg 0 ?c = ?c" "after_failures shy_net lab_cfg 1 ?c = ?c\<lparr>ec_net := 0\<rparr>"
    by (simp_all add: g) (simp add: lab_def)
  have g0: "fst (greet shy_net lab_cfg (?c\<lparr>ec_net := 0\<rparr>)) = Inr ()"
    by (simp add: greet_def handshake_def on_net_def bindp_def shy_net_def deaf_net_def accepted_def starts_with_def)
  show ?thesis
    using listener_reconnects[of "[lab_turn, lab_turn]" 1 lab shy_net lab_cfg mem_redis] g g0 c
    by (simp add: lab_turn_def env_at_def calm_env_def) (simp add: lab_def)
qed

end
