(* ===== verification/Stt.thy ===== *)
theory Stt
  imports Json_Text Call_Dir
begin

text \<open>
  \<open>services/stt_whisper.py\<close> and \<open>services/stt_autofallback.py\<close>: speech to text with the local
  \<open>whisper-cpp\<close>. The program is an argument: how a run of it on the bytes of an audio file ends,
  and the text of the JSON file it leaves. \<open>math.exp\<close> is an argument too, because its values are
  not rational; the other floats are exact rationals. \<open>float\<close> of a text reads the finite decimal
  numbers; the spellings of infinity and of digits with underscores count as no number.
\<close>

section \<open>Numbers\<close>

text \<open>A sign, if there is one, and the rest.\<close>

definition signed :: "string \<Rightarrow> int \<times> string" where
  "signed s = (case s of c # t \<Rightarrow> if c = CHR ''-'' then (- 1, t) else if c = CHR ''+'' then (1, t) else (1, s) | [] \<Rightarrow> (1, []))"

definition fraction :: "string \<Rightarrow> string \<times> string" where
  "fraction s = (case s of c # t \<Rightarrow> if c = CHR ''.'' then (takeWhile is_digit t, dropWhile is_digit t) else ([], s) | [] \<Rightarrow> ([], []))"

text \<open>An exponent up to the end of the text, 0 when the text has ended.\<close>

definition exponent :: "string \<Rightarrow> int option" where
  "exponent s =
     (case s of
        [] \<Rightarrow> Some 0
      | c # t \<Rightarrow>
         if c \<noteq> CHR ''e'' \<and> c \<noteq> CHR ''E'' then None
         else (case signed t of (sg, ds) \<Rightarrow>
           if ds = [] \<or> \<not> list_all is_digit ds then None else Some (sg * int (digits_value 0 ds))))"

definition float_text :: "string \<Rightarrow> exc + rat" where
  "float_text s =
     (case signed (py_strip s) of (sg, u) \<Rightarrow>
        let ip = takeWhile is_digit u in
        case fraction (dropWhile is_digit u) of (fp, w) \<Rightarrow>
        case exponent w of
          None \<Rightarrow> Inl (ValueError ''could not convert string to float'')
        | Some e \<Rightarrow>
            if ip @ fp = [] then Inl (ValueError ''could not convert string to float'')
            else Inr (of_int sg * of_nat (digits_value 0 (ip @ fp)) * pow10 (e - int (length fp))))"

text \<open>\<open>float(v)\<close> of a loaded JSON value.\<close>

fun py_float :: "json \<Rightarrow> exc + rat" where
  "py_float (JInt n) = Inr (of_int n)"
| "py_float (JFloat q _) = Inr q"
| "py_float (JBool b) = Inr (if b then 1 else 0)"
| "py_float (JStr s) = float_text s"
| "py_float (JIso d) = Inl (ValueError ''could not convert string to float'')"
| "py_float _ = Inl (TypeError ''float() argument must be a string or a real number'')"

definition clamp01 :: "rat \<Rightarrow> rat" where
  "clamp01 q = min 1 (max 0 q)"

lemma clamp01_bounds [simp]: "0 \<le> clamp01 q" "clamp01 q \<le> 1"
  by (simp_all add: clamp01_def)

definition mean :: "rat list \<Rightarrow> rat" where
  "mean qs = sum_list qs / of_nat (length qs)"

section \<open>The answer of whisper\<close>

record speech =
  sp_text :: string
  sp_start :: rat
  sp_end :: rat
  sp_confidence :: rat

text \<open>\<open>isinstance(v, (int, float))\<close>: a bool is an int.\<close>

fun number_of :: "json option \<Rightarrow> rat option" where
  "number_of (Some (JInt n)) = Some (of_int n)"
| "number_of (Some (JFloat q _)) = Some q"
| "number_of (Some (JBool b)) = Some (if b then 1 else 0)"
| "number_of _ = None"

text \<open>Iterating \<open>segment.get("tokens", [])\<close>: the keys of an object and the characters of a text are
  no dicts, so they add nothing; other values cannot be iterated.\<close>

fun token_probabilities :: "json \<Rightarrow> exc + rat list" where
  "token_probabilities (JList ts) = Inr (List.map_filter (\<lambda>t. number_of (jget t ''p'')) ts)"
| "token_probabilities (JObj _) = Inr []"
| "token_probabilities (JStr _) = Inr []"
| "token_probabilities (JIso _) = Inr []"
| "token_probabilities _ = Inl (TypeError ''object is not iterable'')"

definition confidence :: "(rat \<Rightarrow> exc + rat) \<Rightarrow> json \<Rightarrow> exc + rat" where
  "confidence exp_of segment =
     (case token_probabilities (case jget segment ''tokens'' of None \<Rightarrow> JList [] | Some v \<Rightarrow> v) of
        Inl e \<Rightarrow> Inl e
      | Inr qs \<Rightarrow>
         if qs \<noteq> [] then Inr (clamp01 (mean qs))
         else (case jget segment ''avg_logprob'' of
                 None \<Rightarrow> Inr 0
               | Some v \<Rightarrow> (case py_float v of
                    Inl e \<Rightarrow> Inl e
                  | Inr q \<Rightarrow> (case exp_of q of Inl e \<Rightarrow> Inl e | Inr x \<Rightarrow> Inr (clamp01 x)))))"

definition get_dflt :: "json \<Rightarrow> string \<Rightarrow> json \<Rightarrow> json" where
  "get_dflt j k dflt = (case jget j k of None \<Rightarrow> dflt | Some v \<Rightarrow> v)"

text \<open>The two ends of a segment, in seconds: with \<open>offsets\<close> the values are milliseconds.\<close>

definition segment_span :: "json \<Rightarrow> exc + rat \<times> rat" where
  "segment_span raw =
     (let offsets = get_dflt raw ''offsets'' (JObj []) in
      if \<not> is_dict offsets then Inl (AttributeError ''get'')
      else
        let start = get_dflt raw ''start'' (get_dflt offsets ''from'' (JInt 0));
            stop = get_dflt raw ''end'' (get_dflt offsets ''to'' start);
            scale = (if jget raw ''offsets'' = None then 1 else 1000)
        in case py_float start of
             Inl e \<Rightarrow> Inl e
           | Inr a \<Rightarrow> (case py_float stop of Inl e \<Rightarrow> Inl e | Inr b \<Rightarrow> Inr (a / scale, b / scale)))"

fun parse_segments :: "(rat \<Rightarrow> exc + rat) \<Rightarrow> json list \<Rightarrow> exc + speech list" where
  "parse_segments exp_of [] = Inr []"
| "parse_segments exp_of (raw # raws) =
     (if \<not> is_dict raw then Inl (ValueError ''invalid whisper JSON segment'')
      else
        let txt = py_strip (py_str (get_dflt raw ''text'' (JStr []))) in
        if txt = [] then parse_segments exp_of raws
        else case segment_span raw of
          Inl e \<Rightarrow> Inl e
        | Inr (a, b) \<Rightarrow>
           (case confidence exp_of raw of
              Inl e \<Rightarrow> Inl e
            | Inr c \<Rightarrow>
               (case parse_segments exp_of raws of
                  Inl e \<Rightarrow> Inl e
                | Inr rest \<Rightarrow> Inr (\<lparr>sp_text = txt, sp_start = a, sp_end = b, sp_confidence = c\<rparr> # rest))))"

definition parse_sidecar :: "(rat \<Rightarrow> exc + rat) \<Rightarrow> json \<Rightarrow> exc + speech list" where
  "parse_sidecar exp_of payload =
     (if \<not> is_dict payload then Inl (ValueError ''invalid whisper JSON root'')
      else case get_dflt payload ''transcription'' (get_dflt payload ''segments'' JNull) of
        JList raws \<Rightarrow> parse_segments exp_of raws
      | _ \<Rightarrow> Inl (ValueError ''invalid whisper JSON segments''))"

section \<open>Transcribing\<close>

text \<open>The dictionary \<open>transcribe\<close> returns; \<open>tn_error\<close> and \<open>tn_fallback\<close> are None when their key is absent.\<close>

record transcription =
  tn_text :: string
  tn_confidence :: rat
  tn_error :: "string option"
  tn_segments :: "speech list"
  tn_fallback :: "bool option"

definition failed_with :: "string \<Rightarrow> transcription" where
  "failed_with msg = \<lparr>tn_text = [], tn_confidence = 0, tn_error = Some msg, tn_segments = [], tn_fallback = None\<rparr>"

text \<open>\<open>str(exc)\<close>: a \<open>TimeoutError\<close> raised by \<open>asyncio.wait_for\<close> carries no message.\<close>

fun exc_str :: "exc \<Rightarrow> string" where
  "exc_str (OSError m) = m"
| "exc_str (ConnectionError m) = m"
| "exc_str FileNotFoundError = ''[Errno 2] No such file or directory''"
| "exc_str FileExistsError = ''[Errno 17] File exists''"
| "exc_str IsADirectoryError = ''[Errno 21] Is a directory''"
| "exc_str (ValueError m) = m"
| "exc_str (TypeError m) = m"
| "exc_str TimeoutError = []"
| "exc_str _ = ''error''"

fun is_TypeError :: "exc \<Rightarrow> bool" where
  "is_TypeError (TypeError _) = True"
| "is_TypeError _ = False"

text \<open>How a run of the program ends: an exception of \<open>_run_whisper\<close> (\<open>TimeoutError\<close> after the time
  limit), or an exit code with the text of its standard error and the file it left, if any.\<close>

datatype whisper_run = RunRaises exc | Ran int string "(exc + string) option"

record whisper =
  wh_installed :: bool
  wh_run :: "byte list \<Rightarrow> whisper_run"
  wh_exp :: "rat \<Rightarrow> exc + rat"

definition sidecar_segments :: "whisper \<Rightarrow> (exc + string) option \<Rightarrow> exc + speech list" where
  "sidecar_segments W sidecar =
     (case sidecar of
        None \<Rightarrow> Inl (ValueError ''whisper JSON sidecar was not created'')
      | Some (Inl e) \<Rightarrow> Inl e
      | Some (Inr txt) \<Rightarrow>
         (case json_loads txt of
            None \<Rightarrow> Inl (ValueError ''Expecting value'')
          | Some j \<Rightarrow> parse_sidecar (wh_exp W) j))"

definition heard :: "speech list \<Rightarrow> transcription" where
  "heard segs = \<lparr>tn_text = join_str '' '' (map sp_text segs),
     tn_confidence = (if segs = [] then 0 else mean (map sp_confidence segs)),
     tn_error = None, tn_segments = segs, tn_fallback = None\<rparr>"

definition whisper_transcribe :: "whisper \<Rightarrow> byte list \<Rightarrow> exc + transcription" where
  "whisper_transcribe W audio =
     (if \<not> wh_installed W then Inr (failed_with ''whisper-cpp not installed'')
      else
        let handled = (\<lambda>e. if is_OSError e \<or> is_ValueError e \<or> is_TypeError e then Inr (failed_with (exc_str e)) else Inl e)
        in case wh_run W audio of
          RunRaises e \<Rightarrow> handled e
        | Ran code stderr sidecar \<Rightarrow>
            if code \<noteq> 0 then Inr (failed_with (py_strip stderr))
            else (case sidecar_segments W sidecar of Inl e \<Rightarrow> handled e | Inr segs \<Rightarrow> Inr (heard segs)))"

text \<open>\<open>AutoFallbackSTT.transcribe\<close>: \<open>primary\<close> is how the awaited primary ends, under its timeout.\<close>

definition fallback_transcribe ::
    "(byte list \<Rightarrow> exc + transcription) \<Rightarrow> (byte list \<Rightarrow> exc + transcription) \<Rightarrow> byte list \<Rightarrow> exc + transcription" where
  "fallback_transcribe primary fallback audio =
     (let second = (case fallback audio of Inl e \<Rightarrow> Inl e | Inr r \<Rightarrow> Inr (r\<lparr>tn_fallback := Some True\<rparr>)) in
      case primary audio of
        Inl e \<Rightarrow> if is_Exception e then second else Inl e
      | Inr r \<Rightarrow> if tn_text r \<noteq> [] \<and> tn_confidence r > 3 / 10 then Inr (r\<lparr>tn_fallback := Some False\<rparr>) else second)"

section \<open>What a transcription is\<close>

text \<open>A segment worth keeping: a text that is not blank, and a confidence that is a probability.\<close>

definition speech_ok :: "speech \<Rightarrow> bool" where
  "speech_ok s \<longleftrightarrow> sp_text s \<noteq> [] \<and> 0 \<le> sp_confidence s \<and> sp_confidence s \<le> 1"

lemma confidence_bounds: "confidence exp_of j = Inr c \<Longrightarrow> 0 \<le> c \<and> c \<le> 1"
  by (auto simp: confidence_def split: sum.splits option.splits if_splits)

lemma parse_segments_ok: "parse_segments exp_of raws = Inr segs \<Longrightarrow> s \<in> set segs \<Longrightarrow> speech_ok s"
  by (induction raws arbitrary: segs)
    (auto simp: speech_ok_def Let_def confidence_bounds split: if_splits sum.splits prod.splits)

lemma sidecar_segments_ok: "sidecar_segments W sc = Inr segs \<Longrightarrow> s \<in> set segs \<Longrightarrow> speech_ok s"
  by (auto simp: sidecar_segments_def parse_sidecar_def parse_segments_ok
      split: option.splits sum.splits if_splits json.splits)

lemma mean_bounds:
  assumes "qs \<noteq> []" and "\<forall>q\<in>set qs. 0 \<le> q \<and> q \<le> 1"
  shows "0 \<le> mean qs" and "mean qs \<le> 1"
proof -
  have "0 \<le> sum_list qs \<and> sum_list qs \<le> of_nat (length qs)"
    using assms(2) by (induction qs) (simp, force)
  with assms(1) show "0 \<le> mean qs" and "mean qs \<le> 1"
    by (simp_all add: mean_def divide_le_eq)
qed

lemma whisper_transcribe_ok:
  assumes "whisper_transcribe W audio = Inr r"
  shows "\<forall>s\<in>set (tn_segments r). speech_ok s" and "0 \<le> tn_confidence r \<and> tn_confidence r \<le> 1"
    and "tn_error r \<noteq> None \<Longrightarrow> tn_segments r = []"
proof -
  have r: "(\<exists>m. r = failed_with m) \<or> (\<exists>sc segs. sidecar_segments W sc = Inr segs \<and> r = heard segs)"
    using assms by (auto simp: whisper_transcribe_def Let_def split: if_splits whisper_run.splits sum.splits)
  then show "\<forall>s\<in>set (tn_segments r). speech_ok s"
    by (auto simp: failed_with_def heard_def sidecar_segments_ok)
  show "tn_error r \<noteq> None \<Longrightarrow> tn_segments r = []"
    using r by (auto simp: failed_with_def heard_def)
  have "sidecar_segments W sc = Inr segs \<Longrightarrow> segs \<noteq> [] \<Longrightarrow>
      0 \<le> mean (map sp_confidence segs) \<and> mean (map sp_confidence segs) \<le> 1" for sc segs
    using mean_bounds[of "map sp_confidence segs"] sidecar_segments_ok[of W sc segs]
    by (auto simp: speech_ok_def)
  with r show "0 \<le> tn_confidence r \<and> tn_confidence r \<le> 1"
    by (auto simp: failed_with_def heard_def)
qed

text \<open>Exactly two failures of whisper leave an error text that is empty, which every caller takes for
  no error: the time limit, and an exit code with a blank standard error.\<close>

lemma time_limit_is_no_error:
  assumes "wh_installed W" and "wh_run W audio = RunRaises TimeoutError"
  shows "whisper_transcribe W audio = Inr (failed_with [])"
  using assms by (simp add: whisper_transcribe_def)

end
