(* ===== verification/Transcript.thy ===== *)
theory Transcript
  imports Stt Smb_Sync "HOL-Library.Product_Lexorder" "HOL-Library.List_Lexorder" "HOL-Library.Char_ord"
    "HOL-Library.Multiset"
begin

text \<open>
  \<open>workers/transcript_batch.py\<close>: which calls are ready, the transcription of the two channels of a
  call, its markdown, the table \<open>transcripts\<close>, the job on one call under its lease and the cycle
  over all calls. ffmpeg (which cuts a channel into chunks) and whisper are arguments, the share
  is the one of \<open>Smb_Remote\<close>. Markdown is a list of code points, written to a file as UTF-8.
\<close>

section \<open>Ready calls\<close>

definition MIN_WAV_BYTES :: nat where "MIN_WAV_BYTES = 44"

definition tenant_schema_of :: "string \<Rightarrow> exc + string" where
  "tenant_schema_of tenant_id =
     (if tenant_id \<noteq> [] \<and> list_all (\<lambda>c. is_lower c \<or> is_digit c \<or> c = CHR ''_'') tenant_id
      then Inr (''tenant_'' @ tenant_id) else Inl (ValueError ''invalid tenant directory''))"

definition is_supported_wav :: "dir \<Rightarrow> string \<Rightarrow> bool" where
  "is_supported_wav d n =
     (case dget d n of
        None \<Rightarrow> False
      | Some f \<Rightarrow> f_size f > MIN_WAV_BYTES \<and>
         (case f_data f of
            Wav w \<Rightarrow> wav_comptype w = ''NONE'' \<and> wav_channels w = 1 \<and> wav_sampwidth w = 2
              \<and> wav_framerate w = 16000 \<and> wav_frames w \<noteq> []
          | _ \<Rightarrow> False))"

definition is_ready_call :: "dir \<Rightarrow> bool" where
  "is_ready_call d \<longleftrightarrow>
     \<not> list_ex (\<lambda>(n, f). f_data f \<noteq> Directory \<and> contains_str ''.tmp'' n) d
     \<and> list_all (\<lambda>ch. is_supported_wav d (wav_path ch)) [''tx'', ''rx'']"

definition wav_duration :: "wav_info \<Rightarrow> exc + rat" where
  "wav_duration w =
     (if wav_framerate w = 0 then Inl ZeroDivisionError
      else Inr (of_nat (length (wav_frames w)) / of_nat (wav_framerate w)))"

section \<open>Segments\<close>

record segment =
  sg_channel :: string
  sg_speaker :: string
  sg_text :: string
  sg_confidence :: rat
  sg_start :: rat
  sg_end :: rat
  sg_final :: bool
  sg_chunk :: nat

definition speaker_of :: "string \<Rightarrow> string option" where
  "speaker_of channel = map_of [(''tx'', ''atendente''), (''rx'', ''cliente'')] channel"

definition placed :: "string \<Rightarrow> string \<Rightarrow> rat \<Rightarrow> nat \<Rightarrow> speech \<Rightarrow> segment" where
  "placed channel speaker chunk_offset chunk_index s =
     (let start = max 0 (sp_start s) + chunk_offset;
          stop = max (sp_end s) (start - chunk_offset) + chunk_offset
      in \<lparr>sg_channel = channel, sg_speaker = speaker, sg_text = py_strip (sp_text s),
          sg_confidence = clamp01 (sp_confidence s), sg_start = start, sg_end = stop, sg_final = True,
          sg_chunk = chunk_index\<rparr>)"

definition normalize_segments :: "string \<Rightarrow> speech list \<Rightarrow> rat \<Rightarrow> nat \<Rightarrow> exc + segment list" where
  "normalize_segments channel segments chunk_offset chunk_index =
     (case speaker_of channel of
        None \<Rightarrow> Inl (KeyError channel)
      | Some speaker \<Rightarrow> Inr (map (placed channel speaker chunk_offset chunk_index)
          (filter (\<lambda>s. py_strip (sp_text s) \<noteq> []) segments)))"

text \<open>How a run of ffmpeg on one channel ends: \<open>Chunks\<close> are the files it leaves, in the order of their names.\<close>

datatype chunk_run = ChunkSpawn exc | ChunkExit nat string | Chunks "wav_info list"

definition chunk_audio :: "(content \<Rightarrow> chunk_run) \<Rightarrow> content \<Rightarrow> string \<Rightarrow> exc + wav_info list" where
  "chunk_audio ffmpeg source channel =
     (case ffmpeg source of
        ChunkSpawn e \<Rightarrow> Inl e
      | ChunkExit code stderr \<Rightarrow> Inl (RuntimeError (''ffmpeg chunk failed: '' @ drop (length stderr - 500) stderr))
      | Chunks ws \<Rightarrow> if ws = [] then Inl (RuntimeError (''ffmpeg did not create chunks for '' @ channel)) else Inr ws)"

record speech_tools =
  st_ffmpeg :: "content \<Rightarrow> chunk_run"
  st_transcribe :: "byte list \<Rightarrow> exc + transcription"
  st_bytes :: "wav_info \<Rightarrow> byte list"

definition error_of :: "transcription \<Rightarrow> string" where
  "error_of r = (case tn_error r of None \<Rightarrow> [] | Some m \<Rightarrow> m)"

fun transcribe_chunks :: "speech_tools \<Rightarrow> string \<Rightarrow> wav_info list \<Rightarrow> rat \<Rightarrow> nat \<Rightarrow> exc + segment list" where
  "transcribe_chunks T channel [] chunk_offset index = Inr []"
| "transcribe_chunks T channel (chunk # chunks) chunk_offset index =
     (case st_transcribe T (st_bytes T chunk) of
        Inl e \<Rightarrow> Inl e
      | Inr r \<Rightarrow>
         if error_of r \<noteq> [] then Inl (RuntimeError (''whisper failed for '' @ channel @ '': '' @ error_of r))
         else case normalize_segments channel (tn_segments r) chunk_offset index of
           Inl e \<Rightarrow> Inl e
         | Inr segs \<Rightarrow>
            (case wav_duration chunk of
               Inl e \<Rightarrow> Inl e
             | Inr dur \<Rightarrow>
                (case transcribe_chunks T channel chunks (chunk_offset + dur) (Suc index) of
                   Inl e \<Rightarrow> Inl e
                 | Inr rest \<Rightarrow> Inr (segs @ rest))))"

definition transcribe_channel :: "speech_tools \<Rightarrow> dir \<Rightarrow> string \<Rightarrow> exc + segment list" where
  "transcribe_channel T d channel =
     (case chunk_audio (st_ffmpeg T) (file_content d (wav_path channel)) channel of
        Inl e \<Rightarrow> Inl e | Inr chunks \<Rightarrow> transcribe_chunks T channel chunks 0 0)"

definition segment_key :: "segment \<Rightarrow> rat \<times> string" where
  "segment_key s = (sg_start s, sg_channel s)"

definition transcribe_pair :: "speech_tools \<Rightarrow> dir \<Rightarrow> exc + segment list" where
  "transcribe_pair T d =
     (case transcribe_channel T d ''tx'' of
        Inl e \<Rightarrow> Inl e
      | Inr tx \<Rightarrow> (case transcribe_channel T d ''rx'' of Inl e \<Rightarrow> Inl e | Inr rx \<Rightarrow> Inr (sort_key segment_key (tx @ rx))))"

section \<open>Markdown\<close>

type_synonym codepoints = "nat list"

definition cps :: "string \<Rightarrow> codepoints" where
  "cps s = map of_char s"

definition utf8_char :: "nat \<Rightarrow> byte list" where
  "utf8_char n =
     (if n < 0x80 then [of_nat n]
      else if n < 0x800 then [of_nat (0xC0 + n div 64), of_nat (0x80 + n mod 64)]
      else if n < 0x10000 then [of_nat (0xE0 + n div 4096), of_nat (0x80 + n div 64 mod 64), of_nat (0x80 + n mod 64)]
      else [of_nat (0xF0 + n div 262144), of_nat (0x80 + n div 4096 mod 64), of_nat (0x80 + n div 64 mod 64),
            of_nat (0x80 + n mod 64)])"

definition utf8 :: "codepoints \<Rightarrow> byte list" where
  "utf8 s = concat (map utf8_char s)"

definition format_timestamp :: "rat \<Rightarrow> string" where
  "format_timestamp secs =
     (let ms = max 0 (py_round (secs * 1000))
      in pad_int 2 (ms div 3600000) @ '':'' @ pad_int 2 (ms mod 3600000 div 60000) @ '':''
         @ pad_int 2 (ms mod 60000 div 1000) @ ''.'' @ pad_int 3 (ms mod 1000))"

text \<open>\<open>:.2f\<close> of a number that is not negative.\<close>

definition fixed2 :: "rat \<Rightarrow> string" where
  "fixed2 q = (let n = py_round (q * 100) in int_str (n div 100) @ ''.'' @ pad_int 2 (n mod 100))"

definition capitalized :: "string \<Rightarrow> string" where
  "capitalized s = (case s of [] \<Rightarrow> [] | c # cs \<Rightarrow>
     (if is_lower c then char_of (of_char c - (32::nat)) else c) # py_lower cs)"

text \<open>What the transcription worker knows of a call: the row of the call and the entry of the transfer log.\<close>

record tx_meta =
  xm_tenant :: string
  xm_call_id :: string
  xm_database_id :: string
  xm_started :: int
  xm_caller :: string
  xm_callee :: string

definition join_lines :: "codepoints list \<Rightarrow> codepoints" where
  "join_lines ls = (case ls of [] \<Rightarrow> [] | l # r \<Rightarrow> l @ concat (map (\<lambda>x. 10 # x) r))"

definition space_cp :: "nat \<Rightarrow> bool" where
  "space_cp n \<longleftrightarrow> (9 \<le> n \<and> n \<le> 13) \<or> (28 \<le> n \<and> n \<le> 32) \<or> n = 0x85 \<or> n = 0xA0"

definition rstrip_cps :: "codepoints \<Rightarrow> codepoints" where
  "rstrip_cps s = rev (dropWhile space_cp (rev s))"

definition segment_lines :: "segment \<Rightarrow> codepoints list" where
  "segment_lines s =
     (if py_strip (sg_text s) = [] then []
      else [cps (''['' @ format_timestamp (sg_start s) @ '' '') @ [0x2192] @ cps ('' '' @ format_timestamp (sg_end s) @ ''] **''
              @ capitalized (sg_speaker s) @ ''** (confidence: '' @ fixed2 (sg_confidence s) @ '')''),
            cps (py_strip (sg_text s)), []])"

definition header_lines :: "tx_meta \<Rightarrow> codepoints list" where
  "header_lines md =
     [cps ''# Transcri'' @ [0xE7, 0xE3] @ cps ''o '' @ [0x2014] @ cps ('' '' @ xm_call_id md), [],
      cps (''> Tenant: '' @ xm_tenant md @ '' '') @ [0xB7] @ cps ('' Data: '' @ date_text (xm_started md) @ '' ''
        @ time_text '':'' (xm_started md) @ '' '') @ [0xB7] @ cps ('' Origem: '' @ xm_caller md @ '' '') @ [0x2192]
        @ cps ('' Destino: '' @ xm_callee md), []]"

definition render_markdown :: "tx_meta \<Rightarrow> segment list \<Rightarrow> codepoints" where
  "render_markdown md segments =
     rstrip_cps (join_lines (header_lines md @ concat (map segment_lines (sort_key segment_key segments))
       @ (if segments = [] then [cps ''_Nenhuma fala detectada._'', []] else []))) @ [10]"

section \<open>Names on the share\<close>

definition build_transcript_remote_names :: "tx_meta \<Rightarrow> exc + string \<times> string \<times> string" where
  "build_transcript_remote_names md =
     (let name = build_remote_name (xm_started md) (xm_call_id md) (Some (xm_caller md)) (Some (xm_callee md)) ''md'' in
      case name False of
        Inl e \<Rightarrow> Inl e
      | Inr base \<Rightarrow> (case name True of Inl e \<Rightarrow> Inl e
          | Inr coll \<Rightarrow> Inr (build_remote_directory (xm_tenant md) (xm_started md), base, coll)))"

text \<open>\<open>_REMOTE_WAV_PATTERN.fullmatch\<close>: six numbers of a date and time, then portable characters.\<close>

fun digit_groups :: "nat list \<Rightarrow> string \<Rightarrow> string option" where
  "digit_groups [] s = Some s"
| "digit_groups (k # ks) s =
     (if length (take k s) = k \<and> list_all is_digit (take k s) \<and> starts_with ''-'' (drop k s)
      then digit_groups ks (drop (Suc k) s) else None)"

definition remote_wav_ok :: "string \<Rightarrow> bool" where
  "remote_wav_ok s =
     (case digit_groups [4, 2, 2, 2, 2, 2] s of
        None \<Rightarrow> False
      | Some t \<Rightarrow> length t > 4 \<and> ends_with ''.wav'' t \<and> list_all segment_char t)"

record smb_reference =
  sr_dir :: string
  sr_wav :: string
  sr_md :: string

definition smb_audio_reference :: "(string \<times> json) list \<Rightarrow> string \<Rightarrow> string \<Rightarrow> smb_reference option" where
  "smb_audio_reference entries tenant_id call_id =
     (case map_of entries (log_key tenant_id call_id) of
        None \<Rightarrow> None
      | Some item \<Rightarrow>
         if \<not> is_dict item \<or> jget item ''status'' \<noteq> Some (JStr ''done'')
            \<or> jget item ''tenant_id'' \<noteq> Some (JStr tenant_id) \<or> jget item ''call_id'' \<noteq> Some (JStr call_id) then None
         else (case jget item ''remote_name'' of
             Some (JStr remote_name) \<Rightarrow>
               if \<not> remote_wav_ok remote_name then None
               else (case jget item ''started_at'' of
                   Some (JIso started) \<Rightarrow>
                     Some \<lparr>sr_dir = build_remote_directory tenant_id (dt_instant started), sr_wav = remote_name,
                       sr_md = take (length remote_name - 4) remote_name @ ''.md''\<rparr>
                 | _ \<Rightarrow> None)
           | _ \<Rightarrow> None))"

section \<open>What a transcript holds\<close>

definition segment_ok :: "segment \<Rightarrow> bool" where
  "segment_ok g \<longleftrightarrow> 0 \<le> sg_start g \<and> sg_start g \<le> sg_end g \<and> 0 \<le> sg_confidence g \<and> sg_confidence g \<le> 1
     \<and> sg_text g \<noteq> [] \<and> speaker_of (sg_channel g) = Some (sg_speaker g)"

lemma normalized_ok:
  assumes "normalize_segments channel ss off i = Inr segs" and "g \<in> set segs" and "0 \<le> off"
  shows "segment_ok g" and "off \<le> sg_start g" and "sg_chunk g = i"
  using assms
  by (auto simp: normalize_segments_def placed_def segment_ok_def Let_def split: option.splits)

lemma duration_nonneg: "wav_duration w = Inr dur \<Longrightarrow> 0 \<le> dur"
  by (auto simp: wav_duration_def split: if_splits)

lemma transcribe_chunks_ok:
  "transcribe_chunks T ch ws off i = Inr segs \<Longrightarrow> g \<in> set segs \<Longrightarrow> 0 \<le> off \<Longrightarrow> segment_ok g"
proof (induction T ch ws off i arbitrary: segs rule: transcribe_chunks.induct)
  case (1 T ch off i)
  then show ?case by simp
next
  case (2 T ch w ws off i)
  from "2.prems"(1) obtain r ss dur rest where
    r: "st_transcribe T (st_bytes T w) = Inr r" "\<not> error_of r \<noteq> []" "normalize_segments ch (tn_segments r) off i = Inr ss"
      "wav_duration w = Inr dur" and rest: "transcribe_chunks T ch ws (off + dur) (Suc i) = Inr rest"
    and segs: "segs = ss @ rest"
    by (auto split: sum.splits if_splits)
  from "2.prems"(2) segs consider "g \<in> set ss" | "g \<in> set rest" by auto
  then show ?case
  proof cases
    case 1
    then show ?thesis using normalized_ok(1)[OF r(3)] "2.prems"(3) by blast
  next
    case 2
    moreover have "0 \<le> off + dur" using "2.prems"(3) duration_nonneg[OF r(4)] by simp
    ultimately show ?thesis using "2.IH"[OF r rest] by blast
  qed
qed

lemma transcribe_channel_ok: "transcribe_channel T d ch = Inr segs \<Longrightarrow> g \<in> set segs \<Longrightarrow> segment_ok g"
  by (auto simp: transcribe_channel_def transcribe_chunks_ok split: sum.splits)

lemma transcribe_pair_parts:
  assumes "transcribe_pair T d = Inr segs"
  obtains tx rx where "transcribe_channel T d ''tx'' = Inr tx" and "transcribe_channel T d ''rx'' = Inr rx"
    and "segs = sort_key segment_key (tx @ rx)"
  using assms by (auto simp: transcribe_pair_def split: sum.splits)

section \<open>The names of the log\<close>

lemma digit_portable: "is_digit c \<Longrightarrow> segment_char c"
  by (simp add: segment_char_def is_alnum_def)

lemma digit_groups_portable: "digit_groups ks s = Some t \<Longrightarrow> portable t \<Longrightarrow> portable s"
proof (induction ks s rule: digit_groups.induct)
  case (1 s)
  then show ?case by simp
next
  case (2 k ks s)
  from "2.prems"(1) have c: "length (take k s) = k \<and> list_all is_digit (take k s) \<and> starts_with ''-'' (drop k s)"
    and r: "digit_groups ks (drop (Suc k) s) = Some t" by (auto split: if_splits)
  then have p: "portable (drop (Suc k) s)" using "2.IH" "2.prems"(2) by blast
  obtain u where u: "drop k s = CHR ''-'' # u" using c by (auto simp: starts_with_iff)
  then have "drop (Suc k) s = u" using drop_drop[of 1 k s] by simp
  then have s: "s = take k s @ CHR ''-'' # drop (Suc k) s" using u by (metis append_take_drop_id)
  have "portable (take k s)" using c by (auto simp: portable_def list_all_iff digit_portable)
  then have "portable (take k s @ CHR ''-'' # drop (Suc k) s)" using p by simp
  with s show ?case by metis
qed

end
