(* ===== verification/Transcript_Job.thy ===== *)
theory Transcript_Job
  imports Transcript
begin

text \<open>
  \<open>workers/transcript_batch.py\<close>, the part with effects: the rows of \<open>transcripts\<close>, the job on one
  call under its lease and the cycle. The state of a job is the call directory, the share, the
  table of the tenant and the metrics. \<open>te_ticks\<close> are the heartbeats that renew the lease before
  the wait for the job returns; they write the lease file only, so they are run ahead of it. A
  cancelled job ends where one of its awaits raises \<open>CancelledError\<close>.
\<close>

section \<open>The table\<close>

record tp_row =
  tp_call :: string
  tp_segment :: segment

definition rows_of :: "string \<Rightarrow> segment list \<Rightarrow> tp_row list" where
  "rows_of database_id segments = map (\<lambda>s. \<lparr>tp_call = database_id, tp_segment = s\<rparr>) segments"

text \<open>\<open>failure\<close> is what a statement, the flush or the commit of the connection raises, if anything.\<close>

definition replace_rows :: "exc option \<Rightarrow> string \<Rightarrow> segment list \<Rightarrow> (tp_row list, unit option) prog" where
  "replace_rows failure database_id segments t =
     (case failure of
        Some e \<Rightarrow> (Inl e, t)
      | None \<Rightarrow> (Inr None, filter (\<lambda>r. tp_call r \<noteq> database_id) t @ rows_of database_id segments))"

definition persist_segments ::
    "exc option \<Rightarrow> string \<Rightarrow> string \<Rightarrow> segment list \<Rightarrow> (tp_row list, unit) prog" where
  "persist_segments failure tenant_id database_id segments t =
     (case tenant_schema_of tenant_id of
        Inl e \<Rightarrow> (Inl e, t)
      | Inr _ \<Rightarrow> with_tenant_session () (replace_rows failure database_id segments) t)"

definition transcripts_exist :: "exc option \<Rightarrow> string \<Rightarrow> string \<Rightarrow> tp_row list \<Rightarrow> exc + bool" where
  "transcripts_exist failure tenant_id database_id t =
     (case tenant_schema_of tenant_id of
        Inl e \<Rightarrow> Inl e
      | Inr _ \<Rightarrow> (case failure of Some e \<Rightarrow> Inl e | None \<Rightarrow> Inr (\<exists>r\<in>set t. tp_call r = database_id)))"

definition resolve_tx_meta :: "string \<Rightarrow> string \<Rightarrow> exc + call_row list \<Rightarrow> int \<Rightarrow> exc + tx_meta option" where
  "resolve_tx_meta tenant_id call_id rows now =
     (case tenant_schema_of tenant_id of
        Inl e \<Rightarrow> Inl e
      | Inr _ \<Rightarrow>
         (case rows of
            Inl e \<Rightarrow> Inl e
          | Inr t \<Rightarrow>
             (case find_call call_id t of
                [] \<Rightarrow> Inr None
              | r # _ \<Rightarrow> Inr (Some \<lparr>xm_tenant = tenant_id, xm_call_id = call_id, xm_database_id = ca_id r,
                  xm_started = (case ca_started r of None \<Rightarrow> now | Some s \<Rightarrow> s),
                  xm_caller = or_unknown (ca_caller r), xm_callee = or_unknown (ca_callee r)\<rparr>))))"

section \<open>One call\<close>

record tx_env =
  te_os :: os_env
  te_ticks :: "os_env list"
  te_mark :: os_env
  te_end :: os_env
  te_timeout :: bool
  te_scratch :: "exc option"
  te_persist :: "exc option"

record 's tx_state =
  tx_dir :: dir
  tx_remote :: 's
  tx_rows :: "tp_row list"
  tx_metrics :: metrics

datatype tx_result = TxPending string | TxDone nat published

definition transcription_heartbeat :: "int \<Rightarrow> string \<Rightarrow> os_env \<Rightarrow> (dir \<times> metrics, unit) prog" where
  "transcription_heartbeat ttl owner os s =
     (case renew_lease os ttl (fst s) ''transcription'' owner None None of
        (Inl e, d) \<Rightarrow> (Inl e, (d, snd s))
      | (Inr True, d) \<Rightarrow> (Inr (), (d, snd s))
      | (Inr False, d) \<Rightarrow> (Inl (OSError ''transcription lease lost''), (d, record_lease_failure ''transcription'' (snd s))))"

definition markdown_exists :: "string list \<Rightarrow> string \<Rightarrow> string \<Rightarrow> bool" where
  "markdown_exists names base_name collision_name \<longleftrightarrow> base_name \<in> set names \<or> collision_name \<in> set names"

text \<open>The end of \<open>_process_owned_call\<close>: the markdown goes through a scratch file to the share.\<close>

definition publish_markdown ::
    "'s backup \<Rightarrow> tx_env \<Rightarrow> tx_meta \<Rightarrow> smb_reference \<Rightarrow> segment list \<Rightarrow> ('s tx_state, tx_result) prog" where
  "publish_markdown bk env md ref segments s =
     (case te_scratch env of
        Some e \<Rightarrow> (Inl e, s)
      | None \<Rightarrow>
         (case publish (bk_conn bk) (bk_sha bk) (bk_limiter bk) (bk_path bk) (utf8 (render_markdown md segments))
                 (sr_dir ref) (sr_md ref) (sr_md ref) (tx_remote s) of
            (Inl e, x) \<Rightarrow> (Inl e, s\<lparr>tx_remote := x\<rparr>)
          | (Inr pub, x) \<Rightarrow>
             (case mark_consumed (te_mark env) ''transcription'' (tx_dir s) of
                (Inl e, d) \<Rightarrow> (Inl e, s\<lparr>tx_remote := x, tx_dir := d\<rparr>)
              | (Inr _, d) \<Rightarrow> (Inr (TxDone (length segments) pub), s\<lparr>tx_remote := x, tx_dir := d\<rparr>))))"

definition process_owned_call ::
    "'s backup \<Rightarrow> speech_tools \<Rightarrow> tx_env \<Rightarrow> tx_meta \<Rightarrow> smb_reference \<Rightarrow> ('s tx_state, tx_result) prog" where
  "process_owned_call bk T env md ref s =
     (if \<not> is_ready_call (tx_dir s) then (Inr (TxPending ''audio_incomplete''), s)
      else case list_names (bk_conn bk) (bk_path bk) (sr_dir ref) (tx_remote s) of
        (Inl e, x) \<Rightarrow> (Inl e, s\<lparr>tx_remote := x\<rparr>)
      | (Inr names, x) \<Rightarrow>
         (let s = s\<lparr>tx_remote := x\<rparr> in
          if sr_wav ref \<notin> set names then (Inr (TxPending ''audio_remote_missing''), s)
          else case transcribe_pair T (tx_dir s) of
            Inl e \<Rightarrow> (Inl e, s)
          | Inr segments \<Rightarrow>
             (case persist_segments (te_persist env) (xm_tenant md) (xm_database_id md) segments (tx_rows s) of
                (Inl e, t) \<Rightarrow> (Inl e, s\<lparr>tx_rows := t\<rparr>)
              | (Inr _, t) \<Rightarrow> publish_markdown bk env md ref segments (s\<lparr>tx_rows := t\<rparr>))))"

definition process_tx_call ::
    "'s backup \<Rightarrow> speech_tools \<Rightarrow> tx_env \<Rightarrow> tx_meta \<Rightarrow> smb_reference \<Rightarrow> ('s tx_state, tx_result) prog" where
  "process_tx_call bk T env md ref s =
     (case acquire_lease (te_os env) (bk_ttl bk) (tx_dir s) ''transcription'' (xm_call_id md) None None None of
        (Inl e, d) \<Rightarrow> (if is_busy e then Inr (TxPending ''already_processing'') else Inl e, s\<lparr>tx_dir := d\<rparr>)
      | (Inr lease, d) \<Rightarrow>
         (case for_p (transcription_heartbeat (bk_ttl bk) (lease_owner lease)) (te_ticks env) (d, tx_metrics s) of
            (hb, (d1, m1)) \<Rightarrow>
             (case process_owned_call bk T env md ref (s\<lparr>tx_dir := d1, tx_metrics := m1\<rparr>) of
                (r, s1) \<Rightarrow>
                 (let res = (case hb of Inl e \<Rightarrow> Inl e
                       | Inr _ \<Rightarrow> if te_timeout env then Inr (TxPending ''timeout'') else r)
                  in case release_lease (te_end env) (tx_dir s1) ''transcription'' (lease_owner lease) of
                       (Inl e, d2) \<Rightarrow> (Inl e, s1\<lparr>tx_dir := d2\<rparr>)
                     | (Inr _, d2) \<Rightarrow> (res, s1\<lparr>tx_dir := d2\<rparr>)))))"

section \<open>The cycle\<close>

record tx_call_env =
  tc_job :: tx_env
  tc_log_os :: os_env
  tc_renames :: bool
  tc_rows :: "exc + call_row list"
  tc_exist :: "exc option"
  tc_now :: int

record 's tx_cycle =
  tc_dirs :: "((string \<times> string) \<times> dir) list"
  tc_remote :: 's
  tc_tables :: "string \<Rightarrow> tp_row list"
  tc_metrics :: metrics
  tc_files :: dir
  tc_completed :: nat
  tc_failed :: nat

definition put_call :: "string \<times> string \<Rightarrow> dir \<Rightarrow> 's tx_cycle \<Rightarrow> 's tx_cycle" where
  "put_call k d c = c\<lparr>tc_dirs := AList.update k d (tc_dirs c)\<rparr>"

definition run_job ::
    "'s backup \<Rightarrow> speech_tools \<Rightarrow> tx_env \<Rightarrow> string \<times> string \<Rightarrow> tx_meta \<Rightarrow> smb_reference \<Rightarrow> dir
     \<Rightarrow> ('s tx_cycle, tx_result option) prog" where
  "run_job bk T env k md ref d c =
     (case process_tx_call bk T env md ref
             \<lparr>tx_dir = d, tx_remote = tc_remote c, tx_rows = tc_tables c (fst k), tx_metrics = tc_metrics c\<rparr> of
        (r, s) \<Rightarrow>
         (map_sum id Some r, put_call k (tx_dir s)
            (c\<lparr>tc_remote := tx_remote s, tc_tables := (tc_tables c)(fst k := tx_rows s), tc_metrics := tx_metrics s\<rparr>)))"

definition MARKER :: string where "MARKER = ''.consumed-transcription''"

text \<open>A transcript that is in the table and on the share only lacks its marker.\<close>

definition mark_late :: "os_env \<Rightarrow> string \<times> string \<Rightarrow> dir \<Rightarrow> ('s tx_cycle, tx_result option) prog" where
  "mark_late os k d c =
     (if is_file d MARKER then (Inr None, c)
      else case locked_call_directory os d (\<lambda>d1.
              if is_ready_call d1 then mark_consumed os ''transcription'' d1 else (Inr [], d1)) of
        (Inl e, d1) \<Rightarrow> (Inl e, put_call k d1 c)
      | (Inr _, d1) \<Rightarrow> (Inr None, put_call k d1 c))"

text \<open>The \<open>try\<close> of the loop; None is \<open>continue\<close>.\<close>

definition consider_call ::
    "'s backup \<Rightarrow> speech_tools \<Rightarrow> string \<Rightarrow> tx_call_env \<Rightarrow> string \<times> string \<Rightarrow> dir \<Rightarrow> ('s tx_cycle, tx_result option) prog" where
  "consider_call bk T log_name env k d c =
     (case load_transfer_log (tc_log_os env) (tc_renames env) log_name (tc_files c) of
        (entries, files) \<Rightarrow>
         (let c = c\<lparr>tc_files := files\<rparr> in
          case smb_audio_reference entries (fst k) (snd k) of
            None \<Rightarrow> (Inr None, c)
          | Some ref \<Rightarrow>
             (case resolve_tx_meta (fst k) (snd k) (tc_rows env) (tc_now env) of
                Inl e \<Rightarrow> (Inl e, c)
              | Inr None \<Rightarrow> (Inr None, c)
              | Inr (Some md) \<Rightarrow>
                 (case list_names (bk_conn bk) (bk_path bk) (sr_dir ref) (tc_remote c) of
                    (Inl e, x) \<Rightarrow> (Inl e, c\<lparr>tc_remote := x\<rparr>)
                  | (Inr names, x) \<Rightarrow>
                     (let c = c\<lparr>tc_remote := x\<rparr> in
                      if sr_wav ref \<notin> set names \<or> (is_file d MARKER \<and> sr_md ref \<in> set names) then (Inr None, c)
                      else case transcripts_exist (tc_exist env) (fst k) (xm_database_id md) (tc_tables c (fst k)) of
                        Inl e \<Rightarrow> (Inl e, c)
                      | Inr exist \<Rightarrow>
                          if exist \<and> sr_md ref \<in> set names then mark_late (te_mark (tc_job env)) k d c
                          else run_job bk T (tc_job env) k md ref d c)))))"

text \<open>The \<open>except\<close> clause of the cycle, and the name of the class it counts.\<close>

definition cycle_catches :: "exc \<Rightarrow> bool" where
  "cycle_catches e \<longleftrightarrow> is_OSError e \<or> is_RuntimeError e \<or> is_ValueError e \<or> e = OperationFailure
     \<or> (case e of SQLAlchemyError _ \<Rightarrow> True | _ \<Rightarrow> False)"

definition failure_class :: "exc \<Rightarrow> string" where
  "failure_class e =
     (case e of SQLAlchemyError _ \<Rightarrow> ''SQLAlchemyError'' | ValueError _ \<Rightarrow> ''ValueError'' | _ \<Rightarrow> exc_class e)"

definition fail_call :: "string \<Rightarrow> 's tx_cycle \<Rightarrow> 's tx_cycle" where
  "fail_call reason c =
     c\<lparr>tc_failed := Suc (tc_failed c), tc_metrics := record_transcript_failure reason (tc_metrics c)\<rparr>"

definition tx_turn ::
    "'s backup \<Rightarrow> speech_tools \<Rightarrow> string \<Rightarrow> tx_call_env \<Rightarrow> string \<times> string \<Rightarrow> ('s tx_cycle, unit) prog" where
  "tx_turn bk T log_name env k c =
     (let d = (case map_of (tc_dirs c) k of None \<Rightarrow> [] | Some d \<Rightarrow> d) in
      if \<not> is_ready_call d then (Inr (), c)
      else case consider_call bk T log_name env k d c of
        (Inl e, c1) \<Rightarrow> if cycle_catches e then (Inr (), fail_call (failure_class e) c1) else (Inl e, c1)
      | (Inr None, c1) \<Rightarrow> (Inr (), c1)
      | (Inr (Some (TxDone n pub)), c1) \<Rightarrow>
          (Inr (), c1\<lparr>tc_completed := Suc (tc_completed c1), tc_metrics := record_transcript_success (tc_metrics c1)\<rparr>)
      | (Inr (Some (TxPending reason)), c1) \<Rightarrow>
          (Inr (), if reason \<in> {''already_processing'', ''audio_incomplete''} then c1 else fail_call reason c1))"

datatype tx_cycle_result = TxDisabled | TxAlreadyRunning | TxCompleted nat nat nat

definition run_tx_cycle ::
    "settings \<Rightarrow> 's backup \<Rightarrow> speech_tools \<Rightarrow> string \<Rightarrow> rat \<Rightarrow> (string \<times> string \<Rightarrow> tx_call_env)
     \<Rightarrow> ('s tx_cycle, tx_cycle_result) prog" where
  "run_tx_cycle cfg bk T log_name elapsed envs c =
     (if \<not> TRANSCRIPT_ENABLED cfg then (Inr TxDisabled, c)
      else case new_limiter (SMB_BANDWIDTH_LIMIT_MBS cfg) of
        Inl e \<Rightarrow> (Inl e, c)
      | Inr li \<Rightarrow>
         (let calls = map fst (tc_dirs c);
              c1 = c\<lparr>tc_completed := 0, tc_failed := 0,
                     tc_metrics := set_transcript_queue_size (int (length calls)) (tc_metrics c)\<rparr>
          in case for_p (\<lambda>k. tx_turn (bk\<lparr>bk_limiter := li\<rparr>) T log_name (envs k) k) calls c1 of
               (Inl e, c2) \<Rightarrow> (Inl e, c2)
             | (Inr _, c2) \<Rightarrow>
                 (Inr (TxCompleted (length calls) (tc_completed c2) (tc_failed c2)),
                  c2\<lparr>tc_metrics := observe_transcript_latency elapsed (tc_metrics c2)\<rparr>)))"

definition run_transcript_cycle ::
    "bool \<Rightarrow> ('s tx_cycle, tx_cycle_result) prog \<Rightarrow> ('s tx_cycle, tx_cycle_result) prog" where
  "run_transcript_cycle locked cycle c = (if locked then (Inr TxAlreadyRunning, c) else cycle c)"

section \<open>The table after a job\<close>

text \<open>The rows of one call replaced by a transcript; those of the other calls stay.\<close>

definition with_transcript :: "string \<Rightarrow> segment list \<Rightarrow> tp_row list \<Rightarrow> tp_row list" where
  "with_transcript database_id segments t = filter (\<lambda>r. tp_call r \<noteq> database_id) t @ rows_of database_id segments"

lemma persist_effect:
  assumes "persist_segments f tenant dbid segs t = (r, t')"
  shows "t' = (if r = Inr () then with_transcript dbid segs t else t)"
  using assms
  by (auto simp: persist_segments_def replace_rows_def with_tenant_session_def with_transcript_def
      split: sum.splits option.splits)

section \<open>The share after a job\<close>

text \<open>Names that a valid entry of the transfer log leads to can be used as they are.\<close>

definition reference_ok :: "smb_reference \<Rightarrow> bool" where
  "reference_ok ref \<longleftrightarrow> plain (sr_dir ref) \<and> plain (sr_md ref) \<and> file_name (sr_md ref)"

lemma audio_reference_ok:
  assumes "smb_audio_reference entries tenant call = Some ref"
  shows "reference_ok ref"
proof -
  obtain name started where n: "remote_wav_ok name" and ref: "sr_dir ref = build_remote_directory tenant started"
    "sr_md ref = take (length name - 4) name @ ''.md''"
    using assms by (auto simp: smb_audio_reference_def split: option.splits if_splits json.splits)
  from n obtain u where "digit_groups [4, 2, 2, 2, 2, 2] name = Some u" "portable u"
    by (auto simp: remote_wav_ok_def portable_def list_all_iff simp del: digit_groups.simps split: option.splits)
  then have "portable name" by (rule digit_groups_portable)
  have p: "portable (sr_md ref)"
  proof -
    have "portable ''.md''" by code_simp
    moreover have "portable (take k name)" for k using \<open>portable name\<close> by (meson portable_def in_set_takeD)
    ultimately show ?thesis unfolding ref(2) by (simp only: portable_append)
  qed
  moreover have "file_name (sr_md ref)"
    using portable_slash_free[OF p] unfolding ref by (auto simp: file_name_def append_eq_Cons_conv)
  ultimately show ?thesis by (simp add: reference_ok_def ref(1) remote_directory_plain portable_plain)
qed

definition markdown_path :: "'s backup \<Rightarrow> smb_reference \<Rightarrow> string" where
  "markdown_path bk ref = join_path [join_path [bk_path bk, sr_dir ref], sr_md ref]"

lemma markdown_publish_effect:
  assumes bk: "backup_ok bk view" and ref: "reference_ok ref"
    and run: "publish (bk_conn bk) (bk_sha bk) (bk_limiter bk) (bk_path bk) source (sr_dir ref) (sr_md ref) (sr_md ref) s = (r, s')"
  shows "kept view s s' \<and> (\<forall>pub. r = Inr pub \<longrightarrow> pb_sha256 pub = bk_sha bk source \<and> pb_remote_name pub = sr_md ref
    \<and> copy_at view (bk_sha bk) source s' (markdown_path bk ref))"
proof -
  have laws: "smb_laws (bk_conn bk) view" and nd: "file_name (sr_md ref)"
    and pl: "plain (join_path [join_path [bk_path bk, sr_dir ref], sr_md ref])"
    using bk ref by (auto intro!: join_path_plain simp: backup_ok_def reference_ok_def)
  note e = publish_effect[OF laws run refl nd nd pl pl]
  then show ?thesis by (auto simp: markdown_path_def intro: kept_copies)
qed

lemma list_names_view:
  assumes "backup_ok bk view" and "list_names (bk_conn bk) (bk_path bk) dir s = (r, s')"
  shows "view s' = view s"
proof -
  have laws: "smb_laws (bk_conn bk) view" using assms(1) by (simp add: backup_ok_def)
  have "frames view {} (list_names (bk_conn bk) (bk_path bk) dir)"
    unfolding list_names_def
    by (intro frame_rules frames_connect frames_reads laws_frames laws)
  from frames_empty[OF this assms(2)] show ?thesis .
qed

lemma kept_view: "view s' = view s \<Longrightarrow> kept view s s'"
  by (simp add: kept_def)

text \<open>What one job does, however it ends: the share keeps its files, the directory changes in the marker
  only, the table holds what it held or a whole transcript, and a marker that is new, or a result
  that says done, means a transcript of this audio in the table and on the share.\<close>

definition transcribed ::
    "'s backup \<Rightarrow> ('s \<Rightarrow> string \<Rightarrow> bytes option) \<Rightarrow> speech_tools \<Rightarrow> tx_meta \<Rightarrow> smb_reference
     \<Rightarrow> 's tx_state \<Rightarrow> 's tx_state \<Rightarrow> segment list \<Rightarrow> bool" where
  "transcribed bk view T md ref s s' segs \<longleftrightarrow>
     transcribe_pair T (tx_dir s) = Inr segs \<and> tx_rows s' = with_transcript (xm_database_id md) segs (tx_rows s)
     \<and> copy_at view (bk_sha bk) (utf8 (render_markdown md segs)) (tx_remote s') (markdown_path bk ref)"

definition job_effect ::
    "'s backup \<Rightarrow> ('s \<Rightarrow> string \<Rightarrow> bytes option) \<Rightarrow> speech_tools \<Rightarrow> tx_meta \<Rightarrow> smb_reference
     \<Rightarrow> 's tx_state \<Rightarrow> exc + tx_result \<Rightarrow> 's tx_state \<Rightarrow> bool" where
  "job_effect bk view T md ref s r s' \<longleftrightarrow>
     kept view (tx_remote s) (tx_remote s') \<and> (\<forall>n. n \<noteq> MARKER \<longrightarrow> dget (tx_dir s') n = dget (tx_dir s) n)
   \<and> (tx_rows s' = tx_rows s \<or> (\<exists>segs. transcribe_pair T (tx_dir s) = Inr segs
        \<and> tx_rows s' = with_transcript (xm_database_id md) segs (tx_rows s)))
   \<and> (dget (tx_dir s') MARKER = dget (tx_dir s) MARKER \<or> (\<exists>segs. transcribed bk view T md ref s s' segs))
   \<and> (\<forall>n pub. r = Inr (TxDone n pub) \<longrightarrow> is_file (tx_dir s') MARKER \<and> (\<exists>segs. n = length segs
        \<and> transcribed bk view T md ref s s' segs \<and> pb_sha256 pub = bk_sha bk (utf8 (render_markdown md segs))))"

lemma marker_name: "marker_file ''transcription'' = MARKER"
  by (simp add: marker_file_def MARKER_def)

lemma publish_markdown_effect:
  assumes bk: "backup_ok bk view" and ref: "reference_ok ref" and run: "publish_markdown bk env md ref segs s = (r, s')"
    and tr: "transcribe_pair T (tx_dir s0) = Inr segs" and rows: "tx_rows s = with_transcript (xm_database_id md) segs (tx_rows s0)"
    and dir: "tx_dir s = tx_dir s0" and kept0: "kept view (tx_remote s0) (tx_remote s)"
  shows "job_effect bk view T md ref s0 r s'"
proof (cases "te_scratch env")
  case (Some e)
  with assms show ?thesis by (auto simp: publish_markdown_def job_effect_def)
next
  case None
  obtain q x where p: "publish (bk_conn bk) (bk_sha bk) (bk_limiter bk) (bk_path bk) (utf8 (render_markdown md segs))
                 (sr_dir ref) (sr_md ref) (sr_md ref) (tx_remote s) = (q, x)" by force
  note e = markdown_publish_effect[OF bk ref p]
  have k: "kept view (tx_remote s0) x" by (rule kept_trans[OF kept0 conjunct1[OF e]])
  show ?thesis
  proof (cases q)
    case (Inl ex)
    with run None p k tr rows dir show ?thesis by (auto simp: publish_markdown_def job_effect_def)
  next
    case (Inr pub)
    obtain q2 d where m: "mark_consumed (te_mark env) ''transcription'' (tx_dir s) = (q2, d)" by force
    have other: "\<forall>n. n \<noteq> MARKER \<longrightarrow> dget d n = dget (tx_dir s0) n"
      using m dir by (auto simp: mark_consumed_def marker_def marker_name split: if_splits)
    have s': "s' = s\<lparr>tx_remote := x, tx_dir := d\<rparr>" and r: "r = (case q2 of Inl e \<Rightarrow> Inl e | Inr _ \<Rightarrow> Inr (TxDone (length segs) pub))"
      using run None p Inr m by (cases q2; simp add: publish_markdown_def)+
    have ts: "transcribed bk view T md ref s0 s' segs"
      using e Inr tr rows s' by (simp add: transcribed_def)
    have mark: "is_file d MARKER" if "q2 = Inr z" for z
      using mark_consumed_get(3)[OF m[unfolded that]] by (simp add: marker_name)
    show ?thesis
      unfolding job_effect_def using k other s' r ts tr rows mark e Inr
      by (auto split: sum.splits)
  qed
qed

lemma owned_call_effect:
  assumes bk: "backup_ok bk view" and ref: "reference_ok ref" and run: "process_owned_call bk T env md ref s = (r, s')"
  shows "job_effect bk view T md ref s r s'"
proof (cases "is_ready_call (tx_dir s)")
  case False
  with run show ?thesis by (auto simp: process_owned_call_def job_effect_def)
next
  case True
  obtain q x where l: "list_names (bk_conn bk) (bk_path bk) (sr_dir ref) (tx_remote s) = (q, x)" by force
  have k: "kept view (tx_remote s) x" using list_names_view[OF bk l] by (rule kept_view)
  show ?thesis
  proof (cases "\<exists>names segs. q = Inr names \<and> sr_wav ref \<in> set names \<and> transcribe_pair T (tx_dir s) = Inr segs")
    case False
    then have "tx_remote s' = x" "tx_dir s' = tx_dir s" "tx_rows s' = tx_rows s" "\<nexists>n pub. r = Inr (TxDone n pub)"
      using run True l by (auto simp: process_owned_call_def Let_def split: sum.splits if_splits)
    with k show ?thesis by (simp add: job_effect_def)
  next
    case yes: True
    then obtain names segs where q: "q = Inr names" "sr_wav ref \<in> set names" and tr: "transcribe_pair T (tx_dir s) = Inr segs"
      by blast
    obtain p t where ps: "persist_segments (te_persist env) (xm_tenant md) (xm_database_id md) segs (tx_rows s) = (p, t)" by force
    note pe = persist_effect[OF ps]
    show ?thesis
    proof (cases p)
      case (Inl e)
      then have "s' = s\<lparr>tx_remote := x, tx_rows := t\<rparr>" "r = Inl e"
        using run True l q tr ps by (simp_all add: process_owned_call_def Let_def)
      with pe Inl k show ?thesis by (simp add: job_effect_def)
    next
      case (Inr u)
      have "publish_markdown bk env md ref segs (s\<lparr>tx_remote := x, tx_rows := t\<rparr>) = (r, s')"
        using run True l q tr ps Inr by (simp add: process_owned_call_def Let_def)
      from publish_markdown_effect[OF bk ref this tr] show ?thesis using pe Inr k by simp
    qed
  qed
qed

section \<open>The lease of a job\<close>

lemma heartbeat_effect:
  assumes "transcription_heartbeat ttl owner os s = (r, s')"
  shows "n \<notin> lease_files ''transcription'' \<Longrightarrow> dget (fst s') n = dget (fst s) n"
    and "r = Inr () \<Longrightarrow> lease_held (fst s) ''transcription'' owner \<Longrightarrow> lease_held (fst s') ''transcription'' owner"
proof -
  obtain q d where q: "renew_lease os ttl (fst s) ''transcription'' owner None None = (q, d)" by force
  have "fst s' = d" "r = Inr () \<Longrightarrow> q = Inr True"
    using assms q by (auto simp: transcription_heartbeat_def split: sum.splits bool.splits)
  then show "n \<notin> lease_files ''transcription'' \<Longrightarrow> dget (fst s') n = dget (fst s) n"
    and "r = Inr () \<Longrightarrow> lease_held (fst s) ''transcription'' owner \<Longrightarrow> lease_held (fst s') ''transcription'' owner"
    using renew_lease_other[OF q] held_renewed q by auto
qed

lemma heartbeats_other:
  assumes "for_p (transcription_heartbeat ttl owner) ticks s = (r, s')" and "n \<notin> lease_files ''transcription''"
  shows "dget (fst s') n = dget (fst s) n"
  by (rule for_p_inv[where P = "\<lambda>x. dget (fst x) n = dget (fst s) n", OF _ refl assms(1)])
    (use heartbeat_effect(1) assms(2) in metis)

lemma heartbeats_held:
  "for_p (transcription_heartbeat ttl owner) ticks s = (Inr (), s') \<Longrightarrow> lease_held (fst s) ''transcription'' owner
    \<Longrightarrow> lease_held (fst s') ''transcription'' owner"
  by (induction ticks arbitrary: s) (auto split: prod.splits sum.splits dest: heartbeat_effect(2))

section \<open>A whole job\<close>

lemma transcribe_pair_cong:
  "dget d' ''tx.wav'' = dget d ''tx.wav'' \<Longrightarrow> dget d' ''rx.wav'' = dget d ''rx.wav'' \<Longrightarrow> transcribe_pair T d' = transcribe_pair T d"
proof -
  assume "dget d' ''tx.wav'' = dget d ''tx.wav''" and "dget d' ''rx.wav'' = dget d ''rx.wav''"
  then have "transcribe_channel T d' ''tx'' = transcribe_channel T d ''tx''" "transcribe_channel T d' ''rx'' = transcribe_channel T d ''rx''"
    by (simp_all add: transcribe_channel_def wav_path_def file_content_def)
  then show ?thesis by (simp only: transcribe_pair_def)
qed

lemma lease_file_names:
  "''tx.wav'' \<notin> lease_files ''transcription''" "''rx.wav'' \<notin> lease_files ''transcription''"
  "MARKER \<notin> lease_files ''transcription''" "stage_file ''transcription'' \<noteq> MARKER"
  by (simp_all add: lease_files_def stage_file_def LIFECYCLE_LOCK_FILE_def MARKER_def)

text \<open>A job that comes to its work runs between acquiring the lease and giving it back; when every
  heartbeat returned, the lease is gone at the end.\<close>

lemma tx_call_between:
  assumes bk: "backup_ok bk view" and ref: "reference_ok ref" and run: "process_tx_call bk T env md ref s = (r, s')"
    and a: "acquire_lease (te_os env) (bk_ttl bk) (tx_dir s) ''transcription'' (xm_call_id md) None None None = (Inr lease, d)"
  shows "\<exists>d1 m1 q1 s1 d2. job_effect bk view T md ref (s\<lparr>tx_dir := d1, tx_metrics := m1\<rparr>) q1 s1 \<and> s' = s1\<lparr>tx_dir := d2\<rparr>
    \<and> (\<forall>n. n \<notin> lease_files ''transcription'' \<longrightarrow> dget d1 n = dget (tx_dir s) n \<and> dget d2 n = dget (tx_dir s1) n)
    \<and> (\<forall>n pub. r = Inr (TxDone n pub) \<longrightarrow> q1 = Inr (TxDone n pub)
        \<and> (uuid_ok (env_uuid (te_os env)) \<longrightarrow> xm_call_id md \<noteq> [] \<longrightarrow> dget d2 (stage_file ''transcription'') = None))"
proof -
  obtain hb d1 m1 where h: "for_p (transcription_heartbeat (bk_ttl bk) (lease_owner lease)) (te_ticks env) (d, tx_metrics s)
      = (hb, (d1, m1))" by (metis prod.exhaust)
  obtain q1 s1 where o: "process_owned_call bk T env md ref (s\<lparr>tx_dir := d1, tx_metrics := m1\<rparr>) = (q1, s1)" by force
  note e = owned_call_effect[OF bk ref o]
  obtain q2 d2 where rel: "release_lease (te_end env) (tx_dir s1) ''transcription'' (lease_owner lease) = (q2, d2)" by force
  have s': "s' = s1\<lparr>tx_dir := d2\<rparr>" and dn: "r = Inr (TxDone n pub) \<Longrightarrow> q1 = Inr (TxDone n pub) \<and> hb = Inr ()" for n pub
    using run a h o rel by (auto simp: process_tx_call_def Let_def split: sum.splits if_splits)
  have gone: "dget d2 (stage_file ''transcription'') = None"
    if "hb = Inr ()" "uuid_ok (env_uuid (te_os env))" "xm_call_id md \<noteq> []"
  proof -
    have "lease_held d ''transcription'' (lease_owner lease)" using acquired_held[OF a that(2,3)] .
    then have "lease_held d1 ''transcription'' (lease_owner lease)" using heartbeats_held[OF h[unfolded that(1)]] by simp
    then have "lease_held (tx_dir s1) ''transcription'' (lease_owner lease)"
      using lease_held_cong[of "tx_dir s1" "''transcription''" d1] e lease_file_names(4) by (simp add: job_effect_def)
    from held_released[OF this, of "te_end env"] rel show ?thesis by simp
  qed
  have "dget d1 n = dget (tx_dir s) n \<and> dget d2 n = dget (tx_dir s1) n" if "n \<notin> lease_files ''transcription''" for n
    using heartbeats_other[OF h that] acquire_lease_other[OF a that] release_lease_other[OF rel that] by simp
  with e s' dn gone show ?thesis by blast
qed

text \<open>What is left of \<open>job_effect\<close> for the job with its lease: the lease files change too.\<close>

lemma tx_call_effect:
  assumes bk: "backup_ok bk view" and ref: "reference_ok ref" and run: "process_tx_call bk T env md ref s = (r, s')"
  shows "kept view (tx_remote s) (tx_remote s')"
    and "tx_rows s' = tx_rows s \<or> (\<exists>segs. transcribe_pair T (tx_dir s) = Inr segs
        \<and> tx_rows s' = with_transcript (xm_database_id md) segs (tx_rows s))"
    and "dget (tx_dir s') MARKER = dget (tx_dir s) MARKER \<or> (\<exists>segs. transcribed bk view T md ref s s' segs)"
    and "\<And>n pub. r = Inr (TxDone n pub) \<Longrightarrow> is_file (tx_dir s') MARKER \<and> (\<exists>segs. n = length segs
        \<and> transcribed bk view T md ref s s' segs \<and> pb_sha256 pub = bk_sha bk (utf8 (render_markdown md segs)))
        \<and> (uuid_ok (env_uuid (te_os env)) \<longrightarrow> xm_call_id md \<noteq> [] \<longrightarrow> dget (tx_dir s') (stage_file ''transcription'') = None)"
proof -
  obtain q d where a: "acquire_lease (te_os env) (bk_ttl bk) (tx_dir s) ''transcription'' (xm_call_id md) None None None = (q, d)"
    by force
  have "kept view (tx_remote s) (tx_remote s')
    \<and> (tx_rows s' = tx_rows s \<or> (\<exists>segs. transcribe_pair T (tx_dir s) = Inr segs
        \<and> tx_rows s' = with_transcript (xm_database_id md) segs (tx_rows s)))
    \<and> (dget (tx_dir s') MARKER = dget (tx_dir s) MARKER \<or> (\<exists>segs. transcribed bk view T md ref s s' segs))
    \<and> (\<forall>n pub. r = Inr (TxDone n pub) \<longrightarrow> is_file (tx_dir s') MARKER \<and> (\<exists>segs. n = length segs
        \<and> transcribed bk view T md ref s s' segs \<and> pb_sha256 pub = bk_sha bk (utf8 (render_markdown md segs)))
        \<and> (uuid_ok (env_uuid (te_os env)) \<longrightarrow> xm_call_id md \<noteq> [] \<longrightarrow> dget (tx_dir s') (stage_file ''transcription'') = None))"
  proof (cases q)
    case (Inl e)
    then have "s' = s\<lparr>tx_dir := d\<rparr>" "\<nexists>n pub. r = Inr (TxDone n pub)"
      using run a by (auto simp: process_tx_call_def split: if_splits)
    with acquire_lease_other[OF a lease_file_names(3)] show ?thesis by simp
  next
    case (Inr lease)
    from tx_call_between[OF bk ref run a[unfolded Inr]] obtain d1 m1 q1 s1 d2 where
      e: "job_effect bk view T md ref (s\<lparr>tx_dir := d1, tx_metrics := m1\<rparr>) q1 s1" and s': "s' = s1\<lparr>tx_dir := d2\<rparr>"
      and d: "\<And>n. n \<notin> lease_files ''transcription'' \<Longrightarrow> dget d1 n = dget (tx_dir s) n \<and> dget d2 n = dget (tx_dir s1) n"
      and dn: "\<And>n pub. r = Inr (TxDone n pub) \<Longrightarrow> q1 = Inr (TxDone n pub)
        \<and> (uuid_ok (env_uuid (te_os env)) \<longrightarrow> xm_call_id md \<noteq> [] \<longrightarrow> dget d2 (stage_file ''transcription'') = None)"
      by blast
    have tp: "transcribe_pair T d1 = transcribe_pair T (tx_dir s)"
      using d lease_file_names by (intro transcribe_pair_cong) simp_all
    have tr: "transcribed bk view T md ref (s\<lparr>tx_dir := d1, tx_metrics := m1\<rparr>) s1 segs \<longleftrightarrow> transcribed bk view T md ref s s' segs" for segs
      by (simp add: transcribed_def tp s')
    note mk = d[OF lease_file_names(3)]
    have mfile: "is_file d2 MARKER = is_file (tx_dir s1) MARKER" using mk by (simp add: is_file_def)
    show ?thesis
      using e[unfolded job_effect_def tr] dn s' tp mk mfile by simp
  qed
  then show "kept view (tx_remote s) (tx_remote s')"
    and "tx_rows s' = tx_rows s \<or> (\<exists>segs. transcribe_pair T (tx_dir s) = Inr segs
        \<and> tx_rows s' = with_transcript (xm_database_id md) segs (tx_rows s))"
    and "dget (tx_dir s') MARKER = dget (tx_dir s) MARKER \<or> (\<exists>segs. transcribed bk view T md ref s s' segs)"
    and "\<And>n pub. r = Inr (TxDone n pub) \<Longrightarrow> is_file (tx_dir s') MARKER \<and> (\<exists>segs. n = length segs
        \<and> transcribed bk view T md ref s s' segs \<and> pb_sha256 pub = bk_sha bk (utf8 (render_markdown md segs)))
        \<and> (uuid_ok (env_uuid (te_os env)) \<longrightarrow> xm_call_id md \<noteq> [] \<longrightarrow> dget (tx_dir s') (stage_file ''transcription'') = None)"
    by blast+
qed



text \<open>C25. What a job that reports done has done: the table holds exactly the segments it counts for this
  call and what it held for the others, the share has their markdown under the checksum it reports,
  the call has its marker, and the lease is given back.\<close>

theorem done_transcription_is_complete:
  assumes "backup_ok bk view" and "smb_audio_reference entries tenant call = Some ref"
    and "process_tx_call bk T env md ref s = (Inr (TxDone n pub), s')"
    and "uuid_ok (env_uuid (te_os env))" and "xm_call_id md \<noteq> []"
  shows "(\<exists>segs. transcribe_pair T (tx_dir s) = Inr segs \<and> n = length segs
      \<and> map tp_segment (filter (\<lambda>x. tp_call x = xm_database_id md) (tx_rows s')) = segs
      \<and> filter (\<lambda>x. tp_call x \<noteq> xm_database_id md) (tx_rows s') = filter (\<lambda>x. tp_call x \<noteq> xm_database_id md) (tx_rows s)
      \<and> pb_sha256 pub = bk_sha bk (utf8 (render_markdown md segs))
      \<and> copy_at view (bk_sha bk) (utf8 (render_markdown md segs)) (tx_remote s')
            (join_path [join_path [bk_path bk, sr_dir ref], sr_md ref]))
    \<and> is_file (tx_dir s') MARKER \<and> dget (tx_dir s') (stage_file ''transcription'') = None"
proof -
  note e = tx_call_effect(4)[OF assms(1) audio_reference_ok[OF assms(2)] assms(3) refl]
  have "filter (\<lambda>x. tp_call x = i) (with_transcript i segs t) = rows_of i segs"
    "filter (\<lambda>x. tp_call x \<noteq> i) (with_transcript i segs t) = filter (\<lambda>x. tp_call x \<noteq> i) t"
    "map tp_segment (rows_of i segs) = segs" "length (rows_of i segs) = length segs" for i segs t
    by (auto simp: with_transcript_def rows_of_def filter_map o_def intro!: map_idI)
  with e assms(4,5) show ?thesis unfolding transcribed_def markdown_path_def by auto
qed

section \<open>The cycle and the share\<close>

lemma fail_call_remote [simp]: "tc_remote (fail_call reason c) = tc_remote c"
  by (simp add: fail_call_def)

lemma put_call_remote [simp]: "tc_remote (put_call k d c) = tc_remote c"
  by (simp add: put_call_def)

lemma mark_late_remote: "mark_late os k d c = (r, c') \<Longrightarrow> tc_remote c' = tc_remote c"
  by (auto simp: mark_late_def split: if_splits prod.splits sum.splits)

lemma run_job_kept:
  assumes "backup_ok bk view" and "reference_ok ref" and "run_job bk T env k md ref d c = (r, c')"
  shows "kept view (tc_remote c) (tc_remote c')"
  using assms(3) tx_call_effect(1)[OF assms(1,2)]
  by (fastforce simp: run_job_def split: prod.splits)

lemma consider_call_kept:
  assumes bk: "backup_ok bk view" and run: "consider_call bk T lname env k d c = (r, c')"
  shows "kept view (tc_remote c) (tc_remote c')"
proof -
  obtain entries files where f: "load_transfer_log (tc_log_os env) (tc_renames env) lname (tc_files c) = (entries, files)" by force
  show ?thesis
  proof (cases "\<exists>ref md. smb_audio_reference entries (fst k) (snd k) = Some ref
      \<and> resolve_tx_meta (fst k) (snd k) (tc_rows env) (tc_now env) = Inr (Some md)")
    case False
    then have "tc_remote c' = tc_remote c"
      using run f by (auto simp: consider_call_def Let_def split: option.splits sum.splits)
    then show ?thesis by simp
  next
    case True
    then obtain ref md where ref: "smb_audio_reference entries (fst k) (snd k) = Some ref"
      and md: "resolve_tx_meta (fst k) (snd k) (tc_rows env) (tc_now env) = Inr (Some md)" by blast
    obtain q x where l: "list_names (bk_conn bk) (bk_path bk) (sr_dir ref) (tc_remote c) = (q, x)" by force
    let ?c = "c\<lparr>tc_files := files, tc_remote := x\<rparr>"
    have k: "kept view (tc_remote c) (tc_remote ?c)" using list_names_view[OF bk l] by (simp add: kept_view)
    consider "tc_remote c' = x" | "run_job bk T (tc_job env) k md ref d ?c = (r, c')"
      using run f ref md l
      by (auto simp: consider_call_def Let_def split: sum.splits if_splits dest: mark_late_remote)
    then show ?thesis
    proof cases
      case 1
      with k show ?thesis by simp
    next
      case 2
      from run_job_kept[OF bk audio_reference_ok[OF ref] 2] k show ?thesis by (rule kept_trans[rotated])
    qed
  qed
qed

lemma tx_turn_kept:
  assumes bk: "backup_ok bk view" and run: "tx_turn bk T lname env k c = (r, c')"
  shows "kept view (tc_remote c) (tc_remote c')"
proof -
  define d where "d = (case map_of (tc_dirs c) k of None \<Rightarrow> [] | Some d \<Rightarrow> d)"
  obtain q c1 where q: "consider_call bk T lname env k d c = (q, c1)" by force
  have "c' = c \<or> tc_remote c' = tc_remote c1"
    using run q unfolding tx_turn_def d_def
    by (auto simp: Let_def split: if_splits sum.splits option.splits tx_result.splits)
  with consider_call_kept[OF bk q] show ?thesis by (auto simp: kept_def)
qed

text \<open>A transcription cycle never harms the share: whatever the transfer log, the table, ffmpeg and
  whisper say, every file of the share other than the temporaries is there afterwards with the same
  bytes.\<close>

theorem transcript_cycle_keeps_the_share:
  assumes "backup_ok bk view" and "run_tx_cycle cfg bk T lname elapsed envs c = (r, c')"
    and "view (tc_remote c) p = Some data" and "\<not> suffix_of ''.tmp'' p"
  shows "view (tc_remote c') p = Some data"
proof -
  have loop: "kept view (tc_remote c1) (tc_remote c2)"
    if "for_p (\<lambda>k. tx_turn (bk\<lparr>bk_limiter := li\<rparr>) T lname (envs k) k) calls c1 = (q, c2)" for li calls c1 q c2
  proof (rule for_p_inv[where P = "\<lambda>x. kept view (tc_remote c1) (tc_remote x)", OF _ kept_refl that])
    fix k x q y
    assume k: "kept view (tc_remote c1) (tc_remote x)" and t: "tx_turn (bk\<lparr>bk_limiter := li\<rparr>) T lname (envs k) k x = (q, y)"
    have "backup_ok (bk\<lparr>bk_limiter := li\<rparr>) view" using assms(1) by (simp add: backup_ok_def)
    from tx_turn_kept[OF this t] show "kept view (tc_remote c1) (tc_remote y)" by (rule kept_trans[OF k])
  qed
  have "kept view (tc_remote c) (tc_remote c')"
    using assms(2) by (auto simp: run_tx_cycle_def Let_def split: if_splits sum.splits prod.splits dest!: loop)
  with assms(3,4) show ?thesis by (simp add: kept_def is_tmp_def)
qed

section \<open>Failures that look like silence\<close>






section \<open>A small job\<close>

definition one_segment :: speech where
  "one_segment = \<lparr>sp_text = ''alo'', sp_start = 0, sp_end = 1, sp_confidence = 1 / 2\<rparr>"

definition tools :: speech_tools where
  "tools = \<lparr>st_ffmpeg = (\<lambda>_. Chunks [wav_of [1]]), st_transcribe = (\<lambda>_. Inr (heard [one_segment])), st_bytes = wav_bytes \<circ> Wav\<rparr>"

definition job_env :: tx_env where
  "job_env = \<lparr>te_os = env_a, te_ticks = [], te_mark = env_a, te_end = env_a, te_timeout = False, te_scratch = None,
     te_persist = None\<rparr>"

definition job_md :: tx_meta where
  "job_md = \<lparr>xm_tenant = ''t'', xm_call_id = ''call-1'', xm_database_id = ''db'', xm_started = 0, xm_caller = ''41'', xm_callee = ''100''\<rparr>"

definition job_ref :: smb_reference where
  "job_ref = \<lparr>sr_dir = ''t/1970-01-01'', sr_wav = ''1970-01-01-00-00-00-c.wav'', sr_md = ''1970-01-01-00-00-00-c.md''\<rparr>"

definition job_log :: "(string \<times> json) list" where
  "job_log = [(''t/call-1'', JObj [(''status'', JStr ''done''), (''tenant_id'', JStr ''t''), (''call_id'', JStr ''call-1''),
     (''remote_name'', JStr ''1970-01-01-00-00-00-c.wav''), (''started_at'', JIso (Aware 0))])]"

definition job_share :: mem where
  "job_share = \<lparr>mm_files = [(''rec/t/1970-01-01/1970-01-01-00-00-00-c.wav'', [9])], mm_clock = 0\<rparr>"

lemma job_log_reference: "smb_audio_reference job_log ''t'' ''call-1'' = Some job_ref"
  by code_simp

text \<open>On the share in memory a file that is not empty can always be published under a free name.\<close>

lemma mem_ensure: "ensure_directories mem_conn dir s = (Inr (), s)"
proof -
  have "ensure_segments mem_conn cur segs s = (Inr (), s)" for cur segs
    by (induction segs arbitrary: cur) (simp_all add: mem_conn_def catchp_def bindp_def)
  then show ?thesis by (simp add: ensure_directories_def)
qed

lemma mem_store_returns: "0 < li_chunk_size li \<Longrightarrow> \<exists>n s'. store_loop mem_conn li p t0 off src s = (Inr n, s')"
proof (induction "length src" arbitrary: off src s rule: less_induct)
  case less
  show ?case
  proof (cases "take (li_chunk_size li) src = []")
    case True
    then show ?thesis by (subst store_loop.simps) simp
  next
    case False
    then have l: "length (drop (li_chunk_size li) src) < length src" using less.prems by (cases src) auto
    show ?thesis
      using less.hyps[OF l less.prems] False
      by (subst store_loop.simps) (auto simp: Let_def mem_conn_def)
  qed
qed

lemma mem_remote_sha:
  "remote_sha mem_conn sha dir name s =
    (if name \<notin> set (map (last_segment \<circ> fst) (mm_files s)) \<or> name \<in> {''.'', ''..''} then Inr None
     else case mem_view s (join_path [dir, name]) of None \<Rightarrow> Inl OperationFailure | Some d \<Rightarrow> Inr (Some (sha d)), s)"
  by (auto simp: remote_sha_def list_names_of_def bindp_def mem_conn_def mem_view_def split: option.splits)

lemma mem_list_names:
  "list_names mem_conn path dir s = (Inr (filter (\<lambda>n. n \<notin> {''.'', ''..''}) (map (last_segment \<circ> fst) (mm_files s))), s)"
proof -
  have "sc_connect mem_conn = ret True" "sc_close mem_conn = ret ()"
    "sc_list_path mem_conn p x = (Inr (map (last_segment \<circ> fst) (mm_files x)), x)" for p x
    by (simp_all add: mem_conn_def)
  then show ?thesis
    by (simp add: list_names_def smb_connect_def bindp_def closing_after_def mem_ensure list_names_of_def)
qed

lemma mem_publish:
  assumes "name \<notin> set (map (last_segment \<circ> fst) (mm_files s))" and "file_name name" and "source \<noteq> []"
    and "0 < li_chunk_size li" and "0 < li_bytes_per_second li"
  shows "\<exists>pub s'. publish mem_conn sha li path source dir name name s = (Inr pub, s')"
proof -
  let ?full = "join_path [path, dir]" let ?P = "join_path [?full, name]" let ?tmp = "?P @ ''.tmp''"
  have nd: "name \<noteq> ''.''" "name \<noteq> ''..''" using assms(2) by (auto simp: file_name_def)
  have t: "publish_target mem_conn sha source ?full name name s = (Inr (name, False), s)"
    using assms(1) by (simp add: publish_target_def resolve_remote_name_def bindp_def mem_ensure mem_remote_sha)
  obtain n s1 where st: "limiter_store mem_conn li ?tmp source s = (Inr n, s1)"
    using mem_store_returns[OF assms(4)] unfolding limiter_store_def by blast
  have v1: "mem_view s1 ?tmp = Some source"
    using store_loop_done[OF mem_laws assms(4) st[unfolded limiter_store_def], of "[]"] assms(3) by simp
  let ?s2 = "s1\<lparr>mm_files := AList.update ?P source (AList.delete ?tmp (mm_files s1))\<rparr>"
  have v: "verify_remote_temporary_and_rename mem_conn sha ?tmp ?P (sha source) s1 = (Inr (), ?s2)"
    using v1 by (simp add: verify_remote_temporary_and_rename_def bindp_def mem_conn_def mem_view_def)
  have "name \<in> set (map (last_segment \<circ> fst) (mm_files ?s2))"
  proof -
    have "map_of (mm_files ?s2) ?P = Some source" by (simp add: AList.update_conv)
    then have "(?P, source) \<in> set (mm_files ?s2)" by (rule map_of_SomeD)
    then show ?thesis using last_segment_join[OF assms(2), of ?full] by force
  qed
  then have c: "remote_sha mem_conn sha ?full name ?s2 = (Inr (Some (sha source)), ?s2)"
    using nd by (simp add: mem_remote_sha mem_view_def AList.update_conv)
  have "\<exists>pub. publish_transfer mem_conn sha li source ?full name s = (Inr pub, ?s2)"
    using st v c by (simp add: publish_transfer_def Let_def)
  then obtain pub where tr: "publish_transfer mem_conn sha li source ?full name s = (Inr pub, ?s2)" by blast
  have "publish_body mem_conn sha li source ?full name name s = (Inr pub, ?s2)"
    using t tr by (simp add: publish_body_def catchp_def)
  then show ?thesis
    by (simp add: publish_def smb_connect_def bindp_def mem_conn_def closing_after_def)
qed

definition sample_segment :: "string \<Rightarrow> string \<Rightarrow> segment" where
 "sample_segment ch sp = \<lparr>sg_channel = ch, sg_speaker = sp, sg_text = ''alo'', sg_confidence = 1 / 2, sg_start = 0, sg_end = 1,
      sg_final = True, sg_chunk = 0\<rparr>"

lemma alo_stripped: "py_strip ''alo'' = ''alo''" by code_simp

lemma job_channels:
  "transcribe_channel tools d ''tx'' = Inr [sample_segment ''tx'' ''atendente'']"
  "transcribe_channel tools d ''rx'' = Inr [sample_segment ''rx'' ''cliente'']"
  by (simp_all add: transcribe_channel_def chunk_audio_def tools_def error_of_def heard_def normalize_segments_def speaker_of_def
   one_segment_def wav_duration_def wav_of_def placed_def clamp01_def alo_stripped sample_segment_def)

lemma job_segments:
  "transcribe_pair tools d = Inr [sample_segment ''rx'' ''cliente'', sample_segment ''tx'' ''atendente'']"
  by (simp add: transcribe_pair_def job_channels segment_key_def sample_segment_def less_prod_def less_eq_prod_def)

lemma mono_dir_acquire:
  assumes "stage \<in> set LEASE_STAGES"
  shows "\<exists>l d. acquire_lease env_a 120 mono_dir stage ''call-1'' None None None = (Inr l, d)"
proof -
  have g: "dget mono_dir (stage_file st) = None" for st by (rule mono_dir_facts(1))
  have "readable mono_dir" "plain_files mono_dir"
    using g by (simp_all add: readable_def plain_files_def read_lease_def load_json_def)
  moreover have "no_conflict mono_dir t ow" for t ow
    using g by (simp add: no_conflict_def active_lease_def lease_at_def read_lease_def load_json_def)
  ultimately show ?thesis
    using acquire_lease_refines_aux[of mono_dir env_a stage None "''call-1''" None 120 None] assms
    by (auto simp: Let_def split: prod.splits)
qed

lemma names_dput: "fst ` set (dput n f d) = insert n (fst ` set d)"
  by (simp add: dput_def dom_update)

lemma names_ddel: "fst ` set (ddel n d) \<subseteq> fst ` set d"
  by (auto simp: ddel_def AList.delete_eq)

lemma acquired_names:
  assumes "acquire_lease env ttl d stage cid ow now ttls = (Inr l, d')"
  shows "fst ` set d' \<subseteq> fst ` set d \<union> lease_files stage"
proof -
  obtain d0 where d0: "acquire_lease_unlocked env ttl d0 stage cid ow now ttls = (Inr l, d')"
    "d0 = d \<or> d0 = dput LIFECYCLE_LOCK_FILE (new_file env 0 (Bytes [])) d"
    using assms by (auto simp: acquire_lease_def locked_call_directory_def split: if_splits)
  have "fst ` set d0 \<subseteq> fst ` set d \<union> lease_files stage"
    using d0(2) by (elim disjE) (simp, simp add: names_dput lease_files_def subset_insertI2)
  moreover obtain d1 where "d1 = d0 \<or> d1 = ddel (stage_file stage) d0" "d' = dput (stage_file stage) (json_file env (lease_payload l)) d1"
    using acquire_unlocked_ok(4)[OF d0(1)] by blast
  then have "fst ` set d' \<subseteq> fst ` set d0 \<union> lease_files stage"
    using names_ddel[of "stage_file stage" d0] by (elim disjE) (simp_all add: names_dput lease_files_def, blast+)
  ultimately show ?thesis by blast
qed

lemma ready_after_acquire:
  assumes a: "acquire_lease env_a 120 mono_dir ''transcription'' ''call-1'' None None None = (Inr lease, d)"
  shows "is_ready_call d"
proof -
  have "\<forall>n\<in>fst ` set mono_dir \<union> lease_files ''transcription''. \<not> contains_str ''.tmp'' n"
    unfolding lease_files_def stage_file_def LIFECYCLE_LOCK_FILE_def mono_dir_def by (simp add: starts_with_def)
  then have "\<forall>n\<in>fst ` set d. \<not> contains_str ''.tmp'' n" using acquired_names[OF a] by blast
  moreover have "dget d n = dget mono_dir n" if "n \<in> {''tx.wav'', ''rx.wav''}" for n
    using acquire_lease_other[OF a, of n] that lease_file_names by auto
  then have "dget d ''tx.wav'' = Some (wav_file env_a (wav_of [1, 2]))" "dget d ''rx.wav'' = Some (wav_file env_a (wav_of [3, 4]))"
    by (simp_all add: mono_dir_def dget_def)
  ultimately show ?thesis
    by (auto simp: is_ready_call_def list_ex_iff is_supported_wav_def wav_path_def wav_file_def new_file_def wav_of_def MIN_WAV_BYTES_def)
qed

lemma sample_job_done:
  "\<exists>n pub s'. process_tx_call sample_backup tools job_env job_md job_ref
     \<lparr>tx_dir = mono_dir, tx_remote = job_share, tx_rows = [], tx_metrics = []\<rparr> = (Inr (TxDone n pub), s')"
proof -
  have "''transcription'' \<in> set LEASE_STAGES" by (simp add: LEASE_STAGES_def)
  from mono_dir_acquire[OF this] obtain lease d where
    a: "acquire_lease env_a 120 mono_dir ''transcription'' ''call-1'' None None None = (Inr lease, d)" by blast
  let ?segs = "[sample_segment ''rx'' ''cliente'', sample_segment ''tx'' ''atendente'']"
  let ?s = "\<lparr>tx_dir = d, tx_remote = job_share, tx_rows = [], tx_metrics = []\<rparr> :: mem tx_state"
  have l: "list_names (bk_conn sample_backup) (bk_path sample_backup) (sr_dir job_ref) job_share = (Inr [''1970-01-01-00-00-00-c.wav''], job_share)"
  proof -
    have "last_segment ''rec/t/1970-01-01/1970-01-01-00-00-00-c.wav'' = ''1970-01-01-00-00-00-c.wav''" by code_simp
    then show ?thesis by (simp add: sample_backup_def mem_list_names job_share_def)
  qed
  have src: "utf8 (render_markdown job_md ?segs) \<noteq> []"
    by (simp add: utf8_def render_markdown_def utf8_char_def)
  have nm: "sr_md job_ref \<notin> set (map (last_segment \<circ> fst) (mm_files job_share)) \<and> file_name (sr_md job_ref)"
    by code_simp
  have "bk_conn sample_backup = mem_conn" by (simp add: sample_backup_def)
  moreover have "\<exists>pub x. publish mem_conn (bk_sha sample_backup) (bk_limiter sample_backup) (bk_path sample_backup)
      (utf8 (render_markdown job_md ?segs)) (sr_dir job_ref) (sr_md job_ref) (sr_md job_ref) job_share = (Inr pub, x)"
    by (rule mem_publish[OF conjunct1[OF nm] conjunct2[OF nm] src]) (simp_all add: sample_backup_def)
  ultimately obtain pub x where p: "publish (bk_conn sample_backup) (bk_sha sample_backup) (bk_limiter sample_backup) (bk_path sample_backup)
      (utf8 (render_markdown job_md ?segs)) (sr_dir job_ref) (sr_md job_ref) (sr_md job_ref) job_share = (Inr pub, x)"
    by auto
  have "consumer_name_ok ''transcription''" by code_simp
  moreover have "dget d (marker_file ''transcription'') = None"
    using acquire_lease_other[OF a lease_file_names(3)] by (simp add: marker_name) (simp add: mono_dir_def dget_def MARKER_def)
  ultimately obtain m d2 where mk: "mark_consumed env_a ''transcription'' d = (Inr m, d2)"
    by (auto simp: mark_consumed_def env_a_def)
  have tn: "tenant_schema_of ''t'' = Inr ''tenant_t''" by code_simp
  have o: "\<exists>s1. process_owned_call sample_backup tools job_env job_md job_ref ?s = (Inr (TxDone 2 pub), s1)"
    using ready_after_acquire[OF a] l p mk job_segments[of d] tn
    by (simp add: process_owned_call_def publish_markdown_def job_env_def job_ref_def job_md_def persist_segments_def
        with_tenant_session_def replace_rows_def)
  then obtain s1 where o: "process_owned_call sample_backup tools job_env job_md job_ref ?s = (Inr (TxDone 2 pub), s1)" by blast
  have "lease_held d ''transcription'' (lease_owner lease)"
    by (rule acquired_held[OF a]) (simp_all add: env_a_def)
  moreover have "dget (tx_dir s1) (stage_file ''transcription'') = dget d (stage_file ''transcription'')"
    using owned_call_effect[OF sample_backup_ok _ o] audio_reference_ok[OF job_log_reference] lease_file_names(4)
    by (simp add: job_effect_def)
  ultimately have "lease_held (tx_dir s1) ''transcription'' (lease_owner lease)" using lease_held_cong by blast
  then obtain d3 where "release_lease env_a (tx_dir s1) ''transcription'' (lease_owner lease) = (Inr True, d3)"
    using held_released by blast
  with a o show ?thesis by (auto simp: process_tx_call_def job_env_def job_md_def sample_backup_def)
qed

text \<open>C26. The transcript of a call reads in the order it was spoken: its segments are sorted by their
  start, on a tie by channel, each ends no earlier than it starts, has a text, a probability as
  confidence and the speaker of its channel, whatever numbers the recogniser reports; and every
  segment of the two channels is in it once.\<close>

theorem transcript_is_in_order:
  assumes "transcribe_pair T d = Inr segs" and "transcribe_channel T d ''tx'' = Inr tx"
    and "transcribe_channel T d ''rx'' = Inr rx"
  shows "sorted (map segment_key segs) \<and> (\<forall>g\<in>set segs. segment_ok g) \<and> mset segs = mset tx + mset rx"
  using assms transcribe_channel_ok by (auto simp: transcribe_pair_def)

theorem transcript_is_in_order_witness:
  "segment_ok (sample_segment ''rx'' ''cliente'')
    \<and> mset [sample_segment ''rx'' ''cliente'', sample_segment ''tx'' ''atendente'']
      = {#sample_segment ''tx'' ''atendente''#} + {#sample_segment ''rx'' ''cliente''#}"
  using transcript_is_in_order[OF job_segments[of mono_dir] job_channels] by simp


theorem done_transcription_is_complete_witness:
  "\<exists>n pub s'. process_tx_call sample_backup tools job_env job_md job_ref
     \<lparr>tx_dir = mono_dir, tx_remote = job_share, tx_rows = [], tx_metrics = []\<rparr> = (Inr (TxDone n pub), s')
    \<and> n = 2 \<and> dget (tx_dir s') (stage_file ''transcription'') = None"
proof -
  obtain n pub s' where run: "process_tx_call sample_backup tools job_env job_md job_ref
     \<lparr>tx_dir = mono_dir, tx_remote = job_share, tx_rows = [], tx_metrics = []\<rparr> = (Inr (TxDone n pub), s')"
    using sample_job_done by blast
  have "uuid_ok (env_uuid (te_os job_env))" "xm_call_id job_md \<noteq> []" by (simp_all add: job_env_def job_md_def)
  from done_transcription_is_complete[OF sample_backup_ok job_log_reference run this] run show ?thesis
    by (auto simp: job_segments)
qed

theorem transcript_cycle_keeps_the_share_witness:
  "mem_view (tc_remote (snd (run_tx_cycle (default_settings\<lparr>TRANSCRIPT_ENABLED := True\<rparr>) sample_backup tools ''log'' 1
     (\<lambda>k. \<lparr>tc_job = job_env, tc_log_os = env_a, tc_renames = True, tc_rows = Inr [], tc_exist = None, tc_now = 0\<rparr>)
     \<lparr>tc_dirs = [((''t'', ''call-1''), mono_dir)], tc_remote = job_share, tc_tables = (\<lambda>_. []), tc_metrics = [],
      tc_files = [], tc_completed = 0, tc_failed = 0\<rparr>)))
     ''rec/t/1970-01-01/1970-01-01-00-00-00-c.wav'' = Some [9]"
proof -
  have "\<not> suffix_of ''.tmp'' ''rec/t/1970-01-01/1970-01-01-00-00-00-c.wav''"
    by (auto simp: suffix_of_def append_eq_Cons_conv Cons_eq_append_conv)
  then show ?thesis
    by (intro transcript_cycle_keeps_the_share[OF sample_backup_ok prod.collapse[symmetric]])
      (simp_all add: mem_view_def job_share_def)
qed

end
