(* ===== verification/Rate_Limit.thy ===== *)
theory Rate_Limit
  imports Redis Run_Laws Py_Data
begin

text \<open>
  \<open>api/rate_limit.py\<close>: at most 100 requests of a client address in 60 seconds, counted in one
  sorted set per address. The commands on sorted sets are a record of programs over the server's
  state with the laws \<open>zset_laws\<close>, in the way of \<open>Redis\<close>; \<open>zs\<close> reads the members of a key
  with their scores. Times are microseconds; \<open>clock_text\<close> is how the clock prints in a member.
\<close>

section \<open>The sorted sets\<close>

record 'r zset_redis =
  zr_remrange :: "string \<Rightarrow> int \<Rightarrow> int \<Rightarrow> ('r, unit) prog"
  zr_card :: "string \<Rightarrow> ('r, nat) prog"
  zr_add :: "string \<Rightarrow> string \<Rightarrow> int \<Rightarrow> ('r, unit) prog"
  zr_expire :: "string \<Rightarrow> int \<Rightarrow> ('r, unit) prog"
  zr_lapse :: "string \<Rightarrow> ('r, unit) prog"

text \<open>\<open>zr_lapse\<close> is no command: it is what the server does when the time to live of a key is over.\<close>

definition without_scores :: "int \<Rightarrow> int \<Rightarrow> (string \<times> int) set \<Rightarrow> (string \<times> int) set" where
  "without_scores lo hi s = {p \<in> s. \<not> (lo \<le> snd p \<and> snd p \<le> hi)}"

definition with_member :: "string \<Rightarrow> int \<Rightarrow> (string \<times> int) set \<Rightarrow> (string \<times> int) set" where
  "with_member m score s = insert (m, score) {p \<in> s. fst p \<noteq> m}"

definition zset_laws :: "'r zset_redis \<Rightarrow> ('r \<Rightarrow> string \<Rightarrow> (string \<times> int) set) \<Rightarrow> bool" where
  "zset_laws R zs \<longleftrightarrow>
     (\<forall>k lo hi. alters (zr_remrange R k lo hi) zs k (without_scores lo hi))
   \<and> (\<forall>k. looks (zr_card R k) (\<lambda>r a. finite (zs r k) \<and> a = card (zs r k)))
   \<and> (\<forall>k m s. alters (zr_add R k m s) zs k (with_member m s))
   \<and> (\<forall>k n. alters (zr_expire R k n) zs k id)
   \<and> (\<forall>k. alters (zr_lapse R k) zs k (\<lambda>_. {}))"

section \<open>The middleware\<close>

definition RATE_LIMIT_REQUESTS :: nat where "RATE_LIMIT_REQUESTS = 100"
definition RATE_LIMIT_WINDOW :: int where "RATE_LIMIT_WINDOW = 60"

definition client_key :: "string option \<Rightarrow> string" where
  "client_key client = ''zenith:ratelimit:'' @ (case client of None \<Rightarrow> ''unknown'' | Some host \<Rightarrow> host)"

definition window_start :: "int \<Rightarrow> int" where
  "window_start now = now - seconds RATE_LIMIT_WINDOW"

text \<open>The member of a request: \<open>f"{now}:{uuid}"\<close>.\<close>

definition member_of :: "(int \<Rightarrow> string) \<Rightarrow> int \<Rightarrow> string \<Rightarrow> string" where
  "member_of clock_text now uid = clock_text now @ '':'' @ uid"

text \<open>The body of the \<open>try\<close>: the count, then the record of the request unless it is refused.\<close>

definition count_requests :: "'r zset_redis \<Rightarrow> string \<Rightarrow> int \<Rightarrow> ('r, bool) prog" where
  "count_requests R key now =
     bindp (zr_remrange R key 0 (window_start now)) (\<lambda>_.
     bindp (zr_card R key) (\<lambda>count. ret (count \<ge> RATE_LIMIT_REQUESTS)))"

definition record_request :: "'r zset_redis \<Rightarrow> (int \<Rightarrow> string) \<Rightarrow> string \<Rightarrow> int \<Rightarrow> string \<Rightarrow> ('r, unit) prog" where
  "record_request R clock_text key now uid =
     bindp (zr_add R key (member_of clock_text now uid) now) (\<lambda>_. zr_expire R key RATE_LIMIT_WINDOW)"

definition check_rate :: "'r zset_redis \<Rightarrow> (int \<Rightarrow> string) \<Rightarrow> string \<Rightarrow> int \<Rightarrow> string \<Rightarrow> ('r, bool) prog" where
  "check_rate R clock_text key now uid =
     bindp (count_requests R key now) (\<lambda>limited.
       if limited then ret True else bindp (record_request R clock_text key now uid) (\<lambda>_. ret False))"

text \<open>\<open>RedisConnectionError\<close> and \<open>RedisTimeoutError\<close>, no subclasses of the builtin ones.\<close>

fun redis_unavailable :: "exc \<Rightarrow> bool" where
  "redis_unavailable (OtherError s) = (s = ''redis.ConnectionError'' \<or> s = ''redis.TimeoutError'')"
| "redis_unavailable _ = False"

definition rate_limit_middleware ::
    "'r zset_redis \<Rightarrow> (int \<Rightarrow> string) \<Rightarrow> string option \<Rightarrow> int \<Rightarrow> string \<Rightarrow> ('r, 'resp) prog \<Rightarrow> ('r, 'resp) prog" where
  "rate_limit_middleware R clock_text client now uid call_next =
     bindp (catchp (check_rate R clock_text (client_key client) now uid) redis_unavailable (\<lambda>_. ret False))
       (\<lambda>limited. if limited then throw (HTTPException 429 ''Rate limit exceeded. Max 100 requests per 60s.'')
          else call_next)"

section \<open>Histories of requests\<close>










text \<open>The calls of \<open>check_rate\<close> in turn, whatever the server answers.\<close>

lemma count_requests_keeps:
  assumes "zset_laws R zs" and "count_requests R key now r = (res, r')"
  shows "(\<forall>q. q \<noteq> key \<longrightarrow> zs r' q = zs r q) \<and> without_scores 0 (window_start now) (zs r key) \<subseteq> zs r' key \<and> zs r' key \<subseteq> zs r key
    \<and> (res = Inr False \<longrightarrow> finite (zs r' key) \<and> card (zs r' key) < RATE_LIMIT_REQUESTS)"
proof -
  have rem: "alters (zr_remrange R key 0 (window_start now)) zs key (without_scores 0 (window_start now))"
    and crd: "looks (zr_card R key) (\<lambda>r a. finite (zs r key) \<and> a = card (zs r key))"
    using assms(1) by (auto simp: zset_laws_def)
  obtain x r1 where x: "zr_remrange R key 0 (window_start now) r = (x, r1)" by force
  have 1: "\<forall>q. q \<noteq> key \<longrightarrow> zs r1 q = zs r q" using altersD(1)[OF rem x] by blast
  have 2: "zs r1 key = without_scores 0 (window_start now) (zs r key) \<or> zs r1 key = zs r key" using altersD(3)[OF rem x] .
  have 3: "without_scores 0 (window_start now) (zs r key) \<subseteq> zs r1 key \<and> zs r1 key \<subseteq> zs r key"
    using 2 by (auto simp: without_scores_def)
  obtain y r2 where y: "zr_card R key r1 = (y, r2)" by force
  have y': "r2 = r1" "\<And>a. y = Inr a \<Longrightarrow> finite (zs r1 key) \<and> a = card (zs r1 key)" using looksD[OF crd y] by auto
  show ?thesis
    using assms(2) x y y' 1 3 by (auto simp: count_requests_def bindp_def split: sum.splits)
qed

lemma record_request_keeps:
  assumes "zset_laws R zs" and "record_request R tt key now uid r = (res, r')"
  shows "(\<forall>q. q \<noteq> key \<longrightarrow> zs r' q = zs r q)
    \<and> (zs r' key = with_member (member_of tt now uid) now (zs r key) \<or> res \<noteq> Inr () \<and> zs r' key = zs r key)"
proof -
  have add: "alters (zr_add R key (member_of tt now uid) now) zs key (with_member (member_of tt now uid) now)"
    and ex: "alters (zr_expire R key RATE_LIMIT_WINDOW) zs key id"
    using assms(1) by (auto simp: zset_laws_def)
  obtain x r1 where x: "zr_add R key (member_of tt now uid) now r = (x, r1)" by force
  have 1: "\<forall>q. q \<noteq> key \<longrightarrow> zs r1 q = zs r q" using altersD(1)[OF add x] by blast
  have 2: "zs r1 key = with_member (member_of tt now uid) now (zs r key) \<or> (\<exists>e. x = Inl e) \<and> zs r1 key = zs r key"
    using add x by (auto simp: alters_def)
  obtain y r2 where y: "zr_expire R key RATE_LIMIT_WINDOW r1 = (y, r2)" by force
  have 3: "zs r2 = zs r1" using alters_id[OF ex y] .
  show ?thesis
    using assms(2) x y 1 2 3 by (auto simp: record_request_def bindp_def split: sum.splits)
qed


section \<open>At most 100 in any window\<close>

















text \<open>Without the server nothing is limited; other errors of the server end the request.\<close>

lemma unavailable_redis_lets_through:
  assumes "check_rate R tt (client_key client) now uid r = (Inl e, r')"
  shows "rate_limit_middleware R tt client now uid call_next r = (if redis_unavailable e then call_next r' else (Inl e, r'))"
  using assms by (simp add: rate_limit_middleware_def bindp_def catchp_def)

text \<open>
  The count and the record are separate commands: two requests that are counted before either is
  recorded both pass at 99, and the set holds 101.
\<close>

lemma simultaneous_requests_exceed:
  assumes "zset_laws R zs"
    and "count_requests R key now r = (Inr False, r1)" and "count_requests R key now r1 = (Inr False, r2)"
    and "record_request R tt key now u r2 = (Inr (), r3)" and "record_request R tt key now u' r3 = (Inr (), r4)"
    and "length u = 36" "length u' = 36" "u \<noteq> u'"
    and "\<forall>p\<in>zs r2 key. fst p \<noteq> member_of tt now u \<and> fst p \<noteq> member_of tt now u'"
  shows "card (zs r4 key) = card (zs r2 key) + 2"
proof -
  have f: "finite (zs r2 key)" using count_requests_keeps[OF assms(1,3)] by simp
  have "zs r3 key = insert (member_of tt now u, now) (zs r2 key)"
    using record_request_keeps[OF assms(1,4)] assms(9) by (auto simp: with_member_def)
  moreover have "zs r4 key = with_member (member_of tt now u') now (zs r3 key)"
    using record_request_keeps[OF assms(1,5)] by simp
  moreover have "member_of tt now u \<noteq> member_of tt now u'" using assms(8) by (simp add: member_of_def)
  ultimately have "zs r4 key = insert (member_of tt now u', now) (insert (member_of tt now u, now) (zs r2 key))"
    using assms(9) by (auto simp: with_member_def)
  moreover have "(member_of tt now u, now) \<notin> zs r2 key" "(member_of tt now u', now) \<notin> insert (member_of tt now u, now) (zs r2 key)"
    using assms(9) \<open>member_of tt now u \<noteq> member_of tt now u'\<close> by force+
  ultimately show ?thesis using f by simp
qed

section \<open>A server in memory\<close>






end
