(* ===== verification/Auth.thy ===== *)
theory Auth
  imports Py_Data
begin

text \<open>
  \<open>api/auth.py\<close>: the access tokens of the administration API. The JWT library (\<open>jose\<close>) is a
  record of what the sources use of it; \<open>jwt_laws\<close> is its documented behaviour on the tokens the
  program makes: times are written as whole seconds, and a token is refused after the second of
  its \<open>exp\<close>. A payload is the dictionary the library returns.
\<close>

type_synonym claims = "(string \<times> json) list"

record jwt =
  jw_encode :: "claims \<Rightarrow> string \<Rightarrow> string \<Rightarrow> string"
  jw_decode :: "int \<Rightarrow> string \<Rightarrow> string \<Rightarrow> string list \<Rightarrow> exc + claims"

record auth_settings =
  JWT_SECRET :: string
  JWT_ALGORITHM :: string
  JWT_EXPIRATION_MINUTES :: int

definition access_claims :: "string \<Rightarrow> string \<Rightarrow> string \<Rightarrow> json \<Rightarrow> json \<Rightarrow> claims" where
  "access_claims subject tenant_id role expires issued =
     [(''sub'', JStr subject), (''tenant_id'', JStr tenant_id), (''role'', JStr role), (''exp'', expires), (''iat'', issued)]"

definition jwt_error :: exc where "jwt_error = OtherError ''JWTError''"

definition whole_seconds :: "int \<Rightarrow> int" where "whole_seconds t = t div 1000000"

definition jwt_laws :: "jwt \<Rightarrow> bool" where
  "jwt_laws J \<longleftrightarrow>
     (\<forall>subject tenant role expires issued secret alg now.
        jw_decode J now (jw_encode J (access_claims subject tenant role (JIso (Aware expires)) (JIso (Aware issued))) secret alg)
          secret [alg]
        = (if whole_seconds expires < whole_seconds now then Inl jwt_error
           else Inr (access_claims subject tenant role (JInt (whole_seconds expires)) (JInt (whole_seconds issued)))))"

text \<open>
  \<open>now\<close> and \<open>later\<close> are the two readings of the clock. \<open>expires_delta or timedelta(...)\<close>: a delta
  of zero is false, and gets the default.
\<close>

definition minutes :: "int \<Rightarrow> int" where "minutes n = n * 60000000"

definition lifetime :: "auth_settings \<Rightarrow> int option \<Rightarrow> int" where
  "lifetime cfg expires_delta =
     (case expires_delta of
        None \<Rightarrow> minutes (JWT_EXPIRATION_MINUTES cfg)
      | Some d \<Rightarrow> if d = 0 then minutes (JWT_EXPIRATION_MINUTES cfg) else d)"

definition create_access_token ::
    "jwt \<Rightarrow> auth_settings \<Rightarrow> int \<Rightarrow> int \<Rightarrow> string \<Rightarrow> string \<Rightarrow> string \<Rightarrow> int option \<Rightarrow> string" where
  "create_access_token J cfg now later subject tenant_id role expires_delta =
     jw_encode J (access_claims subject tenant_id role (JIso (Aware (now + lifetime cfg expires_delta))) (JIso (Aware later)))
       (JWT_SECRET cfg) (JWT_ALGORITHM cfg)"

definition verify_token :: "jwt \<Rightarrow> auth_settings \<Rightarrow> int \<Rightarrow> string \<Rightarrow> exc + claims" where
  "verify_token J cfg now credentials =
     (case jw_decode J now credentials (JWT_SECRET cfg) [JWT_ALGORITHM cfg] of
        Inl e \<Rightarrow> Inl (if e = jwt_error then HTTPException 401 ''Invalid or expired token'' else e)
      | Inr payload \<Rightarrow> Inr payload)"

definition require_admin_role :: "claims \<Rightarrow> exc + claims" where
  "require_admin_role payload =
     (if map_of payload ''role'' \<noteq> Some (JStr ''tenant_admin'')
      then Inl (HTTPException 403 ''Apenas administradores de inquilino podem realizar esta acao.'') else Inr payload)"

definition admin_payload :: "jwt \<Rightarrow> auth_settings \<Rightarrow> int \<Rightarrow> string \<Rightarrow> exc + claims" where
  "admin_payload J cfg now credentials =
     (case verify_token J cfg now credentials of Inl e \<Rightarrow> Inl e | Inr payload \<Rightarrow> require_admin_role payload)"

section \<open>Tokens from their making to their end\<close>

lemma token_verified:
  assumes "jwt_laws J"
  shows "verify_token J cfg t (create_access_token J cfg now later subject tenant role delta)
    = (if whole_seconds (now + lifetime cfg delta) < whole_seconds t then Inl (HTTPException 401 ''Invalid or expired token'')
       else Inr (access_claims subject tenant role (JInt (whole_seconds (now + lifetime cfg delta))) (JInt (whole_seconds later))))"
  using assms by (simp add: verify_token_def create_access_token_def jwt_laws_def)

lemma token_admitted:
  assumes "jwt_laws J"
  shows "admin_payload J cfg t (create_access_token J cfg now later subject tenant role delta)
    = (if whole_seconds (now + lifetime cfg delta) < whole_seconds t then Inl (HTTPException 401 ''Invalid or expired token'')
       else if role \<noteq> ''tenant_admin''
       then Inl (HTTPException 403 ''Apenas administradores de inquilino podem realizar esta acao.'')
       else Inr (access_claims subject tenant role (JInt (whole_seconds (now + lifetime cfg delta))) (JInt (whole_seconds later))))"
  by (simp add: admin_payload_def token_verified[OF assms] require_admin_role_def access_claims_def)

lemma admin_payload_role: "admin_payload J cfg t tok = Inr p \<Longrightarrow> map_of p ''role'' = Some (JStr ''tenant_admin'')"
  by (auto simp: admin_payload_def require_admin_role_def split: sum.splits if_splits)

text \<open>A delta of zero makes a token with the default lifetime, not an expired one.\<close>

lemma zero_delta_lives: "lifetime cfg (Some 0) = lifetime cfg None"
  by (simp add: lifetime_def)

section \<open>A library that keeps the laws\<close>

text \<open>A token is its secret, algorithm and claims as texts, each character after a mark, each text closed by two dots.\<close>

fun quote_dots :: "string \<Rightarrow> string" where
  "quote_dots [] = ''..''"
| "quote_dots (c # cs) = ''_'' @ [c] @ quote_dots cs"

fun read_dots :: "string \<Rightarrow> string \<times> string" where
  "read_dots (x # c # cs) = (if x = CHR ''.'' then ([], cs) else (case read_dots cs of (w, r) \<Rightarrow> (c # w, r)))"
| "read_dots _ = ([], [])"

lemma read_quote [simp]: "read_dots (quote_dots s @ r) = (s, r)"
  by (induction s) auto

definition text_claim :: "claims \<Rightarrow> string \<Rightarrow> string" where
  "text_claim c k = (case map_of c k of Some (JStr s) \<Rightarrow> s | _ \<Rightarrow> [])"

definition time_claim :: "claims \<Rightarrow> string \<Rightarrow> int" where
  "time_claim c k = (case map_of c k of Some (JIso d) \<Rightarrow> whole_seconds (dt_instant d) | _ \<Rightarrow> 0)"

definition unary :: "int \<Rightarrow> string" where
  "unary n = (if n < 0 then CHR ''-'' # replicate (nat (- n)) (CHR ''1'') else CHR ''+'' # replicate (nat n) (CHR ''1''))"

definition of_unary :: "string \<Rightarrow> int" where
  "of_unary s = (if hd s = CHR ''-'' then - int (length s - 1) else int (length s - 1))"

lemma of_unary [simp]: "of_unary (unary n) = n"
  by (simp add: of_unary_def unary_def)

definition plain_jwt :: jwt where
  "plain_jwt =
     \<lparr>jw_encode = (\<lambda>c secret alg. quote_dots secret @ quote_dots alg @ quote_dots (text_claim c ''sub'')
        @ quote_dots (text_claim c ''tenant_id'') @ quote_dots (text_claim c ''role'')
        @ quote_dots (unary (time_claim c ''exp'')) @ quote_dots (unary (time_claim c ''iat''))),
      jw_decode = (\<lambda>now tok secret algs.
        let (s, r1) = read_dots tok; (a, r2) = read_dots r1; (sub, r3) = read_dots r2; (ten, r4) = read_dots r3;
            (role, r5) = read_dots r4; (ex, r6) = read_dots r5; (ia, r7) = read_dots r6 in
        if s \<noteq> secret \<or> a \<notin> set algs \<or> r7 \<noteq> [] \<or> of_unary ex < whole_seconds now then Inl jwt_error
        else Inr (access_claims sub ten role (JInt (of_unary ex)) (JInt (of_unary ia))))\<rparr>"

lemma plain_jwt_laws: "jwt_laws plain_jwt"
proof -
  have "read_dots (quote_dots s) = (s, [])" for s using read_quote[of s "[]"] by simp
  then show ?thesis
    by (simp add: jwt_laws_def plain_jwt_def access_claims_def text_claim_def time_claim_def)
qed

end
