(* ===== verification/Xml_Text.thy ===== *)
theory Xml_Text
  imports Zenith_Prelude
begin

text \<open>
  XML as \<open>xml.etree.ElementTree\<close> builds and writes it: elements with attributes and children and
  no text of their own. \<open>xml_text\<close> is \<open>ET.tostring(..., encoding="unicode")\<close>. \<open>read_doc\<close> says how a
  reader takes such a text apart (start tags, attribute values up to the next quote with the
  references of XML resolved, end tags); it is the specification the writer is checked against.
\<close>

datatype xml = Elem (xml_tag: string) (xml_attrs: "(string \<times> string) list") (xml_kids: "xml list")

definition attr :: "xml \<Rightarrow> string \<Rightarrow> string" where
  "attr x k = (case map_of (xml_attrs x) k of None \<Rightarrow> [] | Some v \<Rightarrow> v)"

fun descendants :: "xml \<Rightarrow> xml list" where
  "descendants (Elem tag as kids) = concat (map (\<lambda>k. k # descendants k) kids)"

definition kids_tagged :: "string \<Rightarrow> xml \<Rightarrow> xml list" where
  "kids_tagged tag x = filter (\<lambda>k. xml_tag k = tag) (xml_kids x)"

section \<open>Writing\<close>

definition QUOTE :: char where "QUOTE = CHR 0x22"

definition references :: "(string \<times> char) list" where
  "references = [(''amp;'', CHR ''&''), (''lt;'', CHR ''<''), (''gt;'', CHR ''>''), (''quot;'', QUOTE),
     (''#13;'', CHR 0x0D), (''#10;'', CHR 0x0A), (''#09;'', CHR 0x09)]"

text \<open>\<open>_escape_attrib\<close>: the ampersand is replaced first, so the other replacements see none of its results.\<close>

definition escape_char :: "char \<Rightarrow> string" where
  "escape_char c = (case find (\<lambda>r. snd r = c) references of None \<Rightarrow> [c] | Some (r, _) \<Rightarrow> CHR ''&'' # r)"

definition escape_attrib :: "string \<Rightarrow> string" where
  "escape_attrib s = concat (map escape_char s)"

definition attr_text :: "string \<times> string \<Rightarrow> string" where
  "attr_text kv = '' '' @ fst kv @ [CHR ''='', QUOTE] @ escape_attrib (snd kv) @ [QUOTE]"

fun xml_text :: "xml \<Rightarrow> string" where
  "xml_text (Elem tag as kids) =
     ''<'' @ tag @ concat (map attr_text as) @
     (if kids = [] then '' />'' else ''>'' @ concat (map xml_text kids) @ ''</'' @ tag @ ''>'')"

section \<open>Reading\<close>

definition name_char :: "char \<Rightarrow> bool" where
  "name_char c \<longleftrightarrow> is_alnum c \<or> c = CHR ''-'' \<or> c = CHR ''_''"

function unescape :: "string \<Rightarrow> string" where
  "unescape s =
     (case s of
        [] \<Rightarrow> []
      | c # cs \<Rightarrow>
         if c = CHR ''&''
         then (case find (\<lambda>r. starts_with (fst r) cs) references of
                 None \<Rightarrow> c # unescape cs
               | Some (r, x) \<Rightarrow> x # unescape (drop (length r) cs))
         else c # unescape cs)"
  by pat_completeness auto
termination
  by (relation "measure length") auto

declare unescape.simps [simp del]

fun read_attrs :: "nat \<Rightarrow> string \<Rightarrow> (string \<times> string) list \<times> string" where
  "read_attrs 0 s = ([], s)"
| "read_attrs (Suc n) s =
     (let k = takeWhile name_char (tl s); r = drop (length k) (tl s) in
      if starts_with '' '' s \<and> k \<noteq> [] \<and> starts_with [CHR ''='', QUOTE] r
      then (let v = takeWhile (\<lambda>c. c \<noteq> QUOTE) (drop 2 r);
                (as, rest) = read_attrs n (drop (length v + 3) r)
            in ((k, unescape v) # as, rest))
      else ([], s))"

fun read_xml :: "nat \<Rightarrow> string \<Rightarrow> (xml \<times> string) option"
  and read_kids :: "nat \<Rightarrow> string \<Rightarrow> (xml list \<times> string) option" where
  "read_xml 0 s = None"
| "read_xml (Suc n) s =
     (if \<not> starts_with ''<'' s then None
      else
        let tag = takeWhile name_char (tl s); (as, r) = read_attrs (length s) (drop (length tag) (tl s)) in
        if tag = [] then None
        else if starts_with '' />'' r then Some (Elem tag as [], drop 3 r)
        else if starts_with ''>'' r then
          (case read_kids n (drop 1 r) of
             None \<Rightarrow> None
           | Some (kids, u) \<Rightarrow>
               if starts_with (''</'' @ tag @ ''>'') u then Some (Elem tag as kids, drop (length tag + 3) u) else None)
        else None)"
| "read_kids 0 s = None"
| "read_kids (Suc n) s =
     (if starts_with ''</'' s then Some ([], s)
      else case read_xml n s of
        None \<Rightarrow> None
      | Some (x, r) \<Rightarrow> (case read_kids n r of None \<Rightarrow> None | Some (xs, u) \<Rightarrow> Some (x # xs, u)))"

definition read_doc :: "string \<Rightarrow> xml option" where
  "read_doc s = (case read_xml (length s) s of Some (x, []) \<Rightarrow> Some x | _ \<Rightarrow> None)"

section \<open>What is written can be read\<close>

definition name_ok :: "string \<Rightarrow> bool" where
  "name_ok n \<longleftrightarrow> n \<noteq> [] \<and> list_all name_char n"

text \<open>Tags and attribute names are names; attribute values are any text.\<close>

fun xml_ok :: "xml \<Rightarrow> bool" where
  "xml_ok (Elem tag as kids) \<longleftrightarrow> name_ok tag \<and> list_all (\<lambda>kv. name_ok (fst kv)) as \<and> list_all xml_ok kids"

lemma starts_simps [simp]:
  "starts_with [] s" "starts_with (a # p) (c # s) \<longleftrightarrow> a = c \<and> starts_with p s" "\<not> starts_with (a # p) []"
  by (auto simp: starts_with_def)

lemma drop_past: "drop (length e + 3) (a # b # e @ c # s) = s"
  by (simp add: numeral_3_eq_3)

lemma escape_char_cases: "escape_char c = [c] \<and> c \<noteq> CHR ''&'' \<and> c \<noteq> QUOTE \<or> (\<exists>r. escape_char c = CHR ''&'' # r \<and> (r, c) \<in> set references)"
proof (cases "find (\<lambda>r. snd r = c) references")
  case None
  then have "\<forall>r\<in>set references. snd r \<noteq> c" by (auto simp: find_None_iff)
  then have "c \<noteq> CHR ''&'' \<and> c \<noteq> QUOTE" by (auto simp: references_def)
  with None show ?thesis by (simp add: escape_char_def)
next
  case (Some q)
  then have "q \<in> set references" "snd q = c" by (auto simp: find_Some_iff)
  with Some show ?thesis by (cases q) (auto simp: escape_char_def)
qed

lemma unescape_reference: "(r, c) \<in> set references \<Longrightarrow> unescape (CHR ''&'' # r @ s) = c # unescape s"
proof -
  assume "(r, c) \<in> set references"
  moreover have "\<forall>x\<in>set references. find (\<lambda>q. starts_with (fst q) (fst x @ s)) references = Some x"
    unfolding references_def by simp
  ultimately have "find (\<lambda>q. starts_with (fst q) (r @ s)) references = Some (r, c)" by fastforce
  then show ?thesis by (subst unescape.simps) simp
qed

lemma unescape_escape: "unescape (escape_attrib s) = s"
proof (induction s)
  case Nil
  then show ?case by (simp add: escape_attrib_def unescape.simps)
next
  case (Cons c s)
  have e: "escape_attrib (c # s) = escape_char c @ escape_attrib s" by (simp add: escape_attrib_def)
  from escape_char_cases[of c] show ?case
  proof
    assume "escape_char c = [c] \<and> c \<noteq> CHR ''&'' \<and> c \<noteq> QUOTE"
    then show ?thesis unfolding e using Cons by (subst unescape.simps) simp
  next
    assume "\<exists>r. escape_char c = CHR ''&'' # r \<and> (r, c) \<in> set references"
    then show ?thesis unfolding e using Cons unescape_reference by auto
  qed
qed

lemma escape_no_quote: "QUOTE \<notin> set (escape_attrib s)"
proof -
  have "QUOTE \<notin> set (escape_char c)" for c
    using escape_char_cases[of c] by (auto simp: references_def QUOTE_def)
  then show ?thesis by (auto simp: escape_attrib_def)
qed

lemma takeWhile_stop: "\<forall>x\<in>set a. p x \<Longrightarrow> \<not> p c \<Longrightarrow> takeWhile p (a @ c # s) = a"
  by (induction a) auto

lemma name_stops: "name_ok n \<Longrightarrow> \<not> name_char c \<Longrightarrow> takeWhile name_char (n @ c # s) = n"
  by (rule takeWhile_stop) (simp_all add: name_ok_def list_all_iff)

lemma not_name: "\<not> name_char (CHR '' '')" "\<not> name_char (CHR ''='')" "\<not> name_char (CHR ''>'')" "\<not> name_char (CHR ''/'')"
  "\<not> name_char (CHR ''<'')"
  by code_simp+

lemma read_attrs_text:
  assumes "list_all (\<lambda>kv. name_ok (fst kv)) as" and "length as \<le> n"
    and "starts_with '' />'' rest \<or> starts_with ''>'' rest \<or> starts_with ''/>'' rest"
  shows "read_attrs n (concat (map attr_text as) @ rest) = (as, rest)"
  using assms(1,2)
proof (induction as arbitrary: n)
  case Nil
  have "starts_with '' '' rest \<Longrightarrow> takeWhile name_char (tl rest) = []"
    using assms(3) not_name by (auto simp: starts_with_iff)
  then show ?case by (cases n) (auto simp: Let_def)
next
  case (Cons kv as)
  obtain k v where kv: "kv = (k, v)" by (cases kv)
  obtain m where n: "n = Suc m" "length as \<le> m" using Cons.prems(2) by (cases n) auto
  have k: "name_ok k" and as: "list_all (\<lambda>kv. name_ok (fst kv)) as" using Cons.prems(1) kv by simp_all
  let ?t = "concat (map attr_text as) @ rest"
  have s: "concat (map attr_text (kv # as)) @ rest = CHR '' '' # k @ CHR ''='' # QUOTE # escape_attrib v @ QUOTE # ?t"
    by (simp add: kv attr_text_def)
  have tk: "takeWhile name_char (k @ CHR ''='' # u) = k" for u by (rule name_stops[OF k not_name(2)])
  have tv: "takeWhile (\<lambda>c. c \<noteq> QUOTE) (escape_attrib v @ QUOTE # u) = escape_attrib v" for u
    by (rule takeWhile_stop) (use escape_no_quote in auto)
  have "k \<noteq> []" using k by (simp add: name_ok_def)
  then show ?case
    unfolding s n(1) using Cons.IH[OF as n(2)]
    by (simp add: Let_def tk tv unescape_escape kv drop_past del: drop.simps)
qed

fun cost :: "xml \<Rightarrow> nat" where
  "cost (Elem tag as kids) = 2 + sum_list (map (\<lambda>k. Suc (cost k)) kids)"

lemma cost_length: "cost x < length (xml_text x)"
proof (induction x)
  case (Elem tag as kids)
  have "sum_list (map (\<lambda>k. Suc (cost k)) kids) \<le> sum_list (map (\<lambda>k. length (xml_text k)) kids)"
    using Elem by (intro sum_list_mono) (auto simp: Suc_le_eq)
  also have "\<dots> = length (concat (map xml_text kids))" by (simp add: length_concat comp_def)
  finally show ?case by auto
qed

lemma text_starts: "xml_ok x \<Longrightarrow> \<exists>c s. xml_text x @ r = CHR ''<'' # c # s \<and> c \<noteq> CHR ''/''"
  using not_name(4) by (cases x) (auto simp: name_ok_def neq_Nil_conv)

lemma read_kids_text:
  assumes "\<And>k r n. k \<in> set kids \<Longrightarrow> cost k \<le> n \<Longrightarrow> read_xml n (xml_text k @ r) = Some (k, r)"
    and "list_all xml_ok kids" and "Suc (sum_list (map (\<lambda>k. Suc (cost k)) kids)) \<le> n"
  shows "read_kids n (concat (map xml_text kids) @ ''</'' @ r) = Some (kids, ''</'' @ r)"
  using assms
proof (induction kids arbitrary: n)
  case Nil
  then show ?case by (cases n) simp_all
next
  case (Cons k kids)
  obtain m where n: "n = Suc m" using Cons.prems(3) by (cases n) auto
  let ?t = "concat (map xml_text kids) @ ''</'' @ r"
  have "\<not> starts_with ''</'' (xml_text k @ ?t)"
    using text_starts[of k ?t] Cons.prems(2) by auto
  moreover have "read_xml m (xml_text k @ ?t) = Some (k, ?t)" using Cons.prems n by simp
  moreover have "read_kids m ?t = Some (kids, ''</'' @ r)" by (rule Cons.IH) (use Cons.prems n in auto)
  ultimately show ?case by (simp add: n)
qed

lemma read_xml_text: "xml_ok x \<Longrightarrow> cost x \<le> n \<Longrightarrow> read_xml n (xml_text x @ r) = Some (x, r)"
proof (induction x arbitrary: n r)
  case (Elem tag as kids)
  obtain m where n: "n = Suc m" "Suc (sum_list (map (\<lambda>k. Suc (cost k)) kids)) \<le> m"
    using Elem.prems(2) by (cases n) auto
  have ok: "name_ok tag" "list_all (\<lambda>kv. name_ok (fst kv)) as" "list_all xml_ok kids" using Elem.prems(1) by simp_all
  let ?r = "(if kids = [] then '' />'' else ''>'' @ concat (map xml_text kids) @ ''</'' @ tag @ ''>'') @ r"
  have t: "xml_text (Elem tag as kids) @ r = CHR ''<'' # tag @ concat (map attr_text as) @ ?r" by simp
  have tag: "takeWhile name_char (tag @ concat (map attr_text as) @ ?r) = tag"
  proof (cases as)
    case Nil
    then show ?thesis using name_stops[OF ok(1) not_name(1)] name_stops[OF ok(1) not_name(3)] by simp
  next
    case (Cons kv as')
    then show ?thesis using name_stops[OF ok(1) not_name(1)] by (simp add: attr_text_def)
  qed
  have len: "length as \<le> length (CHR ''<'' # tag @ concat (map attr_text as) @ ?r)"
  proof -
    have "length as \<le> length (concat (map attr_text as))" by (induction as) (auto simp: attr_text_def)
    then show ?thesis by simp
  qed
  have ra: "read_attrs (length (CHR ''<'' # tag @ concat (map attr_text as) @ ?r)) (concat (map attr_text as) @ ?r) = (as, ?r)"
    by (rule read_attrs_text[OF ok(2) len]) (simp)
  have ne: "tag \<noteq> []" using ok(1) by (simp add: name_ok_def)
  define q where "q = ?r"
  note ra' = ra[folded q_def] and tag' = tag[folded q_def]
  have step: "read_xml (Suc m) (CHR ''<'' # tag @ concat (map attr_text as) @ q) =
      (if starts_with '' />'' q then Some (Elem tag as [], drop 3 q)
       else if starts_with ''>'' q then
          (case read_kids m (drop 1 q) of
             None \<Rightarrow> None
           | Some (kids, u) \<Rightarrow>
               if starts_with (''</'' @ tag @ ''>'') u then Some (Elem tag as kids, drop (length tag + 3) u) else None)
        else None)"
    unfolding read_xml.simps Let_def list.sel tag' append_eq_conv_conj[THEN iffD1, OF refl, THEN conjunct2]
    using ra' ne by simp
  show ?case
  proof (cases "kids = []")
    case True
    then have "q = '' />'' @ r" by (simp add: q_def)
    then show ?thesis unfolding t q_def[symmetric] n(1) step using True by simp
  next
    case False
    then have q: "q = ''>'' @ concat (map xml_text kids) @ ''</'' @ (tag @ ''>'' @ r)" by (simp add: q_def)
    have "read_kids m (concat (map xml_text kids) @ ''</'' @ (tag @ ''>'' @ r)) = Some (kids, ''</'' @ (tag @ ''>'' @ r))"
      by (rule read_kids_text[OF _ ok(3) n(2)]) (use Elem.IH ok(3) in \<open>auto simp: list_all_iff\<close>)
    moreover have "starts_with (''</'' @ tag @ ''>'') (''</'' @ (tag @ ''>'' @ r))"
      using starts_with_append[of "''</'' @ tag @ ''>''" r] by simp
    moreover have "drop (length tag + 3) (''</'' @ (tag @ ''>'' @ r)) = r"
      using drop_past[of tag _ _ _ r] by simp
    ultimately show ?thesis unfolding t q_def[symmetric] n(1) step using q by simp
  qed
qed

lemma read_doc_text: "xml_ok x \<Longrightarrow> read_doc (xml_text x) = Some x"
  using read_xml_text[of x "length (xml_text x)" "[]"] cost_length[of x] by (simp add: read_doc_def)

end
