(* ===== verification/Directory.thy ===== *)
theory Directory
  imports Trunks Xml_Text
begin

text \<open>
  \<open>api/freeswitch_directory.py\<close> and \<open>services/legacy_directory.py\<close>: the XML directory that
  FreeSWITCH asks for the account of a SIP user. The trunks come from \<open>Trunks\<close>, their passwords
  through \<open>Credentials\<close>, the users of the old system from a file whose parsed content is cached by
  its modification time. The XML parser of the standard library (\<open>ET.fromstring\<close>) is an argument
  of the file provider; what the endpoint writes is checked against \<open>read_doc\<close>.
\<close>

section \<open>Users of the old system\<close>

record legacy_user =
  lu_username :: string
  lu_password :: string
  lu_params :: "(string \<times> string) list"
  lu_variables :: "(string \<times> string) list"

definition name_value :: "xml \<Rightarrow> string \<times> string" where
  "name_value x = (attr x ''name'', attr x ''value'')"

text \<open>\<open>element.findall("./params/param")\<close>: the grandchildren below each \<open>params\<close>.\<close>

definition grandkids :: "string \<Rightarrow> string \<Rightarrow> xml \<Rightarrow> xml list" where
  "grandkids outer inner x = concat (map (kids_tagged inner) (kids_tagged outer x))"

definition legacy_user_of :: "string \<Rightarrow> xml \<Rightarrow> legacy_user" where
  "legacy_user_of username x =
     (let params = map name_value (grandkids ''params'' ''param'' x) in
      \<lparr>lu_username = username, lu_password = (case map_of params ''password'' of None \<Rightarrow> [] | Some v \<Rightarrow> v),
       lu_params = params, lu_variables = map name_value (grandkids ''variables'' ''variable'' x)\<rparr>)"

fun collect_users :: "xml list \<Rightarrow> (string \<times> legacy_user) list \<Rightarrow> exc + (string \<times> legacy_user) list" where
  "collect_users [] users = Inr users"
| "collect_users (x # xs) users =
     (let username = py_strip (attr x ''id'') in
      if username = [] \<or> map_of users username \<noteq> None then Inl (LegacyDirectoryError ''legacy_directory_ambiguous_user'')
      else collect_users xs (users @ [(username, legacy_user_of username x)]))"

definition user_elements :: "xml \<Rightarrow> xml list" where
  "user_elements doc = (if xml_tag doc = ''user'' then [doc] else filter (\<lambda>x. xml_tag x = ''user'') (descendants doc))"

definition parse_legacy :: "(string \<Rightarrow> xml option) \<Rightarrow> string \<Rightarrow> exc + xml" where
  "parse_legacy parse raw =
     (let lowered = py_lower raw in
      if contains_str ''<!doctype'' lowered \<or> contains_str ''<!entity'' lowered
      then Inl (LegacyDirectoryError ''legacy_directory_unsafe_xml'')
      else case parse raw of
        Some x \<Rightarrow> Inr x
      | None \<Rightarrow>
         (case parse (''<legacy-directory>'' @ raw @ ''</legacy-directory>'') of
            Some x \<Rightarrow> Inr x | None \<Rightarrow> Inl (LegacyDirectoryError ''legacy_directory_invalid'')))"

text \<open>What \<open>stat\<close> and \<open>read_text\<close> find at the path; a text that is not UTF-8 is a \<open>ValueError\<close>.\<close>

datatype legacy_file = Missing | StatFails exc | Present int "exc + string"

record legacy_provider =
  lp_mtime :: "int option"
  lp_users :: "(string \<times> legacy_user) list"

definition new_provider :: legacy_provider where
  "new_provider = \<lparr>lp_mtime = None, lp_users = []\<rparr>"

definition load_legacy :: "(string \<Rightarrow> xml option) \<Rightarrow> exc + string \<Rightarrow> exc + (string \<times> legacy_user) list" where
  "load_legacy parse content =
     (case content of
        Inl e \<Rightarrow> Inl (if is_OSError e \<or> is_ValueError e then LegacyDirectoryError ''legacy_directory_invalid'' else e)
      | Inr raw \<Rightarrow> (case parse_legacy parse raw of Inl e \<Rightarrow> Inl e | Inr doc \<Rightarrow> collect_users (user_elements doc) []))"

definition refresh :: "(string \<Rightarrow> xml option) \<Rightarrow> legacy_file \<Rightarrow> (legacy_provider, unit) prog" where
  "refresh parse file' lp =
     (case file' of
        Missing \<Rightarrow> (Inr (), \<lparr>lp_mtime = None, lp_users = []\<rparr>)
      | StatFails e \<Rightarrow> (Inl e, lp)
      | Present mtime content \<Rightarrow>
         if lp_mtime lp = Some mtime then (Inr (), lp)
         else (case load_legacy parse content of
                 Inl e \<Rightarrow> (Inl e, lp)
               | Inr users \<Rightarrow> (Inr (), \<lparr>lp_mtime = Some mtime, lp_users = users\<rparr>)))"

definition legacy_lookup :: "(string \<Rightarrow> xml option) \<Rightarrow> legacy_file \<Rightarrow> string \<Rightarrow> (legacy_provider, legacy_user option) prog" where
  "legacy_lookup parse file' username =
     bindp (refresh parse file') (\<lambda>_. gets (\<lambda>lp. map_of (lp_users lp) username))"

definition legacy_profiles :: "string list" where
  "legacy_profiles = [''internal'', ''internal-7060'', ''internal-5062'']"

definition legacy_contains :: "(string \<Rightarrow> xml option) \<Rightarrow> legacy_file \<Rightarrow> string \<Rightarrow> string \<Rightarrow> (legacy_provider, bool) prog" where
  "legacy_contains parse file' sip_profile username =
     (if sip_profile \<notin> set legacy_profiles then ret False
      else bindp (legacy_lookup parse file' username) (\<lambda>u. ret (u \<noteq> None)))"

section \<open>The account of a SIP user\<close>

datatype account = TrunkAccount trunk_row string | LegacyAccount legacy_user

definition lookup_account ::
    "fernet \<Rightarrow> string list \<Rightarrow> (string \<Rightarrow> xml option) \<Rightarrow> legacy_file \<Rightarrow> public_db \<Rightarrow> string \<Rightarrow> string
     \<Rightarrow> (legacy_provider, account option) prog" where
  "lookup_account F ks parse file' db sip_profile username lp =
     (let trunk = lookup_directory_identity True sip_profile username db in
      case legacy_lookup parse file' username lp of
        (Inl e, lp') \<Rightarrow> (Inl e, lp')
      | (Inr legacy, lp') \<Rightarrow>
         (case (trunk, legacy) of
            (Some _, Some _) \<Rightarrow> (Inl (AmbiguousDirectoryIdentityError ''directory_identity_ambiguous''), lp')
          | (Some t, None) \<Rightarrow>
             (case cipher_decrypt F ks (tr_secret t) of
                Inl e \<Rightarrow> (Inl (DirectoryCredentialUnavailableError (tr_id t)), lp')
              | Inr password \<Rightarrow> (Inr (Some (TrunkAccount t password)), lp'))
          | (None, Some u) \<Rightarrow> (Inr (Some (LegacyAccount u)), lp')
          | (None, None) \<Rightarrow> (Inr None, lp')))"

section \<open>Requests and answers\<close>

text \<open>\<open>form.get(a) or form.get(b) or ...\<close>\<close>

fun first_filled :: "(string \<times> string) list \<Rightarrow> string list \<Rightarrow> string option" where
  "first_filled form [] = None"
| "first_filled form (k # ks) =
     (case map_of form k of None \<Rightarrow> first_filled form ks | Some v \<Rightarrow> if v = [] then first_filled form ks else Some v)"

definition extract_directory_lookup :: "(string \<times> string) list \<Rightarrow> (string \<times> string) option" where
  "extract_directory_lookup form =
     (if map_of form ''section'' \<noteq> Some ''directory'' then None
      else case (first_filled form [''sip_profile'', ''sip_profile_name'', ''variable_sofia_profile_name''],
                 first_filled form [''sip_auth_username'', ''user'']) of
        (Some prof, Some username) \<Rightarrow> Some (prof, username)
      | _ \<Rightarrow> None)"

definition account_name :: "account \<Rightarrow> string" where
  "account_name a = (case a of TrunkAccount t _ \<Rightarrow> tr_user t | LegacyAccount u \<Rightarrow> lu_username u)"

text \<open>\<open>user.get("params") or (("password", user["password"]),)\<close>\<close>

definition account_params :: "account \<Rightarrow> (string \<times> string) list" where
  "account_params a =
     (case a of
        TrunkAccount _ password \<Rightarrow> [(''password'', password)]
      | LegacyAccount u \<Rightarrow> if lu_params u = [] then [(''password'', lu_password u)] else lu_params u)"

definition account_variables :: "account \<Rightarrow> (string \<times> string) list" where
  "account_variables a =
     (case a of
        TrunkAccount t _ \<Rightarrow>
          [(''user_context'', ''default''), (''zenith_tenant_id'', tr_tenant t), (''zenith_pbx_id'', tr_pbx t),
           (''zenith_condominium_id'', tr_condo t), (''zenith_trunk_id'', tr_id t)]
          @ (case tr_prefix t of None \<Rightarrow> [] | Some p \<Rightarrow> [(''zenith_trunk_prefix'', p)])
      | LegacyAccount u \<Rightarrow> lu_variables u)"

definition named :: "string \<Rightarrow> string \<times> string \<Rightarrow> xml" where
  "named tag nv = Elem tag [(''name'', fst nv), (''value'', snd nv)] []"

definition directory_tree :: "string \<Rightarrow> account \<Rightarrow> xml" where
  "directory_tree domain a =
     Elem ''document'' [(''type'', ''freeswitch/xml'')] [Elem ''section'' [(''name'', ''directory'')]
      [Elem ''domain'' [(''name'', domain)] [Elem ''groups'' [] [Elem ''group'' [(''name'', ''default'')]
       [Elem ''users'' [] [Elem ''user'' [(''id'', account_name a)]
        [Elem ''params'' [] (map (named ''param'') (account_params a)),
         Elem ''variables'' [] (map (named ''variable'') (account_variables a))]]]]]]]"

definition build_directory_xml :: "string \<Rightarrow> account \<Rightarrow> string" where
  "build_directory_xml domain a = xml_text (directory_tree domain a)"

text \<open>\<open>_not_found_xml()\<close>: a text of its own, not written by \<open>ElementTree\<close>.\<close>

definition q :: string where "q = [QUOTE]"

definition not_found_xml :: string where
  "not_found_xml = ''<document type='' @ q @ ''freeswitch/xml'' @ q @ ''><section name='' @ q @ ''result'' @ q @ ''><result status=''
     @ q @ ''not found'' @ q @ ''/></section></document>''"

definition utf8_length :: "string \<Rightarrow> nat" where
  "utf8_length s = sum_list (map (\<lambda>c. if (of_char c :: nat) < 128 then 1 else 2) s)"

definition xml_response :: "string \<Rightarrow> string" where
  "xml_response payload = (if utf8_length payload > 65536 then not_found_xml else payload)"

definition is_ascii :: "string \<Rightarrow> bool" where
  "is_ascii s \<longleftrightarrow> list_all (\<lambda>c. (of_char c :: nat) < 128) s"

text \<open>\<open>hmac.compare_digest\<close> on two texts raises \<open>TypeError\<close> unless both are ASCII.\<close>

definition compare_digest :: "string \<Rightarrow> string \<Rightarrow> exc + bool" where
  "compare_digest a b =
     (if is_ascii a \<and> is_ascii b then Inr (a = b)
      else Inl (TypeError ''comparing strings with non-ASCII characters is not supported''))"

record directory_settings =
  ds_username :: string
  ds_password :: string
  ds_keys :: string

definition authenticated :: "directory_settings \<Rightarrow> (string \<times> string) option \<Rightarrow> exc + bool" where
  "authenticated cfg credentials =
     (case credentials of
        None \<Rightarrow> Inr False
      | Some (u, p) \<Rightarrow>
         (case compare_digest u (ds_username cfg) of
            Inl e \<Rightarrow> Inl e
          | Inr b \<Rightarrow> if b then compare_digest p (ds_password cfg) else Inr False))"

definition keys_of :: "directory_settings \<Rightarrow> string list" where
  "keys_of cfg = filter (\<lambda>k. k \<noteq> []) (map py_strip (split_on (CHR '','') (ds_keys cfg)))"

text \<open>
  The endpoint. Its dependencies are resolved before its body, so a bad key answers 503 even to
  a request without credentials; each request has a provider of its own.
\<close>

definition answer_form ::
    "fernet \<Rightarrow> string list \<Rightarrow> (string \<Rightarrow> xml option) \<Rightarrow> legacy_file \<Rightarrow> public_db \<Rightarrow> (string \<times> string) list \<Rightarrow> exc + string" where
  "answer_form F ks parse file' db form =
     (case extract_directory_lookup form of
        None \<Rightarrow> Inr (xml_response not_found_xml)
      | Some (sip_profile, username) \<Rightarrow>
         (case fst (lookup_account F ks parse file' db sip_profile username new_provider) of
            Inl (AmbiguousDirectoryIdentityError m) \<Rightarrow> Inr (xml_response not_found_xml)
          | Inl (DirectoryCredentialUnavailableError m) \<Rightarrow> Inl (HTTPException 503 ''credential_key_unavailable'')
          | Inl e \<Rightarrow> Inl e
          | Inr None \<Rightarrow> Inr (xml_response not_found_xml)
          | Inr (Some a) \<Rightarrow>
             (let domain = (case first_filled form [''domain'', ''key_value''] of None \<Rightarrow> ''zenith.local'' | Some d \<Rightarrow> d)
              in Inr (xml_response (build_directory_xml domain a)))))"

definition freeswitch_directory ::
    "fernet \<Rightarrow> directory_settings \<Rightarrow> (string \<Rightarrow> xml option) \<Rightarrow> legacy_file \<Rightarrow> public_db \<Rightarrow> (string \<times> string) option
     \<Rightarrow> (string \<times> string) list \<Rightarrow> exc + string" where
  "freeswitch_directory F cfg parse file' db credentials form =
     (case new_cipher F (keys_of cfg) of
        Inl e \<Rightarrow> Inl (HTTPException 503 ''credential_key_unavailable'')
      | Inr ks \<Rightarrow>
         (case authenticated cfg credentials of
            Inl e \<Rightarrow> Inl e
          | Inr ok \<Rightarrow> if \<not> ok then Inl (HTTPException 401 ''unauthorized'') else answer_form F ks parse file' db form))"

section \<open>The cache of the file\<close>

text \<open>C28. The cache of the legacy file is invisible: if the modification time of the file tells its
  content, then after any sequence of lookups, of any users and at any versions of the file, missing,
  unreadable and malformed ones included, the next lookup gives what a new provider would give.\<close>

theorem legacy_cache_is_invisible:
  assumes "\<forall>f\<in>set (f' # map fst history). f = Missing \<or> (\<exists>e. f = StatFails e) \<or> (\<exists>m. f = Present m (content m))"
  shows "fst (legacy_lookup parse f' u (run_ops (\<lambda>(f, w) lp. snd (legacy_lookup parse f w lp)) history new_provider))
    = fst (legacy_lookup parse f' u new_provider)"
proof -
  define known where "known f \<longleftrightarrow> f = Missing \<or> (\<exists>e. f = StatFails e) \<or> (\<exists>m. f = Present m (content m))" for f
  define ok where "ok lp \<longleftrightarrow> lp_mtime lp = None \<and> lp_users lp = []
     \<or> (\<exists>m. lp_mtime lp = Some m \<and> load_legacy parse (content m) = Inr (lp_users lp))" for lp :: legacy_provider
  have step: "ok (snd (legacy_lookup parse f w lp))" if "ok lp" "known f" for f w lp
    using that
    by (auto simp: ok_def known_def legacy_lookup_def bindp_def refresh_def split: legacy_file.splits sum.splits)
  have "ok (run_ops (\<lambda>(f, w) lp. snd (legacy_lookup parse f w lp)) h lp)" if "ok lp" "\<forall>f\<in>set (map fst h). known f" for h lp
    using that step by (induction h arbitrary: lp) auto
  moreover have "ok new_provider" by (simp add: ok_def new_provider_def)
  moreover have "\<forall>f\<in>set (map fst history). known f" "known f'" using assms by (auto simp: known_def)
  ultimately have "ok (run_ops (\<lambda>(f, w) lp. snd (legacy_lookup parse f w lp)) history new_provider)" by blast
  then show ?thesis
    using \<open>known f'\<close>
    by (auto simp: ok_def known_def legacy_lookup_def bindp_def refresh_def new_provider_def split: sum.splits)
qed

section \<open>What the endpoint answers\<close>

lemma named_ok: "name_ok tag \<Longrightarrow> xml_ok (named tag nv)"
proof -
  assume "name_ok tag"
  moreover have "name_ok ''name''" "name_ok ''value''" by code_simp+
  ultimately show ?thesis by (simp add: named_def)
qed

lemma directory_tree_ok: "xml_ok (directory_tree domain a)"
proof -
  have n: "name_ok ''document''" "name_ok ''type''" "name_ok ''section''" "name_ok ''name''" "name_ok ''domain''" "name_ok ''groups''"
    "name_ok ''group''" "name_ok ''users''" "name_ok ''user''" "name_ok ''id''" "name_ok ''params''" "name_ok ''variables''"
    "name_ok ''param''" "name_ok ''variable''"
    by code_simp+
  show ?thesis by (simp add: directory_tree_def n named_ok list_all_iff)
qed

lemma authenticated_True: "authenticated cfg cred = Inr True \<Longrightarrow> cred = Some (ds_username cfg, ds_password cfg)"
  by (auto simp: authenticated_def compare_digest_def split: option.splits if_splits sum.splits)

text \<open>C29. What the directory hands out: an answer without an error was asked for with the right user
  name and password, and is either the document \<open>not found\<close> or at most 65536 bytes of XML that a
  reader takes apart into exactly the document of the account the lookup found, whatever characters
  its name, password, prefix, parameters and domain hold: no value can add markup of its own.\<close>

theorem directory_answer_is_the_account:
  assumes "freeswitch_directory F cfg parse file' db cred form = Inr p"
  shows "cred = Some (ds_username cfg, ds_password cfg)
    \<and> (p = not_found_xml \<or> utf8_length p \<le> 65536
        \<and> (\<exists>ks prof user a domain. new_cipher F (keys_of cfg) = Inr ks \<and> extract_directory_lookup form = Some (prof, user)
            \<and> fst (lookup_account F ks parse file' db prof user new_provider) = Inr (Some a)
            \<and> read_doc p = Some (directory_tree domain a)))"
proof -
  obtain ks where ks: "new_cipher F (keys_of cfg) = Inr ks" and au: "authenticated cfg cred = Inr True"
    and p: "answer_form F ks parse file' db form = Inr p"
    using assms by (auto simp: freeswitch_directory_def split: sum.splits if_splits)
  have nf: "xml_response not_found_xml = not_found_xml" by (simp add: xml_response_def)
  have "p = not_found_xml \<or> (\<exists>prof user a domain. extract_directory_lookup form = Some (prof, user)
      \<and> fst (lookup_account F ks parse file' db prof user new_provider) = Inr (Some a)
      \<and> p = xml_response (build_directory_xml domain a))"
  proof (cases "extract_directory_lookup form")
    case None
    then show ?thesis using p by (simp add: answer_form_def nf)
  next
    case (Some x)
    obtain prof user where x: "extract_directory_lookup form = Some (prof, user)" using Some by (cases x) simp
    show ?thesis
    proof (cases "fst (lookup_account F ks parse file' db prof user new_provider)")
      case (Inl e)
      then show ?thesis using p by (cases e) (simp_all add: answer_form_def nf x)
    next
      case (Inr r)
      show ?thesis
      proof (cases r)
        case None
        then show ?thesis using p Inr by (simp add: answer_form_def nf x)
      next
        case (Some a)
        have "p = xml_response (build_directory_xml
            (case first_filled form [''domain'', ''key_value''] of None \<Rightarrow> ''zenith.local'' | Some d \<Rightarrow> d) a)"
          using p Inr Some by (simp add: answer_form_def x del: first_filled.simps)
        then show ?thesis using x Inr Some by blast
      qed
    qed
  qed
  moreover have "xml_response (build_directory_xml domain a) = not_found_xml
      \<or> utf8_length (xml_response (build_directory_xml domain a)) \<le> 65536
        \<and> read_doc (xml_response (build_directory_xml domain a)) = Some (directory_tree domain a)" for domain a
    by (simp add: xml_response_def build_directory_xml_def read_doc_text[OF directory_tree_ok])
  ultimately show ?thesis using authenticated_True[OF au] ks by blast
qed

text \<open>One bad file stops every registration: while the legacy file is there and cannot be used, every
  request with the right credentials that names a user ends with the error of the file, which no
  clause of the endpoint translates, also for the trunks, whose accounts do not come from it.\<close>

theorem broken_legacy_file_stops_all:
  assumes "load_legacy parse content = Inl (LegacyDirectoryError m)" and "extract_directory_lookup form = Some (prof, user)"
    and "new_cipher F (keys_of cfg) = Inr ks" and "is_ascii (ds_username cfg)" and "is_ascii (ds_password cfg)"
  shows "freeswitch_directory F cfg parse (Present mtime content) db (Some (ds_username cfg, ds_password cfg)) form
    = Inl (LegacyDirectoryError m)"
proof -
  have "authenticated cfg (Some (ds_username cfg, ds_password cfg)) = Inr True"
    using assms(4,5) by (simp add: authenticated_def compare_digest_def)
  moreover have "fst (lookup_account F ks parse (Present mtime content) db prof user new_provider) = Inl (LegacyDirectoryError m)"
    using assms(1) by (simp add: lookup_account_def legacy_lookup_def bindp_def refresh_def new_provider_def)
  ultimately show ?thesis using assms(2,3) by (simp add: freeswitch_directory_def answer_form_def)
qed

text \<open>A legacy user without parameters gets an empty password, not none.\<close>

lemma legacy_user_without_params:
  assumes "grandkids ''params'' ''param'' x = []"
  shows "account_params (LegacyAccount (legacy_user_of username x)) = [(''password'', [])]"
  using assms by (simp add: account_params_def legacy_user_of_def)

section \<open>A small directory\<close>

definition sample_cfg :: directory_settings where
  "sample_cfg = \<lparr>ds_username = ''fs'', ds_password = ''pw'', ds_keys = '' k , ''\<rparr>"

definition legacy_tree :: xml where
  "legacy_tree = Elem ''include'' [] [Elem ''user'' [(''id'', ''900'')]
     [Elem ''params'' [] [named ''param'' (''password'', ''a'' @ q @ ''>'')]]]"

definition legacy_doc :: string where
  "legacy_doc = xml_text legacy_tree"

definition ask :: "string \<Rightarrow> (string \<times> string) list" where
  "ask user = [(''section'', ''directory''), (''sip_profile'', ''internal''), (''user'', user)]"

theorem legacy_cache_is_invisible_witness:
  "fst (legacy_lookup read_doc (Present 2 (Inr legacy_doc)) ''900''
      (run_ops (\<lambda>(f, w) lp. snd (legacy_lookup read_doc f w lp)) [(Present 1 (Inr ''<''), ''7''), (Missing, ''8'')] new_provider))
    = fst (legacy_lookup read_doc (Present 2 (Inr legacy_doc)) ''900'' new_provider)"
  by (rule legacy_cache_is_invisible[where content = "\<lambda>m. if m = 1 then Inr ''<'' else Inr legacy_doc"]) simp

lemma legacy_doc_read: "parse_legacy read_doc legacy_doc = Inr legacy_tree"
proof -
  have "xml_ok legacy_tree" by code_simp
  then have "read_doc legacy_doc = Some legacy_tree" by (simp add: legacy_doc_def read_doc_text)
  moreover have "\<not> contains_str ''<!doctype'' (py_lower legacy_doc)" "\<not> contains_str ''<!entity'' (py_lower legacy_doc)"
    by code_simp+
  ultimately show ?thesis by (simp add: parse_legacy_def)
qed

lemma legacy_doc_users: "collect_users (user_elements legacy_tree) []
    = Inr [(''900'', \<lparr>lu_username = ''900'', lu_password = ''a'' @ q @ ''>'', lu_params = [(''password'', ''a'' @ q @ ''>'')], lu_variables = []\<rparr>)]"
  by code_simp

lemma sample_answer:
  "freeswitch_directory tagging_fernet sample_cfg read_doc (Present 1 (Inr legacy_doc)) office_db (Some (''fs'', ''pw'')) (ask ''900'')
   = Inr (xml_response (build_directory_xml ''zenith.local'' (LegacyAccount
       \<lparr>lu_username = ''900'', lu_password = ''a'' @ q @ ''>'', lu_params = [(''password'', ''a'' @ q @ ''>'')], lu_variables = []\<rparr>)))"
proof -
  have "lookup_directory_identity True ''internal'' ''900'' office_db = None" by code_simp
  moreover have "extract_directory_lookup (ask ''900'') = Some (''internal'', ''900'')"
    "first_filled (ask ''900'') [''domain'', ''key_value''] = None"
    "new_cipher tagging_fernet (keys_of sample_cfg) = Inr [''k'']" "authenticated sample_cfg (Some (''fs'', ''pw'')) = Inr True"
    by code_simp+
  ultimately show ?thesis
    by (simp add: freeswitch_directory_def answer_form_def lookup_account_def legacy_lookup_def refresh_def bindp_def
        load_legacy_def legacy_doc_read legacy_doc_users new_provider_def gets_def)
qed

lemma sample_answer_found:
  "build_directory_xml ''zenith.local'' (LegacyAccount
       \<lparr>lu_username = ''900'', lu_password = ''a'' @ q @ ''>'', lu_params = [(''password'', ''a'' @ q @ ''>'')], lu_variables = []\<rparr>) \<noteq> not_found_xml"
  by code_simp

lemma sample_answer_short:
  "utf8_length (build_directory_xml ''zenith.local'' (LegacyAccount
       \<lparr>lu_username = ''900'', lu_password = ''a'' @ q @ ''>'', lu_params = [(''password'', ''a'' @ q @ ''>'')], lu_variables = []\<rparr>)) < 1000"
  by code_simp

theorem directory_answer_is_the_account_witness:
  "\<exists>p domain a. freeswitch_directory tagging_fernet sample_cfg read_doc (Present 1 (Inr legacy_doc)) office_db (Some (''fs'', ''pw''))
      (ask ''900'') = Inr p \<and> read_doc p = Some (directory_tree domain a)"
proof -
  obtain p where p: "freeswitch_directory tagging_fernet sample_cfg read_doc (Present 1 (Inr legacy_doc)) office_db (Some (''fs'', ''pw''))
      (ask ''900'') = Inr p" "p \<noteq> not_found_xml"
    using sample_answer sample_answer_found sample_answer_short by (simp add: xml_response_def)
  from directory_answer_is_the_account[OF p(1)] p show ?thesis by blast
qed

theorem broken_legacy_file_stops_all_witness:
  "freeswitch_directory tagging_fernet sample_cfg read_doc (Present 1 (Inr ''<'')) office_db (Some (''fs'', ''pw'')) (ask ''u1'')
    = Inl (LegacyDirectoryError ''legacy_directory_invalid'')"
proof -
  have e: "load_legacy read_doc (Inr ''<'') = Inl (LegacyDirectoryError ''legacy_directory_invalid'')"
    "extract_directory_lookup (ask ''u1'') = Some (''internal'', ''u1'')"
    "new_cipher tagging_fernet (keys_of sample_cfg) = Inr [''k'']"
    "is_ascii (ds_username sample_cfg)" "is_ascii (ds_password sample_cfg)"
    by code_simp+
  from broken_legacy_file_stops_all[OF e, of 1 office_db] show ?thesis by (simp add: sample_cfg_def)
qed

end
