(* ===== verification/Admin.thy ===== *)
theory Admin
  imports Auth Directory Trunk_Import Trunk_State
begin

text \<open>
  \<open>api/routers/trunks.py\<close> and \<open>api/routers/pbxs.py\<close>: the administration API of a tenant. A
  request carries the token of its bearer; \<open>rq_id n\<close> and \<open>rq_commit n\<close> are the UUID and the
  commit of the n-th row it writes, \<open>rq_file\<close> what the legacy directory is at that time. Bodies
  are taken after the JSON decoding and the conversion of their types, with the constraints the
  models declare on top; an absent field and a null are told apart where the source does. A text
  that is no UUID is a text no row has: the database refuses it with an error of its own where
  the model answers that nothing was found. Creation and change times of the rows are left out.
\<close>

record admin_app =
  aa_jwt :: jwt
  aa_auth :: auth_settings
  aa_fernet :: fernet
  aa_keys :: string
  aa_parse :: "string \<Rightarrow> xml option"

record request_env =
  rq_now :: int
  rq_bearer :: string
  rq_id :: "nat \<Rightarrow> string"
  rq_commit :: "nat \<Rightarrow> exc option"
  rq_file :: legacy_file

section \<open>Bodies\<close>

definition invalid_body :: exc where "invalid_body = HTTPException 422 ''validation_error''"

record condo_create_body =
  cb_pbx :: string
  cb_name :: string
  cb_external :: "string option"
  cb_enabled :: "bool option"

definition len_between :: "nat \<Rightarrow> nat \<Rightarrow> string \<Rightarrow> bool" where
  "len_between lo hi s \<longleftrightarrow> lo \<le> length s \<and> length s \<le> hi"

definition opt_ok :: "('a \<Rightarrow> bool) \<Rightarrow> 'a option \<Rightarrow> bool" where
  "opt_ok p v = (case v of None \<Rightarrow> True | Some x \<Rightarrow> p x)"

definition condo_create_ok :: "condo_create_body \<Rightarrow> bool" where
  "condo_create_ok b \<longleftrightarrow> len_between 1 128 (cb_name b) \<and> opt_ok (len_between 0 128) (cb_external b)"

record condo_patch =
  cp_name :: "string option option"
  cp_external :: "string option option"
  cp_enabled :: "bool option option"

text \<open>The validator of a patch: not empty, and no null where the column has none.\<close>

definition condo_patch_ok :: "condo_patch \<Rightarrow> bool" where
  "condo_patch_ok b \<longleftrightarrow>
     \<not> (cp_name b = None \<and> cp_external b = None \<and> cp_enabled b = None)
   \<and> cp_name b \<noteq> Some None \<and> cp_enabled b \<noteq> Some None
   \<and> opt_ok (opt_ok (len_between 1 128)) (cp_name b) \<and> opt_ok (opt_ok (len_between 0 128)) (cp_external b)"

definition given :: "'a option option \<Rightarrow> 'a option" where
  "given v = (case v of None \<Rightarrow> None | Some x \<Rightarrow> x)"

definition condo_patch_changes :: "condo_patch \<Rightarrow> condo_changes" where
  "condo_patch_changes b = \<lparr>cc_name = given (cp_name b), cc_external = cp_external b, cc_enabled = given (cp_enabled b)\<rparr>"

record trunk_create_body =
  tb_pbx :: string
  tb_condo :: string
  tb_prefix :: "string option"
  tb_user :: string
  tb_password :: string
  tb_profile :: string
  tb_transport :: "string option"
  tb_enabled :: "bool option"

definition trunk_create_ok_body :: "trunk_create_body \<Rightarrow> bool" where
  "trunk_create_ok_body b \<longleftrightarrow> prefix_ok (tb_prefix b) \<and> len_between 1 128 (tb_user b) \<and> tb_password b \<noteq> []"

record trunk_patch =
  pt_condo :: "string option option"
  pt_prefix :: "string option option"
  pt_user :: "string option option"
  pt_password :: "string option option"
  pt_profile :: "string option option"
  pt_enabled :: "bool option option"

definition trunk_patch_ok :: "trunk_patch \<Rightarrow> bool" where
  "trunk_patch_ok b \<longleftrightarrow>
     \<not> (pt_condo b = None \<and> pt_prefix b = None \<and> pt_user b = None \<and> pt_password b = None
        \<and> pt_profile b = None \<and> pt_enabled b = None)
   \<and> pt_condo b \<noteq> Some None \<and> pt_user b \<noteq> Some None \<and> pt_password b \<noteq> Some None
   \<and> pt_profile b \<noteq> Some None \<and> pt_enabled b \<noteq> Some None
   \<and> opt_ok (opt_ok (\<lambda>s. s \<noteq> [])) (pt_condo b) \<and> opt_ok prefix_ok (pt_prefix b)
   \<and> opt_ok (opt_ok (len_between 1 128)) (pt_user b) \<and> opt_ok (opt_ok (\<lambda>s. s \<noteq> [])) (pt_password b)
   \<and> opt_ok (opt_ok (\<lambda>s. s \<in> set profiles)) (pt_profile b)"

definition trunk_patch_changes :: "trunk_patch \<Rightarrow> trunk_changes" where
  "trunk_patch_changes b =
     \<lparr>tc_condo = given (pt_condo b), tc_prefix = pt_prefix b, tc_user = given (pt_user b), tc_profile = given (pt_profile b),
      tc_enabled = given (pt_enabled b), tc_password = given (pt_password b)\<rparr>"

section \<open>Answers\<close>

record condo_view =
  cv_id :: string
  cv_tenant :: string
  cv_pbx :: string
  cv_name :: string
  cv_external :: "string option"
  cv_enabled :: bool

definition condo_view :: "condo_row \<Rightarrow> condo_view" where
  "condo_view c = \<lparr>cv_id = co_id c, cv_tenant = co_tenant c, cv_pbx = co_pbx c, cv_name = co_name c,
     cv_external = co_external c, cv_enabled = co_enabled c\<rparr>"

definition mask_username :: "string \<Rightarrow> string" where
  "mask_username u = (if length u > 4 then ''***'' @ drop (length u - 4) u else ''***'')"

record trunk_view =
  vw_id :: string
  vw_tenant :: string
  vw_pbx :: string
  vw_condo :: string
  vw_prefix :: "string option"
  vw_user_masked :: string
  vw_profile :: string
  vw_transport :: string
  vw_enabled :: bool
  vw_status :: string
  vw_calls :: nat
  vw_in_use :: bool
  vw_registered_at :: "int option"
  vw_unregistered_at :: "int option"
  vw_error_code :: "string option"
  vw_error_at :: "int option"

definition trunk_view :: "trunk_row \<Rightarrow> nat \<Rightarrow> trunk_view" where
  "trunk_view t calls =
     \<lparr>vw_id = tr_id t, vw_tenant = tr_tenant t, vw_pbx = tr_pbx t, vw_condo = tr_condo t, vw_prefix = tr_prefix t,
      vw_user_masked = mask_username (tr_user t), vw_profile = tr_profile t, vw_transport = tr_transport t,
      vw_enabled = tr_enabled t, vw_status = tr_status t, vw_calls = calls, vw_in_use = (calls > 0),
      vw_registered_at = tr_registered_at t, vw_unregistered_at = tr_unregistered_at t,
      vw_error_code = tr_error_code t, vw_error_at = tr_error_at t\<rparr>"

fun is_RedisError :: "exc \<Rightarrow> bool" where
  "is_RedisError (OtherError s) = (s \<in> {''RedisError'', ''redis.ConnectionError'', ''redis.TimeoutError''})"
| "is_RedisError _ = False"

definition active_calls_or_zero :: "'r redis \<Rightarrow> string \<Rightarrow> ('r, nat) prog" where
  "active_calls_or_zero R trunk_id = catchp (active_calls R trunk_id) is_RedisError (\<lambda>_. ret 0)"

definition map_service_error :: "exc \<Rightarrow> exc" where
  "map_service_error e =
     (case e of
        ScopeValidationError m \<Rightarrow> HTTPException 404 m
      | DuplicateIdentityError m \<Rightarrow> HTTPException 409 m
      | _ \<Rightarrow> if is_ValueError e then HTTPException 400 (exc_text e) else e)"

definition mapping_errors :: "('s, 'a) prog \<Rightarrow> ('s, 'a) prog" where
  "mapping_errors p = catchp p is_ValueError (\<lambda>e. throw (map_service_error e))"

section \<open>Dependencies\<close>

definition admin_of :: "admin_app \<Rightarrow> request_env \<Rightarrow> exc + claims" where
  "admin_of app rq = admin_payload (aa_jwt app) (aa_auth app) (rq_now rq) (rq_bearer rq)"

text \<open>\<open>payload["tenant_id"]\<close>, and \<open>payload.get("tenant_id", "")\<close>, which the PBX endpoints check.\<close>

definition tenant_at :: "claims \<Rightarrow> exc + string" where
  "tenant_at payload = (case map_of payload ''tenant_id'' of None \<Rightarrow> Inl (KeyError ''tenant_id'') | Some v \<Rightarrow> Inr (py_str v))"

definition tenant_got :: "claims \<Rightarrow> exc + string" where
  "tenant_got payload =
     (case map_of payload ''tenant_id'' of
        None \<Rightarrow> Inl (HTTPException 400 ''Tenant ID nao encontrado no token'')
      | Some v \<Rightarrow> if truthy v then Inr (py_str v) else Inl (HTTPException 400 ''Tenant ID nao encontrado no token''))"

definition admin_keys :: "admin_app \<Rightarrow> string list" where
  "admin_keys app = filter (\<lambda>k. k \<noteq> []) (map py_strip (split_on (CHR '','') (aa_keys app)))"

definition trunk_service_keys :: "admin_app \<Rightarrow> exc + string list" where
  "trunk_service_keys app =
     (case new_cipher (aa_fernet app) (admin_keys app) of
        Inl e \<Rightarrow> Inl (HTTPException 503 ''credential_key_unavailable'') | Inr ks \<Rightarrow> Inr ks)"

definition service_env :: "admin_app \<Rightarrow> request_env \<Rightarrow> string list \<Rightarrow> nat \<Rightarrow> trunk_env" where
  "service_env app rq ks n =
     \<lparr>tv_id = rq_id rq n, tv_commit = rq_commit rq n, tv_encrypt = cipher_encrypt (aa_fernet app) ks,
      tv_legacy = (\<lambda>p u. fst (legacy_contains (aa_parse app) (rq_file rq) p u new_provider))\<rparr>"

section \<open>Condominiums\<close>

definition create_condominium :: "admin_app \<Rightarrow> request_env \<Rightarrow> condo_create_body \<Rightarrow> (public_db, condo_view) prog" where
  "create_condominium app rq b =
     bindp (lift_res (admin_of app rq)) (\<lambda>payload.
       if \<not> condo_create_ok b then throw invalid_body
       else mapping_errors
         (bindp (lift_res (tenant_at payload)) (\<lambda>tenant_id.
          bindp (condo_create (service_env app rq [] 0) tenant_id (cb_pbx b) (cb_name b) (cb_external b)
              (case cb_enabled b of None \<Rightarrow> True | Some v \<Rightarrow> v))
            (\<lambda>item. ret (condo_view item)))))"

definition list_condominiums :: "admin_app \<Rightarrow> request_env \<Rightarrow> string option \<Rightarrow> (public_db, condo_view list) prog" where
  "list_condominiums app rq pbx_id =
     bindp (lift_res (admin_of app rq)) (\<lambda>payload.
     bindp (lift_res (tenant_at payload)) (\<lambda>tenant_id.
     gets (\<lambda>db. map condo_view (condo_list tenant_id pbx_id db))))"

definition view_updated :: "('a \<Rightarrow> 'v) \<Rightarrow> 'a option \<Rightarrow> ('s, 'v) prog" where
  "view_updated view item = (case item of None \<Rightarrow> throw (AttributeError ''NoneType'') | Some r \<Rightarrow> ret (view r))"

definition update_condominium :: "admin_app \<Rightarrow> request_env \<Rightarrow> string \<Rightarrow> condo_patch \<Rightarrow> (public_db, condo_view) prog" where
  "update_condominium app rq condominium_id b =
     bindp (lift_res (admin_of app rq)) (\<lambda>payload.
       if \<not> condo_patch_ok b then throw invalid_body
       else mapping_errors
         (bindp (lift_res (tenant_at payload)) (\<lambda>tenant_id.
          bindp (condo_update (service_env app rq [] 0) tenant_id condominium_id (condo_patch_changes b))
            (view_updated condo_view))))"

section \<open>Trunks\<close>

definition with_calls :: "'r redis \<Rightarrow> trunk_row \<Rightarrow> (('r, 'n, 'm) trunk_world_scheme, trunk_view) prog" where
  "with_calls R t = bindp (on_redis (active_calls_or_zero R (tr_id t))) (\<lambda>calls. ret (trunk_view t calls))"

definition create_trunk ::
    "admin_app \<Rightarrow> 'r redis \<Rightarrow> request_env \<Rightarrow> trunk_create_body \<Rightarrow> (('r, 'n, 'm) trunk_world_scheme, trunk_view) prog" where
  "create_trunk app R rq b =
     bindp (lift_res (admin_of app rq)) (\<lambda>payload.
     bindp (lift_res (trunk_service_keys app)) (\<lambda>ks.
       if \<not> trunk_create_ok_body b then throw invalid_body
       else mapping_errors
         (bindp (lift_res (tenant_at payload)) (\<lambda>tenant_id.
          bindp (on_db (Trunks.trunk_create (service_env app rq ks 0) tenant_id (tb_pbx b) (tb_condo b) (tb_prefix b) (tb_user b)
              (Some (tb_password b)) (tb_profile b) (case tb_enabled b of None \<Rightarrow> False | Some v \<Rightarrow> v)
              (case tb_transport b of None \<Rightarrow> ''udp'' | Some v \<Rightarrow> v)))
            (with_calls R)))))"

record trunk_filters =
  tf_pbx :: "string option"
  tf_condo :: "string option"
  tf_enabled :: "bool option"
  tf_status :: "string option"
  tf_profile :: "string option"

definition matches :: "trunk_filters \<Rightarrow> trunk_row \<Rightarrow> bool" where
  "matches f t \<longleftrightarrow> opt_ok (\<lambda>v. tr_pbx t = v) (tf_pbx f) \<and> opt_ok (\<lambda>v. tr_condo t = v) (tf_condo f)
     \<and> opt_ok (\<lambda>v. tr_enabled t = v) (tf_enabled f) \<and> opt_ok (\<lambda>v. tr_status t = v) (tf_status f)
     \<and> opt_ok (\<lambda>v. tr_profile t = v) (tf_profile f)"

fun views_of :: "'r redis \<Rightarrow> trunk_row list \<Rightarrow> (('r, 'n, 'm) trunk_world_scheme, trunk_view list) prog" where
  "views_of R [] = ret []"
| "views_of R (t # ts) = bindp (with_calls R t) (\<lambda>v. bindp (views_of R ts) (\<lambda>vs. ret (v # vs)))"

definition list_trunks ::
    "admin_app \<Rightarrow> 'r redis \<Rightarrow> request_env \<Rightarrow> trunk_filters \<Rightarrow> (('r, 'n, 'm) trunk_world_scheme, trunk_view list) prog" where
  "list_trunks app R rq filters =
     bindp (lift_res (admin_of app rq)) (\<lambda>payload.
     bindp (lift_res (trunk_service_keys app)) (\<lambda>ks.
     bindp (lift_res (tenant_at payload)) (\<lambda>tenant_id.
     bindp (on_db (gets (trunk_list tenant_id (matches filters)))) (views_of R))))"

definition update_trunk ::
    "admin_app \<Rightarrow> 'r redis \<Rightarrow> request_env \<Rightarrow> string \<Rightarrow> trunk_patch \<Rightarrow> (('r, 'n, 'm) trunk_world_scheme, trunk_view) prog" where
  "update_trunk app R rq trunk_id b =
     bindp (lift_res (admin_of app rq)) (\<lambda>payload.
     bindp (lift_res (trunk_service_keys app)) (\<lambda>ks.
       if \<not> trunk_patch_ok b then throw invalid_body
       else mapping_errors
         (bindp (lift_res (tenant_at payload)) (\<lambda>tenant_id.
          bindp (on_db (Trunks.trunk_update (service_env app rq ks 0) tenant_id trunk_id (trunk_patch_changes b)))
            (\<lambda>item. case item of None \<Rightarrow> throw (AttributeError ''NoneType'') | Some t \<Rightarrow> with_calls R t)))))"

definition csv_status :: "exc \<Rightarrow> exc" where
  "csv_status e = HTTPException (if exc_text e = ''csv_too_large'' then 413 else 422) (exc_text e)"

fun is_CSVSchemaError :: "exc \<Rightarrow> bool" where
  "is_CSVSchemaError (CSVSchemaError _) = True"
| "is_CSVSchemaError _ = False"

definition import_trunks ::
    "admin_app \<Rightarrow> request_env \<Rightarrow> (string list \<times> csv_row list) upload \<Rightarrow> string \<Rightarrow> bool \<Rightarrow> (public_db, import_result) prog" where
  "import_trunks app rq content pbx_id dry_run =
     bindp (lift_res (admin_of app rq)) (\<lambda>payload.
     bindp (lift_res (trunk_service_keys app)) (\<lambda>ks.
       catchp
         (bindp (lift_res (tenant_at payload)) (\<lambda>tenant_id.
            import_trunk_csv (service_env app rq ks) content tenant_id pbx_id dry_run))
         is_CSVSchemaError (\<lambda>e. throw (csv_status e))))"

section \<open>PBXs\<close>

record pbx_create_body =
  pb_name :: string
  pb_host :: string
  pb_port :: "int option"

definition pbx_port :: "pbx_create_body \<Rightarrow> int" where
  "pbx_port b = (case pb_port b of None \<Rightarrow> 5060 | Some p \<Rightarrow> p)"

definition pbx_body_ok :: "pbx_create_body \<Rightarrow> bool" where
  "pbx_body_ok b \<longleftrightarrow> len_between 0 128 (pb_name b) \<and> len_between 0 128 (pb_host b) \<and> 1 \<le> pbx_port b \<and> pbx_port b \<le> 65535"

definition add_pbx :: "exc option \<Rightarrow> pbx_row \<Rightarrow> (public_db, pbx_row) prog" where
  "add_pbx commit r db =
     (if \<exists>p\<in>set (db_pbxs db). px_id p = px_id r then (Inl (SQLAlchemyError ''pbxs_pkey''), db)
      else case commit of Some e \<Rightarrow> (Inl e, db) | None \<Rightarrow> (Inr r, db\<lparr>db_pbxs := db_pbxs db @ [r]\<rparr>))"

definition create_pbx :: "admin_app \<Rightarrow> request_env \<Rightarrow> pbx_create_body \<Rightarrow> (public_db, pbx_row) prog" where
  "create_pbx app rq b =
     bindp (lift_res (admin_of app rq)) (\<lambda>payload.
       if \<not> pbx_body_ok b then throw invalid_body
       else bindp (lift_res (tenant_got payload)) (\<lambda>tenant_id.
         bindp (gets (\<lambda>db. get_tenant db tenant_id)) (\<lambda>tenant.
           case tenant of
             None \<Rightarrow> throw (HTTPException 404 ''Inquilino nao encontrado'')
           | Some t \<Rightarrow> add_pbx (rq_commit rq 0)
               \<lparr>px_id = rq_id rq 0, px_tenant = te_id t, px_name = pb_name b, px_host = pb_host b, px_port = pbx_port b\<rparr>)))"

definition list_pbxs :: "admin_app \<Rightarrow> request_env \<Rightarrow> (public_db, pbx_row list) prog" where
  "list_pbxs app rq =
     bindp (lift_res (admin_of app rq)) (\<lambda>payload.
     bindp (lift_res (tenant_got payload)) (\<lambda>tenant_id.
     gets (\<lambda>db. filter (\<lambda>p. px_tenant p = tenant_id) (db_pbxs db))))"

end
