(* ===== verification/Admin_Laws.thy ===== *)
theory Admin_Laws
  imports Admin
begin

text \<open>
  What the administration API keeps, whatever is asked of it. The requests are one datatype and
  \<open>serve\<close> is the routing; \<open>triple\<close> speaks about programs over a state that holds the public
  tables: started with sound tables in which \<open>pre\<close> holds, a program leaves sound tables, leaves
  the rows of the other tenants as they were, and what it answers has \<open>post\<close>.
\<close>

section \<open>Requests\<close>

datatype admin_request =
    CreateCondo condo_create_body | ListCondos "string option" | PatchCondo string condo_patch
  | CreateTrunk trunk_create_body | ListTrunks trunk_filters | PatchTrunk string trunk_patch
  | ImportTrunks "(string list \<times> csv_row list) upload" string bool
  | CreatePbx pbx_create_body | ListPbxs

datatype admin_answer =
    CondoAnswer condo_view | CondosAnswer "condo_view list" | TrunkAnswer trunk_view | TrunksAnswer "trunk_view list"
  | ImportAnswer import_result | PbxAnswer pbx_row | PbxsAnswer "pbx_row list"

definition answer :: "('a \<Rightarrow> 'b) \<Rightarrow> ('s, 'a) prog \<Rightarrow> ('s, 'b) prog" where
  "answer f p = bindp p (\<lambda>a. ret (f a))"

fun serve :: "admin_app \<Rightarrow> 'r redis \<Rightarrow> request_env \<Rightarrow> admin_request \<Rightarrow> (('r, 'n, 'm) trunk_world_scheme, admin_answer) prog" where
  "serve app R rq (CreateCondo b) = answer CondoAnswer (on_db (create_condominium app rq b))"
| "serve app R rq (ListCondos pbx) = answer CondosAnswer (on_db (list_condominiums app rq pbx))"
| "serve app R rq (PatchCondo i b) = answer CondoAnswer (on_db (update_condominium app rq i b))"
| "serve app R rq (CreateTrunk b) = answer TrunkAnswer (create_trunk app R rq b)"
| "serve app R rq (ListTrunks f) = answer TrunksAnswer (list_trunks app R rq f)"
| "serve app R rq (PatchTrunk i b) = answer TrunkAnswer (update_trunk app R rq i b)"
| "serve app R rq (ImportTrunks c pbx dry) = answer ImportAnswer (on_db (import_trunks app rq c pbx dry))"
| "serve app R rq (CreatePbx b) = answer PbxAnswer (on_db (create_pbx app rq b))"
| "serve app R rq ListPbxs = answer PbxsAnswer (on_db (list_pbxs app rq))"

section \<open>The triple\<close>

definition foreign :: "string \<Rightarrow> public_db \<Rightarrow> tenant_row list \<times> pbx_row list \<times> condo_row list \<times> trunk_row list" where
  "foreign T db = (db_tenants db, filter (\<lambda>p. px_tenant p \<noteq> T) (db_pbxs db), filter (\<lambda>c. co_tenant c \<noteq> T) (db_condos db),
     filter (\<lambda>t. tr_tenant t \<noteq> T) (db_trunks db))"

definition triple ::
    "('s \<Rightarrow> public_db) \<Rightarrow> string \<Rightarrow> (public_db \<Rightarrow> bool) \<Rightarrow> ('s, 'a) prog \<Rightarrow> ('a \<Rightarrow> public_db \<Rightarrow> bool) \<Rightarrow> bool" where
  "triple tables T pre p post \<longleftrightarrow>
     (\<forall>w r w'. db_ok (tables w) \<and> pre (tables w) \<and> p w = (r, w') \<longrightarrow>
        db_ok (tables w') \<and> foreign T (tables w') = foreign T (tables w) \<and> (\<forall>a. r = Inr a \<longrightarrow> post a (tables w')))"

named_theorems triple_rules \<open>triples of the programs of the API\<close>

lemma tripleI:
  assumes "\<And>w r w'. db_ok (tables w) \<Longrightarrow> pre (tables w) \<Longrightarrow> p w = (r, w') \<Longrightarrow>
     db_ok (tables w') \<and> foreign T (tables w') = foreign T (tables w) \<and> (\<forall>a. r = Inr a \<longrightarrow> post a (tables w'))"
  shows "triple tables T pre p post"
  using assms unfolding triple_def by blast

lemma tripleD:
  assumes "triple tables T pre p post" and "p w = (r, w')" and "db_ok (tables w)" and "pre (tables w)"
  shows "db_ok (tables w')" and "foreign T (tables w') = foreign T (tables w)" and "r = Inr a \<Longrightarrow> post a (tables w')"
  using assms unfolding triple_def by blast+

lemma triple_ret: "(\<And>db. db_ok db \<Longrightarrow> pre db \<Longrightarrow> post a db) \<Longrightarrow> triple tables T pre (ret a) post"
  by (rule tripleI) auto

lemma triple_throw: "triple tables T pre (throw e) post"
  by (rule tripleI) auto

lemma triple_gets: "(\<And>w. db_ok (tables w) \<Longrightarrow> pre (tables w) \<Longrightarrow> post (f w) (tables w)) \<Longrightarrow> triple tables T pre (gets f) post"
  by (rule tripleI) auto

lemma triple_lift: "(\<And>a db. r = Inr a \<Longrightarrow> pre db \<Longrightarrow> post a db) \<Longrightarrow> triple tables T pre (lift_res r) post"
  by (rule tripleI) auto

lemma triple_bind:
  assumes m: "triple tables T pre m mid" and f: "\<And>a. triple tables T (mid a) (f a) post"
  shows "triple tables T pre (bindp m f) post"
proof (rule tripleI)
  fix w r w' assume w: "db_ok (tables w)" "pre (tables w)" "bindp m f w = (r, w')"
  obtain q u where q: "m w = (q, u)" by force
  note M = tripleD[OF m q w(1,2)]
  show "db_ok (tables w') \<and> foreign T (tables w') = foreign T (tables w) \<and> (\<forall>a. r = Inr a \<longrightarrow> post a (tables w'))"
  proof (cases q)
    case (Inl e)
    then show ?thesis using w(3) q M(1,2) by (auto simp: bindp_def)
  next
    case (Inr a)
    then have "f a u = (r, w')" using w(3) q by (simp add: bindp_def)
    from tripleD[OF f this M(1) M(3)[OF Inr]] M(2) show ?thesis by simp
  qed
qed

lemma triple_catch:
  assumes m: "triple tables T pre m post" and h: "\<And>e. triple tables T (\<lambda>_. True) (h e) post"
  shows "triple tables T pre (catchp m c h) post"
proof (rule tripleI)
  fix w r w' assume w: "db_ok (tables w)" "pre (tables w)" "catchp m c h w = (r, w')"
  obtain q u where q: "m w = (q, u)" by force
  note M = tripleD[OF m q w(1,2)]
  show "db_ok (tables w') \<and> foreign T (tables w') = foreign T (tables w) \<and> (\<forall>a. r = Inr a \<longrightarrow> post a (tables w'))"
  proof (cases q)
    case (Inr a)
    then show ?thesis using w(3) q M by (auto simp: catchp_def)
  next
    case (Inl e)
    show ?thesis
    proof (cases "c e")
      case True
      then have "h e u = (r, w')" using w(3) q Inl by (simp add: catchp_def)
      from tripleD[OF h this M(1) TrueI] M(2) show ?thesis by simp
    next
      case False
      then show ?thesis using w(3) q Inl M(1,2) by (auto simp: catchp_def)
    qed
  qed
qed

lemma triple_mapping: "triple tables T pre p post \<Longrightarrow> triple tables T pre (mapping_errors p) post"
  unfolding mapping_errors_def by (rule triple_catch) (auto intro: triple_throw)

lemma triple_on_db: "triple (\<lambda>db. db) T pre p post \<Longrightarrow> triple tw_db T pre (on_db p) post"
  unfolding triple_def by (auto simp: on_db_def split: prod.splits)

lemma triple_weaken:
  "triple tables T pre p mid \<Longrightarrow> (\<And>a db. mid a db \<Longrightarrow> post a db) \<Longrightarrow> triple tables T pre p post"
  unfolding triple_def by blast

lemma triple_answer: "triple tables T pre p (\<lambda>a. post (f a)) \<Longrightarrow> triple tables T pre (answer f p) post"
  unfolding answer_def by (rule triple_bind) (auto intro: triple_ret)

section \<open>The services keep the triple\<close>

lemma condo_update_cases:
  assumes "condo_update env T i ch db = (r, db')"
  shows "(\<exists>e. r = Inl e \<and> db' = db) \<or>
    (\<exists>c xs ys. r = Inr (Some (change_condo ch c)) \<and> co_tenant c = T \<and> db_condos db = xs @ c # ys
       \<and> db' = db\<lparr>db_condos := xs @ change_condo ch c # ys\<rparr>)"
proof (cases "\<exists>c. get_condo db i = Some c \<and> co_tenant c = T")
  case False
  then show ?thesis using assms by (auto simp: condo_update_def split: option.splits if_splits)
next
  case True
  then obtain c where c: "get_condo db i = Some c" "co_tenant c = T" by blast
  let ?p = "repo_update co_id (condo_violation db) (tv_commit env) i (change_condo ch)"
  have u: "catchp (on_condos ?p) is_integrity (\<lambda>_. throw (DuplicateIdentityError ''duplicate_external_id'')) db = (r, db')"
    using assms c by (simp add: condo_update_def)
  have "(\<exists>e. r = Inl e \<and> db' = db) \<or> (\<exists>a x. ?p (db_condos db) = (Inr a, x) \<and> r = Inr a \<and> db' = db\<lparr>db_condos := x\<rparr>)"
    by (rule condo_throw[OF u]) (rule repo_update_Inl)
  moreover obtain xs ys where s: "db_condos db = xs @ c # ys" "\<And>q. replace_row co_id i q (db_condos db) = xs @ q # ys"
    using repo_get_split[OF c(1)[unfolded get_condo_def]] by blast
  have "a = Some (change_condo ch c) \<and> x = xs @ change_condo ch c # ys" if "?p (db_condos db) = (Inr a, x)" for a x
    using that c(1) s(2) by (auto simp: repo_update_def get_condo_def split: option.splits)
  ultimately show ?thesis using c(2) s(1) by blast
qed

lemma condo_create_triple: "triple (\<lambda>db. db) T (\<lambda>_. True) (condo_create env T pbx name ext en) (\<lambda>c _. co_tenant c = T)"
proof (rule tripleI)
  fix db r db' assume ok: "db_ok db" and c: "condo_create env T pbx name ext en db = (r, db')"
  from condo_create_ok[OF ok c] condo_create_cases[OF c]
  show "db_ok db' \<and> foreign T db' = foreign T db \<and> (\<forall>a. r = Inr a \<longrightarrow> co_tenant a = T)"
    by (auto simp: foreign_def)
qed

lemma condo_update_triple:
  "triple (\<lambda>db. db) T (\<lambda>_. True) (condo_update env T i ch) (\<lambda>c _. \<forall>r. c = Some r \<longrightarrow> co_tenant r = T)"
proof (rule tripleI)
  fix db r db' assume ok: "db_ok db" and c: "condo_update env T i ch db = (r, db')"
  from condo_update_ok[OF ok c] condo_update_cases[OF c]
  show "db_ok db' \<and> foreign T db' = foreign T db \<and> (\<forall>a. r = Inr a \<longrightarrow> (\<forall>q. a = Some q \<longrightarrow> co_tenant q = T))"
    by (auto simp: foreign_def)
qed

lemma trunk_create_triple:
  "triple (\<lambda>db. db) T (\<lambda>_. True) (trunk_create env T pbx condo prefix user pw prof en tr) (\<lambda>t db. tr_tenant t = T \<and> t \<in> set (db_trunks db))"
proof (rule tripleI)
  fix db r db' assume ok: "db_ok db" and c: "trunk_create env T pbx condo prefix user pw prof en tr db = (r, db')"
  from trunk_create_ok[OF ok c] trunk_create_cases[OF c]
  show "db_ok db' \<and> foreign T db' = foreign T db \<and> (\<forall>a. r = Inr a \<longrightarrow> tr_tenant a = T \<and> a \<in> set (db_trunks db'))"
    by (auto simp: foreign_def new_trunk_def)
qed

lemma trunk_update_triple:
  "triple (\<lambda>db. db) T (\<lambda>_. True) (trunk_update env T i ch) (\<lambda>a db. \<forall>t. a = Some t \<longrightarrow> tr_tenant t = T \<and> t \<in> set (db_trunks db))"
proof (rule tripleI)
  fix db r db' assume ok: "db_ok db" and c: "trunk_update env T i ch db = (r, db')"
  have o: "db_condos db' = db_condos db \<and> db_pbxs db' = db_pbxs db \<and> db_tenants db' = db_tenants db"
    using trunk_update_cases[OF c] by (elim disjE exE conjE) (simp, metis public_db.select_convs(1-3) public_db.surjective public_db.update_convs(4))
  have "\<forall>a t. r = Inr a \<and> a = Some t \<longrightarrow> tr_tenant t = T \<and> t \<in> set (db_trunks db')"
    using trunk_update_cases[OF c]
  proof (elim disjE exE conjE)
    fix t secret assume g: "get_trunk db i = Some t" "tr_tenant t = T"
      and u: "repo_update tr_id (trunk_violation db) (tv_commit env) i
        (change_trunk ch secret (sip_identity_changed ch t \<or> secret \<noteq> None)) (db_trunks db) = (r, db_trunks db')"
    obtain xs ys where s: "\<And>q. replace_row tr_id i q (db_trunks db) = xs @ q # ys"
      using repo_get_split[OF g(1)[unfolded get_trunk_def]] by blast
    show ?thesis using u g s by (auto simp: repo_update_def get_trunk_def split: option.splits) (metis in_set_conv_decomp)
  qed simp
  then show "db_ok db' \<and> foreign T db' = foreign T db
      \<and> (\<forall>a. r = Inr a \<longrightarrow> (\<forall>t. a = Some t \<longrightarrow> tr_tenant t = T \<and> t \<in> set (db_trunks db')))"
    using trunk_update_ok[OF ok c] trunk_update_others[OF c] o by (simp add: foreign_def)
qed

lemma import_triple: "triple (\<lambda>db. db) T (\<lambda>_. True) (import_trunk_csv envs content T pbx dry) (\<lambda>_ _. True)"
proof (rule tripleI)
  fix db r db' assume ok: "db_ok db" and c: "import_trunk_csv envs content T pbx dry db = (r, db')"
  have other: "db_condos y = db_condos x \<and> db_pbxs y = db_pbxs x \<and> db_tenants y = db_tenants x"
    if "import_csv_rows envs T pbx rows res x = (q, y)" for rows res x q y
    using that
  proof (induction rows arbitrary: res x)
    case (Cons row rows)
    obtain z x1 where u: "upsert_imported (envs (ir_line row)) T pbx row x = (z, x1)" by force
    have tc: "db_condos b = db_condos a \<and> db_pbxs b = db_pbxs a \<and> db_tenants b = db_tenants a"
      if "trunk_create e T pbx k pr us pw pf en tr a = (v, b)" for e k pr us pw pf en tr a v b
      using trunk_create_cases[OF that] by auto
    have tu: "db_condos b = db_condos a \<and> db_pbxs b = db_pbxs a \<and> db_tenants b = db_tenants a"
      if "trunk_update e T k ch a = (v, b)" for e k ch a v b
      using trunk_update_cases[OF that]
      by (elim disjE exE conjE) (simp, metis public_db.select_convs(1-3) public_db.surjective public_db.update_convs(4))
    have "db_condos x1 = db_condos x \<and> db_pbxs x1 = db_pbxs x \<and> db_tenants x1 = db_tenants x"
      using u by (auto simp: upsert_imported_def split: option.splits prod.splits sum.splits dest: tc tu)
    then show ?case using Cons u by (auto split: sum.splits if_splits)
  qed simp
  show "db_ok db' \<and> foreign T db' = foreign T db \<and> (\<forall>a. r = Inr a \<longrightarrow> True)"
    using c ok by (auto simp: import_trunk_csv_def Let_def foreign_def split: sum.splits prod.splits if_splits
        dest: import_csv_rows_ok other)
qed

section \<open>The endpoints\<close>

text \<open>The tenant a payload names, and what an answer to that tenant may hold.\<close>

definition tenant_in :: "claims \<Rightarrow> string" where
  "tenant_in payload = (case map_of payload ''tenant_id'' of None \<Rightarrow> [] | Some v \<Rightarrow> py_str v)"

definition masked :: "string \<Rightarrow> bool" where
  "masked s \<longleftrightarrow> take 3 s = ''***'' \<and> length s \<le> 7"

definition trunk_view_ok :: "string \<Rightarrow> public_db \<Rightarrow> trunk_view \<Rightarrow> bool" where
  "trunk_view_ok T db v \<longleftrightarrow>
     vw_tenant v = T \<and> vw_profile v \<in> set profiles \<and> vw_transport v = ''udp'' \<and> vw_status v \<in> set reg_statuses
   \<and> prefix_ok (vw_prefix v) \<and> masked (vw_user_masked v) \<and> (vw_in_use v \<longleftrightarrow> vw_calls v > 0)
   \<and> (\<exists>p\<in>set (db_pbxs db). px_id p = vw_pbx v \<and> px_tenant p = T)
   \<and> (\<exists>c\<in>set (db_condos db). co_id c = vw_condo v \<and> co_tenant c = T \<and> co_pbx c = vw_pbx v)"

fun answer_ok :: "string \<Rightarrow> public_db \<Rightarrow> admin_answer \<Rightarrow> bool" where
  "answer_ok T db (CondoAnswer v) = (cv_tenant v = T)"
| "answer_ok T db (CondosAnswer vs) = (\<forall>v\<in>set vs. cv_tenant v = T)"
| "answer_ok T db (TrunkAnswer v) = trunk_view_ok T db v"
| "answer_ok T db (TrunksAnswer vs) = (\<forall>v\<in>set vs. trunk_view_ok T db v)"
| "answer_ok T db (ImportAnswer r) = True"
| "answer_ok T db (PbxAnswer p) = (px_tenant p = T)"
| "answer_ok T db (PbxsAnswer ps) = (\<forall>p\<in>set ps. px_tenant p = T)"

lemma mask_masked: "masked (mask_username u)"
  by (simp add: masked_def mask_username_def)

lemma trunk_view_typed: "db_ok db \<Longrightarrow> t \<in> set (db_trunks db) \<Longrightarrow> tr_tenant t = T \<Longrightarrow> trunk_view_ok T db (trunk_view t n)"
  by (auto simp: db_ok_def trunks_sound_def trunk_row_ok_def trunk_scoped_def trunk_view_ok_def trunk_view_def mask_masked)

lemma tenant_at_in: "tenant_at payload = Inr t \<Longrightarrow> t = tenant_in payload"
  by (auto simp: tenant_at_def tenant_in_def split: option.splits)

lemma tenant_got_in: "tenant_got payload = Inr t \<Longrightarrow> t = tenant_in payload"
  by (auto simp: tenant_got_def tenant_in_def split: option.splits if_splits)

lemma triple_tenant_at:
  "triple tables T (\<lambda>_. True) (f (tenant_in payload)) post \<Longrightarrow> triple tables T (\<lambda>_. True) (bindp (lift_res (tenant_at payload)) f) post"
  by (rule triple_bind[where mid = "\<lambda>a _. a = tenant_in payload"]) (auto intro!: triple_lift tenant_at_in tripleI dest: tripleD)

lemma triple_tenant_got:
  "triple tables T (\<lambda>_. True) (f (tenant_in payload)) post \<Longrightarrow> triple tables T (\<lambda>_. True) (bindp (lift_res (tenant_got payload)) f) post"
  by (rule triple_bind[where mid = "\<lambda>a _. a = tenant_in payload"]) (auto intro!: triple_lift tenant_got_in tripleI dest: tripleD)

lemma with_calls_triple:
  "triple tw_db T (\<lambda>db. tr_tenant t = T \<and> t \<in> set (db_trunks db)) (with_calls R t) (\<lambda>v db. trunk_view_ok T db v)"
proof (rule tripleI)
  fix w r w' assume ok: "db_ok (tw_db w)" "tr_tenant t = T \<and> t \<in> set (db_trunks (tw_db w))" and c: "with_calls R t w = (r, w')"
  have "tw_db w' = tw_db w \<and> (\<forall>a. r = Inr a \<longrightarrow> (\<exists>n. a = trunk_view t n))"
    using c by (auto simp: with_calls_def bindp_def on_redis_def split: prod.splits sum.splits)
  then show "db_ok (tw_db w') \<and> foreign T (tw_db w') = foreign T (tw_db w) \<and> (\<forall>a. r = Inr a \<longrightarrow> trunk_view_ok T (tw_db w') a)"
    using ok trunk_view_typed by auto
qed

lemma views_of_state: "views_of R ts w = (r, w') \<Longrightarrow> tw_db w' = tw_db w"
proof (induction ts arbitrary: w r w')
  case (Cons t ts)
  have "tw_db u = tw_db x" if "with_calls R t x = (q, u)" for x q u
    using that by (auto simp: with_calls_def bindp_def on_redis_def split: prod.splits sum.splits)
  with Cons show ?case by (fastforce simp: bindp_def split: prod.splits sum.splits)
qed simp

lemma views_of_triple:
  "triple tw_db T (\<lambda>db. \<forall>t\<in>set ts. tr_tenant t = T \<and> t \<in> set (db_trunks db)) (views_of R ts :: (('r, 'n, 'm) trunk_world_scheme, trunk_view list) prog) (\<lambda>vs db. \<forall>v\<in>set vs. trunk_view_ok T db v)"
proof (induction ts)
  case Nil
  then show ?case by (simp only: views_of.simps) (rule triple_ret, simp)
next
  case (Cons t ts)
  show ?case
  proof (rule tripleI)
    fix w w' :: "('r, 'n, 'm) trunk_world_scheme" and r
    assume ok: "db_ok (tw_db w)" and t: "\<forall>t\<in>set (t # ts). tr_tenant t = T \<and> t \<in> set (db_trunks (tw_db w))"
      and v: "views_of R (t # ts) w = (r, w')"
    obtain q u where q: "with_calls R t w = (q, u)" by force
    obtain q' u' where q': "views_of R ts u = (q', u')" by force
    have s: "tw_db u = tw_db w" using q by (auto simp: with_calls_def bindp_def on_redis_def split: prod.splits sum.splits)
    note a = tripleD[OF with_calls_triple q ok, of T]
    note b = tripleD[OF Cons.IH q']
    have "tw_db u' = tw_db u" using views_of_state[OF q'] .
    then show "db_ok (tw_db w') \<and> foreign T (tw_db w') = foreign T (tw_db w) \<and> (\<forall>a. r = Inr a \<longrightarrow> (\<forall>v\<in>set a. trunk_view_ok T (tw_db w') v))"
      using v q q' s t ok a(3) b(3) by (auto simp: bindp_def split: sum.splits prod.splits)
  qed
qed

lemma add_pbx_triple:
  assumes "get_tenant db0 T = Some te"
  shows "triple (\<lambda>db. db) T (\<lambda>db. db_tenants db = db_tenants db0) (add_pbx commit \<lparr>px_id = i, px_tenant = te_id te, px_name = n, px_host = h, px_port = p\<rparr>)
    (\<lambda>r _. px_tenant r = T)"
proof (rule tripleI)
  let ?row = "\<lparr>px_id = i, px_tenant = te_id te, px_name = n, px_host = h, px_port = p\<rparr>"
  fix db r db' assume ok: "db_ok db" and t: "db_tenants db = db_tenants db0" and a: "add_pbx commit ?row db = (r, db')"
  have te: "te \<in> set (db_tenants db)" "te_id te = T" using assms t by (auto simp: get_tenant_def dest: repo_get_Some)
  have c: "(\<exists>e. r = Inl e \<and> db' = db) \<or> r = Inr ?row \<and> db' = db\<lparr>db_pbxs := db_pbxs db @ [?row]\<rparr> \<and> (\<forall>q\<in>set (db_pbxs db). px_id q \<noteq> i)"
    using a by (auto simp: add_pbx_def split: if_splits option.splits)
  have "db_ok (db\<lparr>db_pbxs := db_pbxs db @ [?row]\<rparr>)" if "\<forall>q\<in>set (db_pbxs db). px_id q \<noteq> i"
    using ok te that
    by (auto simp: db_ok_def trunks_sound_def trunk_row_ok_def condos_sound_def condo_row_ok_def trunk_scoped_def)
  with c ok te(2) show "db_ok db' \<and> foreign T db' = foreign T db \<and> (\<forall>a. r = Inr a \<longrightarrow> px_tenant a = T)"
    by (auto simp: foreign_def)
qed

lemma bindp_lift [simp]: "bindp (lift_res (Inr a)) f = f a" "bindp (lift_res (Inl e)) f = throw e"
  by (auto simp: fun_eq_iff bindp_def)

lemma keys_cases: "(\<exists>e. trunk_service_keys app = Inl e) \<or> (\<exists>ks. trunk_service_keys app = Inr ks)"
  by (cases "trunk_service_keys app") auto

lemma create_condominium_triple:
  assumes "admin_of app rq = Inr payload"
  shows "triple (\<lambda>db. db) (tenant_in payload) (\<lambda>_. True) (create_condominium app rq b) (\<lambda>v _. cv_tenant v = tenant_in payload)"
  unfolding create_condominium_def assms bindp_lift
  by (auto intro!: triple_throw triple_mapping triple_tenant_at triple_bind[OF condo_create_triple] triple_ret simp: condo_view_def
      simp del: ret_def)

lemma update_condominium_triple:
  assumes "admin_of app rq = Inr payload"
  shows "triple (\<lambda>db. db) (tenant_in payload) (\<lambda>_. True) (update_condominium app rq i b) (\<lambda>v _. cv_tenant v = tenant_in payload)"
proof -
  have "triple (\<lambda>db. db) T (\<lambda>db. \<forall>r. c = Some r \<longrightarrow> co_tenant r = T) (view_updated condo_view c) (\<lambda>v _. cv_tenant v = T)" for c T
    by (cases c) (auto simp: view_updated_def condo_view_def intro!: tripleI)
  then show ?thesis
    unfolding update_condominium_def assms bindp_lift
    by (auto intro!: triple_throw triple_mapping triple_tenant_at triple_bind[OF condo_update_triple])
qed

lemma create_trunk_triple:
  assumes "admin_of app rq = Inr payload"
  shows "triple tw_db (tenant_in payload) (\<lambda>_. True) (create_trunk app R rq b) (\<lambda>v db. trunk_view_ok (tenant_in payload) db v)"
  using keys_cases[of app]
  unfolding create_trunk_def assms bindp_lift
  by (elim disjE exE; simp only: bindp_lift)
    (auto intro!: triple_throw triple_mapping triple_tenant_at triple_bind[OF triple_on_db[OF trunk_create_triple]] with_calls_triple)

lemma update_trunk_triple:
  assumes "admin_of app rq = Inr payload"
  shows "triple tw_db (tenant_in payload) (\<lambda>_. True) (update_trunk app R rq i b) (\<lambda>v db. trunk_view_ok (tenant_in payload) db v)"
proof -
  have "triple tw_db T (\<lambda>db. \<forall>t. a = Some t \<longrightarrow> tr_tenant t = T \<and> t \<in> set (db_trunks db))
      (case a of None \<Rightarrow> throw (AttributeError ''NoneType'') | Some t \<Rightarrow> with_calls R t) (\<lambda>v db. trunk_view_ok T db v)" for a T
  proof (cases a)
    case None
    then show ?thesis by (simp only: option.case) (rule triple_throw)
  next
    case (Some t)
    show ?thesis unfolding Some option.case by (rule tripleI) (use tripleD[OF with_calls_triple] in \<open>metis\<close>)
  qed
  then show ?thesis
    using keys_cases[of app]
    unfolding update_trunk_def assms bindp_lift
    by (elim disjE exE; simp only: bindp_lift)
      (auto intro!: triple_throw triple_mapping triple_tenant_at triple_bind[OF triple_on_db[OF trunk_update_triple]])
qed

lemma list_trunks_triple:
  assumes "admin_of app rq = Inr payload"
  shows "triple tw_db (tenant_in payload) (\<lambda>_. True) (list_trunks app R rq f) (\<lambda>vs db. \<forall>v\<in>set vs. trunk_view_ok (tenant_in payload) db v)"
proof -
  let ?T = "tenant_in payload"
  have "triple tw_db ?T (\<lambda>_. True) (on_db (gets (trunk_list ?T (matches f)))) (\<lambda>ts db. \<forall>t\<in>set ts. tr_tenant t = ?T \<and> t \<in> set (db_trunks db))"
    by (rule triple_on_db, rule triple_gets) (auto simp: trunk_list_def repo_find_by_def)
  note l = triple_bind[OF this views_of_triple]
  show ?thesis
    using keys_cases[of app] unfolding list_trunks_def assms bindp_lift
    by (elim disjE exE; simp only: bindp_lift) (auto intro!: triple_throw triple_tenant_at l)
qed

lemma serve_triple:
  assumes a: "admin_of app rq = Inr payload"
  shows "triple tw_db (tenant_in payload) (\<lambda>_. True) (serve app R rq req) (\<lambda>x db. answer_ok (tenant_in payload) db x)"
proof (cases req)
  case (CreateCondo b)
  show ?thesis unfolding CreateCondo serve.simps
    by (rule triple_answer, rule triple_weaken[OF triple_on_db[OF create_condominium_triple[OF a]]]) simp
next
  case (ListCondos pbx)
  have "triple (\<lambda>db. db) (tenant_in payload) (\<lambda>_. True) (list_condominiums app rq pbx) (\<lambda>vs _. \<forall>v\<in>set vs. cv_tenant v = tenant_in payload)"
    unfolding list_condominiums_def a bindp_lift
    by (rule triple_tenant_at, rule triple_gets) (auto simp: condo_list_def repo_find_by_def condo_view_def)
  then show ?thesis unfolding ListCondos serve.simps by (intro triple_answer triple_weaken[OF triple_on_db]) simp_all
next
  case (PatchCondo i b)
  show ?thesis unfolding PatchCondo serve.simps
    by (rule triple_answer, rule triple_weaken[OF triple_on_db[OF update_condominium_triple[OF a]]]) simp
next
  case (CreateTrunk b)
  show ?thesis unfolding CreateTrunk serve.simps by (rule triple_answer, rule triple_weaken[OF create_trunk_triple[OF a]]) simp
next
  case (ListTrunks f)
  show ?thesis unfolding ListTrunks serve.simps by (rule triple_answer, rule triple_weaken[OF list_trunks_triple[OF a]]) simp
next
  case (PatchTrunk i b)
  show ?thesis unfolding PatchTrunk serve.simps by (rule triple_answer, rule triple_weaken[OF update_trunk_triple[OF a]]) simp
next
  case (ImportTrunks c pbx dry)
  have "triple (\<lambda>db. db) (tenant_in payload) (\<lambda>_. True) (import_trunks app rq c pbx dry) (\<lambda>_ _. True)"
    using keys_cases[of app] unfolding import_trunks_def a bindp_lift
    by (elim disjE exE; simp only: bindp_lift) (auto intro!: triple_throw triple_catch triple_tenant_at import_triple)
  then show ?thesis unfolding ImportTrunks serve.simps by (intro triple_answer triple_weaken[OF triple_on_db]) simp_all
next
  case (CreatePbx b)
  have "triple (\<lambda>db. db) (tenant_in payload) (\<lambda>_. True) (create_pbx app rq b) (\<lambda>p _. px_tenant p = tenant_in payload)"
  proof (rule tripleI)
    fix db r db' assume ok: "db_ok db" and c: "create_pbx app rq b db = (r, db')"
    consider e where "r = Inl e" "db' = db"
      | te where "get_tenant db (tenant_in payload) = Some te"
          "add_pbx (rq_commit rq 0) \<lparr>px_id = rq_id rq 0, px_tenant = te_id te, px_name = pb_name b, px_host = pb_host b,
              px_port = pbx_port b\<rparr> db = (r, db')"
      using c by (auto simp: create_pbx_def a bindp_def split: if_splits sum.splits option.splits dest: tenant_got_in)
    then show "db_ok db' \<and> foreign (tenant_in payload) db' = foreign (tenant_in payload) db
        \<and> (\<forall>p. r = Inr p \<longrightarrow> px_tenant p = tenant_in payload)"
    proof cases
      case 1
      then show ?thesis using ok by simp
    next
      case 2
      from tripleD[OF add_pbx_triple[OF 2(1)] 2(2) ok refl] show ?thesis by blast
    qed
  qed
  then show ?thesis unfolding CreatePbx serve.simps by (intro triple_answer triple_weaken[OF triple_on_db]) simp_all
next
  case ListPbxs
  have "triple (\<lambda>db. db) (tenant_in payload) (\<lambda>_. True) (list_pbxs app rq) (\<lambda>ps _. \<forall>p\<in>set ps. px_tenant p = tenant_in payload)"
    unfolding list_pbxs_def a bindp_lift by (rule triple_tenant_got, rule triple_gets) auto
  then show ?thesis unfolding ListPbxs serve.simps by (intro triple_answer triple_weaken[OF triple_on_db]) simp_all
qed

lemma serve_refused: "admin_of app rq = Inl e \<Longrightarrow> serve app R rq req w = (Inl e, w)"
  by (cases req)
    (simp_all add: answer_def bindp_def on_db_def create_condominium_def list_condominiums_def update_condominium_def create_trunk_def
      list_trunks_def update_trunk_def import_trunks_def create_pbx_def list_pbxs_def)

section \<open>Properties of the API\<close>

text \<open>C31. No request reaches another tenant: without the token of a tenant administrator a request is
  refused and touches nothing; with one, the rows of every other tenant, its PBXs, condominiums and
  trunks, stay as they were, and every row in the answer belongs to the tenant of the token.\<close>

theorem admin_requests_stay_in_their_tenant:
  assumes "db_ok (tw_db w)" and "serve app R rq req w = (res, w')"
  shows "case admin_of app rq of
      Inl e \<Rightarrow> res = Inl e \<and> w' = w
    | Inr payload \<Rightarrow> foreign (tenant_in payload) (tw_db w') = foreign (tenant_in payload) (tw_db w)
        \<and> (\<forall>a. res = Inr a \<longrightarrow> answer_ok (tenant_in payload) (tw_db w') a)"
proof (cases "admin_of app rq")
  case (Inl e)
  then show ?thesis using assms(2) serve_refused[OF Inl, of R req w] by simp
next
  case (Inr payload)
  show ?thesis using tripleD[OF serve_triple[OF Inr] assms(2,1)] Inr by simp
qed




subsection \<open>Errors\<close>

































section \<open>A small installation\<close>

definition office_auth :: auth_settings where
  "office_auth = \<lparr>JWT_SECRET = ''s'', JWT_ALGORITHM = ''HS256'', JWT_EXPIRATION_MINUTES = 60\<rparr>"

definition office_app :: admin_app where
  "office_app = \<lparr>aa_jwt = plain_jwt, aa_auth = office_auth, aa_fernet = tagging_fernet, aa_keys = '' k , '', aa_parse = read_doc\<rparr>"

definition office_token :: "string \<Rightarrow> string" where
  "office_token tenant = create_access_token plain_jwt office_auth 0 0 ''ana'' tenant ''tenant_admin'' None"

definition office_rq :: "string \<Rightarrow> request_env" where
  "office_rq tenant = \<lparr>rq_now = 1000000, rq_bearer = office_token tenant, rq_id = (\<lambda>n. replicate (Suc n) (CHR ''Z'')),
     rq_commit = (\<lambda>_. None), rq_file = Missing\<rparr>"

definition office_world :: "(mem_server, unit) trunk_world" where
  "office_world = \<lparr>tw_db = office_db, tw_redis = \<lparr>ms_texts = [], ms_sets = [], ms_down = []\<rparr>, tw_esl = ()\<rparr>"

lemma office_admitted:
  "\<exists>payload. admin_of office_app (office_rq T) = Inr payload \<and> tenant_in payload = T \<and> tenant_at payload = Inr T"
  by (simp add: admin_of_def office_app_def office_rq_def office_token_def token_admitted[OF plain_jwt_laws] whole_seconds_def
      lifetime_def minutes_def office_auth_def tenant_in_def tenant_at_def access_claims_def)




theorem admin_requests_stay_in_their_tenant_witness:
  "foreign ''T2'' (tw_db (snd (serve office_app mem_redis (office_rq ''T2'') (PatchTrunk ''K1'' \<lparr>pt_condo = None, pt_prefix = None,
      pt_user = Some (Some ''u9''), pt_password = None, pt_profile = None, pt_enabled = None\<rparr>) office_world))) = foreign ''T2'' office_db"
proof -
  obtain payload where p: "admin_of office_app (office_rq ''T2'') = Inr payload" "tenant_in payload = ''T2''"
    using office_admitted by blast
  have ok: "db_ok (tw_db office_world)" using office_ok by (simp add: office_world_def)
  have "foreign (tenant_in payload) (tw_db (snd (serve office_app mem_redis (office_rq ''T2'') req office_world)))
      = foreign (tenant_in payload) (tw_db office_world)" for req
    using admin_requests_stay_in_their_tenant[OF ok prod.collapse[symmetric], of office_app mem_redis "office_rq ''T2''" req]
    unfolding p(1) sum.case by (rule conjunct1)
  then show ?thesis unfolding p(2) by (simp only: office_world_def trunk_world.select_convs)
qed



end
