(* ===== verification/Vars_Xml.thy ===== *)
theory Vars_Xml
  imports Database Xml_Text
begin

text \<open>
  \<open>scripts/sync_vars_xml.py\<close>: the identifiers of the tenant and its PBX in the \<open>vars.xml\<close> of
  FreeSWITCH, derived from the tables. The regular expressions are searched by \<open>find_value\<close>: a
  key, a value without quotes, and the closing quote. The file is its text and its permission
  bits; what its system calls raise is in \<open>vx_*\<close>. The new values hold no backslash (a slug of a
  stored schema name and a UUID), so the replacement templates expand to themselves.
\<close>

section \<open>Values in the text\<close>

definition set_key :: "string \<Rightarrow> string" where
  "set_key name = ''<X-PRE-PROCESS cmd='' @ [QUOTE] @ ''set'' @ [QUOTE] @ '' data='' @ [QUOTE] @ name @ ''=''"

definition TENANT_ID_LINE :: string where "TENANT_ID_LINE = set_key ''tenant_id''"
definition PBX_ID_LINE :: string where "PBX_ID_LINE = set_key ''pbx_id''"

text \<open>The first match: the text up to the value, the value, and the rest from its closing quote.\<close>

fun find_value :: "string \<Rightarrow> string \<Rightarrow> (string \<times> string \<times> string) option" where
  "find_value key [] = None"
| "find_value key (c # cs) =
     (let rest = drop (length key) (c # cs) in
      if starts_with key (c # cs) \<and> QUOTE \<in> set rest
      then Some (key, takeWhile (\<lambda>x. x \<noteq> QUOTE) rest, dropWhile (\<lambda>x. x \<noteq> QUOTE) rest)
      else map_option (\<lambda>(x, v, y). (c # x, v, y)) (find_value key cs))"

definition value_of :: "string \<Rightarrow> string \<Rightarrow> string option" where
  "value_of key s = map_option (\<lambda>(x, v, y). v) (find_value key s)"

definition replace_value :: "string \<Rightarrow> string \<Rightarrow> string \<Rightarrow> string" where
  "replace_value key v s = (case find_value key s of None \<Rightarrow> s | Some (x, _, y) \<Rightarrow> x @ v @ y)"

definition render_updated_vars_xml :: "string \<Rightarrow> string \<Rightarrow> string \<Rightarrow> exc + string" where
  "render_updated_vars_xml content tenant_slug pbx_id =
     (if find_value TENANT_ID_LINE content = None then Inl (ValueError ''vars.xml nao tem uma linha tenant_id=... para atualizar'')
      else if find_value PBX_ID_LINE content = None then Inl (ValueError ''vars.xml nao tem uma linha pbx_id=... para atualizar'')
      else Inr (replace_value PBX_ID_LINE pbx_id (replace_value TENANT_ID_LINE tenant_slug content)))"

definition extract_current_values :: "string \<Rightarrow> string option \<times> string option" where
  "extract_current_values content = (value_of TENANT_ID_LINE content, value_of PBX_ID_LINE content)"

section \<open>The file\<close>

record vars_file =
  vf_text :: string
  vf_mode :: nat

record vars_env =
  vx_read :: "exc option"
  vx_write :: "exc option"

definition read_vars :: "vars_env \<Rightarrow> vars_file option \<Rightarrow> exc + string" where
  "read_vars env f =
     (case f of None \<Rightarrow> Inl FileNotFoundError
      | Some v \<Rightarrow> (case vx_read env of Some e \<Rightarrow> Inl e | None \<Rightarrow> Inr (vf_text v)))"

text \<open>\<open>mkstemp\<close>, write, \<open>fsync\<close>, \<open>chmod\<close> and \<open>replace\<close>: until the last of them the file is the old one.\<close>

definition DEFAULT_MODE :: nat where "DEFAULT_MODE = 420"

definition write_atomic :: "vars_env \<Rightarrow> string \<Rightarrow> (vars_file option, unit) prog" where
  "write_atomic env payload f =
     (case vx_write env of
        Some e \<Rightarrow> (Inl e, f)
      | None \<Rightarrow> (Inr (), Some \<lparr>vf_text = payload, vf_mode = (case f of None \<Rightarrow> DEFAULT_MODE | Some v \<Rightarrow> vf_mode v)\<rparr>))"

definition removeprefix :: "string \<Rightarrow> string \<Rightarrow> string" where
  "removeprefix p s = (if starts_with p s then drop (length p) s else s)"

definition resolve_tenant_pbx :: "string \<Rightarrow> public_db \<Rightarrow> exc + string \<times> string" where
  "resolve_tenant_pbx schema_name db =
     (case find (\<lambda>t. te_schema t = schema_name) (db_tenants db) of
        None \<Rightarrow> Inl (ValueError ''Tenant nao encontrado'')
      | Some t \<Rightarrow>
         (case filter (\<lambda>p. px_tenant p = te_id t) (db_pbxs db) of
            [p] \<Rightarrow> Inr (removeprefix ''tenant_'' schema_name, px_id p)
          | _ \<Rightarrow> Inl (ValueError ''vars.xml so suporta 1 PBX'')))"

definition sync_vars :: "vars_env \<Rightarrow> public_db \<Rightarrow> string \<Rightarrow> bool \<Rightarrow> (vars_file option, bool) prog" where
  "sync_vars env db schema_name check_only f =
     (case resolve_tenant_pbx schema_name db of
        Inl e \<Rightarrow> (Inl e, f)
      | Inr (tenant_slug, pbx_id) \<Rightarrow>
         (case read_vars env f of
            Inl e \<Rightarrow> (Inl e, f)
          | Inr content \<Rightarrow>
             (let changed = (extract_current_values content \<noteq> (Some tenant_slug, Some pbx_id)) in
              if \<not> changed \<or> check_only then (Inr changed, f)
              else (case render_updated_vars_xml content tenant_slug pbx_id of
                      Inl e \<Rightarrow> (Inl e, f)
                    | Inr payload \<Rightarrow> bindp (write_atomic env payload) (\<lambda>_. ret True) f))))"

section \<open>Replacing one value leaves the other\<close>

text \<open>A key is an opening bracket with no other bracket in it and a quote before its end.\<close>

definition key_ok :: "string \<Rightarrow> bool" where
  "key_ok k \<longleftrightarrow> (\<exists>t. k = CHR ''<'' # t \<and> CHR ''<'' \<notin> set t \<and> QUOTE \<in> set t)"

lemma keys_ok: "key_ok TENANT_ID_LINE" "key_ok PBX_ID_LINE"
  by (simp_all add: key_ok_def TENANT_ID_LINE_def PBX_ID_LINE_def set_key_def QUOTE_def)

lemma find_value_parts:
  "find_value key s = Some (x, v, y) \<Longrightarrow> s = x @ v @ y \<and> QUOTE \<notin> set v \<and> (\<exists>a. x = a @ key) \<and> (\<exists>z. y = QUOTE # z)"
proof (induction s arbitrary: x)
  case (Cons c cs)
  show ?case
  proof (cases "starts_with key (c # cs) \<and> QUOTE \<in> set (drop (length key) (c # cs))")
    case True
    then obtain r where r: "c # cs = key @ r" by (auto simp: starts_with_iff)
    then have d: "drop (length key) (c # cs) = r" by simp
    have q: "QUOTE \<in> set r" using True d by simp
    have "x = key" "v = takeWhile (\<lambda>x. x \<noteq> QUOTE) r" "y = dropWhile (\<lambda>x. x \<noteq> QUOTE) r"
      using Cons.prems True by (simp_all add: Let_def d)
    moreover have "\<exists>z. dropWhile (\<lambda>x. x \<noteq> QUOTE) r = QUOTE # z" using q by (induction r) auto
    ultimately show ?thesis using r by (auto dest: set_takeWhileD)
  next
    case False
    then obtain x' where "find_value key cs = Some (x', v, y)" "x = c # x'"
      using Cons.prems by (auto simp: Let_def split: if_splits)
    with Cons.IH show ?thesis by (metis append_Cons)
  qed
qed simp

text \<open>No match of a key begins in a text without an opening bracket.\<close>

lemma find_value_skip:
  assumes "key_ok key" and "CHR ''<'' \<notin> set w"
  shows "find_value key (w @ s) = map_option (\<lambda>(x, v, y). (w @ x, v, y)) (find_value key s)"
  using assms(2)
proof (induction w)
  case Nil
  show ?case by (cases "find_value key s") auto
next
  case (Cons c w)
  obtain t where "key = CHR ''<'' # t" using assms(1) by (auto simp: key_ok_def)
  then have "\<not> starts_with key (c # w @ s)" using Cons.prems by (auto simp: starts_with_def)
  then show ?case using Cons by (cases "find_value key s") (auto simp: Let_def)
qed

text \<open>A match of a key that begins before another key ends before it, or leaves that key out.\<close>

lemma starts_before:
  assumes "key_ok k" and "key_ok k'" and "starts_with k (c # a @ k' @ r)"
  shows "\<exists>z. c # a = k @ z"
proof (rule ccontr)
  assume no: "\<not> ?thesis"
  obtain s where s: "c # a @ k' @ r = k @ s" using assms(3) by (auto simp: starts_with_iff)
  obtain t' where k': "k' = CHR ''<'' # t'" using assms(2) by (auto simp: key_ok_def)
  obtain t where k: "k = CHR ''<'' # t" "CHR ''<'' \<notin> set t" using assms(1) by (auto simp: key_ok_def)
  have "(c # a) @ (k' @ r) = k @ s" using s by simp
  then obtain u where "(c # a = k @ u \<and> u @ k' @ r = s) \<or> ((c # a) @ u = k \<and> k' @ r = u @ s)"
    unfolding append_eq_append_conv2 by blast
  with no have u: "(c # a) @ u = k" "k' @ r = u @ s" by auto
  have "u \<noteq> []" using u(1) no by (metis append_Nil2)
  then have "CHR ''<'' \<in> set u" using u(2) k' by (cases u) auto
  then show False using u(1) k by auto
qed

lemma find_value_split:
  assumes "key_ok k" and "key_ok k'" and "\<not> starts_with k k'" and "\<not> starts_with k' k"
  shows "(\<exists>x v y. \<forall>r. find_value k (a @ k' @ r) = Some (x, v, y @ r))
    \<or> (\<forall>r. find_value k (a @ k' @ r) = map_option (\<lambda>(x, v, y). (a @ k' @ x, v, y)) (find_value k r))"
proof (induction a)
  case Nil
  obtain t where t: "k' = CHR ''<'' # t" "CHR ''<'' \<notin> set t" using assms(2) by (auto simp: key_ok_def)
  have "\<not> starts_with k (k' @ r)" for r
    using assms(3,4) by (auto simp: starts_with_iff append_eq_append_conv2)
  then have "find_value k (k' @ r) = map_option (\<lambda>(x, v, y). (k' @ x, v, y)) (find_value k r)" for r
    using find_value_skip[OF assms(1) t(2), of r] by (cases "find_value k r") (auto simp: t(1) Let_def)
  then show ?case by simp
next
  case (Cons c a)
  show ?case
  proof (cases "\<exists>z. c # a = k @ z")
    case True
    then obtain z where z: "c # a = k @ z" by blast
    have q: "QUOTE \<in> set (z @ k')" using assms(2) by (auto simp: key_ok_def)
    have "find_value k (c # a @ k' @ r) = Some (k, takeWhile (\<lambda>x. x \<noteq> QUOTE) (z @ k'), dropWhile (\<lambda>x. x \<noteq> QUOTE) (z @ k') @ r)" for r
    proof -
      have e: "c # a @ k' @ r = k @ z @ k' @ r" using z by (metis append_Cons append.assoc)
      have d: "drop (length k) (c # a @ k' @ r) = (z @ k') @ r" unfolding e by simp
      have "takeWhile (\<lambda>x. x \<noteq> QUOTE) ((z @ k') @ r) = takeWhile (\<lambda>x. x \<noteq> QUOTE) (z @ k')"
        "dropWhile (\<lambda>x. x \<noteq> QUOTE) ((z @ k') @ r) = dropWhile (\<lambda>x. x \<noteq> QUOTE) (z @ k') @ r"
        by (rule takeWhile_append1[OF q], simp) (rule dropWhile_append1[OF q], simp)
      moreover have "starts_with k (c # a @ k' @ r)" unfolding e by simp
      ultimately show ?thesis using q unfolding find_value.simps Let_def d by (simp del: append_assoc)
    qed
    then show ?thesis by (metis append_Cons)
  next
    case False
    then have "\<not> starts_with k (c # a @ k' @ r)" for r using starts_before[OF assms(1,2)] by blast
    then have f: "find_value k (c # a @ k' @ r) = map_option (\<lambda>(x, v, y). (c # x, v, y)) (find_value k (a @ k' @ r))" for r
      by (simp add: Let_def)
    from Cons.IH show ?thesis
    proof
      assume "\<exists>x v y. \<forall>r. find_value k (a @ k' @ r) = Some (x, v, y @ r)"
      then obtain x v y where "\<forall>r. find_value k (a @ k' @ r) = Some (x, v, y @ r)" by blast
      then have "\<forall>r. find_value k ((c # a) @ k' @ r) = Some (c # x, v, y @ r)" using f by simp
      then show ?thesis by blast
    next
      assume "\<forall>r. find_value k (a @ k' @ r) = map_option (\<lambda>(x, v, y). (a @ k' @ x, v, y)) (find_value k r)"
      then have "\<forall>r. find_value k ((c # a) @ k' @ r) = map_option (\<lambda>(x, v, y). ((c # a) @ k' @ x, v, y)) (find_value k r)"
        using f by (auto simp: option.map_comp comp_def split_def)
      then show ?thesis by blast
    qed
  qed
qed

text \<open>The value that was written is the one that is read.\<close>

lemma find_own_value:
  assumes "key_ok k" and "find_value k s = Some (x, v, y)" and "QUOTE \<notin> set w"
  shows "find_value k (x @ w @ y) = Some (x, w, y)"
  using assms(2)
proof (induction s arbitrary: x)
  case (Cons c cs)
  obtain z where z: "y = QUOTE # z" using find_value_parts[OF Cons.prems] by blast
  show ?case
  proof (cases "starts_with k (c # cs) \<and> QUOTE \<in> set (drop (length k) (c # cs))")
    case True
    then have x: "x = k" using Cons.prems by (simp add: Let_def)
    obtain t where t: "k = CHR ''<'' # t" using assms(1) by (auto simp: key_ok_def)
    have d: "drop (length k) (k @ w @ y) = w @ y" by simp
    have "takeWhile (\<lambda>x. x \<noteq> QUOTE) (w @ y) = w" "dropWhile (\<lambda>x. x \<noteq> QUOTE) (w @ y) = y"
      using assms(3) z by (induction w) auto
    moreover have "k @ w @ y = CHR ''<'' # (t @ w @ y)" by (simp add: t)
    moreover have "starts_with k (k @ w @ y)" "QUOTE \<in> set (w @ y)" using z by auto
    ultimately show ?thesis unfolding x using d by (simp add: Let_def)
  next
    case False
    then obtain x' where x': "find_value k cs = Some (x', v, y)" "x = c # x'"
      using Cons.prems by (auto simp: Let_def split: if_splits)
    have "\<not> starts_with k (c # x' @ w @ y)"
    proof
      assume st: "starts_with k (c # x' @ w @ y)"
      obtain a where a: "x' = a @ k" and cs: "cs = x' @ v @ y" using find_value_parts[OF x'(1)] by blast
      obtain u where u: "c # a = k @ u" using starts_before[OF assms(1) assms(1), of c a "w @ y"] st a by auto
      have "starts_with k (c # cs)" unfolding cs a using u by (metis append_Cons append.assoc starts_with_append)
      moreover have "c # cs = k @ u @ k @ v @ y" unfolding cs a using u by (metis append_Cons append.assoc)
      then have "drop (length k) (c # cs) = u @ k @ v @ y" by (metis append_eq_conv_conj)
      ultimately show False using False z by simp
    qed
    then show ?thesis using Cons.IH[OF x'(1)] x'(2) by (simp add: Let_def)
  qed
qed simp

lemma key_lines_apart: "\<not> starts_with TENANT_ID_LINE PBX_ID_LINE" "\<not> starts_with PBX_ID_LINE TENANT_ID_LINE"
  by code_simp+

definition plain_value :: "string \<Rightarrow> bool" where
  "plain_value v \<longleftrightarrow> CHR ''<'' \<notin> set v \<and> QUOTE \<notin> set v"

lemma other_value_kept:
  assumes "key_ok k" and "key_ok k'" and "\<not> starts_with k k'" and "\<not> starts_with k' k"
    and f: "find_value k' s = Some (x, v, y)" and "CHR ''<'' \<notin> set v" and "plain_value w"
  shows "value_of k (x @ w @ y) = value_of k s"
proof -
  obtain a where a: "x = a @ k'" and s: "s = x @ v @ y" using find_value_parts[OF f] by blast
  have w: "CHR ''<'' \<notin> set w" using assms(7) by (simp add: plain_value_def)
  from find_value_split[OF assms(1-4), of a] show ?thesis
  proof
    assume "\<exists>x v y. \<forall>r. find_value k (a @ k' @ r) = Some (x, v, y @ r)"
    then show ?thesis unfolding s a by (auto simp: value_of_def)
  next
    assume n: "\<forall>r. find_value k (a @ k' @ r) = map_option (\<lambda>(x, v, y). (a @ k' @ x, v, y)) (find_value k r)"
    have "value_of k (a @ k' @ u @ y) = value_of k y" if "CHR ''<'' \<notin> set u" for u
      using n find_value_skip[OF assms(1) that, of y] by (cases "find_value k y") (auto simp: value_of_def)
    then show ?thesis using w assms(6) unfolding s a by simp
  qed
qed

lemma render_sets_both:
  assumes "render_updated_vars_xml s slug pbx = Inr r" and "plain_value slug" and "plain_value pbx"
    and "\<forall>v. value_of TENANT_ID_LINE s = Some v \<or> value_of PBX_ID_LINE s = Some v \<longrightarrow> CHR ''<'' \<notin> set v"
  shows "extract_current_values r = (Some slug, Some pbx)"
proof -
  let ?t = TENANT_ID_LINE and ?p = PBX_ID_LINE
  obtain x v y x' v' y' where t: "find_value ?t s = Some (x, v, y)" and p: "find_value ?p s = Some (x', v', y')"
    using assms(1) by (cases "find_value ?t s"; cases "find_value ?p s") (auto simp: render_updated_vars_xml_def)
  define c where "c = x @ slug @ y"
  have c: "replace_value ?t slug s = c" by (simp add: replace_value_def t c_def)
  have tc: "find_value ?t c = Some (x, slug, y)"
    unfolding c_def using assms(2) by (intro find_own_value[OF keys_ok(1) t]) (simp add: plain_value_def)
  have "value_of ?p c = value_of ?p s"
    unfolding c_def using assms(4) t
    by (intro other_value_kept[OF keys_ok(2,1) key_lines_apart(2,1) t _ assms(2)]) (simp add: value_of_def)
  then obtain x2 y2 where p2: "find_value ?p c = Some (x2, v', y2)" using p by (auto simp: value_of_def)
  have r: "r = x2 @ pbx @ y2"
    using assms(1) t p c p2 by (simp add: render_updated_vars_xml_def replace_value_def)
  have "find_value ?p r = Some (x2, pbx, y2)"
    unfolding r using assms(3) by (intro find_own_value[OF keys_ok(2) p2]) (simp add: plain_value_def)
  moreover have "value_of ?t r = value_of ?t c"
    unfolding r using assms(4) p
    by (intro other_value_kept[OF keys_ok(1,2) key_lines_apart(1,2) p2 _ assms(3)]) (simp add: value_of_def)
  ultimately show ?thesis using tc by (simp add: extract_current_values_def value_of_def)
qed

text \<open>C35. The file follows the tables: after a synchronisation that returns, the values FreeSWITCH reads
  for tenant and PBX are those of the database, the permissions of the file are kept, the file was
  touched just when a check beforehand would have reported a difference, and synchronising again
  finds nothing to do.\<close>

theorem vars_follow_the_database:
  assumes "resolve_tenant_pbx schema db = Inr (slug, pbx)" and "plain_value slug" and "plain_value pbx"
    and "\<forall>v. value_of TENANT_ID_LINE (vf_text old) = Some v \<or> value_of PBX_ID_LINE (vf_text old) = Some v \<longrightarrow> CHR ''<'' \<notin> set v"
    and "sync_vars env db schema False (Some old) = (Inr changed, f)"
  shows "\<exists>new. f = Some new \<and> extract_current_values (vf_text new) = (Some slug, Some pbx) \<and> vf_mode new = vf_mode old
    \<and> (changed \<longleftrightarrow> new \<noteq> old) \<and> sync_vars env db schema True (Some old) = (Inr changed, Some old)
    \<and> sync_vars env db schema False f = (Inr False, f)"
proof -
  have rd: "vx_read env = None" using assms(1,5) by (auto simp: sync_vars_def read_vars_def split: option.splits)
  define differs where "differs \<longleftrightarrow> extract_current_values (vf_text old) \<noteq> (Some slug, Some pbx)"
  show ?thesis
  proof (cases differs)
    case False
    then have "changed = False" "f = Some old"
      using assms(1,5) rd by (auto simp: sync_vars_def read_vars_def differs_def)
    then show ?thesis using False assms(1) rd by (auto simp: sync_vars_def read_vars_def differs_def)
  next
    case True
    obtain r where r: "render_updated_vars_xml (vf_text old) slug pbx = Inr r" "vx_write env = None"
      and f: "changed = True" "f = Some \<lparr>vf_text = r, vf_mode = vf_mode old\<rparr>"
      using assms(1,5) rd True
      by (auto simp: sync_vars_def read_vars_def differs_def Let_def write_atomic_def bindp_def split: sum.splits option.splits)
    have e: "extract_current_values r = (Some slug, Some pbx)" by (rule render_sets_both[OF r(1) assms(2-4)])
    then have "r \<noteq> vf_text old" using True by (auto simp: differs_def)
    then have "\<lparr>vf_text = r, vf_mode = vf_mode old\<rparr> \<noteq> old" by (metis vars_file.select_convs(1))
    then show ?thesis using f e True assms(1) rd by (auto simp: sync_vars_def read_vars_def differs_def)
  qed
qed

definition vars_a :: vars_file where
  "vars_a = \<lparr>vf_text = ''<include>'' @ set_key ''tenant_id'' @ ''old'' @ [QUOTE] @ ''/>'' @ set_key ''pbx_id'' @ [QUOTE] @ ''/></include>'',
     vf_mode = 436\<rparr>"

definition vars_db :: public_db where
  "vars_db = \<lparr>db_tenants = [\<lparr>te_id = ''T1'', te_name = ''Akom'', te_schema = ''tenant_akom'', te_status = ''active''\<rparr>],
     db_pbxs = [\<lparr>px_id = ''P1'', px_tenant = ''T1'', px_name = ''n'', px_host = ''h'', px_port = 5060\<rparr>], db_condos = [], db_trunks = []\<rparr>"

theorem vars_follow_the_database_witness:
  "\<exists>new. sync_vars \<lparr>vx_read = None, vx_write = None\<rparr> vars_db ''tenant_akom'' False (Some vars_a) = (Inr True, Some new)
    \<and> extract_current_values (vf_text new) = (Some ''akom'', Some ''P1'') \<and> vf_mode new = 436"
proof -
  let ?env = "\<lparr>vx_read = None, vx_write = None\<rparr> :: vars_env"
  have r: "resolve_tenant_pbx ''tenant_akom'' vars_db = Inr (''akom'', ''P1'')" by code_simp
  have v: "value_of TENANT_ID_LINE (vf_text vars_a) = Some ''old''" "value_of PBX_ID_LINE (vf_text vars_a) = Some []"
    by code_simp+
  then have "find_value TENANT_ID_LINE (vf_text vars_a) \<noteq> None" "find_value PBX_ID_LINE (vf_text vars_a) \<noteq> None"
    by (auto simp: value_of_def)
  then have "\<exists>x. render_updated_vars_xml (vf_text vars_a) ''akom'' ''P1'' = Inr x" by (simp add: render_updated_vars_xml_def)
  then have "\<exists>f. sync_vars ?env vars_db ''tenant_akom'' False (Some vars_a) = (Inr True, f)"
    by (auto simp: sync_vars_def r read_vars_def extract_current_values_def v write_atomic_def)
  then obtain f where f: "sync_vars ?env vars_db ''tenant_akom'' False (Some vars_a) = (Inr True, f)" by blast
  have p: "plain_value ''akom''" "plain_value ''P1''" by (simp_all add: plain_value_def QUOTE_def)
  have "\<forall>v. value_of TENANT_ID_LINE (vf_text vars_a) = Some v \<or> value_of PBX_ID_LINE (vf_text vars_a) = Some v \<longrightarrow> CHR ''<'' \<notin> set v"
    using v by auto
  from vars_follow_the_database[OF r p this f] f show ?thesis by (auto simp: vars_a_def)
qed

end
