(* ===== verification/Provision.thy ===== *)
theory Provision
  imports Trunks Vars_Xml
begin

text \<open>
  \<open>scripts/provision_tenant.py\<close>: a tenant, its PBX and its schema, with the compensation of the
  intermediate commits. \<open>prov_run\<close> holds the tables, the schemas and the local variables of the
  function; \<open>pv_*\<close> are the UUIDs drawn and what each call of the session raises, if anything.
  Deleting a row deletes what refers to it, as the foreign keys say (ON DELETE CASCADE).
\<close>

record prov_env =
  pv_tenant_uuid :: string
  pv_pbx_uuid :: string
  pv_find_tenant :: "exc option"
  pv_commit_tenant :: "exc option"
  pv_refresh_tenant :: "exc option"
  pv_find_pbx :: "exc option"
  pv_commit_pbx :: "exc option"
  pv_refresh_pbx :: "exc option"
  pv_schema :: "exc option"
  pv_undo :: "exc option"

record prov_args =
  pa_name :: string
  pa_schema :: string
  pa_pbx_name :: string
  pa_pbx_host :: string
  pa_pbx_port :: int
  pa_tenant_id :: "string option"
  pa_pbx_id :: "string option"
  pa_restore :: bool

record prov_state =
  ps_db :: public_db
  ps_schemas :: "string list"

record prov_run = prov_state +
  pr_tenant_id :: string
  pr_pbx_id :: string
  pr_tenant_created :: bool
  pr_pbx_created :: bool

definition raising :: "exc option \<Rightarrow> ('s, unit) prog" where
  "raising e s = (case e of None \<Rightarrow> (Inr (), s) | Some x \<Rightarrow> (Inl x, s))"

definition check_schema_name :: "string \<Rightarrow> exc + string" where
  "check_schema_name schema_name =
     (if \<not> starts_with ''tenant_'' schema_name then Inl (ValueError ''schema_name deve comecar com tenant_'')
      else let slug = removeprefix ''tenant_'' schema_name in
        if slug = [] \<or> \<not> list_all py_alnum slug then Inl (ValueError ''slug precisa ser alfanumerico simples'') else Inr slug)"

definition validate_restore_ids ::
    "prov_env \<Rightarrow> string option \<Rightarrow> string option \<Rightarrow> bool \<Rightarrow> exc + string \<times> string" where
  "validate_restore_ids env tenant_id pbx_id restore =
     (if (tenant_id \<noteq> None \<or> pbx_id \<noteq> None) \<and> \<not> restore
      then Inl (ValueError ''UUIDs explicitos so sao permitidos no modo restore'')
      else if restore \<and> (tenant_id = None \<or> pbx_id = None)
      then Inl (ValueError ''restore exige tenant_id e pbx_id explicitos'')
      else Inr (case tenant_id of None \<Rightarrow> pv_tenant_uuid env | Some t \<Rightarrow> t, case pbx_id of None \<Rightarrow> pv_pbx_uuid env | Some p \<Rightarrow> p))"

definition tenant_violation :: "tenant_row list \<Rightarrow> tenant_row \<Rightarrow> exc option" where
  "tenant_violation others r =
     (if too_long 128 (te_name r) \<or> too_long 64 (te_schema r) then Some truncation
      else if \<exists>q\<in>set others. te_id q = te_id r then Some (SQLAlchemyError ''tenants_pkey'')
      else if \<exists>q\<in>set others. te_schema q = te_schema r then Some (SQLAlchemyError ''tenants_schema_name_key'')
      else None)"

definition pbx_violation :: "pbx_row list \<Rightarrow> pbx_row \<Rightarrow> exc option" where
  "pbx_violation others r =
     (if too_long 128 (px_name r) \<or> too_long 128 (px_host r) then Some truncation
      else if px_port r < - 2147483648 \<or> px_port r > 2147483647 then Some (SQLAlchemyError ''integer out of range'')
      else if \<exists>q\<in>set others. px_id q = px_id r then Some (SQLAlchemyError ''pbxs_pkey'')
      else None)"

definition find_tenant :: "public_db \<Rightarrow> string \<Rightarrow> tenant_row option" where
  "find_tenant db schema_name = find (\<lambda>t. te_schema t = schema_name) (db_tenants db)"

definition add_tenant :: "prov_env \<Rightarrow> tenant_row \<Rightarrow> (prov_run, unit) prog" where
  "add_tenant env r s =
     (case tenant_violation (db_tenants (ps_db s)) r of
        Some e \<Rightarrow> (Inl e, s)
      | None \<Rightarrow>
         (case pv_commit_tenant env of
            Some e \<Rightarrow> (Inl e, s)
          | None \<Rightarrow> raising (pv_refresh_tenant env)
              (s\<lparr>ps_db := (ps_db s)\<lparr>db_tenants := db_tenants (ps_db s) @ [r]\<rparr>, pr_tenant_created := True\<rparr>)))"

definition ensure_tenant :: "prov_env \<Rightarrow> prov_args \<Rightarrow> (prov_run, unit) prog" where
  "ensure_tenant env a =
     bindp (raising (pv_find_tenant env)) (\<lambda>_ s.
       case find_tenant (ps_db s) (pa_schema a) of
         Some existing \<Rightarrow>
           if pa_restore a \<and> te_id existing \<noteq> pr_tenant_id s
           then (Inl (ValueError ''conflito de UUID do tenant durante restore''), s)
           else (Inr (), s\<lparr>pr_tenant_id := te_id existing\<rparr>)
       | None \<Rightarrow> add_tenant env
           \<lparr>te_id = pr_tenant_id s, te_name = pa_name a, te_schema = pa_schema a, te_status = ''active''\<rparr> s)"

definition find_pbx :: "public_db \<Rightarrow> string \<Rightarrow> string \<Rightarrow> int \<Rightarrow> pbx_row option" where
  "find_pbx db tenant_id host port =
     find (\<lambda>p. px_tenant p = tenant_id \<and> px_host p = host \<and> px_port p = port) (db_pbxs db)"

definition insert_pbx :: "prov_env \<Rightarrow> pbx_row \<Rightarrow> (prov_run, unit) prog" where
  "insert_pbx env r s =
     (case pbx_violation (db_pbxs (ps_db s)) r of
        Some e \<Rightarrow> (Inl e, s)
      | None \<Rightarrow>
         (case pv_commit_pbx env of
            Some e \<Rightarrow> (Inl e, s)
          | None \<Rightarrow> raising (pv_refresh_pbx env)
              (s\<lparr>ps_db := (ps_db s)\<lparr>db_pbxs := db_pbxs (ps_db s) @ [r]\<rparr>, pr_pbx_created := True\<rparr>)))"

definition ensure_pbx :: "prov_env \<Rightarrow> prov_args \<Rightarrow> (prov_run, unit) prog" where
  "ensure_pbx env a =
     bindp (raising (pv_find_pbx env)) (\<lambda>_ s.
       case find_pbx (ps_db s) (pr_tenant_id s) (pa_pbx_host a) (pa_pbx_port a) of
         Some existing \<Rightarrow>
           if pa_restore a \<and> px_id existing \<noteq> pr_pbx_id s
           then (Inl (ValueError ''conflito de UUID do PBX durante restore''), s)
           else (Inr (), s\<lparr>pr_pbx_id := px_id existing\<rparr>)
       | None \<Rightarrow> insert_pbx env
           \<lparr>px_id = pr_pbx_id s, px_tenant = pr_tenant_id s, px_name = pa_pbx_name a, px_host = pa_pbx_host a,
            px_port = pa_pbx_port a\<rparr> s)"

definition make_schema :: "prov_env \<Rightarrow> prov_args \<Rightarrow> (prov_run, unit) prog" where
  "make_schema env a s =
     (case create_tenant_schema (pa_schema a) (ps_schemas s) of
        (Inl e, _) \<Rightarrow> (Inl e, s)
      | (Inr _, schemas) \<Rightarrow> (case pv_schema env of Some e \<Rightarrow> (Inl e, s) | None \<Rightarrow> (Inr (), s\<lparr>ps_schemas := schemas\<rparr>)))"

definition provision_body :: "prov_env \<Rightarrow> prov_args \<Rightarrow> (prov_run, unit) prog" where
  "provision_body env a =
     bindp (ensure_tenant env a) (\<lambda>_. bindp (ensure_pbx env a) (\<lambda>_. make_schema env a))"

section \<open>Compensation\<close>

definition delete_pbx :: "string \<Rightarrow> public_db \<Rightarrow> public_db" where
  "delete_pbx i db = db\<lparr>db_pbxs := filter (\<lambda>p. px_id p \<noteq> i) (db_pbxs db),
     db_condos := filter (\<lambda>c. co_pbx c \<noteq> i) (db_condos db), db_trunks := filter (\<lambda>t. tr_pbx t \<noteq> i) (db_trunks db)\<rparr>"

definition delete_tenant :: "string \<Rightarrow> public_db \<Rightarrow> public_db" where
  "delete_tenant i db = db\<lparr>db_tenants := filter (\<lambda>t. te_id t \<noteq> i) (db_tenants db),
     db_pbxs := filter (\<lambda>p. px_tenant p \<noteq> i) (db_pbxs db),
     db_condos := filter (\<lambda>c. co_tenant c \<noteq> i) (db_condos db), db_trunks := filter (\<lambda>t. tr_tenant t \<noteq> i) (db_trunks db)\<rparr>"

definition undo_rows :: "prov_run \<Rightarrow> public_db" where
  "undo_rows s =
     (let db1 = (if pr_pbx_created s then delete_pbx (pr_pbx_id s) (ps_db s) else ps_db s)
      in if pr_tenant_created s then delete_tenant (pr_tenant_id s) db1 else db1)"

definition compensate :: "prov_env \<Rightarrow> exc \<Rightarrow> (prov_run, unit) prog" where
  "compensate env e s =
     (if \<not> (pr_pbx_created s \<or> pr_tenant_created s) then (Inl e, s)
      else case pv_undo env of
        Some e' \<Rightarrow> (Inl e', s)
      | None \<Rightarrow> (Inl e, s\<lparr>ps_db := undo_rows s\<rparr>))"

definition provision :: "prov_env \<Rightarrow> prov_args \<Rightarrow> (prov_state, unit) prog" where
  "provision env a s =
     (case check_schema_name (pa_schema a) of
        Inl e \<Rightarrow> (Inl e, s)
      | Inr slug \<Rightarrow>
         (case validate_restore_ids env (pa_tenant_id a) (pa_pbx_id a) (pa_restore a) of
            Inl e \<Rightarrow> (Inl e, s)
          | Inr (tenant_id, pbx_id) \<Rightarrow>
             (case catchp (provision_body env a) (\<lambda>_. True) (compensate env)
                 \<lparr>ps_db = ps_db s, ps_schemas = ps_schemas s, pr_tenant_id = tenant_id, pr_pbx_id = pbx_id,
                  pr_tenant_created = False, pr_pbx_created = False\<rparr> of
                (r, run) \<Rightarrow> (r, \<lparr>ps_db = ps_db run, ps_schemas = ps_schemas run\<rparr>))))"

text \<open>With \<open>--sync-vars-xml\<close>: the file is written after the rows are there, outside the compensation.\<close>

definition provision_and_sync ::
    "prov_env \<Rightarrow> prov_args \<Rightarrow> vars_env option \<Rightarrow> (prov_state \<times> vars_file option, unit) prog" where
  "provision_and_sync env a sync w =
     (case provision env a (fst w) of
        (Inl e, s) \<Rightarrow> (Inl e, s, snd w)
      | (Inr _, s) \<Rightarrow>
         (case sync of
            None \<Rightarrow> (Inr (), s, snd w)
          | Some venv \<Rightarrow>
             (case sync_vars venv (ps_db s) (pa_schema a) False (snd w) of
                (Inl e, f) \<Rightarrow> (Inl e, s, f) | (Inr _, f) \<Rightarrow> (Inr (), s, f))))"

section \<open>All or nothing\<close>

text \<open>What a run has added to the tables it started with.\<close>

definition tenants_added :: "prov_state \<Rightarrow> bool \<Rightarrow> string \<Rightarrow> tenant_row list \<Rightarrow> bool" where
  "tenants_added s0 created i ts \<longleftrightarrow>
     (if created then map te_id ts = [i] \<and> i \<notin> te_id ` set (db_tenants (ps_db s0)) else ts = [])"

definition pbxs_added :: "prov_state \<Rightarrow> bool \<Rightarrow> string \<Rightarrow> string \<Rightarrow> pbx_row list \<Rightarrow> bool" where
  "pbxs_added s0 created i tenant ps \<longleftrightarrow>
     (if created then map px_id ps = [i] \<and> map px_tenant ps = [tenant] \<and> i \<notin> px_id ` set (db_pbxs (ps_db s0)) else ps = [])"

definition grown :: "prov_state \<Rightarrow> prov_run \<Rightarrow> bool" where
  "grown s0 s \<longleftrightarrow>
     (\<exists>ts ps. ps_db s = (ps_db s0)\<lparr>db_tenants := db_tenants (ps_db s0) @ ts, db_pbxs := db_pbxs (ps_db s0) @ ps\<rparr>
        \<and> tenants_added s0 (pr_tenant_created s) (pr_tenant_id s) ts
        \<and> pbxs_added s0 (pr_pbx_created s) (pr_pbx_id s) (pr_tenant_id s) ps)"

lemma none_added [simp]: "tenants_added s0 False i ts \<longleftrightarrow> ts = []" "pbxs_added s0 False j i ps \<longleftrightarrow> ps = []"
  by (simp_all add: tenants_added_def pbxs_added_def)

lemma grown_cong:
  assumes "grown s0 s" and "ps_db s' = ps_db s" and "pr_tenant_created s' = pr_tenant_created s"
    and "pr_pbx_created s' = pr_pbx_created s" and "pr_tenant_id s' = pr_tenant_id s"
    and "pr_pbx_created s \<longrightarrow> pr_pbx_id s' = pr_pbx_id s"
  shows "grown s0 s'"
  using assms(1,6) unfolding grown_def assms(2-5) by (cases "pr_pbx_created s") simp_all

lemma filter_fresh: "i \<notin> f ` set xs \<Longrightarrow> filter (\<lambda>x. f x \<noteq> i) xs = xs"
  by (induction xs) auto

lemma filter_refs: "(\<And>x. x \<in> set xs \<Longrightarrow> f x \<in> A) \<Longrightarrow> i \<notin> A \<Longrightarrow> filter (\<lambda>x. f x \<noteq> i) xs = xs"
  by (rule filter_True) blast

lemma rows_refer_to_known:
  assumes "db_ok db"
  shows "c \<in> set (db_condos db) \<Longrightarrow> co_tenant c \<in> te_id ` set (db_tenants db) \<and> co_pbx c \<in> px_id ` set (db_pbxs db)"
    and "t \<in> set (db_trunks db) \<Longrightarrow> tr_tenant t \<in> te_id ` set (db_tenants db) \<and> tr_pbx t \<in> px_id ` set (db_pbxs db)"
    and "p \<in> set (db_pbxs db) \<Longrightarrow> px_tenant p \<in> te_id ` set (db_tenants db)"
proof -
  have ok: "\<forall>c\<in>set (db_condos db). condo_row_ok db c" "\<forall>t\<in>set (db_trunks db). trunk_row_ok db t"
    "\<forall>p\<in>set (db_pbxs db). \<exists>q\<in>set (db_tenants db). te_id q = px_tenant p"
    using assms unfolding db_ok_def condos_sound_def trunks_sound_def by blast+
  show "c \<in> set (db_condos db) \<Longrightarrow> co_tenant c \<in> te_id ` set (db_tenants db) \<and> co_pbx c \<in> px_id ` set (db_pbxs db)"
    using ok(1) unfolding condo_row_ok_def by (metis image_eqI)
  show "t \<in> set (db_trunks db) \<Longrightarrow> tr_tenant t \<in> te_id ` set (db_tenants db) \<and> tr_pbx t \<in> px_id ` set (db_pbxs db)"
    using ok(2) unfolding trunk_row_ok_def by (metis image_eqI)
  show "p \<in> set (db_pbxs db) \<Longrightarrow> px_tenant p \<in> te_id ` set (db_tenants db)"
    using ok(3) by (metis image_eqI)
qed

lemma undo_restores:
  assumes ok: "db_ok (ps_db s0)" and g: "grown s0 s"
  shows "undo_rows s = ps_db s0"
proof -
  let ?db = "ps_db s0"
  obtain ts ps where db: "ps_db s = ?db\<lparr>db_tenants := db_tenants ?db @ ts, db_pbxs := db_pbxs ?db @ ps\<rparr>"
    and t: "tenants_added s0 (pr_tenant_created s) (pr_tenant_id s) ts"
    and p: "pbxs_added s0 (pr_pbx_created s) (pr_pbx_id s) (pr_tenant_id s) ps"
    using g unfolding grown_def by blast
  note k = rows_refer_to_known[OF ok]
  have P: "filter (\<lambda>c. co_pbx c \<noteq> pr_pbx_id s) (db_condos ?db) = db_condos ?db"
    "filter (\<lambda>t. tr_pbx t \<noteq> pr_pbx_id s) (db_trunks ?db) = db_trunks ?db"
    "filter (\<lambda>q. px_id q \<noteq> pr_pbx_id s) (db_pbxs ?db @ ps) = db_pbxs ?db" if c: "pr_pbx_created s"
  proof -
    obtain r where r: "ps = [r]" "px_id r = pr_pbx_id s" using p c by (auto simp: pbxs_added_def)
    have f: "pr_pbx_id s \<notin> px_id ` set (db_pbxs ?db)" using p c by (auto simp: pbxs_added_def)
    show "filter (\<lambda>c. co_pbx c \<noteq> pr_pbx_id s) (db_condos ?db) = db_condos ?db" by (rule filter_refs[OF _ f]) (use k(1) in blast)
    show "filter (\<lambda>t. tr_pbx t \<noteq> pr_pbx_id s) (db_trunks ?db) = db_trunks ?db" by (rule filter_refs[OF _ f]) (use k(2) in blast)
    have "filter (\<lambda>q. px_id q \<noteq> pr_pbx_id s) (db_pbxs ?db) = db_pbxs ?db" using f by (rule filter_fresh)
    then show "filter (\<lambda>q. px_id q \<noteq> pr_pbx_id s) (db_pbxs ?db @ ps) = db_pbxs ?db" using r by simp
  qed
  have T: "filter (\<lambda>c. co_tenant c \<noteq> pr_tenant_id s) (db_condos ?db) = db_condos ?db"
    "filter (\<lambda>t. tr_tenant t \<noteq> pr_tenant_id s) (db_trunks ?db) = db_trunks ?db"
    "filter (\<lambda>q. px_tenant q \<noteq> pr_tenant_id s) (db_pbxs ?db) = db_pbxs ?db"
    "filter (\<lambda>q. te_id q \<noteq> pr_tenant_id s) (db_tenants ?db @ ts) = db_tenants ?db" if c: "pr_tenant_created s"
  proof -
    obtain r where r: "ts = [r]" "te_id r = pr_tenant_id s" using t c by (auto simp: tenants_added_def)
    have f: "pr_tenant_id s \<notin> te_id ` set (db_tenants ?db)" using t c by (auto simp: tenants_added_def)
    show "filter (\<lambda>c. co_tenant c \<noteq> pr_tenant_id s) (db_condos ?db) = db_condos ?db" by (rule filter_refs[OF _ f]) (use k(1) in blast)
    show "filter (\<lambda>t. tr_tenant t \<noteq> pr_tenant_id s) (db_trunks ?db) = db_trunks ?db" by (rule filter_refs[OF _ f]) (use k(2) in blast)
    show "filter (\<lambda>q. px_tenant q \<noteq> pr_tenant_id s) (db_pbxs ?db) = db_pbxs ?db" by (rule filter_refs[OF _ f]) (use k(3) in blast)
    have "filter (\<lambda>q. te_id q \<noteq> pr_tenant_id s) (db_tenants ?db) = db_tenants ?db" using f by (rule filter_fresh)
    then show "filter (\<lambda>q. te_id q \<noteq> pr_tenant_id s) (db_tenants ?db @ ts) = db_tenants ?db" using r by simp
  qed
  have 1: "(if pr_pbx_created s then delete_pbx (pr_pbx_id s) (ps_db s) else ps_db s) = ?db\<lparr>db_tenants := db_tenants ?db @ ts\<rparr>"
    using P p by (cases "pr_pbx_created s") (simp_all add: db delete_pbx_def)
  show ?thesis
    unfolding undo_rows_def 1 Let_def using T t by (cases "pr_tenant_created s") (simp_all add: delete_tenant_def)
qed

lemma find_later: "find P xs = None \<Longrightarrow> find P (xs @ ys) = find P ys"
  by (induction xs) (auto split: if_splits)

lemma ensure_tenant_grows:
  assumes "ensure_tenant env a s = (r, s')" and "ps_db s = ps_db s0" "\<not> pr_tenant_created s" "\<not> pr_pbx_created s"
  shows "grown s0 s' \<and> \<not> pr_pbx_created s' \<and> ps_schemas s' = ps_schemas s \<and> pr_pbx_id s' = pr_pbx_id s
    \<and> (r = Inr () \<longrightarrow> (\<exists>te. find_tenant (ps_db s') (pa_schema a) = Some te \<and> te_id te = pr_tenant_id s' \<and> (pa_restore a \<longrightarrow> te_id te = pr_tenant_id s)))"
proof (cases "pv_find_tenant env")
  case (Some e)
  then show ?thesis using assms by (auto simp: ensure_tenant_def raising_def bindp_def grown_def)
next
  case None
  show ?thesis
  proof (cases "find_tenant (ps_db s) (pa_schema a)")
    case (Some te)
    then show ?thesis using assms None
      by (auto simp: ensure_tenant_def raising_def bindp_def grown_def split: if_splits)
  next
    case n: None
    let ?row = "\<lparr>te_id = pr_tenant_id s, te_name = pa_name a, te_schema = pa_schema a, te_status = ''active''\<rparr>"
    have fresh: "find (\<lambda>t. te_schema t = pa_schema a) (db_tenants (ps_db s0) @ [?row]) = Some ?row"
      using n assms(2) by (simp add: find_tenant_def find_later)
    have i: "add_tenant env ?row s = (r, s')" using assms(1) None n by (simp add: ensure_tenant_def raising_def bindp_def)
    show ?thesis
    proof (cases "tenant_violation (db_tenants (ps_db s)) ?row = None \<and> pv_commit_tenant env = None")
      case False
      then have "s' = s" "\<exists>e. r = Inl e" using i by (auto simp: add_tenant_def split: option.splits)
      then show ?thesis using assms by (auto simp: grown_def)
    next
      case True
      then have s': "s' = s\<lparr>ps_db := (ps_db s)\<lparr>db_tenants := db_tenants (ps_db s) @ [?row]\<rparr>, pr_tenant_created := True\<rparr>"
        using i by (auto simp: add_tenant_def raising_def split: option.splits)
      have "pr_tenant_id s \<notin> te_id ` set (db_tenants (ps_db s0))"
        using True assms(2) by (auto simp: tenant_violation_def split: if_splits)
      then have "grown s0 s'" unfolding grown_def using assms
        by (intro exI[of _ "[?row]"] exI[of _ "[]"]) (simp add: s' tenants_added_def)
      then show ?thesis using fresh assms by (simp add: s' find_tenant_def)
    qed
  qed
qed

lemma ensure_pbx_grows:
  assumes "ensure_pbx env a s = (r, s')" and g: "grown s0 s" "\<not> pr_pbx_created s"
  shows "grown s0 s' \<and> ps_schemas s' = ps_schemas s \<and> pr_tenant_id s' = pr_tenant_id s \<and> db_tenants (ps_db s') = db_tenants (ps_db s)
    \<and> (r = Inr () \<longrightarrow> (\<exists>p. find_pbx (ps_db s') (pr_tenant_id s') (pa_pbx_host a) (pa_pbx_port a) = Some p \<and> (pa_restore a \<longrightarrow> px_id p = pr_pbx_id s)))"
proof (cases "pv_find_pbx env")
  case (Some e)
  then show ?thesis using assms by (auto simp: ensure_pbx_def raising_def bindp_def)
next
  case None
  show ?thesis
  proof (cases "find_pbx (ps_db s) (pr_tenant_id s) (pa_pbx_host a) (pa_pbx_port a)")
    case (Some p)
    show ?thesis
    proof (cases "pa_restore a \<and> px_id p \<noteq> pr_pbx_id s")
      case True
      then show ?thesis using assms None Some by (auto simp: ensure_pbx_def raising_def bindp_def)
    next
      case False
      then have s': "s' = s\<lparr>pr_pbx_id := px_id p\<rparr>" "r = Inr ()"
        using assms(1) None Some by (auto simp: ensure_pbx_def raising_def bindp_def)
      have "grown s0 s'" by (rule grown_cong[OF g(1)]) (use g(2) in \<open>simp_all add: s'\<close>)
      then show ?thesis using False Some by (simp add: s')
    qed
  next
    case n: None
    let ?row = "\<lparr>px_id = pr_pbx_id s, px_tenant = pr_tenant_id s, px_name = pa_pbx_name a, px_host = pa_pbx_host a,
            px_port = pa_pbx_port a\<rparr>"
    have fresh: "find (\<lambda>p. px_tenant p = pr_tenant_id s \<and> px_host p = pa_pbx_host a \<and> px_port p = pa_pbx_port a)
        (db_pbxs (ps_db s) @ [?row]) = Some ?row"
      using n by (simp add: find_pbx_def find_later)
    have i: "insert_pbx env ?row s = (r, s')" using assms(1) None n by (simp add: ensure_pbx_def raising_def bindp_def)
    obtain ts where db: "ps_db s = (ps_db s0)\<lparr>db_tenants := db_tenants (ps_db s0) @ ts, db_pbxs := db_pbxs (ps_db s0) @ []\<rparr>"
      and t: "tenants_added s0 (pr_tenant_created s) (pr_tenant_id s) ts"
      using g by (auto simp: grown_def)
    show ?thesis
    proof (cases "pbx_violation (db_pbxs (ps_db s)) ?row = None \<and> pv_commit_pbx env = None")
      case False
      then have "s' = s" "\<exists>e. r = Inl e" using i by (auto simp: insert_pbx_def split: option.splits)
      then show ?thesis using g(1) by auto
    next
      case True
      then have s': "s' = s\<lparr>ps_db := (ps_db s)\<lparr>db_pbxs := db_pbxs (ps_db s) @ [?row]\<rparr>, pr_pbx_created := True\<rparr>"
        using i by (auto simp: insert_pbx_def raising_def split: option.splits)
      have "pr_pbx_id s \<notin> px_id ` set (db_pbxs (ps_db s0))"
        using True db by (auto simp: pbx_violation_def split: if_splits)
      then have "grown s0 s'" unfolding grown_def using t
        by (intro exI[of _ ts] exI[of _ "[?row]"]) (simp add: s' db pbxs_added_def)
      then show ?thesis using fresh by (simp add: s' find_pbx_def)
    qed
  qed
qed

lemma make_schema_cases:
  assumes "make_schema env a s = (r, s')"
  shows "(\<exists>e. r = Inl e \<and> s' = s) \<or> r = Inr () \<and> s' = s\<lparr>ps_schemas := List.insert (pa_schema a) (ps_schemas s)\<rparr>
    \<and> tenant_schema_ok (pa_schema a)"
  using assms
  by (auto simp: make_schema_def create_tenant_schema_def validate_tenant_schema_def split: option.splits sum.splits prod.splits if_splits)

text \<open>What provisioning promises: the tenant with its schema name, a PBX of it, and the schema.\<close>

definition provisioned :: "prov_args \<Rightarrow> prov_state \<Rightarrow> bool" where
  "provisioned a s \<longleftrightarrow>
     (\<exists>te p. find_tenant (ps_db s) (pa_schema a) = Some te \<and> find_pbx (ps_db s) (te_id te) (pa_pbx_host a) (pa_pbx_port a) = Some p
        \<and> (pa_restore a \<longrightarrow> Some (te_id te) = pa_tenant_id a \<and> Some (px_id p) = pa_pbx_id a))
     \<and> pa_schema a \<in> set (ps_schemas s)"

definition start_run :: "prov_state \<Rightarrow> string \<Rightarrow> string \<Rightarrow> prov_run" where
  "start_run s t p = \<lparr>ps_db = ps_db s, ps_schemas = ps_schemas s, pr_tenant_id = t, pr_pbx_id = p,
     pr_tenant_created = False, pr_pbx_created = False\<rparr>"

lemma body_grows:
  assumes "provision_body env a (start_run s0 t p) = (r, s')"
    and "pa_restore a \<longrightarrow> pa_tenant_id a = Some t \<and> pa_pbx_id a = Some p"
  shows "grown s0 s' \<and> (if r = Inr () then provisioned a \<lparr>ps_db = ps_db s', ps_schemas = ps_schemas s'\<rparr>
      \<and> ps_schemas s' = List.insert (pa_schema a) (ps_schemas s0) else ps_schemas s' = ps_schemas s0)"
proof -
  obtain r1 s1 where 1: "ensure_tenant env a (start_run s0 t p) = (r1, s1)" by force
  obtain r2 s2 where 2: "ensure_pbx env a s1 = (r2, s2)" by force
  obtain r3 s3 where 3: "make_schema env a s2 = (r3, s3)" by force
  have b: "provision_body env a (start_run s0 t p)
      = (case r1 of Inl e \<Rightarrow> (Inl e, s1) | Inr _ \<Rightarrow> (case r2 of Inl e \<Rightarrow> (Inl e, s2) | Inr _ \<Rightarrow> (r3, s3)))"
    by (simp add: provision_body_def bindp_def 1 2 3 split: sum.splits)
  have g1: "grown s0 s1" "\<not> pr_pbx_created s1" "ps_schemas s1 = ps_schemas s0" "pr_pbx_id s1 = p"
    and f1: "r1 = Inr () \<Longrightarrow> \<exists>te. find_tenant (ps_db s1) (pa_schema a) = Some te \<and> te_id te = pr_tenant_id s1 \<and> (pa_restore a \<longrightarrow> te_id te = t)"
    using ensure_tenant_grows[OF 1, of s0] by (auto simp: start_run_def)
  have g2: "grown s0 s2" "ps_schemas s2 = ps_schemas s0" "pr_tenant_id s2 = pr_tenant_id s1" "db_tenants (ps_db s2) = db_tenants (ps_db s1)"
    and f2: "r2 = Inr () \<Longrightarrow> \<exists>q. find_pbx (ps_db s2) (pr_tenant_id s2) (pa_pbx_host a) (pa_pbx_port a) = Some q \<and> (pa_restore a \<longrightarrow> px_id q = p)"
    using ensure_pbx_grows[OF 2 g1(1,2)] g1(3,4) by auto
  show ?thesis
  proof (cases r1)
    case (Inl e)
    then show ?thesis using assms(1) b g1 by auto
  next
    case r1: (Inr u)
    show ?thesis
    proof (cases r2)
      case (Inl e)
      then show ?thesis using assms(1) b g2 r1 by auto
    next
      case r2: (Inr u')
      have r: "r = r3" "s' = s3" using assms(1) b r1 r2 by auto
      from make_schema_cases[OF 3] show ?thesis
      proof
        assume "\<exists>e. r3 = Inl e \<and> s3 = s2"
        then show ?thesis using r g2 by auto
      next
        assume s: "r3 = Inr () \<and> s3 = s2\<lparr>ps_schemas := List.insert (pa_schema a) (ps_schemas s2)\<rparr> \<and> tenant_schema_ok (pa_schema a)"
        have "find_tenant (ps_db s2) (pa_schema a) = find_tenant (ps_db s1) (pa_schema a)" using g2(4) by (simp add: find_tenant_def)
        then have "provisioned a \<lparr>ps_db = ps_db s3, ps_schemas = ps_schemas s3\<rparr>"
          using s f1 f2 r1 r2 g2(3) assms(2) by (auto simp: provisioned_def)
        moreover have "grown s0 s3" by (rule grown_cong[OF g2(1)]) (use s in simp_all)
        ultimately show ?thesis using r s g2(2) by simp
      qed
    qed
  qed
qed

lemma grown_others:
  "grown s0 s \<Longrightarrow> db_condos (ps_db s) = db_condos (ps_db s0) \<and> db_trunks (ps_db s) = db_trunks (ps_db s0)"
  by (auto simp: grown_def)

lemma restore_ids:
  assumes "validate_restore_ids env (pa_tenant_id a) (pa_pbx_id a) (pa_restore a) = Inr (t, p)"
  shows "pa_restore a \<longrightarrow> pa_tenant_id a = Some t \<and> pa_pbx_id a = Some p"
    and "\<not> pa_restore a \<longrightarrow> pa_tenant_id a = None \<and> pa_pbx_id a = None"
  using assms by (auto simp: validate_restore_ids_def split: if_splits option.splits)

lemma provision_returns:
  assumes "provision env a s = (Inr (), s')"
  obtains slug t p run where "check_schema_name (pa_schema a) = Inr slug"
    and "validate_restore_ids env (pa_tenant_id a) (pa_pbx_id a) (pa_restore a) = Inr (t, p)"
    and "provision_body env a (start_run s t p) = (Inr (), run)"
    and "s' = \<lparr>ps_db = ps_db run, ps_schemas = ps_schemas run\<rparr>"
proof -
  obtain slug where slug: "check_schema_name (pa_schema a) = Inr slug"
    using assms by (auto simp: provision_def split: sum.splits)
  moreover obtain t p where ids: "validate_restore_ids env (pa_tenant_id a) (pa_pbx_id a) (pa_restore a) = Inr (t, p)"
    using assms slug by (auto simp: provision_def split: sum.splits)
  moreover obtain q run where b: "provision_body env a (start_run s t p) = (q, run)" by force
  ultimately have "q = Inr ()" "s' = \<lparr>ps_db = ps_db run, ps_schemas = ps_schemas run\<rparr>"
    using assms by (auto simp: provision_def catchp_def start_run_def[symmetric] compensate_def split: sum.splits if_splits option.splits)
  with that slug ids b show thesis by blast
qed

lemma failed_provision_undone:
  assumes "db_ok (ps_db s)" and "pv_undo env = None" and "provision env a s = (Inl e, s')"
  shows "s' = s"
proof (cases "check_schema_name (pa_schema a)")
  case (Inl e)
  then show ?thesis using assms(3) by (auto simp: provision_def)
next
  case slug: (Inr slug)
  show ?thesis
  proof (cases "validate_restore_ids env (pa_tenant_id a) (pa_pbx_id a) (pa_restore a)")
    case (Inl e)
    then show ?thesis using assms(3) slug by (auto simp: provision_def)
  next
    case (Inr ids)
    obtain t p where ids: "ids = (t, p)" by force
    obtain q run where b: "provision_body env a (start_run s t p) = (q, run)" by force
    note g = body_grows[OF b restore_ids(1)[OF Inr[unfolded ids]]]
    have u: "undo_rows run = ps_db s" using undo_restores[OF assms(1)] g by blast
    have "ps_db run = ps_db s" if "\<not> (pr_pbx_created run \<or> pr_tenant_created run)"
      using g that by (auto simp: grown_def)
    with u g assms(2,3) slug Inr ids b show ?thesis
      by (cases q) (auto simp: provision_def catchp_def start_run_def[symmetric] compensate_def split: if_splits)
  qed
qed

lemma provisioned_again:
  assumes "provisioned a s" and "pa_schema a \<in> set (ps_schemas s)" and "tenant_schema_ok (pa_schema a)"
    and "check_schema_name (pa_schema a) = Inr slug"
    and "validate_restore_ids env0 (pa_tenant_id a) (pa_pbx_id a) (pa_restore a) = Inr (t, p)"
    and "pv_find_tenant env = None" and "pv_find_pbx env = None" and "pv_schema env = None"
  shows "provision env a s = (Inr (), s)"
proof -
  note rest = restore_ids[OF assms(5)]
  obtain te px where f: "find_tenant (ps_db s) (pa_schema a) = Some te"
    "find_pbx (ps_db s) (te_id te) (pa_pbx_host a) (pa_pbx_port a) = Some px"
    "pa_restore a \<longrightarrow> Some (te_id te) = pa_tenant_id a \<and> Some (px_id px) = pa_pbx_id a"
    using assms(1) by (auto simp: provisioned_def)
  obtain t' p' where v: "validate_restore_ids env (pa_tenant_id a) (pa_pbx_id a) (pa_restore a) = Inr (t', p')"
    "pa_restore a \<longrightarrow> t' = t \<and> p' = p"
    using rest by (cases "pa_restore a") (auto simp: validate_restore_ids_def)
  have "List.insert (pa_schema a) (ps_schemas s) = ps_schemas s" using assms(2) by simp
  then have "provision_body env a (start_run s t' p')
      = (Inr (), (start_run s t' p')\<lparr>pr_tenant_id := te_id te, pr_pbx_id := px_id px\<rparr>)"
    using assms(3,6-8) f v rest(1)
    by (auto simp: provision_body_def bindp_def ensure_tenant_def ensure_pbx_def raising_def start_run_def make_schema_def
        create_tenant_schema_def validate_tenant_schema_def)
  then show ?thesis using assms(4) v(1) by (simp add: provision_def catchp_def start_run_def)
qed

text \<open>C32. Provisioning is all or nothing, and repeatable: when it fails at any step, after any of its
  intermediate commits, tables and schemas are exactly as before, provided the compensation itself
  is committed; when it returns, the tenant, its PBX and its schema exist with the identifiers
  asked for, no condominium or trunk was touched, and provisioning the same again changes nothing.\<close>

theorem provisioning_is_all_or_nothing:
  assumes "db_ok (ps_db s)" and "pv_undo env = None" and "provision env a s = (r, s')"
  shows "case r of
      Inl e \<Rightarrow> s' = s
    | Inr _ \<Rightarrow> provisioned a s' \<and> db_condos (ps_db s') = db_condos (ps_db s) \<and> db_trunks (ps_db s') = db_trunks (ps_db s)
        \<and> (\<forall>env'. pv_find_tenant env' = None \<and> pv_find_pbx env' = None \<and> pv_schema env' = None \<longrightarrow> provision env' a s' = (Inr (), s'))"
proof (cases r)
  case (Inl e)
  then show ?thesis using failed_provision_undone[OF assms(1,2)] assms(3) by simp
next
  case (Inr v)
  with assms(3) have ran: "provision env a s = (Inr (), s')" by simp
  from provision_returns[OF this] obtain slug t p run where
    run: "check_schema_name (pa_schema a) = Inr slug"
      "validate_restore_ids env (pa_tenant_id a) (pa_pbx_id a) (pa_restore a) = Inr (t, p)"
      "provision_body env a (start_run s t p) = (Inr (), run)" "s' = \<lparr>ps_db = ps_db run, ps_schemas = ps_schemas run\<rparr>"
    by blast
  note g = body_grows[OF run(3) restore_ids(1)[OF run(2)]]
  have pr: "provisioned a s'" "pa_schema a \<in> set (ps_schemas s')" and gr: "grown s run" using g run(4) by auto
  have "tenant_schema_ok (pa_schema a)"
    using run(3) by (auto simp: provision_body_def bindp_eq_Inr dest!: make_schema_cases)
  from provisioned_again[OF pr this run(1,2)] show ?thesis
    using Inr pr(1) run(4) grown_others[OF gr] by simp
qed

text \<open>The first check lets capitals pass, the pattern of the schema does not: such a name never succeeds.\<close>

lemma capital_slug_never_provisioned:
  assumes "\<not> tenant_schema_ok (pa_schema a)"
  shows "fst (provision env a s) \<noteq> Inr ()"
proof -
  have m: "fst (make_schema env a x) \<noteq> Inr ()" for x
    using make_schema_cases[OF prod.collapse[symmetric], of env a x] assms by auto
  have n: "provision_body env a run \<noteq> (Inr (), t)" for run t
    unfolding provision_body_def bindp_eq_Inr using m by (metis fst_conv)
  show ?thesis
    by (auto simp: n provision_def catchp_def compensate_def split: sum.splits prod.splits if_splits option.splits)
qed

definition calm_prov :: prov_env where
  "calm_prov = \<lparr>pv_tenant_uuid = ''T9'', pv_pbx_uuid = ''P9'', pv_find_tenant = None, pv_commit_tenant = None, pv_refresh_tenant = None,
     pv_find_pbx = None, pv_commit_pbx = None, pv_refresh_pbx = None, pv_schema = None, pv_undo = None\<rparr>"

definition beta_args :: prov_args where
  "beta_args = \<lparr>pa_name = ''Beta'', pa_schema = ''tenant_beta'', pa_pbx_name = ''b'', pa_pbx_host = ''h'', pa_pbx_port = 5060,
     pa_tenant_id = None, pa_pbx_id = None, pa_restore = False\<rparr>"

definition prov_office :: prov_state where
  "prov_office = \<lparr>ps_db = office_db, ps_schemas = [''tenant_acme'']\<rparr>"

theorem provisioning_is_all_or_nothing_witness:
  "provision (calm_prov\<lparr>pv_schema := Some (SQLAlchemyError ''down'')\<rparr>) beta_args prov_office = (Inl (SQLAlchemyError ''down''), prov_office)
   \<and> (\<exists>s'. provision calm_prov beta_args prov_office = (Inr (), s') \<and> provisioned beta_args s' \<and> provision calm_prov beta_args s' = (Inr (), s'))"
proof -
  have ok: "db_ok (ps_db prov_office)" using office_ok by (simp add: prov_office_def)
  have f: "fst (provision (calm_prov\<lparr>pv_schema := Some (SQLAlchemyError ''down'')\<rparr>) beta_args prov_office) = Inl (SQLAlchemyError ''down'')"
    "fst (provision calm_prov beta_args prov_office) = Inr ()"
    by code_simp+
  obtain s1 s2 where s: "provision (calm_prov\<lparr>pv_schema := Some (SQLAlchemyError ''down'')\<rparr>) beta_args prov_office = (Inl (SQLAlchemyError ''down''), s1)"
    "provision calm_prov beta_args prov_office = (Inr (), s2)"
    using f by (metis prod.collapse)
  have u: "pv_undo (calm_prov\<lparr>pv_schema := Some (SQLAlchemyError ''down'')\<rparr>) = None" "pv_undo calm_prov = None"
    "pv_find_tenant calm_prov = None" "pv_find_pbx calm_prov = None" "pv_schema calm_prov = None"
    by (simp_all add: calm_prov_def)
  show ?thesis
    using provisioning_is_all_or_nothing[OF ok u(1) s(1)] provisioning_is_all_or_nothing[OF ok u(2) s(2)] s u(3-5) by auto
qed

end
