(* ===== verification/Xml_Reader.thy ===== *)
theory Xml_Reader
  imports Xml_Text
begin

text \<open>
  A reader of XML files laid out in lines: comments and white space between the tags are skipped,
  other text is refused, as the sources only write files of that kind. The text is first cut into
  tags, then the tags are nested with a stack of open elements. It is what \<open>ET.fromstring\<close> does
  on such a file, and the specification the writers of configuration files are checked against:
  one equation per kind of line says what the reader makes of it.
\<close>

datatype xml_token =
    Start_Tag string "(string \<times> string) list"
  | Whole_Tag string "(string \<times> string) list"
  | End_Tag string

section \<open>Tags\<close>

definition read_end_tag :: "string \<Rightarrow> (xml_token \<times> string) option" where
  "read_end_tag s =
     (let tag = takeWhile name_char s; r = drop (length tag) s in
      if tag \<noteq> [] \<and> starts_with ''>'' r then Some (End_Tag tag, drop 1 r) else None)"

definition read_start_tag :: "string \<Rightarrow> (xml_token \<times> string) option" where
  "read_start_tag s =
     (let tag = takeWhile name_char s; (as, r) = read_attrs (length s) (drop (length tag) s);
          u = (if starts_with '' '' r then drop 1 r else r) in
      if tag = [] then None
      else if starts_with ''>'' u then Some (Start_Tag tag as, drop 1 u)
      else if starts_with ''/>'' u then Some (Whole_Tag tag as, drop 2 u)
      else None)"

definition read_token :: "string \<Rightarrow> (xml_token \<times> string) option" where
  "read_token s = (if starts_with ''/'' s then read_end_tag (drop 1 s) else read_start_tag s)"

lemma read_attrs_rest: "read_attrs n s = (as, r) \<Longrightarrow> length r \<le> length s"
proof (induction n arbitrary: s as r)
  case 0
  then show ?case by simp
next
  case (Suc n)
  have "length rest \<le> length s" if "read_attrs n (drop k (drop m (tl s))) = (as', rest)" for k m as' rest
  proof -
    have "length rest \<le> length (drop k (drop m (tl s)))" by (rule Suc.IH[OF that])
    also have "\<dots> \<le> length s" by simp
    finally show ?thesis .
  qed
  then show ?case using Suc.prems by (fastforce simp: Let_def simp del: drop_drop split: prod.splits if_splits)
qed

lemma read_token_rest: "read_token s = Some (t, r) \<Longrightarrow> length r \<le> length s"
  by (auto simp: read_token_def read_end_tag_def read_start_tag_def Let_def split: prod.splits if_splits dest!: read_attrs_rest)

section \<open>Lines\<close>

function read_tokens :: "string \<Rightarrow> xml_token list option" where
  "read_tokens [] = Some []"
| "read_tokens (c # s) =
     (if is_space c then read_tokens s
      else if c \<noteq> CHR ''<'' then None
      else if starts_with ''!--'' s
      then (case py_find ''-->'' (drop 3 s) of None \<Rightarrow> None | Some i \<Rightarrow> read_tokens (drop (i + 6) s))
      else (case read_token s of
              None \<Rightarrow> None
            | Some (t, r) \<Rightarrow> (case read_tokens r of None \<Rightarrow> None | Some ts \<Rightarrow> Some (t # ts))))"
  by pat_completeness auto
termination
  by (relation "measure length") (auto dest: read_token_rest)

fun nest :: "(string \<times> (string \<times> string) list \<times> xml list) list \<Rightarrow> xml list \<Rightarrow> xml_token list \<Rightarrow> xml list option" where
  "nest [] kids [] = Some kids"
| "nest (f # fs) kids [] = None"
| "nest st kids (Whole_Tag tag as # ts) = nest st (kids @ [Elem tag as []]) ts"
| "nest st kids (Start_Tag tag as # ts) = nest ((tag, as, kids) # st) [] ts"
| "nest [] kids (End_Tag tag # ts) = None"
| "nest ((t, as, outer) # st) kids (End_Tag tag # ts) =
     (if t = tag then nest st (outer @ [Elem t as kids]) ts else None)"

definition read_lines :: "string \<Rightarrow> xml option" where
  "read_lines s =
     (case read_tokens s of
        None \<Rightarrow> None
      | Some ts \<Rightarrow> (case nest [] [] ts of Some [x] \<Rightarrow> Some x | _ \<Rightarrow> None))"

section \<open>What the reader makes of a line\<close>

definition more_tokens :: "xml_token list \<Rightarrow> xml_token list option \<Rightarrow> xml_token list option" where
  "more_tokens ts r = map_option ((@) ts) r"

lemma more_tokens_simps [simp]:
  "more_tokens ts (Some us) = Some (ts @ us)" "more_tokens [] r = r" "more_tokens ts (more_tokens us r) = more_tokens (ts @ us) r"
  by (cases r; simp add: more_tokens_def)+

lemma tokens_space: "is_space c \<Longrightarrow> read_tokens (c # s) = read_tokens s"
  by simp

lemma not_space: "\<not> is_space (CHR ''<'')"
  by code_simp

lemma name_token: "name_ok tag \<Longrightarrow> \<not> starts_with ''!--'' (tag @ s) \<and> \<not> starts_with ''/'' (tag @ s)"
proof -
  assume "name_ok tag"
  then obtain c r where "tag = c # r" "name_char c" by (cases tag) (auto simp: name_ok_def)
  moreover have "\<not> name_char (CHR ''!'')" "\<not> name_char (CHR ''/'')" by code_simp+
  ultimately show ?thesis by auto
qed

lemma read_start_tag_text:
  assumes "name_ok tag" and "list_all (\<lambda>kv. name_ok (fst kv)) as"
  shows "read_start_tag (tag @ concat (map attr_text as) @ ''>'' @ s) = Some (Start_Tag tag as, s)"
    and "read_start_tag (tag @ concat (map attr_text as) @ ''/>'' @ s) = Some (Whole_Tag tag as, s)"
proof -
  have len: "length as \<le> length (concat (map attr_text as))" by (induction as) (auto simp: attr_text_def)
  have tag: "takeWhile name_char (tag @ concat (map attr_text as) @ r) = tag" if "r \<noteq> [] \<and> \<not> name_char (hd r)" for r
  proof (cases as)
    case Nil
    then show ?thesis using name_stops[OF assms(1), of "hd r" "tl r"] that by (cases r) auto
  next
    case (Cons kv as')
    then show ?thesis using name_stops[OF assms(1) not_name(1)] by (simp add: attr_text_def)
  qed
  have ra: "read_attrs (length (tag @ concat (map attr_text as) @ r)) (concat (map attr_text as) @ r) = (as, r)"
    if "starts_with '' />'' r \<or> starts_with ''>'' r \<or> starts_with ''/>'' r" for r
    by (rule read_attrs_text[OF assms(2) _ that]) (use len in simp)
  have ne: "tag \<noteq> []" using assms(1) by (simp add: name_ok_def)
  have read: "read_start_tag (tag @ concat (map attr_text as) @ r) =
      (let u = (if starts_with '' '' r then drop 1 r else r) in
       if starts_with ''>'' u then Some (Start_Tag tag as, drop 1 u)
       else if starts_with ''/>'' u then Some (Whole_Tag tag as, drop 2 u) else None)"
    if "starts_with ''>'' r \<or> starts_with ''/>'' r" for r
  proof -
    define q where "q = tag @ concat (map attr_text as) @ r"
    have "r \<noteq> [] \<and> \<not> name_char (hd r)" using that not_name by (cases r) auto
    then have "takeWhile name_char q = tag" unfolding q_def by (rule tag)
    moreover have "drop (length tag) q = concat (map attr_text as) @ r" by (simp add: q_def)
    moreover have "read_attrs (length q) (concat (map attr_text as) @ r) = (as, r)" unfolding q_def by (rule ra) (use that in blast)
    ultimately show ?thesis unfolding q_def[symmetric] using ne by (simp add: read_start_tag_def Let_def)
  qed
  show "read_start_tag (tag @ concat (map attr_text as) @ ''>'' @ s) = Some (Start_Tag tag as, s)"
    by (subst read) simp_all
  show "read_start_tag (tag @ concat (map attr_text as) @ ''/>'' @ s) = Some (Whole_Tag tag as, s)"
    by (subst read) simp_all
qed

lemma tokens_start:
  assumes "name_ok tag" and "list_all (\<lambda>kv. name_ok (fst kv)) as"
  shows "read_tokens (''<'' @ tag @ concat (map attr_text as) @ ''>'' @ s) = more_tokens [Start_Tag tag as] (read_tokens s)"
    and "read_tokens (''<'' @ tag @ concat (map attr_text as) @ ''/>'' @ s) = more_tokens [Whole_Tag tag as] (read_tokens s)"
  using name_token[OF assms(1)] read_start_tag_text[OF assms] not_space
  by (simp_all add: read_token_def more_tokens_def map_option_case fun_eq_iff split: option.splits)

lemma tokens_end:
  assumes "name_ok tag"
  shows "read_tokens (''</'' @ tag @ ''>'' @ s) = more_tokens [End_Tag tag] (read_tokens s)"
proof -
  have "takeWhile name_char (tag @ CHR ''>'' # s) = tag" by (rule name_stops[OF assms not_name(3)])
  then show ?thesis
    using assms not_space
    by (simp add: read_token_def read_end_tag_def Let_def name_ok_def more_tokens_def map_option_case split: option.splits)
qed

lemma find_end: "contains_str ''-->'' (c @ ''--'') = False \<Longrightarrow> py_find ''-->'' (c @ ''-->'' @ s) = Some (length c)"
proof (induction c)
  case Nil
  then show ?case by simp
next
  case (Cons x c)
  have "\<not> starts_with ''-->'' ((x # c) @ ''-->'' @ s)"
    using Cons.prems by (cases c; cases "tl c"; cases "tl (tl c)") auto
  moreover have "py_find ''-->'' (c @ ''-->'' @ s) = Some (length c)" using Cons by simp
  ultimately show ?case by simp
qed

lemma tokens_comment:
  assumes "contains_str ''-->'' (c @ ''--'') = False"
  shows "read_tokens (''<!--'' @ c @ ''-->'' @ s) = read_tokens s"
proof -
  have d: "drop (length x) (x @ s) = s" for x by simp
  have l: "length (''!--'' @ c @ ''-->'') = length c + 6" by simp
  have "drop (length c + 6) (''!--'' @ c @ ''-->'' @ s) = s"
    using d[of "''!--'' @ c @ ''-->''"] unfolding l append_assoc .
  then show ?thesis using find_end[OF assms, of s] not_space by (simp del: drop.simps drop_append)
qed

end
