(* ===== verification/Extensions.thy ===== *)
theory Extensions
  imports Directory Xml_Reader "HOL-Library.List_Lexorder" "HOL-Library.Char_ord"
begin

text \<open>
  \<open>scripts/import_extensions.py\<close>: the extensions of the old PBX, exported as CSV, become the
  directory file \<open>extensions.xml\<close>, which the legacy provider of \<open>Directory\<close> reads, and one gateway
  file per extension. The CSV is taken after the four lines of description and \<open>csv.DictReader\<close>: a
  row maps the columns to texts, or to None where the row is too short. What the system answers to a
  write of a file is an argument. The text of the comments is kept in ASCII.
\<close>

section \<open>Reading the export\<close>

type_synonym ext_row = "(string \<times> string option) list"

record ext_entry =
  xe_user :: string
  xe_password :: string
  xe_name :: string
  xe_tech :: string

record ext_load =
  el_extensions :: "(string \<times> ext_entry) list"
  el_virtual :: nat
  el_no_creds :: nat
  el_replaced :: nat

definition strip_quotes :: "string \<Rightarrow> string" where
  "strip_quotes s = strip_if (\<lambda>c. c = QUOTE) (py_strip s)"

definition row_field :: "ext_row \<Rightarrow> string \<Rightarrow> exc + string" where
  "row_field row column =
     (case map_of row column of
        None \<Rightarrow> Inr []
      | Some None \<Rightarrow> Inl (AttributeError ''strip'')
      | Some (Some v) \<Rightarrow> Inr (strip_quotes v))"

definition row_entry :: "ext_row \<Rightarrow> exc + string \<times> ext_entry" where
  "row_entry row =
     (case row_field row ''technology'' of Inl e \<Rightarrow> Inl e | Inr tech \<Rightarrow>
      case row_field row ''device_user'' of Inl e \<Rightarrow> Inl e | Inr user \<Rightarrow>
      case row_field row ''device_password'' of Inl e \<Rightarrow> Inl e | Inr pwd \<Rightarrow>
      case row_field row ''extension'' of Inl e \<Rightarrow> Inl e | Inr ext \<Rightarrow>
      case row_field row ''ext_name'' of Inl e \<Rightarrow> Inl e | Inr name \<Rightarrow>
        Inr (ext, \<lparr>xe_user = user, xe_password = pwd, xe_name = name, xe_tech = tech\<rparr>))"

definition has_creds :: "string \<times> ext_entry \<Rightarrow> bool" where
  "has_creds x \<longleftrightarrow> xe_user (snd x) \<noteq> [] \<and> xe_password (snd x) \<noteq> [] \<and> fst x \<noteq> []"

text \<open>A device of \<open>pjsip\<close> takes the place of one of \<open>sip\<close>; otherwise the first one stays.\<close>

definition replaces :: "ext_entry \<Rightarrow> ext_entry \<Rightarrow> bool" where
  "replaces entry existing \<longleftrightarrow> xe_tech entry = ''pjsip'' \<and> xe_tech existing = ''sip''"

definition load_row :: "string \<times> ext_entry \<Rightarrow> ext_load \<Rightarrow> ext_load" where
  "load_row x l =
     (if xe_tech (snd x) = ''virtual'' then l\<lparr>el_virtual := Suc (el_virtual l)\<rparr>
      else if \<not> has_creds x then l\<lparr>el_no_creds := Suc (el_no_creds l)\<rparr>
      else case map_of (el_extensions l) (fst x) of
        None \<Rightarrow> l\<lparr>el_extensions := el_extensions l @ [x]\<rparr>
      | Some existing \<Rightarrow>
          if replaces (snd x) existing
          then l\<lparr>el_extensions := AList.update (fst x) (snd x) (el_extensions l), el_replaced := Suc (el_replaced l)\<rparr>
          else l)"

fun load_rows :: "ext_row list \<Rightarrow> ext_load \<Rightarrow> exc + ext_load" where
  "load_rows [] l = Inr l"
| "load_rows (row # rows) l = (case row_entry row of Inl e \<Rightarrow> Inl e | Inr x \<Rightarrow> load_rows rows (load_row x l))"

definition load_extensions :: "ext_row list \<Rightarrow> exc + ext_load" where
  "load_extensions rows = load_rows rows \<lparr>el_extensions = [], el_virtual = 0, el_no_creds = 0, el_replaced = 0\<rparr>"

section \<open>Writing the files\<close>

text \<open>\<open>saxutils.escape\<close> with the double quote, one character at a time.\<close>

definition escape :: "string \<Rightarrow> string" where
  "escape s = concat (map (\<lambda>c. case find (\<lambda>r. snd r = c) (take 4 references) of None \<Rightarrow> [c] | Some (r, _) \<Rightarrow> CHR ''&'' # r) s)"

definition attr_escaped :: "string \<times> string \<Rightarrow> string" where
  "attr_escaped kv = '' '' @ fst kv @ [CHR ''='', QUOTE] @ escape (snd kv) @ [QUOTE]"

definition start_of :: "string \<Rightarrow> (string \<times> string) list \<Rightarrow> string" where
  "start_of tag as = ''<'' @ tag @ concat (map attr_escaped as)"

definition NEWLINE :: char where "NEWLINE = CHR 0x0A"

text \<open>The comment at the top of every generated file, its dash and accents written in ASCII.\<close>

definition GENERATED :: string where
  "GENERATED = ''<!-- Gerado por scripts/import_extensions.py - NAO COMMITAR (contem senhas) -->''"

definition ext_params :: "ext_entry \<Rightarrow> (string \<times> string) list" where
  "ext_params e = [(''password'', xe_password e)]"

definition ext_variables :: "string \<Rightarrow> ext_entry \<Rightarrow> (string \<times> string) list" where
  "ext_variables ext e =
     [(''user_context'', ''default''), (''toll_allow'', ''local''), (''effective_caller_id_name'', xe_name e),
      (''effective_caller_id_number'', ext)]"

definition pair_attrs :: "string \<times> string \<Rightarrow> (string \<times> string) list" where
  "pair_attrs nv = [(''name'', fst nv), (''value'', snd nv)]"

definition user_lines :: "string \<times> ext_entry \<Rightarrow> string list" where
  "user_lines x =
     [start_of ''user'' [(''id'', fst x)] @ ''>'', ''  <params>'']
     @ map (\<lambda>nv. ''    '' @ start_of ''param'' (pair_attrs nv) @ ''/>'') (ext_params (snd x))
     @ [''  </params>'', ''  <variables>'']
     @ map (\<lambda>nv. ''    '' @ start_of ''variable'' (pair_attrs nv) @ ''/>'') (ext_variables (fst x) (snd x))
     @ [''  </variables>'', ''</user>'']"

text \<open>\<open>sorted(extensions)\<close>, with the entry of each.\<close>

definition in_order :: "(string \<times> ext_entry) list \<Rightarrow> (string \<times> ext_entry) list" where
  "in_order exts = map (\<lambda>k. (k, the (map_of exts k))) (sort (map fst exts))"

definition directory_text :: "(string \<times> ext_entry) list \<Rightarrow> string" where
  "directory_text exts = join_str [NEWLINE] (GENERATED # concat (map user_lines (in_order exts))) @ [NEWLINE]"

definition PBX_HOST :: string where "PBX_HOST = ''sip.maisalerta.tecnorise.com''"

definition port_by_tech :: "string \<Rightarrow> string" where
  "port_by_tech tech = (if tech = ''pjsip'' then ''7060'' else ''5060'')"

definition gateway_name :: "string \<Rightarrow> string" where
  "gateway_name ext = ''upstream-'' @ ext"

definition gateway_file :: "string \<Rightarrow> string" where
  "gateway_file ext = gateway_name ext @ ''.xml''"

text \<open>The pattern \<open>upstream-*.xml\<close>.\<close>

definition is_gateway_file :: "string \<Rightarrow> bool" where
  "is_gateway_file n \<longleftrightarrow> 13 \<le> length n \<and> starts_with ''upstream-'' n \<and> ends_with ''.xml'' n"

definition gateway_params :: "string list \<Rightarrow> string \<times> ext_entry \<Rightarrow> (string \<times> string) list" where
  "gateway_params active x =
     [(''username'', xe_user (snd x)), (''password'', xe_password (snd x)),
      (''proxy'', PBX_HOST @ '':'' @ port_by_tech (xe_tech (snd x))),
      (''register'', if fst x \<in> set active then ''true'' else ''false''), (''caller-id-in-from'', ''true''), (''ping'', ''25'')]"

definition gateway_text :: "string list \<Rightarrow> string \<times> ext_entry \<Rightarrow> string" where
  "gateway_text active x =
     concat (map (\<lambda>l. l @ [NEWLINE])
       ([GENERATED, start_of ''gateway'' [(''name'', gateway_name (fst x))] @ ''>'']
        @ map (\<lambda>nv. ''  '' @ start_of ''param'' (pair_attrs nv) @ ''/>'') (gateway_params active x) @ [''</gateway>'']))"

record ext_files =
  xf_directory :: "string option"
  xf_upstream :: "(string \<times> string) list"

definition write_directory :: "(string \<Rightarrow> exc option) \<Rightarrow> (string \<times> ext_entry) list \<Rightarrow> (ext_files, unit) prog" where
  "write_directory os exts s =
     (case os ''extensions.xml'' of
        Some e \<Rightarrow> (Inl e, s) | None \<Rightarrow> (Inr (), s\<lparr>xf_directory := Some (directory_text exts)\<rparr>))"

definition drop_gateways :: "(ext_files, unit) prog" where
  "drop_gateways = modifyp (\<lambda>s. s\<lparr>xf_upstream := filter (\<lambda>f. \<not> is_gateway_file (fst f)) (xf_upstream s)\<rparr>)"

definition write_gateway :: "(string \<Rightarrow> exc option) \<Rightarrow> string list \<Rightarrow> string \<times> ext_entry \<Rightarrow> (ext_files, unit) prog" where
  "write_gateway os active x s =
     (case os (gateway_file (fst x)) of
        Some e \<Rightarrow> (Inl e, s)
      | None \<Rightarrow> (Inr (), s\<lparr>xf_upstream := AList.update (gateway_file (fst x)) (gateway_text active x) (xf_upstream s)\<rparr>))"

definition write_gateways :: "(string \<Rightarrow> exc option) \<Rightarrow> (string \<times> ext_entry) list \<Rightarrow> string list \<Rightarrow> (ext_files, unit) prog" where
  "write_gateways os exts active =
     bindp drop_gateways (\<lambda>_. for_p (write_gateway os active) (in_order exts))"

definition active_of :: "string \<Rightarrow> string list" where
  "active_of enable = filter (\<lambda>e. e \<noteq> []) (map py_strip (split_on (CHR '','') enable))"

text \<open>\<open>main\<close> with its exit code; None is a path at which no file is.\<close>

definition import_main ::
    "(string \<Rightarrow> exc option) \<Rightarrow> (exc + ext_row list) option \<Rightarrow> string \<Rightarrow> (ext_files, nat) prog" where
  "import_main os csv enable =
     (case csv of
        None \<Rightarrow> ret 1
      | Some content \<Rightarrow>
          bindp (lift_res content) (\<lambda>rows.
          bindp (lift_res (load_extensions rows)) (\<lambda>l.
            if el_extensions l = [] then ret 1
            else bindp (write_directory os (el_extensions l)) (\<lambda>_.
                 bindp (write_gateways os (el_extensions l) (active_of enable)) (\<lambda>_. ret 0)))))"

section \<open>Which device an extension gets\<close>

definition usable :: "ext_row list \<Rightarrow> (string \<times> ext_entry) list" where
  "usable rows = filter (\<lambda>x. xe_tech (snd x) \<noteq> ''virtual'' \<and> has_creds x)
     (concat (map (\<lambda>row. case row_entry row of Inl _ \<Rightarrow> [] | Inr x \<Rightarrow> [x]) rows))"

text \<open>The first usable row of the extension, or the first \<open>pjsip\<close> row after a \<open>sip\<close> one.\<close>

definition upgraded :: "ext_entry \<Rightarrow> ext_entry list \<Rightarrow> ext_entry" where
  "upgraded e es =
     (if xe_tech e = ''sip'' then case find (\<lambda>x. xe_tech x = ''pjsip'') es of None \<Rightarrow> e | Some x \<Rightarrow> x else e)"

definition device_of :: "ext_row list \<Rightarrow> string \<Rightarrow> ext_entry option" where
  "device_of rows ext =
     (case map snd (filter (\<lambda>x. fst x = ext) (usable rows)) of [] \<Rightarrow> None | e # es \<Rightarrow> Some (upgraded e es))"

definition continued :: "ext_entry option \<Rightarrow> ext_entry list \<Rightarrow> ext_entry option" where
  "continued old es = (case old of Some e \<Rightarrow> Some (upgraded e es)
     | None \<Rightarrow> (case es of [] \<Rightarrow> None | e # es' \<Rightarrow> Some (upgraded e es')))"

lemma upgraded_simps [simp]:
  "upgraded e [] = e" "upgraded e (x # es) = (if replaces x e then x else upgraded e es)"
  by (auto simp: upgraded_def replaces_def)

lemma upgraded_once: "replaces x e \<Longrightarrow> upgraded x es = x"
  by (induction es) (auto simp: replaces_def)

lemma continued_Cons: "continued (continued old [y]) es = continued old (y # es)"
  by (cases old) (auto simp: continued_def upgraded_once)

definition keys_filled :: "(string \<times> ext_entry) list \<Rightarrow> bool" where
  "keys_filled exts \<longleftrightarrow> distinct (map fst exts) \<and> [] \<notin> fst ` set exts"

definition good :: "string \<times> ext_entry \<Rightarrow> bool" where
  "good x \<longleftrightarrow> xe_tech (snd x) \<noteq> ''virtual'' \<and> has_creds x"

lemma usable_Cons: "row_entry row = Inr x \<Longrightarrow> usable (row # rows) = (if good x then [x] else []) @ usable rows"
  by (simp add: usable_def good_def)

lemma load_row_device:
  "map_of (el_extensions (load_row x l)) ext
     = (if good x \<and> fst x = ext then continued (map_of (el_extensions l) ext) [snd x] else map_of (el_extensions l) ext)"
  by (cases x) (auto simp: load_row_def good_def continued_def update_conv' map_add_def split: option.splits)

lemma load_row_keys: "keys_filled (el_extensions l) \<Longrightarrow> keys_filled (el_extensions (load_row x l))"
  by (cases x)
    (auto simp: keys_filled_def load_row_def has_creds_def distinct_update dom_update map_of_eq_None_iff split: option.splits)

lemma load_rows_device:
  assumes "load_rows rows l = Inr l'" and "keys_filled (el_extensions l)"
  shows "map_of (el_extensions l') ext
      = continued (map_of (el_extensions l) ext) (map snd (filter (\<lambda>x. fst x = ext) (usable rows)))
    \<and> keys_filled (el_extensions l')"
  using assms
proof (induction rows l rule: load_rows.induct)
  case (1 l)
  then show ?case by (auto simp: usable_def continued_def split: option.splits)
next
  case (2 row rows l)
  obtain x where x: "row_entry row = Inr x" "load_rows rows (load_row x l) = Inr l'"
    using "2.prems" by (auto split: sum.splits)
  from "2.IH"[OF x(1,2) load_row_keys[OF "2.prems"(2)]] show ?case
    by (simp add: usable_Cons[OF x(1)] load_row_device continued_Cons)
qed

lemma load_extensions_device:
  assumes "load_extensions rows = Inr l"
  shows "map_of (el_extensions l) ext = device_of rows ext" and "keys_filled (el_extensions l)"
  using load_rows_device[OF assms[unfolded load_extensions_def], of ext]
  by (auto simp: keys_filled_def device_of_def continued_def split: option.splits list.splits)

section \<open>The texts as the reader takes them\<close>

text \<open>A text without tab, line feed and carriage return, which a reader of attributes keeps as it is.\<close>

definition one_line :: "string \<Rightarrow> bool" where
  "one_line s \<longleftrightarrow> CHR 0x09 \<notin> set s \<and> CHR 0x0A \<notin> set s \<and> CHR 0x0D \<notin> set s"

lemma escape_one_line: "one_line s \<Longrightarrow> escape s = escape_attrib s"
  by (induction s) (auto simp: one_line_def escape_def escape_attrib_def escape_char_def references_def)

lemma attr_escaped_text: "one_line (snd kv) \<Longrightarrow> attr_escaped kv = attr_text kv"
  by (simp add: attr_escaped_def attr_text_def escape_one_line)

lemma start_of_text: "\<forall>kv\<in>set as. one_line (snd kv) \<Longrightarrow> start_of tag as = ''<'' @ tag @ concat (map attr_text as)"
  by (simp add: start_of_def attr_escaped_text cong: map_cong)

lemma newline_space [simp]: "is_space NEWLINE" "is_space (CHR '' '')"
  by code_simp+

lemma pair_attrs_ok: "list_all (\<lambda>kv. name_ok (fst kv)) (pair_attrs nv)"
proof -
  have "name_ok ''name''" "name_ok ''value''" by code_simp+
  then show ?thesis by (simp add: pair_attrs_def)
qed

lemma named_of_pair: "Elem tag (pair_attrs nv) [] = named tag nv"
  by (simp add: named_def pair_attrs_def)

text \<open>Lines, each with its line feed, and the tags of a list of them.\<close>

definition text_of :: "string list \<Rightarrow> string" where
  "text_of ls = concat (map (\<lambda>l. l @ [NEWLINE]) ls)"

lemma text_of_simps [simp]:
  "text_of [] = []" "text_of (l # ls) = l @ NEWLINE # text_of ls" "text_of (xs @ ys) = text_of xs @ text_of ys"
  by (simp_all add: text_of_def)

lemma text_of_join: "ls \<noteq> [] \<Longrightarrow> join_str [NEWLINE] ls @ [NEWLINE] = text_of ls"
  by (induction "[NEWLINE]" ls rule: join_str.induct) simp_all

definition reads_as :: "string \<Rightarrow> xml_token list \<Rightarrow> bool" where
  "reads_as s ts \<longleftrightarrow> (\<forall>rest. read_tokens (s @ rest) = more_tokens ts (read_tokens rest))"

lemma reads_as_append: "reads_as s ts \<Longrightarrow> reads_as s' ts' \<Longrightarrow> reads_as (s @ s') (ts @ ts')"
  by (simp add: reads_as_def)

lemma reads_as_blank: "reads_as s ts \<Longrightarrow> is_space c \<Longrightarrow> reads_as (c # s) ts"
  by (simp add: reads_as_def)

lemma reads_as_line: "reads_as l ts \<Longrightarrow> reads_as (text_of ls) us \<Longrightarrow> reads_as (text_of (l # ls)) (ts @ us)"
  by (simp add: reads_as_def)

lemma reads_as_two: "reads_as l [a] \<Longrightarrow> reads_as m [b] \<Longrightarrow> reads_as (text_of [l, m]) [a, b]"
  by (simp add: reads_as_def)

lemma reads_as_Nil: "reads_as [] []"
  by (simp add: reads_as_def)

lemma reads_as_map:
  "\<forall>x\<in>set xs. reads_as (f x) (g x) \<Longrightarrow> reads_as (text_of (map f xs)) (concat (map g xs))"
  by (induction xs) (simp_all add: reads_as_def)

lemma reads_as_tags:
  assumes "name_ok tag"
  shows "reads_as (''</'' @ tag @ ''>'') [End_Tag tag]"
    and "\<forall>kv\<in>set as. one_line (snd kv) \<Longrightarrow> list_all (\<lambda>kv. name_ok (fst kv)) as \<Longrightarrow> reads_as (start_of tag as @ ''>'') [Start_Tag tag as]"
    and "\<forall>kv\<in>set as. one_line (snd kv) \<Longrightarrow> list_all (\<lambda>kv. name_ok (fst kv)) as \<Longrightarrow> reads_as (start_of tag as @ ''/>'') [Whole_Tag tag as]"
  using tokens_end[OF assms] tokens_start[OF assms] by (simp_all add: reads_as_def start_of_text del: read_tokens.simps)

lemma tag_names:
  "name_ok ''user''" "name_ok ''params''" "name_ok ''param''" "name_ok ''variables''" "name_ok ''variable''" "name_ok ''id''"
  "name_ok ''name''" "name_ok ''gateway''" "name_ok ''legacy-directory''"
  by code_simp+

lemma fixed_lines:
  "reads_as ''  <params>'' [Start_Tag ''params'' []]" "reads_as ''  </params>'' [End_Tag ''params'']"
  "reads_as ''  <variables>'' [Start_Tag ''variables'' []]" "reads_as ''  </variables>'' [End_Tag ''variables'']"
  "reads_as ''</user>'' [End_Tag ''user'']" "reads_as ''</gateway>'' [End_Tag ''gateway'']"
  "reads_as ''<legacy-directory>'' [Start_Tag ''legacy-directory'' []]" "reads_as ''</legacy-directory>'' [End_Tag ''legacy-directory'']"
  using reads_as_tags(1)[OF tag_names(1)] reads_as_tags(1)[OF tag_names(2)] reads_as_tags(2)[OF tag_names(2), of "[]"]
    reads_as_tags(1)[OF tag_names(4)] reads_as_tags(2)[OF tag_names(4), of "[]"] reads_as_tags(1)[OF tag_names(8)]
    reads_as_tags(1)[OF tag_names(9)] reads_as_tags(2)[OF tag_names(9), of "[]"]
  by (auto simp: start_of_def intro!: reads_as_blank)

lemma generated_line: "reads_as GENERATED []"
proof -
  obtain c where c: "c = '' Gerado por scripts/import_extensions.py - NAO COMMITAR (contem senhas) ''" by simp
  have h: "contains_str ''-->'' (c @ ''--'') = False" unfolding c by code_simp
  have g: "GENERATED = ''<!--'' @ c @ ''-->''" by (simp add: GENERATED_def c)
  show ?thesis by (simp only: reads_as_def g append_assoc tokens_comment[OF h] more_tokens_simps simp_thms)
qed

lemma pair_line:
  assumes "name_ok tag" and "one_line (fst nv)" and "one_line (snd nv)"
  shows "reads_as (start_of tag (pair_attrs nv) @ ''/>'') [Whole_Tag tag (pair_attrs nv)]"
  by (rule reads_as_tags(3)[OF assms(1) _ pair_attrs_ok]) (simp add: pair_attrs_def assms)

definition plain_entry :: "string \<times> ext_entry \<Rightarrow> bool" where
  "plain_entry x \<longleftrightarrow> one_line (fst x) \<and> one_line (xe_user (snd x)) \<and> one_line (xe_password (snd x)) \<and> one_line (xe_name (snd x))"

definition pair_tokens :: "string \<Rightarrow> (string \<times> string) list \<Rightarrow> xml_token list" where
  "pair_tokens tag nvs = map (\<lambda>nv. Whole_Tag tag (pair_attrs nv)) nvs"

definition user_tokens :: "string \<times> ext_entry \<Rightarrow> xml_token list" where
  "user_tokens x = [Start_Tag ''user'' [(''id'', fst x)], Start_Tag ''params'' []] @ pair_tokens ''param'' (ext_params (snd x))
     @ [End_Tag ''params'', Start_Tag ''variables'' []] @ pair_tokens ''variable'' (ext_variables (fst x) (snd x))
     @ [End_Tag ''variables'', End_Tag ''user'']"

definition user_element :: "string \<times> ext_entry \<Rightarrow> xml" where
  "user_element x = Elem ''user'' [(''id'', fst x)]
     [Elem ''params'' [] (map (named ''param'') (ext_params (snd x))),
      Elem ''variables'' [] (map (named ''variable'') (ext_variables (fst x) (snd x)))]"

lemma pair_lines:
  assumes "name_ok tag" and "\<forall>nv\<in>set nvs. one_line (fst nv) \<and> one_line (snd nv)" and "\<forall>c\<in>set ind. is_space c"
  shows "reads_as (text_of (map (\<lambda>nv. ind @ start_of tag (pair_attrs nv) @ ''/>'') nvs)) (pair_tokens tag nvs)"
proof -
  have "reads_as (i @ start_of tag (pair_attrs nv) @ ''/>'') [Whole_Tag tag (pair_attrs nv)]"
    if "nv \<in> set nvs" "\<forall>c\<in>set i. is_space c" for nv i
    using that(2) pair_line[OF assms(1), of nv] assms(2) that(1) by (induction i) (auto intro: reads_as_blank)
  then have "reads_as (text_of (map (\<lambda>nv. ind @ start_of tag (pair_attrs nv) @ ''/>'') nvs))
      (concat (map (\<lambda>nv. [Whole_Tag tag (pair_attrs nv)]) nvs))"
    using assms(3) by (intro reads_as_map) blast
  moreover have "concat (map (\<lambda>nv. [Whole_Tag tag (pair_attrs nv)]) nvs) = pair_tokens tag nvs"
    by (induction nvs) (simp_all add: pair_tokens_def)
  ultimately show ?thesis by simp
qed

lemma one_line_consts: "one_line ''default''" "one_line ''local''" "one_line ''password''" "one_line ''user_context''" "one_line ''toll_allow''"
  "one_line ''effective_caller_id_name''" "one_line ''effective_caller_id_number''" "one_line ''true''" "one_line ''false''" "one_line ''25''"
  "one_line ''username''" "one_line ''proxy''" "one_line ''register''" "one_line ''caller-id-in-from''" "one_line ''ping''"
  "one_line '':7060''" "one_line '':5060''" "one_line PBX_HOST" "one_line ''upstream-''"
  by code_simp+

lemma one_line_append: "one_line (a @ b) \<longleftrightarrow> one_line a \<and> one_line b"
  by (auto simp: one_line_def)

lemma user_reads: "plain_entry x \<Longrightarrow> reads_as (text_of (user_lines x)) (user_tokens x)"
proof -
  assume p: "plain_entry x"
  have 1: "reads_as (start_of ''user'' [(''id'', fst x)] @ ''>'') [Start_Tag ''user'' [(''id'', fst x)]]"
    by (rule reads_as_tags(2)[OF tag_names(1)]) (use p tag_names(6) in \<open>simp_all add: plain_entry_def\<close>)
  have 2: "reads_as (text_of (map (\<lambda>nv. ''    '' @ start_of ''param'' (pair_attrs nv) @ ''/>'') (ext_params (snd x))))
      (pair_tokens ''param'' (ext_params (snd x)))"
    by (rule pair_lines[OF tag_names(3)]) (use p one_line_consts in \<open>simp_all add: ext_params_def plain_entry_def\<close>)
  have 3: "reads_as (text_of (map (\<lambda>nv. ''    '' @ start_of ''variable'' (pair_attrs nv) @ ''/>'') (ext_variables (fst x) (snd x))))
      (pair_tokens ''variable'' (ext_variables (fst x) (snd x)))"
    by (rule pair_lines[OF tag_names(5)]) (use p one_line_consts in \<open>simp_all add: ext_variables_def plain_entry_def\<close>)
  show ?thesis
    unfolding user_lines_def user_tokens_def text_of_simps(3)
    by (intro reads_as_append reads_as_two 1 2 3 fixed_lines)
qed

lemma text_of_users:
  "\<forall>x\<in>set xs. plain_entry x \<Longrightarrow> reads_as (text_of (concat (map user_lines xs))) (concat (map user_tokens xs))"
proof (induction xs)
  case Nil
  then show ?case by (simp add: reads_as_Nil)
next
  case (Cons x xs)
  then show ?case unfolding list.map concat.simps text_of_simps(3) by (intro reads_as_append user_reads) simp_all
qed

lemma directory_reads:
  assumes "\<forall>x\<in>set (in_order exts). plain_entry x"
  shows "reads_as (directory_text exts) (concat (map user_tokens (in_order exts)))"
  using reads_as_line[OF generated_line text_of_users[OF assms]]
  by (simp add: directory_text_def text_of_join del: text_of_simps)

lemma nest_pairs: "nest st kids (pair_tokens tag nvs @ ts) = nest st (kids @ map (named tag) nvs) ts"
  by (induction nvs arbitrary: kids) (simp_all add: pair_tokens_def named_of_pair)

lemma nest_user: "nest st kids (user_tokens x @ ts) = nest st (kids @ [user_element x]) ts"
  by (simp add: user_tokens_def user_element_def nest_pairs)

lemma nest_users: "nest st kids (concat (map user_tokens xs) @ ts) = nest st (kids @ map user_element xs) ts"
  by (induction xs arbitrary: kids) (simp_all add: nest_user)

lemma reads_as_tokens: "reads_as s ts \<Longrightarrow> read_tokens s = Some ts"
  unfolding reads_as_def by (metis append_Nil2 more_tokens_simps(1) read_tokens.simps(1))

lemma directory_parsed:
  assumes "\<forall>x\<in>set (in_order exts). plain_entry x"
  shows "read_lines (directory_text exts) = (case in_order exts of [x] \<Rightarrow> Some (user_element x) | _ \<Rightarrow> None)"
    and "read_lines (''<legacy-directory>'' @ directory_text exts @ ''</legacy-directory>'')
      = Some (Elem ''legacy-directory'' [] (map user_element (in_order exts)))"
proof -
  let ?xs = "in_order exts"
  have "nest [] [] (concat (map user_tokens ?xs)) = Some (map user_element ?xs)"
    using nest_users[of "[]" "[]" ?xs "[]"] by simp
  then show "read_lines (directory_text exts) = (case ?xs of [x] \<Rightarrow> Some (user_element x) | _ \<Rightarrow> None)"
    by (auto simp: read_lines_def reads_as_tokens[OF directory_reads[OF assms]] split: list.splits)
  have "reads_as (''<legacy-directory>'' @ directory_text exts @ ''</legacy-directory>'')
      ([Start_Tag ''legacy-directory'' []] @ concat (map user_tokens ?xs) @ [End_Tag ''legacy-directory''])"
    by (intro reads_as_append fixed_lines directory_reads assms)
  note this[THEN reads_as_tokens]
  then show "read_lines (''<legacy-directory>'' @ directory_text exts @ ''</legacy-directory>'')
      = Some (Elem ''legacy-directory'' [] (map user_element ?xs))"
    by (simp add: read_lines_def nest_users)
qed

text \<open>No value can open a declaration: every \<open><\<close> of the file starts a tag or a comment.\<close>

fun decl_free :: "string \<Rightarrow> bool" where
  "decl_free [] = True"
| "decl_free (c # s) = ((c = CHR ''<'' \<and> starts_with ''!'' s \<longrightarrow> starts_with ''!-'' s) \<and> decl_free s)"

lemma lower_not_letter: "to_lower c = x \<Longrightarrow> \<not> is_lower x \<Longrightarrow> c = x"
proof -
  assume x: "to_lower c = x" "\<not> is_lower x"
  have "is_lower (char_of (of_char c + (32::nat)))" if "is_upper c"
    using that by (simp add: is_upper_def is_lower_def)
  with x show "c = x" by (auto simp: to_lower_def split: if_splits)
qed

lemma not_lower: "\<not> is_lower (CHR ''<'')" "\<not> is_lower (CHR ''!'')"
  by code_simp+

lemma decl_free_lower:
  assumes "decl_free s" and "to_lower (CHR ''-'') \<noteq> a"
  shows "\<not> contains_str (CHR ''<'' # CHR ''!'' # a # p) (py_lower s)"
  using assms(1)
proof (induction s)
  case Nil
  then show ?case by (simp add: py_lower_def)
next
  case (Cons c s)
  have False if hit: "starts_with (CHR ''<'' # CHR ''!'' # a # p) (py_lower (c # s))"
  proof -
    obtain d e t where s: "s = d # e # t" "to_lower c = CHR ''<''" "to_lower d = CHR ''!''" "to_lower e = a"
      using hit by (cases s; cases "tl s") (auto simp: py_lower_def)
    then have "c = CHR ''<''" "d = CHR ''!''" using lower_not_letter not_lower by blast+
    with s Cons.prems assms(2) show False by auto
  qed
  moreover have "\<not> contains_str (CHR ''<'' # CHR ''!'' # a # p) (py_lower s)" using Cons by simp
  ultimately show ?case by (auto simp: py_lower_def)
qed

lemma decl_free_skip: "CHR ''<'' \<notin> set a \<Longrightarrow> decl_free (a @ s) = decl_free s"
  by (induction a) auto

lemma escape_not_open: "CHR ''<'' \<notin> set (escape s)"
  by (induction s) (auto simp: escape_def references_def QUOTE_def)

lemma decl_free_tag:
  assumes "name_ok tag" and "\<forall>kv\<in>set as. CHR ''<'' \<notin> set (fst kv)"
  shows "decl_free (start_of tag as @ s) = decl_free s"
proof -
  have q: "QUOTE \<noteq> CHR ''<''" by (simp add: QUOTE_def)
  have "CHR ''<'' \<notin> set (tag @ concat (map attr_escaped as))"
    using assms q escape_not_open not_name(5) by (auto simp: attr_escaped_def name_ok_def list_all_iff)
  moreover have "\<not> starts_with ''!'' (tag @ r)" for r
    using assms(1) name_token[OF assms(1)] by (cases tag) (auto simp: name_ok_def name_char_def is_alnum_def is_alpha_def is_upper_def is_lower_def is_digit_def)
  ultimately show ?thesis
    using decl_free_skip[of "tag @ concat (map attr_escaped as)" s] by (simp add: start_of_def)
qed

lemma decl_free_consts: "CHR ''<'' \<notin> set ''id''" "CHR ''<'' \<notin> set ''name''" "CHR ''<'' \<notin> set ''value''" "NEWLINE \<noteq> CHR ''<''"
  by code_simp+

lemma decl_free_pairs:
  assumes "name_ok tag" and "CHR ''<'' \<notin> set ind"
  shows "decl_free (text_of (map (\<lambda>nv. ind @ start_of tag (pair_attrs nv) @ ''/>'') nvs) @ s) = decl_free s"
  using decl_free_consts decl_free_skip[OF assms(2)]
  by (induction nvs) (simp_all add: decl_free_tag[OF assms(1)] pair_attrs_def)

lemma decl_free_user: "decl_free (text_of (user_lines x) @ s) = decl_free s"
proof -
  have "decl_free (start_of ''user'' [(''id'', fst x)] @ r) = decl_free r" for r
    by (rule decl_free_tag[OF tag_names(1)]) (use decl_free_consts in simp)
  moreover have "decl_free (text_of (map (\<lambda>nv. ''    '' @ start_of tag (pair_attrs nv) @ ''/>'') nvs) @ r) = decl_free r"
    if "name_ok tag" for r tag nvs
    by (rule decl_free_pairs[OF that]) simp
  ultimately show ?thesis
    using decl_free_consts tag_names by (simp add: user_lines_def)
qed

lemma decl_free_directory: "decl_free (directory_text exts)"
proof -
  have "decl_free (text_of (concat (map user_lines xs)) @ [])" for xs
    by (induction xs) (simp_all add: decl_free_user del: append_Nil2)
  then have "decl_free (text_of (concat (map user_lines (in_order exts))))" by simp
  moreover have "decl_free (GENERATED @ NEWLINE # r) = decl_free r" for r
    using decl_free_consts by (simp add: GENERATED_def)
  ultimately show ?thesis by (simp add: directory_text_def text_of_join del: join_str.simps)
qed

section \<open>The users the provider finds\<close>




lemma users_of_document:
  "user_elements (Elem ''legacy-directory'' [] (map user_element xs)) = map user_element xs"
  "user_elements (user_element x) = [user_element x]"
proof -
  have t: "xml_tag (user_element x) = ''user''" "filter (\<lambda>x. xml_tag x = ''user'') (descendants (user_element x)) = []" for x
    by (simp_all add: user_element_def ext_params_def ext_variables_def named_def)
  have "filter (\<lambda>x. xml_tag x = ''user'') (concat (map (\<lambda>k. k # descendants k) (map user_element xs))) = map user_element xs"
    by (induction xs) (simp_all add: t)
  then show "user_elements (Elem ''legacy-directory'' [] (map user_element xs)) = map user_element xs"
    by (simp add: user_elements_def)
  show "user_elements (user_element x) = [user_element x]" by (simp add: user_elements_def t)
qed

lemma in_order_facts:
  assumes "keys_filled exts"
  shows "distinct (map fst (in_order exts))" and "map_of (in_order exts) k = map_of exts k"
    and "set (in_order exts) = set exts"
proof -
  have m: "map fst (in_order exts) = sort (map fst exts)" by (simp add: in_order_def comp_def)
  then show "distinct (map fst (in_order exts))" using assms by (simp add: keys_filled_def)
  have l: "map_of (map (\<lambda>k. (k, the (map_of exts k))) ks) k = (if k \<in> set ks then Some (the (map_of exts k)) else None)" for ks k
    by (induction ks) auto
  have in_dom: "k \<in> set (map fst exts) \<longleftrightarrow> map_of exts k \<noteq> None" for k by (simp add: map_of_eq_None_iff)
  have map: "map_of (in_order exts) k = map_of exts k" for k
    using in_dom[of k] by (auto simp: in_order_def l)
  then show "map_of (in_order exts) k = map_of exts k" .
  have "map_of (in_order exts) = map_of exts" using map by (rule ext)
  then show "set (in_order exts) = set exts"
    using assms \<open>distinct (map fst (in_order exts))\<close> map_of_inject_set unfolding keys_filled_def by blast
qed



lemma import_main_writes:
  assumes "import_main os (Some (Inr rows)) enable s = (Inr 0, s')"
  obtains l where "load_extensions rows = Inr l" and "xf_directory s' = Some (directory_text (el_extensions l))"
    and "write_gateways os (el_extensions l) (active_of enable) (s\<lparr>xf_directory := Some (directory_text (el_extensions l))\<rparr>) = (Inr (), s')"
proof -
  have k: "keeps xf_directory (write_gateways os exts active)" for exts active
  proof -
    have "keeps xf_directory (write_gateway os active x)" for x
      by (rule keepsI) (auto simp: write_gateway_def split: option.splits)
    then have "keeps xf_directory (for_p (write_gateway os active) (in_order exts))" by (rule keeps_for_p)
    moreover have "keeps xf_directory drop_gateways" by (simp add: drop_gateways_def keeps_modifyp)
    ultimately show ?thesis unfolding write_gateways_def by (intro keeps_bindp)
  qed
  show thesis
    using assms that keepsD[OF k]
    by (auto simp: import_main_def bindp_eq_Inr write_directory_def split: if_splits option.splits)
qed


section \<open>The gateways\<close>

definition ext_of :: "string \<Rightarrow> string" where
  "ext_of n = take (length n - 13) (drop 9 n)"

lemma ext_of_file [simp]: "ext_of (gateway_file ext) = ext" "is_gateway_file (gateway_file ext)"
  by (simp_all add: ext_of_def gateway_file_def gateway_name_def is_gateway_file_def ends_with_def)

lemma file_of_ext: "is_gateway_file n \<Longrightarrow> n = gateway_file (ext_of n)"
proof -
  assume g: "is_gateway_file n"
  obtain u where u: "n = u @ ''.xml''"
    using g unfolding is_gateway_file_def ends_with_def starts_with_iff by (metis rev_append rev_rev_ident)
  define p where "p = ''upstream-''"
  have "take (length p) n = p" using g by (simp add: is_gateway_file_def starts_with_def p_def)
  moreover have "length p \<le> length u" using g u by (simp add: is_gateway_file_def p_def)
  ultimately have "u = p @ drop (length p) u" using u by (metis append_take_drop_id take_append diff_is_0_eq take0 append_Nil2)
  with u have "n = gateway_file (drop (length p) u)" unfolding gateway_file_def gateway_name_def p_def by (metis append_assoc)
  then show ?thesis by simp
qed

lemma gateways_written:
  assumes "for_p (write_gateway os active) xs s = (Inr (), s')" and "distinct (map fst xs)"
  shows "map_of (xf_upstream s') n =
    (case (if is_gateway_file n then map_of xs (ext_of n) else None) of
       None \<Rightarrow> map_of (xf_upstream s) n | Some e \<Rightarrow> Some (gateway_text active (ext_of n, e)))"
  using assms
proof (induction xs arbitrary: s)
  case Nil
  then show ?case by simp
next
  case (Cons x xs)
  let ?s1 = "s\<lparr>xf_upstream := AList.update (gateway_file (fst x)) (gateway_text active x) (xf_upstream s)\<rparr>"
  have "os (gateway_file (fst x)) = None"
    using Cons.prems(1) by (auto simp: write_gateway_def[of os active x] split: option.splits)
  then have "write_gateway os active x s = (Inr (), ?s1)" by (simp add: write_gateway_def)
  then have r: "for_p (write_gateway os active) xs ?s1 = (Inr (), s')" using Cons.prems(1) by simp
  have "n = gateway_file (fst x) \<longleftrightarrow> is_gateway_file n \<and> ext_of n = fst x"
    using file_of_ext[of n] ext_of_file by metis
  moreover have "map_of xs (fst x) = None" using Cons.prems(2) by (auto simp: map_of_eq_None_iff)
  ultimately show ?case
    using Cons.IH[OF r] Cons.prems(2) by (cases x) (auto simp: update_conv' split: option.splits)
qed

lemma gateway_params_line:
  "plain_entry x \<Longrightarrow> \<forall>nv\<in>set (gateway_params active x). one_line (fst nv) \<and> one_line (snd nv)"
  using one_line_consts by (simp add: gateway_params_def plain_entry_def one_line_append port_by_tech_def)

lemma gateway_reads:
  assumes "plain_entry x"
  shows "read_lines (gateway_text active x)
    = Some (Elem ''gateway'' [(''name'', gateway_name (fst x))] (map (named ''param'') (gateway_params active x)))"
proof -
  have n: "one_line (gateway_name (fst x))"
    using assms one_line_consts unfolding gateway_name_def one_line_append plain_entry_def by blast
  have 1: "reads_as (text_of [GENERATED, start_of ''gateway'' [(''name'', gateway_name (fst x))] @ ''>''])
      ([] @ [Start_Tag ''gateway'' [(''name'', gateway_name (fst x))]] @ [])"
    by (intro reads_as_line generated_line reads_as_tags(2)[OF tag_names(8)])
      (use n tag_names(7) in \<open>simp_all add: reads_as_Nil\<close>)
  have 2: "reads_as (text_of (map (\<lambda>nv. ''  '' @ start_of ''param'' (pair_attrs nv) @ ''/>'') (gateway_params active x)))
      (pair_tokens ''param'' (gateway_params active x))"
    by (rule pair_lines[OF tag_names(3) gateway_params_line[OF assms]]) simp
  have 3: "reads_as (text_of [''</gateway>'']) ([End_Tag ''gateway''] @ [])"
    by (intro reads_as_line fixed_lines) (simp add: reads_as_Nil)
  have "reads_as (gateway_text active x) (([] @ [Start_Tag ''gateway'' [(''name'', gateway_name (fst x))]] @ [])
      @ pair_tokens ''param'' (gateway_params active x) @ [End_Tag ''gateway''] @ [])"
    unfolding gateway_text_def text_of_def[symmetric] text_of_simps(3) by (intro reads_as_append 1 2 3)
  note this[THEN reads_as_tokens]
  then show ?thesis by (simp add: read_lines_def nest_pairs)
qed

text \<open>After an import that succeeds the gateway directory holds one gateway per extension of the
  export and no other file of that pattern: each is a document a reader takes apart into the
  credentials of the device and the proxy of its technology, and registers just when the extension
  was enabled; the other files of the directory are as they were.\<close>

theorem gateways_match_the_export:
  assumes "import_main os (Some (Inr rows)) enable s = (Inr 0, s')"
    and "\<forall>ext e. device_of rows ext = Some e \<longrightarrow> plain_entry (ext, e)"
  shows "\<forall>n. if is_gateway_file n
    then (case device_of rows (ext_of n) of
        None \<Rightarrow> map_of (xf_upstream s') n = None
      | Some e \<Rightarrow> \<exists>text params. map_of (xf_upstream s') n = Some text
          \<and> read_lines text = Some (Elem ''gateway'' [(''name'', gateway_name (ext_of n))] (map (named ''param'') params))
          \<and> map_of params ''username'' = Some (xe_user e) \<and> map_of params ''password'' = Some (xe_password e)
          \<and> map_of params ''proxy'' = Some (PBX_HOST @ '':'' @ port_by_tech (xe_tech e))
          \<and> (map_of params ''register'' = Some ''true'' \<longleftrightarrow> ext_of n \<in> set (active_of enable)))
    else map_of (xf_upstream s') n = map_of (xf_upstream s) n"
proof
  fix n
  obtain l where l: "load_extensions rows = Inr l"
    "write_gateways os (el_extensions l) (active_of enable) (s\<lparr>xf_directory := Some (directory_text (el_extensions l))\<rparr>) = (Inr (), s')"
    using import_main_writes[OF assms(1)] by blast
  note d = load_extensions_device[OF l(1)]
  note f = in_order_facts[OF d(2)]
  have old: "map_of (filter (\<lambda>f. \<not> is_gateway_file (fst f)) d) n = (if is_gateway_file n then None else map_of d n)" for d
    by (induction d) auto
  have r: "for_p (write_gateway os (active_of enable)) (in_order (el_extensions l))
      (s\<lparr>xf_directory := Some (directory_text (el_extensions l)),
         xf_upstream := filter (\<lambda>f. \<not> is_gateway_file (fst f)) (xf_upstream s)\<rparr>) = (Inr (), s')"
    using l(2) by (simp add: write_gateways_def drop_gateways_def bindp_def)
  have new: "map_of (xf_upstream s') n =
    (case (if is_gateway_file n then device_of rows (ext_of n) else None) of
       None \<Rightarrow> if is_gateway_file n then None else map_of (xf_upstream s) n
     | Some e \<Rightarrow> Some (gateway_text (active_of enable) (ext_of n, e)))"
    using gateways_written[OF r f(1), of n] f(2) d(1) old[of "xf_upstream s"] by (simp split: option.splits)
  show "if is_gateway_file n
    then (case device_of rows (ext_of n) of
        None \<Rightarrow> map_of (xf_upstream s') n = None
      | Some e \<Rightarrow> \<exists>text params. map_of (xf_upstream s') n = Some text
          \<and> read_lines text = Some (Elem ''gateway'' [(''name'', gateway_name (ext_of n))] (map (named ''param'') params))
          \<and> map_of params ''username'' = Some (xe_user e) \<and> map_of params ''password'' = Some (xe_password e)
          \<and> map_of params ''proxy'' = Some (PBX_HOST @ '':'' @ port_by_tech (xe_tech e))
          \<and> (map_of params ''register'' = Some ''true'' \<longleftrightarrow> ext_of n \<in> set (active_of enable)))
    else map_of (xf_upstream s') n = map_of (xf_upstream s) n"
  proof (cases "if is_gateway_file n then device_of rows (ext_of n) else None")
    case None
    then show ?thesis using new by (auto split: if_splits)
  next
    case (Some e)
    let ?params = "gateway_params (active_of enable) (ext_of n, e)"
    have g: "is_gateway_file n" "device_of rows (ext_of n) = Some e" using Some by (auto split: if_splits)
    have "map_of (xf_upstream s') n = Some (gateway_text (active_of enable) (ext_of n, e))" using new g by simp
    moreover have "read_lines (gateway_text (active_of enable) (ext_of n, e))
        = Some (Elem ''gateway'' [(''name'', gateway_name (ext_of n))] (map (named ''param'') ?params))"
      using gateway_reads[of "(ext_of n, e)"] assms(2) g(2) by simp
    ultimately show ?thesis
      using g by (auto simp: gateway_params_def intro!: exI[of _ ?params])
  qed
qed

section \<open>A sample export\<close>

definition ext_line :: "string \<Rightarrow> string \<Rightarrow> string \<Rightarrow> string \<Rightarrow> ext_row" where
  "ext_line tech ext pwd name = [(''technology'', Some tech), (''device_user'', Some ext), (''device_password'', Some pwd),
     (''extension'', Some ext), (''ext_name'', Some name)]"

definition sample_export :: "ext_row list" where
  "sample_export = [ext_line ''sip'' ''101'' ''old'' ''Sala'', ext_line ''virtual'' ''900'' ''x'' ''Fila'', ext_line ''pjsip'' ''101'' ''a<b'' ''Sala'']"

definition no_files :: ext_files where
  "no_files = \<lparr>xf_directory = None, xf_upstream = [(''upstream-77.xml'', ''old''), (''notes.txt'', ''n'')]\<rparr>"

definition sample_device :: ext_entry where
  "sample_device = \<lparr>xe_user = ''101'', xe_password = ''a<b'', xe_name = ''Sala'', xe_tech = ''pjsip''\<rparr>"

lemma sample_usable: "usable sample_export = [(''101'', sample_device\<lparr>xe_password := ''old'', xe_tech := ''sip''\<rparr>), (''101'', sample_device)]"
  by code_simp

lemma sample_device_of: "device_of sample_export u = (if u = ''101'' then Some sample_device else None)"
  by (simp add: device_of_def sample_usable replaces_def) (simp add: sample_device_def)

lemma import_main_returns:
  assumes "load_extensions rows = Inr l" and "el_extensions l \<noteq> []"
  shows "\<exists>s'. import_main (\<lambda>_. None) (Some (Inr rows)) enable s = (Inr 0, s')"
proof -
  have "\<exists>t'. for_p (write_gateway (\<lambda>_. None) active) xs t = (Inr (), t')" for active xs t
    by (induction xs arbitrary: t) (simp_all add: write_gateway_def)
  then have "\<exists>t'. write_gateways (\<lambda>_. None) (el_extensions l) active t = (Inr (), t')" for active t
    by (simp add: write_gateways_def drop_gateways_def bindp_def)
  then obtain t' where t: "write_gateways (\<lambda>_. None) (el_extensions l) (active_of enable)
      (s\<lparr>xf_directory := Some (directory_text (el_extensions l))\<rparr>) = (Inr (), t')"
    by blast
  then show ?thesis using assms by (simp add: import_main_def bindp_def write_directory_def)
qed

lemma sample_plain: "plain_entry (''101'', sample_device)" "py_strip ''101'' = ''101''"
  by code_simp+

lemma sample_imported: "\<exists>s'. import_main (\<lambda>_. None) (Some (Inr sample_export)) ''101'' no_files = (Inr 0, s')"
proof -
  have "case load_extensions sample_export of Inl _ \<Rightarrow> False | Inr l \<Rightarrow> el_extensions l \<noteq> []" by code_simp
  then show ?thesis using import_main_returns by (auto split: sum.splits)
qed


theorem gateways_match_the_export_witness:
  "\<exists>s' text params. import_main (\<lambda>_. None) (Some (Inr sample_export)) ''101'' no_files = (Inr 0, s')
    \<and> map_of (xf_upstream s') ''upstream-101.xml'' = Some text \<and> map_of (xf_upstream s') ''upstream-77.xml'' = None
    \<and> map_of (xf_upstream s') ''notes.txt'' = Some ''n''
    \<and> read_lines text = Some (Elem ''gateway'' [(''name'', ''upstream-101'')] (map (named ''param'') params))
    \<and> map_of params ''password'' = Some ''a<b'' \<and> map_of params ''register'' = Some ''true''"
proof -
  obtain s' where s: "import_main (\<lambda>_. None) (Some (Inr sample_export)) ''101'' no_files = (Inr 0, s')" using sample_imported by blast
  have "\<forall>ext e. device_of sample_export ext = Some e \<longrightarrow> plain_entry (ext, e)" by (simp add: sample_device_of sample_plain)
  note g = gateways_match_the_export[OF s this, rule_format]
  have names: "is_gateway_file ''upstream-101.xml''" "ext_of ''upstream-101.xml'' = ''101''" "is_gateway_file ''upstream-77.xml''"
    "ext_of ''upstream-77.xml'' = ''77''" "\<not> is_gateway_file ''notes.txt''" "''101'' \<in> set (active_of ''101'')"
    "gateway_name ''101'' = ''upstream-101''"
    by code_simp+
  have "map_of (xf_upstream s') ''upstream-77.xml'' = None" "map_of (xf_upstream s') ''notes.txt'' = Some ''n''"
    using g[of "''upstream-77.xml''"] g[of "''notes.txt''"] names by (simp_all add: sample_device_of no_files_def)
  then show ?thesis
    using s g[of "''upstream-101.xml''"] names by (auto simp: sample_device_of sample_device_def)
qed

text \<open>Quotes are stripped after the blanks, so a quoted extension keeps blanks inside its quotes and is
  another key than the bare one; the provider strips it and refuses the whole file.\<close>

definition spaced_export :: "ext_row list" where
  "spaced_export = [ext_line ''sip'' ''101'' ''a'' ''Sala'', ext_line ''sip'' ([QUOTE] @ '' 101'' @ [QUOTE]) ''b'' ''Sala'']"

lemma spaced_extension_breaks_the_directory:
  "\<exists>s' text. import_main (\<lambda>_. None) (Some (Inr spaced_export)) [] no_files = (Inr 0, s') \<and> xf_directory s' = Some text
    \<and> fst (legacy_lookup read_lines (Present mtime (Inr text)) u new_provider) = Inl (LegacyDirectoryError ''legacy_directory_ambiguous_user'')"
proof -
  have "case load_extensions spaced_export of Inl _ \<Rightarrow> False | Inr l \<Rightarrow> map fst (el_extensions l) = [''101'', '' 101'']
      \<and> list_all plain_entry (el_extensions l)"
    by code_simp
  then obtain l where l: "load_extensions spaced_export = Inr l" "map fst (el_extensions l) = [''101'', '' 101'']"
    "\<forall>x\<in>set (el_extensions l). plain_entry x"
    by (auto split: sum.splits simp: list_all_iff)
  let ?xs = "in_order (el_extensions l)"
  obtain s' where s: "import_main (\<lambda>_. None) (Some (Inr spaced_export)) [] no_files = (Inr 0, s')"
    using import_main_returns[OF l(1)] l(2) by fastforce
  have t: "xf_directory s' = Some (directory_text (el_extensions l))" using import_main_writes[OF s] l(1) by fastforce
  note f = in_order_facts[OF load_extensions_device(2)[OF l(1)]]
  have p: "\<forall>x\<in>set ?xs. plain_entry x" using l(3) f(3) by simp
  have "map fst ?xs = sort [''101'', '' 101'']" using l(2) by (simp add: in_order_def comp_def)
  also have "\<dots> = ['' 101'', ''101'']" by code_simp
  finally obtain a b where xs: "?xs = [('' 101'', a), (''101'', b)]" by auto
  have id: "attr (user_element x) ''id'' = fst x" for x by (simp add: attr_def user_element_def)
  have "py_strip '' 101'' = ''101''" "py_strip ''101'' = ''101''" by code_simp+
  then have c: "collect_users (map user_element ?xs) [] = Inl (LegacyDirectoryError ''legacy_directory_ambiguous_user'')"
    by (simp add: xs id Let_def)
  have hyphen: "to_lower (CHR ''-'') \<noteq> CHR ''d''" "to_lower (CHR ''-'') \<noteq> CHR ''e''" by code_simp+
  have "parse_legacy read_lines (directory_text (el_extensions l)) = Inr (Elem ''legacy-directory'' [] (map user_element ?xs))"
    using directory_parsed[OF p] decl_free_lower[OF decl_free_directory hyphen(1)] decl_free_lower[OF decl_free_directory hyphen(2)]
    unfolding parse_legacy_def Let_def by (simp add: xs del: contains_str.simps)
  then have "load_legacy read_lines (Inr (directory_text (el_extensions l))) = Inl (LegacyDirectoryError ''legacy_directory_ambiguous_user'')"
    using c users_of_document(1)[of ?xs] by (simp add: load_legacy_def)
  then show ?thesis
    using s t by (auto simp: legacy_lookup_def bindp_def refresh_def new_provider_def)
qed

end
