(* ===== verification/Watcher.thy ===== *)
theory Watcher
  imports Vars_Xml Py_Data Run_Laws
begin

text \<open>
  \<open>sidecar/watcher.py\<close>: the watcher of the external address. Once per interval it asks an HTTP
  endpoint for the address, or the routing table if that fails, compares it with what FreeSWITCH
  reports, and if they differ writes \<open>vars-external-ip.xml\<close> and restarts the SIP profile. What
  the network and the disk answer in one turn is a record, the connections to FreeSWITCH are lists of
  what each \<open>recv\<close> returns; the world of the watcher is the file, the commands FreeSWITCH has been
  sent, the last address it wrote, and the actions it has logged.
\<close>

section \<open>What the outside answers\<close>

text \<open>\<open>requests.exceptions.RequestException\<close> apart from anything else the call raises.\<close>

datatype http_reply = Request_Fails string | Request_Raises exc | Reply_Text string

datatype received = Chunk string | Recv_Timeout | Recv_Fails exc

record sidecar_conn =
  ec_connect :: "exc option"
  ec_send :: "nat \<Rightarrow> exc option"
  ec_recvs :: "received list"

record turn_env =
  we_http :: http_reply
  we_udp :: "exc + string"
  we_disk :: "exc option"
  we_status :: sidecar_conn
  we_apply :: sidecar_conn

record watch_world =
  ww_file :: "string option"
  ww_sent :: "string list"
  ww_last :: "string option"
  ww_log :: "string list"

section \<open>The address\<close>

definition get_external_ip :: "string option \<Rightarrow> turn_env \<Rightarrow> exc + string option" where
  "get_external_ip mock_ip env =
     (case mock_ip of
        Some m \<Rightarrow> Inr (Some (py_strip m))
      | None \<Rightarrow>
         (case we_http env of
            Reply_Text t \<Rightarrow> Inr (Some (py_strip t))
          | Request_Raises e \<Rightarrow> Inl e
          | Request_Fails _ \<Rightarrow>
             (case we_udp env of
                Inr ip \<Rightarrow> Inr (Some ip)
              | Inl e \<Rightarrow> if is_OSError e then Inr None else Inl e)))"

definition external_vars :: "string \<Rightarrow> string" where
  "external_vars ip =
     ''<include>'' @ [LF] @
     ''  '' @ set_key ''external_sip_ip'' @ ip @ [QUOTE] @ ''/>'' @ [LF] @
     ''  '' @ set_key ''external_rtp_ip'' @ ip @ [QUOTE] @ ''/>'' @ [LF] @
     ''</include>'' @ [LF]"

definition write_vars_xml :: "turn_env \<Rightarrow> string \<Rightarrow> (watch_world, unit) prog" where
  "write_vars_xml env ip w =
     (case we_disk env of Some e \<Rightarrow> (Inl e, w) | None \<Rightarrow> (Inr (), w\<lparr>ww_file := Some (external_vars ip)\<rparr>))"

section \<open>Commands\<close>

fun take_recv :: "received list \<Rightarrow> exc + received list" where
  "take_recv [] = Inl TimeoutError"
| "take_recv (Chunk c # rs) = Inr rs"
| "take_recv (Recv_Timeout # rs) = Inl TimeoutError"
| "take_recv (Recv_Fails e # rs) = Inl e"

text \<open>The reply of a command is over at the first blank line, at the end of the stream or at a timeout.\<close>

fun recv_reply :: "string \<Rightarrow> received list \<Rightarrow> exc + string \<times> received list" where
  "recv_reply data [] = Inr (data, [])"
| "recv_reply data (Recv_Timeout # rs) = Inr (data, rs)"
| "recv_reply data (Recv_Fails e # rs) = Inl e"
| "recv_reply data (Chunk c # rs) =
     (if c = [] then Inr (data, rs)
      else if contains_str ([LF, LF]) (data @ c) then Inr (data @ c, rs)
      else recv_reply (data @ c) rs)"

fun send_commands :: "(nat \<Rightarrow> exc option) \<Rightarrow> nat \<Rightarrow> string list \<Rightarrow> received list \<Rightarrow> (watch_world, string list) prog" where
  "send_commands send i [] rs w = (Inr [], w)"
| "send_commands send i (cmd # cmds) rs w =
     (case send i of
        Some e \<Rightarrow> (Inl e, w)
      | None \<Rightarrow>
         (let w1 = w\<lparr>ww_sent := ww_sent w @ [cmd]\<rparr> in
          case recv_reply [] rs of
            Inl e \<Rightarrow> (Inl e, w1)
          | Inr (data, rs') \<Rightarrow>
             (case send_commands send (Suc i) cmds rs' w1 of
                (Inl e, w2) \<Rightarrow> (Inl e, w2)
              | (Inr responses, w2) \<Rightarrow> (Inr (data # responses), w2))))"

text \<open>The replies to the connection and to the password are received and not looked at.\<close>

definition esl_send :: "sidecar_conn \<Rightarrow> string list \<Rightarrow> (watch_world, string list) prog" where
  "esl_send conn commands w =
     (case ec_connect conn of
        Some e \<Rightarrow> (Inl e, w)
      | None \<Rightarrow>
         (case take_recv (ec_recvs conn) of
            Inl e \<Rightarrow> (Inl e, w)
          | Inr rs \<Rightarrow>
             (case ec_send conn 0 of
                Some e \<Rightarrow> (Inl e, w)
              | None \<Rightarrow>
                 (case take_recv rs of
                    Inl e \<Rightarrow> (Inl e, w)
                  | Inr rs' \<Rightarrow> send_commands (ec_send conn) 1 commands rs' w))))"

definition STATUS :: string where "STATUS = ''sofia status profile upstream''"
definition RELOAD :: string where "RELOAD = ''reloadxml''"
definition RESTART :: string where "RESTART = ''sofia profile upstream restart''"

definition py_words :: "string \<Rightarrow> string list" where
  "py_words s = filter (\<lambda>x. x \<noteq> []) (split_on (CHR '' '') (map (\<lambda>c. if is_space c then CHR '' '' else c) s))"

definition ip_of_line :: "string \<Rightarrow> string option" where
  "ip_of_line line =
     (if contains_str ''Ext-SIP-IP'' line \<and> 2 \<le> length (py_words line) then Some (last (py_words line)) else None)"

definition reported_ip :: "string \<Rightarrow> string option" where
  "reported_ip output = (case List.map_filter ip_of_line (splitlines output) of [] \<Rightarrow> None | ip # _ \<Rightarrow> Some ip)"

definition get_current_ext_ip :: "turn_env \<Rightarrow> (watch_world, string option) prog" where
  "get_current_ext_ip env =
     catchp (bindp (esl_send (we_status env) [STATUS])
               (\<lambda>responses. ret (reported_ip (case responses of [] \<Rightarrow> [] | r # _ \<Rightarrow> r))))
       is_OSError (\<lambda>_. ret None)"

definition apply_update :: "turn_env \<Rightarrow> (watch_world, bool) prog" where
  "apply_update env =
     catchp (bindp (esl_send (we_apply env) [RELOAD, RESTART])
               (\<lambda>responses. ret (case responses of [] \<Rightarrow> False | r # _ \<Rightarrow> contains_str ''+OK'' r)))
       is_OSError (\<lambda>_. ret False)"

section \<open>A turn\<close>

definition emit :: "string \<Rightarrow> (watch_world, unit) prog" where
  "emit action = modifyp (\<lambda>w. w\<lparr>ww_log := ww_log w @ [action]\<rparr>)"

definition write_and_apply :: "turn_env \<Rightarrow> string \<Rightarrow> string \<Rightarrow> (watch_world, unit) prog" where
  "write_and_apply env ip action =
     bindp (write_vars_xml env ip) (\<lambda>_.
     bindp (apply_update env) (\<lambda>_.
     bindp (emit action) (\<lambda>_.
     modifyp (\<lambda>w. w\<lparr>ww_last := Some ip\<rparr>))))"

definition turn_of :: "string option \<Rightarrow> turn_env \<Rightarrow> (watch_world, unit) prog" where
  "turn_of mock_ip env =
     bindp (lift_res (get_external_ip mock_ip env)) (\<lambda>current_ip.
       case current_ip of
         None \<Rightarrow> emit ''error''
       | Some ip \<Rightarrow>
           bindp (get_current_ext_ip env) (\<lambda>freeswitch_ip.
           bindp (gets ww_last) (\<lambda>last_ip.
             if last_ip = None then write_and_apply env ip ''startup''
             else if Some ip \<noteq> freeswitch_ip then write_and_apply env ip ''update''
             else emit ''none'')))"

definition watch_turn :: "string option \<Rightarrow> turn_env \<Rightarrow> (watch_world, unit) prog" where
  "watch_turn mock_ip env = catchp (turn_of mock_ip env) is_Exception (\<lambda>_. emit ''error'')"

text \<open>The loop never ends by itself; this is what it has done after a number of turns.\<close>

definition watch :: "string option \<Rightarrow> turn_env list \<Rightarrow> watch_world \<Rightarrow> watch_world" where
  "watch mock_ip envs w = run_ops (\<lambda>env w. snd (watch_turn mock_ip env w)) envs w"

section \<open>The file follows the last address\<close>

definition last_written :: "watch_world \<Rightarrow> bool" where
  "last_written w \<longleftrightarrow> (\<forall>ip. ww_last w = Some ip \<longrightarrow> ww_file w = Some (external_vars ip))"

definition own_part :: "watch_world \<Rightarrow> string option \<times> string option" where
  "own_part w = (ww_file w, ww_last w)"

lemma send_commands_own: "keeps own_part (send_commands send i cmds rs)"
proof (induction cmds arbitrary: i rs)
  case Nil
  then show ?case by (simp add: keeps_def)
next
  case (Cons cmd cmds)
  show ?case
  proof (rule keepsI)
    fix w r w' assume run: "send_commands send i (cmd # cmds) rs w = (r, w')"
    have own: "own_part (w\<lparr>ww_sent := s\<rparr>) = own_part w" for s by (simp add: own_part_def)
    show "own_part w' = own_part w"
      using run own keepsD[OF Cons.IH] by (fastforce simp: Let_def split: option.splits sum.splits prod.splits)
  qed
qed

lemma keeps_esl: "keeps own_part (esl_send conn cmds)"
  by (rule keepsI) (auto simp: esl_send_def dest: keepsD[OF send_commands_own] split: option.splits sum.splits)

lemma keeps_emit: "keeps own_part (emit a)"
  unfolding emit_def by (rule keeps_modifyp) (simp add: own_part_def)

lemma keeps_status: "keeps own_part (get_current_ext_ip env)"
  unfolding get_current_ext_ip_def by (intro keep_rules keeps_esl)

lemma keeps_apply: "keeps own_part (apply_update env)"
  unfolding apply_update_def by (intro keep_rules keeps_esl)

text \<open>A socket raises \<open>OSError\<close>s only, so the calls on FreeSWITCH return whatever happens.\<close>

definition conn_ok :: "sidecar_conn \<Rightarrow> bool" where
  "conn_ok c \<longleftrightarrow> (\<forall>e. ec_connect c = Some e \<or> (\<exists>i. ec_send c i = Some e) \<or> Recv_Fails e \<in> set (ec_recvs c) \<longrightarrow> is_OSError e)"

lemma recv_reply_rest:
  "recv_reply data rs = Inr (d, rs') \<Longrightarrow> set rs' \<subseteq> set rs"
  "recv_reply data rs = Inl e \<Longrightarrow> Recv_Fails e \<in> set rs"
  by (induction data rs rule: recv_reply.induct) (auto split: if_splits)

lemma take_recv_rest:
  "take_recv rs = Inr rs' \<Longrightarrow> set rs' \<subseteq> set rs"
  "take_recv rs = Inl e \<Longrightarrow> is_OSError e \<or> Recv_Fails e \<in> set rs"
  by (cases rs rule: take_recv.cases; auto)+

lemma send_commands_errors:
  "send_commands send i cmds rs w = (Inl e, w') \<Longrightarrow> (\<exists>j. send j = Some e) \<or> Recv_Fails e \<in> set rs"
proof (induction cmds arbitrary: i rs w w')
  case Nil
  then show ?case by simp
next
  case (Cons cmd cmds)
  then show ?case
    by (auto simp: Let_def split: option.splits sum.splits prod.splits dest: recv_reply_rest) (meson recv_reply_rest(1) subsetD)+
qed

lemma esl_send_errors:
  assumes "conn_ok c" and "esl_send c cmds w = (Inl e, w')"
  shows "is_OSError e"
proof -
  have ok: "is_OSError x" if "ec_connect c = Some x \<or> (\<exists>i. ec_send c i = Some x) \<or> Recv_Fails x \<in> set (ec_recvs c)" for x
    using assms(1) that unfolding conn_ok_def by blast
  show ?thesis
  proof (cases "ec_connect c")
    case (Some x)
    then show ?thesis using assms(2) ok by (simp add: esl_send_def)
  next
    case con: None
    show ?thesis
    proof (cases "take_recv (ec_recvs c)")
      case (Inl x)
      then show ?thesis using assms(2) con ok take_recv_rest(2) by (auto simp: esl_send_def)
    next
      case r: (Inr rs)
      show ?thesis
      proof (cases "ec_send c 0")
        case (Some x)
        then show ?thesis using assms(2) con r ok by (auto simp: esl_send_def)
      next
        case s: None
        have sub: "set rs \<subseteq> set (ec_recvs c)" by (rule take_recv_rest(1)[OF r])
        show ?thesis
        proof (cases "take_recv rs")
          case (Inl x)
          then show ?thesis using assms(2) con r s ok take_recv_rest(2)[OF Inl] sub by (auto simp: esl_send_def)
        next
          case (Inr rs')
          then have "send_commands (ec_send c) 1 cmds rs' w = (Inl e, w')" using assms(2) con r s by (simp add: esl_send_def)
          then show ?thesis using send_commands_errors take_recv_rest(1)[OF Inr] sub ok by blast
        qed
      qed
    qed
  qed
qed

lemma status_returns: "conn_ok (we_status env) \<Longrightarrow> \<exists>ip w'. get_current_ext_ip env w = (Inr ip, w')"
  by (auto simp: get_current_ext_ip_def catchp_def bindp_def split: prod.splits sum.splits dest: esl_send_errors)

lemma apply_returns: "conn_ok (we_apply env) \<Longrightarrow> \<exists>b w'. apply_update env w = (Inr b, w')"
  by (auto simp: apply_update_def catchp_def bindp_def split: prod.splits sum.splits dest: esl_send_errors)

lemma write_and_apply_own:
  assumes "conn_ok (we_apply env)"
  shows "(we_disk env = None \<and> fst (write_and_apply env ip a w) = Inr () \<and> own_part (snd (write_and_apply env ip a w)) = (Some (external_vars ip), Some ip))
    \<or> (\<exists>e. we_disk env = Some e \<and> write_and_apply env ip a w = (Inl e, w))"
proof (cases "we_disk env")
  case (Some e)
  then show ?thesis by (simp add: write_and_apply_def bindp_def write_vars_xml_def)
next
  case None
  obtain b w1 where a: "apply_update env (w\<lparr>ww_file := Some (external_vars ip)\<rparr>) = (Inr b, w1)" using apply_returns[OF assms] by blast
  have "own_part w1 = own_part (w\<lparr>ww_file := Some (external_vars ip)\<rparr>)" by (rule keepsD[OF keeps_apply a])
  then show ?thesis
    using None a by (simp add: write_and_apply_def bindp_def write_vars_xml_def emit_def own_part_def)
qed

definition turn_ok :: "turn_env \<Rightarrow> bool" where
  "turn_ok env \<longleftrightarrow> conn_ok (we_status env) \<and> conn_ok (we_apply env)"

lemma watch_turn_own:
  assumes "turn_ok env"
  shows "own_part (snd (watch_turn mock env w)) = own_part w
    \<or> (\<exists>ip. get_external_ip mock env = Inr (Some ip) \<and> own_part (snd (watch_turn mock env w)) = (Some (external_vars ip), Some ip))"
proof -
  have e: "own_part (snd (emit a x)) = own_part x" for a x using keepsD[OF keeps_emit prod.collapse[symmetric]] by blast
  have W: "conn_ok (we_apply env)" and S: "conn_ok (we_status env)" using assms by (simp_all add: turn_ok_def)
  show ?thesis
  proof (cases "get_external_ip mock env")
    case (Inl x)
    then show ?thesis using e by (simp add: watch_turn_def turn_of_def catchp_def bindp_def)
  next
    case (Inr cur)
    show ?thesis
    proof (cases cur)
      case None
      obtain r w1 where m: "emit ''error'' w = (r, w1)" by force
      then have "r = Inr ()" by (simp add: emit_def)
      then show ?thesis using Inr None m e[of "''error''" w] by (simp add: watch_turn_def turn_of_def catchp_def bindp_def)
    next
      case (Some ip)
      obtain fs w1 where st: "get_current_ext_ip env w = (Inr fs, w1)" using status_returns[OF S] by blast
      have o1: "own_part w1 = own_part w" by (rule keepsD[OF keeps_status st])
      have wa: "own_part (snd (catchp (write_and_apply env ip a) is_Exception (\<lambda>_. emit ''error'') w1)) \<in> {own_part w, (Some (external_vars ip), Some ip)}" for a
        using write_and_apply_own[OF W, of ip a w1] e o1 by (auto simp: catchp_def split: prod.splits sum.splits)
      have em: "own_part (snd (catchp (emit a) is_Exception (\<lambda>_. emit ''error'') w1)) = own_part w" for a
        using e[of a w1] o1 by (simp add: catchp_def emit_def)
      have t: "watch_turn mock env w = catchp (if ww_last w1 = None then write_and_apply env ip ''startup''
          else if Some ip \<noteq> fs then write_and_apply env ip ''update'' else emit ''none'') is_Exception (\<lambda>_. emit ''error'') w1"
        using Inr Some st by (simp add: watch_turn_def turn_of_def catchp_def)
      show ?thesis using wa em Inr Some unfolding t by (cases "ww_last w1 = None"; cases "Some ip \<noteq> fs") auto
    qed
  qed
qed

interpretation watcher: machine "\<lambda>env w. if turn_ok env then snd (watch_turn mock env w) else w" last_written
proof
  fix w env assume "last_written w"
  then show "last_written (if turn_ok env then snd (watch_turn mock env w) else w)"
    using watch_turn_own[of env mock w] by (auto simp: last_written_def own_part_def)
qed

lemma watch_last_written: "last_written w \<Longrightarrow> \<forall>env\<in>set envs. turn_ok env \<Longrightarrow> last_written (watch mock envs w)"
proof -
  assume w: "last_written w" and ok: "\<forall>env\<in>set envs. turn_ok env"
  have "run_ops (\<lambda>env w. if turn_ok env then snd (watch_turn mock env w) else w) envs w = watch mock envs w"
    using ok by (induction envs arbitrary: w) (simp_all add: watch_def)
  then show ?thesis using watcher.run_inv[OF w, of mock envs] by simp
qed

section \<open>What FreeSWITCH is told\<close>

text \<open>A connection on which everything is answered, in whatever pieces.\<close>

definition conn_answers :: "sidecar_conn \<Rightarrow> bool" where
  "conn_answers c \<longleftrightarrow> ec_connect c = None \<and> (\<forall>i. ec_send c i = None)
     \<and> (\<exists>a b rs. ec_recvs c = Chunk a # Chunk b # rs \<and> (\<forall>e. Recv_Fails e \<notin> set rs))"

lemma answers_ok: "conn_answers c \<Longrightarrow> conn_ok c"
  by (auto simp: conn_answers_def conn_ok_def)

lemma recv_reply_answers:
  assumes "\<forall>e. Recv_Fails e \<notin> set rs"
  obtains d rs' where "recv_reply data rs = Inr (d, rs')" and "\<forall>e. Recv_Fails e \<notin> set rs'"
proof (cases "recv_reply data rs")
  case (Inl e)
  then show ?thesis using recv_reply_rest(2) assms by blast
next
  case (Inr x)
  then show ?thesis using recv_reply_rest(1)[of data rs "fst x" "snd x"] assms that[of "fst x" "snd x"] by auto
qed

lemma send_commands_answers:
  assumes "\<forall>i. send i = None" and "\<forall>e. Recv_Fails e \<notin> set rs"
  shows "\<exists>responses. send_commands send i cmds rs w = (Inr responses, w\<lparr>ww_sent := ww_sent w @ cmds\<rparr>)"
  using assms(2)
proof (induction cmds arbitrary: i rs w)
  case Nil
  then show ?case by simp
next
  case (Cons cmd cmds)
  obtain d rs' where d: "recv_reply [] rs = Inr (d, rs')" "\<forall>e. Recv_Fails e \<notin> set rs'" by (rule recv_reply_answers[OF Cons.prems])
  then show ?case using Cons.IH[OF d(2), of "Suc i" "w\<lparr>ww_sent := ww_sent w @ [cmd]\<rparr>"] assms(1) by (auto simp: Let_def)
qed

lemma esl_send_answers: "conn_answers c \<Longrightarrow> \<exists>responses. esl_send c cmds w = (Inr responses, w\<lparr>ww_sent := ww_sent w @ cmds\<rparr>)"
  using send_commands_answers unfolding conn_answers_def esl_send_def by (auto simp del: send_commands.simps)

lemma status_answers: "conn_answers (we_status env) \<Longrightarrow> \<exists>ip. get_current_ext_ip env w = (Inr ip, w\<lparr>ww_sent := ww_sent w @ [STATUS]\<rparr>)"
  using esl_send_answers[of "we_status env" "[STATUS]" w] by (auto simp: get_current_ext_ip_def catchp_def bindp_def)

lemma apply_answers: "conn_answers (we_apply env) \<Longrightarrow> \<exists>b. apply_update env w = (Inr b, w\<lparr>ww_sent := ww_sent w @ [RELOAD, RESTART]\<rparr>)"
  using esl_send_answers[of "we_apply env" "[RELOAD, RESTART]" w] by (auto simp: apply_update_def catchp_def bindp_def)

lemma write_and_apply_answers:
  assumes "conn_answers (we_apply env)" and "we_disk env = None"
  shows "write_and_apply env ip a w = (Inr (), w\<lparr>ww_file := Some (external_vars ip), ww_sent := ww_sent w @ [RELOAD, RESTART],
    ww_log := ww_log w @ [a], ww_last := Some ip\<rparr>)"
  using apply_answers[OF assms(1), of "w\<lparr>ww_file := Some (external_vars ip)\<rparr>"] assms(2)
  by (auto simp: write_and_apply_def bindp_def write_vars_xml_def emit_def)

definition SIP_KEY :: string where "SIP_KEY = set_key ''external_sip_ip''"
definition RTP_KEY :: string where "RTP_KEY = set_key ''external_rtp_ip''"

lemma external_keys: "key_ok SIP_KEY" "key_ok RTP_KEY"
  by (simp_all add: key_ok_def SIP_KEY_def RTP_KEY_def set_key_def QUOTE_def)

lemma external_values:
  assumes "plain_value ip"
  shows "value_of SIP_KEY (external_vars ip) = Some ip" and "value_of RTP_KEY (external_vars ip) = Some ip"
proof -
  have q: "QUOTE \<notin> set ip" and lt: "CHR ''<'' \<notin> set ip" using assms by (simp_all add: plain_value_def)
  have tw: "takeWhile (\<lambda>x. x \<noteq> QUOTE) (ip @ QUOTE # s) = ip" for s by (rule takeWhile_stop) (use q in auto)
  have hit: "value_of k (k @ ip @ QUOTE # s) = Some ip" if "key_ok k" for k s
  proof -
    obtain t where "k = CHR ''<'' # t" using \<open>key_ok k\<close> by (auto simp: key_ok_def)
    moreover have "drop (length k) (k @ ip @ QUOTE # s) = ip @ QUOTE # s" by simp
    ultimately show ?thesis by (simp add: value_of_def tw Let_def)
  qed
  have skip: "value_of k (w @ s) = value_of k s" if "key_ok k" "CHR ''<'' \<notin> set w" for k w s
    by (cases "find_value k s") (auto simp: value_of_def find_value_skip[OF that])
  have pass: "value_of k (CHR ''<'' # s) = value_of k s" if "\<not> starts_with k (CHR ''<'' # s)" for k s
    using that by (cases "find_value k s") (auto simp: value_of_def Let_def)
  define tail where "tail = ''/>'' @ [LF] @ ''  '' @ RTP_KEY @ ip @ [QUOTE] @ ''/>'' @ [LF] @ ''</include>'' @ [LF]"
  have whole: "external_vars ip = CHR ''<'' # (''include>'' @ [LF] @ ''  '') @ SIP_KEY @ ip @ QUOTE # tail"
    by (simp add: external_vars_def tail_def SIP_KEY_def RTP_KEY_def)
  have inc: "\<not> starts_with k (CHR ''<'' # CHR ''i'' # s)" if "k = SIP_KEY \<or> k = RTP_KEY" for k s
    using that by (auto simp: SIP_KEY_def RTP_KEY_def set_key_def)
  have head: "value_of k (external_vars ip) = value_of k (SIP_KEY @ ip @ QUOTE # tail)" if "k = SIP_KEY \<or> k = RTP_KEY" for k
  proof -
    let ?W = "''include>'' @ [LF] @ ''  ''" and ?R = "SIP_KEY @ ip @ QUOTE # tail"
    have "value_of k (CHR ''<'' # ?W @ ?R) = value_of k (?W @ ?R)" by (rule pass) (use inc[OF that] in simp)
    also have "\<dots> = value_of k ?R" by (rule skip) (use that external_keys in auto)
    finally show ?thesis unfolding whole .
  qed
  show "value_of SIP_KEY (external_vars ip) = Some ip" using head hit external_keys by simp
  obtain t where t: "SIP_KEY = CHR ''<'' # t" "CHR ''<'' \<notin> set t" using external_keys(1) by (auto simp: key_ok_def)
  have "value_of RTP_KEY tail = value_of RTP_KEY (RTP_KEY @ ip @ QUOTE # (''/>'' @ [LF] @ ''</include>'' @ [LF]))"
    using skip[OF external_keys(2), of "''/>'' @ [LF] @ ''  ''"] by (simp add: tail_def)
  also have "\<dots> = Some ip" by (rule hit[OF external_keys(2)])
  finally have tv: "value_of RTP_KEY tail = Some ip" .
  have ns: "\<not> starts_with RTP_KEY (SIP_KEY @ s)" for s
    by (simp add: SIP_KEY_def RTP_KEY_def set_key_def QUOTE_def)
  have "\<not> starts_with RTP_KEY (CHR ''<'' # t @ ip @ QUOTE # tail)" using ns[of "ip @ QUOTE # tail"] unfolding t(1) by simp
  then have "value_of RTP_KEY (SIP_KEY @ ip @ QUOTE # tail) = value_of RTP_KEY ((t @ ip @ [QUOTE]) @ tail)"
    using pass unfolding t(1) by simp
  also have "\<dots> = value_of RTP_KEY tail" by (rule skip[OF external_keys(2)]) (use t lt in \<open>simp add: QUOTE_def\<close>)
  also note tv
  finally show "value_of RTP_KEY (external_vars ip) = Some ip" using head by simp
qed

text \<open>C38. The address reaches FreeSWITCH: whatever happened in the turns before, a turn that learns the
  address and finds disk and connections working ends in one of two ways. If FreeSWITCH already
  reports the address, and the watcher has written one before, it only asks, and the file keeps the
  last address written. Otherwise both variables FreeSWITCH reads from the file are the address,
  and FreeSWITCH has been told to reload and then to restart the profile, in that order.\<close>

theorem external_ip_reaches_freeswitch:
  assumes "\<forall>e\<in>set history. turn_ok e" and "ww_last start = None" and "w = watch mock history start"
    and "conn_answers (we_status env)" and "conn_answers (we_apply env)" and "we_disk env = None"
    and "get_external_ip mock env = Inr (Some ip)" and "plain_value ip"
  shows "\<exists>w'. watch_turn mock env w = (Inr (), w') \<and>
    (if fst (get_current_ext_ip env w) = Inr (Some ip) \<and> ww_last w \<noteq> None
     then ww_sent w' = ww_sent w @ [STATUS] \<and> ww_file w' = Some (external_vars (the (ww_last w)))
     else ww_sent w' = ww_sent w @ [STATUS, RELOAD, RESTART] \<and> ww_last w' = Some ip
       \<and> (\<exists>text. ww_file w' = Some text \<and> value_of SIP_KEY text = Some ip \<and> value_of RTP_KEY text = Some ip))"
proof -
  have lw: "last_written w" unfolding assms(3) by (rule watch_last_written[OF _ assms(1)]) (simp add: last_written_def assms(2))
  let ?w1 = "w\<lparr>ww_sent := ww_sent w @ [STATUS]\<rparr>"
  obtain fs where st: "get_current_ext_ip env w = (Inr fs, ?w1)" using status_answers[OF assms(4)] by blast
  have t: "watch_turn mock env w = catchp (if ww_last w = None then write_and_apply env ip ''startup''
      else if Some ip \<noteq> fs then write_and_apply env ip ''update'' else emit ''none'') is_Exception (\<lambda>_. emit ''error'') ?w1"
    using assms(7) st by (simp add: watch_turn_def turn_of_def catchp_def)
  show ?thesis
  proof (cases "fs = Some ip \<and> ww_last w \<noteq> None")
    case True
    then show ?thesis using lw st unfolding t by (auto simp: catchp_def emit_def last_written_def)
  next
    case False
    then have "\<exists>a. watch_turn mock env w = catchp (write_and_apply env ip a) is_Exception (\<lambda>_. emit ''error'') ?w1"
      unfolding t by auto
    then show ?thesis
      using False st external_values[OF assms(8)] by (auto simp: catchp_def write_and_apply_answers[OF assms(5,6)])
  qed
qed

text \<open>Two ways the watcher is misled. A reply whose header and body arrive apart is taken for the header
  alone, so no address is found and the profile is restarted in every turn; and any text of the
  endpoint is an address, the empty one included.\<close>

lemma split_reply_has_no_address:
  assumes "ec_connect (we_status env) = None" and "\<forall>i. ec_send (we_status env) i = None"
    and "ec_recvs (we_status env) = [Chunk banner, Chunk reply, Chunk header, Chunk body]"
    and "header \<noteq> []" and "contains_str [LF, LF] header" and "reported_ip header = None"
  shows "fst (get_current_ext_ip env w) = Inr None"
  using assms by (simp add: get_current_ext_ip_def catchp_def bindp_def esl_send_def Let_def)

lemma empty_answer_is_an_address: "we_http env = Reply_Text [LF] \<Longrightarrow> get_external_ip None env = Inr (Some [])"
  by (simp add: get_external_ip_def) code_simp

definition quiet_conn :: "string \<Rightarrow> sidecar_conn" where
  "quiet_conn reply = \<lparr>ec_connect = None, ec_send = (\<lambda>_. None),
     ec_recvs = [Chunk ''auth/request'', Chunk ''+OK'', Chunk (''Content-Length: 9'' @ [LF, LF] @ reply), Chunk ''+OK'']\<rparr>"

definition sample_turn :: "string \<Rightarrow> turn_env" where
  "sample_turn reply = \<lparr>we_http = Reply_Text ''10.0.0.7'', we_udp = Inr ''10.0.0.8'', we_disk = None, we_status = quiet_conn reply,
     we_apply = quiet_conn ''+OK''\<rparr>"

definition fresh_watch :: watch_world where
  "fresh_watch = \<lparr>ww_file = None, ww_sent = [], ww_last = None, ww_log = []\<rparr>"

lemma quiet_answers: "conn_answers (quiet_conn reply)"
  by (simp add: conn_answers_def quiet_conn_def)

theorem external_ip_reaches_freeswitch_witness:
  "(\<exists>w' text. watch_turn None (sample_turn ''Ext-SIP-IP 10.0.0.7'') fresh_watch = (Inr (), w')
      \<and> ww_sent w' = [STATUS, RELOAD, RESTART] \<and> ww_file w' = Some text \<and> value_of SIP_KEY text = Some ''10.0.0.7'')
   \<and> (\<exists>w1 w'. w1 = watch None [sample_turn []] fresh_watch
      \<and> watch_turn None (sample_turn ''Ext-SIP-IP 10.0.0.7'') w1 = (Inr (), w') \<and> ww_sent w' = ww_sent w1 @ [STATUS])"
proof -
  have ip: "get_external_ip None (sample_turn r) = Inr (Some ''10.0.0.7'')" for r
    unfolding get_external_ip_def sample_turn_def by (simp, code_simp)
  have t: "conn_answers (we_status (sample_turn r))" "conn_answers (we_apply (sample_turn r))" "we_disk (sample_turn r) = None"
    "turn_ok (sample_turn r)" for r
    using quiet_answers answers_ok by (simp_all add: sample_turn_def turn_ok_def)
  have p: "plain_value ''10.0.0.7''" by code_simp
  have f: "ww_last fresh_watch = None" by (simp add: fresh_watch_def)
  have s: "fst (get_current_ext_ip (sample_turn ''Ext-SIP-IP 10.0.0.7'') w) = Inr (Some ''10.0.0.7'')" for w
  proof -
    have r: "reported_ip (''Content-Length: 9'' @ [LF, LF] @ ''Ext-SIP-IP 10.0.0.7'') = Some ''10.0.0.7''" by code_simp
    have c: "contains_str [LF, LF] (''Content-Length: 9'' @ [LF, LF] @ ''Ext-SIP-IP 10.0.0.7'')" by code_simp
    show ?thesis
      unfolding get_current_ext_ip_def catchp_def bindp_def esl_send_def sample_turn_def quiet_conn_def
      using r c by (simp add: Let_def del: contains_str.simps)
  qed
  have 0: "fresh_watch = watch None [] fresh_watch" by (simp add: watch_def)
  obtain w' where 1: "watch_turn None (sample_turn []) fresh_watch = (Inr (), w')" "ww_last w' = Some ''10.0.0.7''"
    using external_ip_reaches_freeswitch[OF _ f 0 t(1-3) ip p, of "[]"] f by auto
  have l: "ww_last (watch None [sample_turn []] fresh_watch) \<noteq> None" using 1 by (simp add: watch_def)
  show ?thesis
    using external_ip_reaches_freeswitch[OF _ f 0 t(1-3) ip p, of "''Ext-SIP-IP 10.0.0.7''"]
      external_ip_reaches_freeswitch[OF _ f refl t(1-3) ip p, of "[sample_turn []]" "''Ext-SIP-IP 10.0.0.7''"] s l t(4) f
    by (auto simp: fresh_watch_def)
qed

end
