(* ===== verification/Operational.thy ===== *)
theory Operational
  imports Trunk_Import Directory
begin

text \<open>
  \<open>scripts/import_operational_trunks.py\<close>: the trunks of an export are imported with an explicit map
  from their numbers to condominiums, which are looked up by name and, with \<open>--apply\<close>, created.
  The export comes from standard input after \<open>json.loads\<close>. What the run takes from outside is the
  record \<open>op_env\<close>: the settings, the UUID and the commit of the n-th condominium created and of the
  trunk of line n. The exit code is the result.
\<close>

record op_args =
  oa_tenant :: string
  oa_pbx :: string
  oa_map :: "string list"
  oa_apply :: bool

record op_env =
  oe_fernet :: fernet
  oe_keys :: string
  oe_parse :: "string \<Rightarrow> xml option"
  oe_legacy :: legacy_file
  oe_condo_id :: "nat \<Rightarrow> string"
  oe_condo_commit :: "nat \<Rightarrow> exc option"
  oe_trunk_id :: "nat \<Rightarrow> string"
  oe_trunk_commit :: "nat \<Rightarrow> exc option"
  oe_commit :: "exc option"

section \<open>Arguments\<close>

text \<open>\<open>item.split("=", 1)\<close> has two parts only if there is an equals sign.\<close>

definition split_item :: "string \<Rightarrow> (string \<times> string) option" where
  "split_item item =
     (if CHR ''='' \<in> set item
      then Some (takeWhile (\<lambda>c. c \<noteq> CHR ''='') item, tl (dropWhile (\<lambda>c. c \<noteq> CHR ''='') item)) else None)"

fun condominium_names :: "string list \<Rightarrow> (string \<times> string) list \<Rightarrow> exc + (string \<times> string) list" where
  "condominium_names [] names = Inr names"
| "condominium_names (item # items) names =
     (case split_item item of
        None \<Rightarrow> Inl (ValueError ''dictionary update sequence element'')
      | Some (k, v) \<Rightarrow> condominium_names items (AList.update k v names))"

definition credential_keys :: "string \<Rightarrow> string list" where
  "credential_keys setting = filter (\<lambda>k. k \<noteq> []) (map py_strip (split_on (CHR '','') setting))"

text \<open>\<open>dict.fromkeys(xs)\<close>: each value once, at its first place.\<close>

definition first_places :: "string list \<Rightarrow> string list" where
  "first_places xs = rev (remdups (rev xs))"

section \<open>The run\<close>

definition trunk_env_of :: "op_env \<Rightarrow> string list \<Rightarrow> nat \<Rightarrow> trunk_env" where
  "trunk_env_of env ks n =
     \<lparr>tv_id = oe_trunk_id env n, tv_commit = oe_trunk_commit env n, tv_encrypt = cipher_encrypt (oe_fernet env) ks,
      tv_legacy = (\<lambda>p u. fst (legacy_contains (oe_parse env) (oe_legacy env) p u new_provider))\<rparr>"

definition condo_env_of :: "op_env \<Rightarrow> nat \<Rightarrow> trunk_env" where
  "condo_env_of env n = (trunk_env_of env [] 0)\<lparr>tv_id := oe_condo_id env n, tv_commit := oe_condo_commit env n\<rparr>"

text \<open>The dictionary \<open>existing\<close>: a later condominium of the same name takes its place.\<close>

definition existing_condos :: "op_args \<Rightarrow> public_db \<Rightarrow> (string \<times> string) list" where
  "existing_condos a db = rev (map (\<lambda>c. (co_name c, co_id c)) (condo_list (oa_tenant a) (Some (oa_pbx a)) db))"

fun resolve_condos ::
    "op_env \<Rightarrow> op_args \<Rightarrow> (string \<times> string) list \<Rightarrow> nat \<Rightarrow> string list \<Rightarrow> (string \<times> string) list
     \<Rightarrow> (public_db, (string \<times> string) list) prog" where
  "resolve_condos env a existing n [] ids db = (Inr ids, db)"
| "resolve_condos env a existing n (name # names) ids db =
     (case map_of existing name of
        Some i \<Rightarrow> resolve_condos env a existing n names (AList.update name i ids) db
      | None \<Rightarrow>
         if \<not> oa_apply a then resolve_condos env a existing n names ids db
         else (case condo_create (condo_env_of env n) (oa_tenant a) (oa_pbx a) name None True db of
             (Inl e, db') \<Rightarrow> (Inl e, db')
           | (Inr c, db') \<Rightarrow> resolve_condos env a existing (Suc n) names (AList.update name (co_id c) ids) db'))"

definition commit_session :: "exc option \<Rightarrow> (public_db, unit) prog" where
  "commit_session failure = (case failure of None \<Rightarrow> ret () | Some e \<Rightarrow> throw e)"

definition run_import :: "op_env \<Rightarrow> op_args \<Rightarrow> (string \<times> string) list \<Rightarrow> json upload \<Rightarrow> (public_db, import_result) prog" where
  "run_import env a names content =
     bindp (lift_res (new_cipher (oe_fernet env) (credential_keys (oe_keys env)))) (\<lambda>ks.
     bindp (gets (existing_condos a)) (\<lambda>existing.
     bindp (resolve_condos env a existing 0 (first_places (map snd names)) []) (\<lambda>ids.
     bindp (import_trunk_json_batch (trunk_env_of env ks) content (oa_tenant a) (oa_pbx a)
              (map (\<lambda>(k, v). (k, JStr v)) names) ids (\<not> oa_apply a) 500) (\<lambda>result.
     bindp (if oa_apply a then commit_session (oe_commit env) else ret ()) (\<lambda>_. ret result)))))"

text \<open>Empty input ends with code 2, a run with code 0.\<close>

definition operational_main :: "op_env \<Rightarrow> op_args \<Rightarrow> json upload \<Rightarrow> (public_db, nat \<times> import_result option) prog" where
  "operational_main env a content =
     bindp (lift_res (condominium_names (oa_map a) [])) (\<lambda>names.
       if up_size content = 0 then ret (2, None)
       else bindp (run_import env a names content) (\<lambda>result. ret (0, Some result)))"

section \<open>What a run leaves\<close>
















section \<open>Two runs\<close>

definition op_office :: op_env where
  "op_office = \<lparr>oe_fernet = tagging_fernet, oe_keys = ''k'', oe_parse = (\<lambda>_. None), oe_legacy = Missing,
     oe_condo_id = (\<lambda>n. replicate (Suc n) (CHR ''Y'')), oe_condo_commit = (\<lambda>_. None),
     oe_trunk_id = (\<lambda>n. replicate (Suc n) (CHR ''Z'')), oe_trunk_commit = (\<lambda>_. None), oe_commit = None\<rparr>"

definition op_run :: "string list \<Rightarrow> op_args" where
  "op_run items = \<lparr>oa_tenant = ''T1'', oa_pbx = ''P1'', oa_map = items, oa_apply = True\<rparr>"




text \<open>The condominiums are committed before the batch is looked at: an export that is no JSON leaves
  the ones it would have filled.\<close>

lemma failed_import_keeps_condominiums:
  "\<exists>c. operational_main op_office (op_run [''11=Novo'']) \<lparr>up_size = 3, up_document = None\<rparr> office_db
      = (Inl (CSVSchemaError ''trunk_json_invalid''), office_db\<lparr>db_condos := db_condos office_db @ [c]\<rparr>) \<and> co_name c = ''Novo''"
proof -
  let ?a = "op_run [''11=Novo'']" and ?c = "\<lparr>co_id = ''Y'', co_tenant = ''T1'', co_pbx = ''P1'', co_name = ''Novo'', co_external = None, co_enabled = True\<rparr>"
  have n: "condominium_names (oa_map ?a) [] = Inr [(''11'', ''Novo'')]" by code_simp
  have k: "new_cipher (oe_fernet op_office) (credential_keys (oe_keys op_office)) = Inr [''k'']" by code_simp
  have r: "resolve_condos op_office ?a (existing_condos ?a office_db) 0 (first_places (map snd [(''11'', ''Novo'')])) [] office_db
      = (Inr [(''Novo'', ''Y'')], office_db\<lparr>db_condos := db_condos office_db @ [?c]\<rparr>)"
    by code_simp
  have "import_trunk_json_batch (trunk_env_of op_office [''k'']) \<lparr>up_size = 3, up_document = None\<rparr> ''T1'' ''P1'' [(''11'', JStr ''Novo'')]
      [(''Novo'', ''Y'')] False 500 db = (Inl (CSVSchemaError ''trunk_json_invalid''), db)" for db
    by (simp add: import_trunk_json_batch_def parse_trunk_json_batch_def BATCH_MAX_BYTES_def)
  then show ?thesis
    using n k r by (intro exI[of _ ?c]) (simp add: operational_main_def run_import_def bindp_def op_run_def)
qed

end
