(* ===== verification/Secrets.thy ===== *)
theory Secrets
  imports Stt Xml_Text
begin

text \<open>
  \<open>scripts/render_freeswitch_secrets.py\<close>: the binding with which FreeSWITCH asks the directory
  endpoint, rendered from the environment into a private file. \<open>SystemExit\<close> is an exception with its
  message; the file is its text and its permission bits.
\<close>

type_synonym environ = "(string \<times> string) list"

definition environ_get :: "environ \<Rightarrow> string \<Rightarrow> string \<Rightarrow> string" where
  "environ_get env name dflt = (case map_of env name of None \<Rightarrow> dflt | Some v \<Rightarrow> v)"

definition system_exit :: "string \<Rightarrow> exc" where
  "system_exit message = OtherError (''SystemExit: '' @ message)"

definition required :: "environ \<Rightarrow> string \<Rightarrow> exc + string" where
  "required env name =
     (let value = py_strip (environ_get env name []) in
      if value = [] then Inl (system_exit (''configuracao obrigatoria ausente: '' @ name)) else Inr value)"

definition USERNAME :: string where "USERNAME = ''FREESWITCH_DIRECTORY_BASIC_USERNAME''"
definition PASSWORD :: string where "PASSWORD = ''FREESWITCH_DIRECTORY_BASIC_PASSWORD''"
definition URL :: string where "URL = ''FREESWITCH_DIRECTORY_URL''"
definition TIMEOUT :: string where "TIMEOUT = ''FREESWITCH_DIRECTORY_TIMEOUT_SECONDS''"

definition timeout_ok :: "string \<Rightarrow> bool" where
  "timeout_ok t = (case float_text t of Inl _ \<Rightarrow> False | Inr q \<Rightarrow> 0 < q \<and> q \<le> 10)"

definition binding_param :: "string \<Rightarrow> string \<Rightarrow> xml" where
  "binding_param name value = Elem ''param'' [(''name'', name), (''value'', value)] []"

definition binding_tree :: "string \<Rightarrow> string \<Rightarrow> string \<Rightarrow> string \<Rightarrow> xml" where
  "binding_tree username password url timeout =
     Elem ''configuration'' [(''name'', ''xml_curl.conf''), (''description'', ''Zenith internal directory'')]
       [Elem ''bindings'' []
          [Elem ''binding'' [(''name'', ''zenith-directory'')]
             [Elem ''param'' [(''name'', ''gateway-url''), (''value'', url), (''bindings'', ''directory'')] [],
              binding_param ''gateway-credentials'' (username @ '':'' @ password), binding_param ''auth-scheme'' ''basic'',
              binding_param ''method'' ''POST'', binding_param ''timeout'' timeout, binding_param ''disable-100-continue'' ''true'']]]"

definition XML_HEADER :: string where
  "XML_HEADER = ''<?xml version='' @ [QUOTE] @ ''1.0'' @ [QUOTE] @ '' encoding='' @ [QUOTE] @ ''UTF-8'' @ [QUOTE] @ ''?>'' @ [LF]"

definition render_binding :: "environ \<Rightarrow> exc + string" where
  "render_binding env =
     (case required env USERNAME of Inl e \<Rightarrow> Inl e | Inr username \<Rightarrow>
      case required env PASSWORD of Inl e \<Rightarrow> Inl e | Inr password \<Rightarrow>
      case required env URL of Inl e \<Rightarrow> Inl e | Inr url \<Rightarrow>
        let timeout = py_strip (environ_get env TIMEOUT ''2'') in
        if \<not> timeout_ok timeout then Inl (system_exit ''timeout XML Curl invalido'')
        else Inr (XML_HEADER @ xml_text (binding_tree username password url timeout) @ [LF]))"

section \<open>The private file\<close>

record secret_file =
  sf_text :: string
  sf_mode :: nat

text \<open>What the steps up to the replacement raise, and what the last \<open>chmod\<close> does. The temporary has its
  private mode before anything is written to it, and is gone in every case.\<close>

record secret_disk =
  sd_write :: "exc option"
  sd_chmod :: "exc option"

definition PRIVATE :: nat where "PRIVATE = 384"

definition write_private :: "secret_disk \<Rightarrow> string \<Rightarrow> (secret_file option, unit) prog" where
  "write_private disk payload f =
     (case sd_write disk of
        Some e \<Rightarrow> (Inl e, f)
      | None \<Rightarrow>
         (let g = Some \<lparr>sf_text = payload, sf_mode = PRIVATE\<rparr> in
          case sd_chmod disk of Some e \<Rightarrow> (Inl e, g) | None \<Rightarrow> (Inr (), g)))"

definition render_main :: "secret_disk \<Rightarrow> environ \<Rightarrow> (secret_file option, unit) prog" where
  "render_main disk env = bindp (lift_res (render_binding env)) (write_private disk)"

section \<open>What FreeSWITCH reads\<close>

lemma binding_tree_ok: "xml_ok (binding_tree u p url t)"
proof -
  have "name_ok ''configuration''" "name_ok ''bindings''" "name_ok ''binding''" "name_ok ''param''" "name_ok ''name''" "name_ok ''value''"
    "name_ok ''description''"
    by code_simp+
  then show ?thesis by (simp add: binding_tree_def binding_param_def)
qed

lemma required_value: "required env name = Inr v \<longleftrightarrow> v = py_strip (environ_get env name []) \<and> v \<noteq> []"
  by (auto simp: required_def Let_def)

text \<open>Whatever the environment holds, after a run the file is as it was or a private file whose
  document a reader takes apart into the binding with the stripped url, credentials and timeout of
  the environment, all three present and the timeout between 0 and 10; a missing value or a bad
  timeout leaves the file as it was. No value can add markup.\<close>

theorem binding_reads_back:
  assumes "render_main disk env f = (r, f')"
  shows "f' = f \<and> (\<exists>e. r = Inl e)
    \<or> (\<exists>g body u p url t. f' = Some g \<and> sf_mode g = PRIVATE \<and> sf_text g = XML_HEADER @ body @ [LF]
        \<and> read_doc body = Some (binding_tree u p url t)
        \<and> u = py_strip (environ_get env USERNAME []) \<and> p = py_strip (environ_get env PASSWORD []) \<and> url = py_strip (environ_get env URL [])
        \<and> u \<noteq> [] \<and> p \<noteq> [] \<and> url \<noteq> [] \<and> timeout_ok t)"
proof (cases "render_binding env")
  case (Inl e)
  then show ?thesis using assms by (auto simp: render_main_def bindp_def)
next
  case (Inr text')
  then obtain u p url t where v: "required env USERNAME = Inr u" "required env PASSWORD = Inr p" "required env URL = Inr url" "timeout_ok t"
    "text' = XML_HEADER @ xml_text (binding_tree u p url t) @ [LF]"
    by (auto simp: render_binding_def Let_def split: sum.splits if_splits)
  have w: "write_private disk text' f = (r, f')" using assms Inr by (simp add: render_main_def bindp_def)
  show ?thesis
  proof (cases "sd_write disk")
    case (Some e)
    then show ?thesis using w by (auto simp: write_private_def)
  next
    case None
    then have "f' = Some \<lparr>sf_text = text', sf_mode = PRIVATE\<rparr>" using w by (auto simp: write_private_def Let_def split: option.splits)
    then show ?thesis
      using v read_doc_text[OF binding_tree_ok, of u p url t] unfolding required_value
      by - (rule disjI2, rule exI[of _ "\<lparr>sf_text = text', sf_mode = PRIVATE\<rparr>"], rule exI[of _ "xml_text (binding_tree u p url t)"],
          rule exI[of _ u], rule exI[of _ p], rule exI[of _ url], rule exI[of _ t], auto)
  qed
qed

definition sample_environ :: environ where
  "sample_environ = [(USERNAME, ''fs''), (PASSWORD, '' a<b'' @ [QUOTE]), (URL, ''http://d/x?a=1&b=2'')]"

theorem binding_reads_back_witness:
  "\<exists>f' body. render_main \<lparr>sd_write = None, sd_chmod = None\<rparr> sample_environ None = (Inr (), Some f') \<and> sf_mode f' = PRIVATE
    \<and> sf_text f' = XML_HEADER @ body @ [LF] \<and> (\<exists>t. read_doc body = Some (binding_tree ''fs'' (''a<b'' @ [QUOTE]) ''http://d/x?a=1&b=2'' t))"
proof -
  let ?disk = "\<lparr>sd_write = None, sd_chmod = None\<rparr> :: secret_disk"
  have ok: "case render_binding sample_environ of Inl _ \<Rightarrow> False | Inr _ \<Rightarrow> True"
  proof -
    have "required sample_environ USERNAME = Inr ''fs''" "required sample_environ PASSWORD = Inr (''a<b'' @ [QUOTE])"
      "required sample_environ URL = Inr ''http://d/x?a=1&b=2''" by code_simp+
    moreover have "py_strip (environ_get sample_environ TIMEOUT ''2'') = ''2''" by code_simp
    moreover have "float_text ''2'' = Inr 2" by code_simp
    ultimately show ?thesis by (simp add: render_binding_def Let_def timeout_ok_def)
  qed
  then obtain x where x: "render_main ?disk sample_environ None = (Inr (), Some x)"
    by (auto simp: render_main_def bindp_def write_private_def Let_def split: sum.splits)
  have v: "py_strip (environ_get sample_environ USERNAME []) = ''fs''" "py_strip (environ_get sample_environ PASSWORD []) = ''a<b'' @ [QUOTE]"
    "py_strip (environ_get sample_environ URL []) = ''http://d/x?a=1&b=2''" by code_simp+
  show ?thesis using binding_reads_back[OF x] x unfolding v by auto
qed

text \<open>A colon in the user name is let through, so two different pairs of credentials give one file.\<close>

lemma colon_makes_credentials_ambiguous:
  "binding_tree (a @ '':'' @ b) c url t = binding_tree a (b @ '':'' @ c) url t"
  by (simp add: binding_tree_def)

end
