(* ===== verification/Voice.thy ===== *)
theory Voice
  imports Esl Stt
begin

text \<open>
  Speech in both directions around a call: \<open>services/stt_deepgram.py\<close>, the primary program of
  \<open>AutoFallbackSTT\<close>; \<open>services/tts_service.py\<close> and \<open>services/tts_fallback.py\<close>, speech from text with
  a recorded file as fallback; and \<open>telephony/whisper_mode.py\<close>, which plays such speech to the agent
  of a call through the ESL client. Deepgram's service and the voice model are arguments. The
  timings of single words Deepgram returns are left out, nothing reads them.
\<close>

section \<open>Deepgram\<close>

record dg_alternative =
  da_transcript :: string
  da_confidence :: rat

text \<open>A response that lacks an attribute raises with a message; otherwise it has channels of alternatives.\<close>

datatype dg_response = Malformed string | Channels "dg_alternative list list"

record deepgram =
  dg_configured :: bool
  dg_service :: "byte list \<Rightarrow> exc + dg_response"

definition no_speech :: transcription where
  "no_speech = \<lparr>tn_text = [], tn_confidence = 0, tn_error = None, tn_segments = [], tn_fallback = None\<rparr>"

definition parse_response :: "dg_response \<Rightarrow> transcription" where
  "parse_response response =
     (case response of
        Malformed message \<Rightarrow> failed_with message
      | Channels [] \<Rightarrow> no_speech
      | Channels ([] # _) \<Rightarrow> no_speech
      | Channels ((best # _) # _) \<Rightarrow> no_speech\<lparr>tn_text := da_transcript best, tn_confidence := da_confidence best\<rparr>)"

definition deepgram_transcribe :: "deepgram \<Rightarrow> byte list \<Rightarrow> exc + transcription" where
  "deepgram_transcribe D audio =
     (if \<not> dg_configured D then Inr (failed_with ''Deepgram not configured'')
      else case dg_service D audio of Inl e \<Rightarrow> Inl e | Inr response \<Rightarrow> Inr (parse_response response))"

text \<open>Which of the two programs is heard: the answer says so.\<close>

lemma fallback_says_who_was_heard:
  assumes "fallback_transcribe (deepgram_transcribe D) (whisper_transcribe W) audio = Inr t"
  shows "tn_fallback t = Some False \<and> (\<exists>best rest cs. dg_configured D \<and> dg_service D audio = Inr (Channels ((best # rest) # cs))
        \<and> tn_text t = da_transcript best \<and> da_transcript best \<noteq> [] \<and> da_confidence best > 3 / 10)
    \<or> tn_fallback t = Some True \<and> (\<exists>u. whisper_transcribe W audio = Inr u \<and> t = u\<lparr>tn_fallback := Some True\<rparr>)"
proof (cases "dg_configured D")
  case False
  then show ?thesis
    using assms by (auto simp: fallback_transcribe_def deepgram_transcribe_def failed_with_def Let_def split: sum.splits)
next
  case True
  show ?thesis
  proof (cases "dg_service D audio")
    case (Inl e)
    then show ?thesis
      using assms True by (auto simp: fallback_transcribe_def deepgram_transcribe_def Let_def split: sum.splits if_splits)
  next
    case (Inr response)
    then have p: "deepgram_transcribe D audio = Inr (parse_response response)" using True by (simp add: deepgram_transcribe_def)
    have s: "tn_text (parse_response response) \<noteq> [] \<Longrightarrow>
        \<exists>best rest cs. response = Channels ((best # rest) # cs) \<and> tn_text (parse_response response) = da_transcript best
          \<and> tn_confidence (parse_response response) = da_confidence best"
      by (auto simp: parse_response_def failed_with_def no_speech_def split: dg_response.splits list.splits)
    show ?thesis
    proof (cases "tn_text (parse_response response) \<noteq> [] \<and> tn_confidence (parse_response response) > 3 / 10")
      case True': True
      then show ?thesis using s assms Inr True p by (auto simp: fallback_transcribe_def Let_def)
    next
      case False
      then show ?thesis using assms p by (auto simp: fallback_transcribe_def Let_def split: sum.splits)
    qed
  qed
qed

section \<open>Speech from text\<close>

record 'v piper =
  pi_load :: "exc + 'v"
  pi_speak :: "'v \<Rightarrow> string \<Rightarrow> exc + byte list"

text \<open>\<open>lru_cache\<close> keeps a voice that was loaded, not a failure.\<close>

definition load_voice :: "'v piper \<Rightarrow> ('v option, 'v) prog" where
  "load_voice P cache =
     (case cache of
        Some v \<Rightarrow> (Inr v, cache)
      | None \<Rightarrow> (case pi_load P of Inl e \<Rightarrow> (Inl e, None) | Inr v \<Rightarrow> (Inr v, Some v)))"

definition piper_synthesize :: "'v piper \<Rightarrow> string \<Rightarrow> ('v option, byte list) prog" where
  "piper_synthesize P spoken = bindp (load_voice P) (\<lambda>v. lift_res (pi_speak P v spoken))"

definition piper_health :: "'v piper \<Rightarrow> ('v option, bool) prog" where
  "piper_health P = catchp (bindp (load_voice P) (\<lambda>_. ret True)) is_Exception (\<lambda>_. ret False)"

definition get_fallback :: "(string \<times> (exc + byte list)) list \<Rightarrow> string \<Rightarrow> exc + byte list" where
  "get_fallback wavs key = (case map_of wavs (key @ ''.wav'') of Some content \<Rightarrow> content | None \<Rightarrow> Inr [])"

definition synthesize_or_fallback ::
    "'v piper \<Rightarrow> (string \<times> (exc + byte list)) list \<Rightarrow> string \<Rightarrow> string \<Rightarrow> ('v option, byte list) prog" where
  "synthesize_or_fallback P wavs key spoken =
     catchp (piper_synthesize P spoken) is_Exception (\<lambda>_. lift_res (get_fallback wavs key))"

section \<open>Whispering to the agent\<close>

record ('v, 'n) whisper_world =
  wm_voice :: "'v option"
  wm_files :: "(string \<times> byte list) list"
  wm_esl :: "'n esl_conn"

datatype whisper_result = Not_Whispered string | Whispered string string

definition on_voice :: "('v option, 'a) prog \<Rightarrow> (('v, 'n) whisper_world, 'a) prog" where
  "on_voice p w = (case p (wm_voice w) of (r, x) \<Rightarrow> (r, w\<lparr>wm_voice := x\<rparr>))"

definition on_esl_conn :: "('n esl_conn, 'a) prog \<Rightarrow> (('v, 'n) whisper_world, 'a) prog" where
  "on_esl_conn p w = (case p (wm_esl w) of (r, x) \<Rightarrow> (r, w\<lparr>wm_esl := x\<rparr>))"

definition whisper_file :: "string \<Rightarrow> string" where
  "whisper_file call_id = ''/tmp/whisper_'' @ call_id @ ''.wav''"

definition write_wav :: "exc option \<Rightarrow> string \<Rightarrow> byte list \<Rightarrow> (('v, 'n) whisper_world, unit) prog" where
  "write_wav disk path content w =
     (case disk of Some e \<Rightarrow> (Inl e, w) | None \<Rightarrow> (Inr (), w\<lparr>wm_files := AList.update path content (wm_files w)\<rparr>))"

definition whisper_to_agent ::
    "'v piper \<Rightarrow> (string \<times> (exc + byte list)) list \<Rightarrow> 'n esl_net \<Rightarrow> esl_cfg \<Rightarrow> exc option \<Rightarrow> string \<Rightarrow> string
     \<Rightarrow> (('v, 'n) whisper_world, whisper_result) prog" where
  "whisper_to_agent P wavs N cfg disk call_id spoken =
     bindp (gets (\<lambda>w. get_agent_uuid call_id (wm_esl w))) (\<lambda>agent_uuid.
       case agent_uuid of
         None \<Rightarrow> ret (Not_Whispered ''agent_uuid not found'')
       | Some agent \<Rightarrow>
         if agent = [] then ret (Not_Whispered ''agent_uuid not found'')
         else bindp (on_voice (synthesize_or_fallback P wavs ''default'' spoken)) (\<lambda>audio.
           if audio = [] then ret (Not_Whispered ''TTS synthesis failed'')
           else bindp (write_wav disk (whisper_file call_id) audio) (\<lambda>_.
             let command = ''uuid_play '' @ agent @ '' '' @ whisper_file call_id in
             bindp (on_esl_conn (send_api N cfg command)) (\<lambda>response. ret (Whispered command response)))))"

text \<open>What a whisper reports is what happened: when it reports success the agent's leg of that call
  was asked, in one command sent after the file was complete, to play a file that holds speech, the
  speech of the text or else the recorded default; when it reports why not, the telephony server was
  sent nothing and no file was written.\<close>

theorem whisper_reports_what_happened:
  assumes "whisper_to_agent P wavs N cfg disk call_id spoken w = (Inr result, w')"
  shows "case result of
      Not_Whispered _ \<Rightarrow> wm_esl w' = wm_esl w \<and> wm_files w' = wm_files w
    | Whispered command response \<Rightarrow> \<exists>agent audio. get_agent_uuid call_id (wm_esl w) = Some agent \<and> audio \<noteq> []
        \<and> map_of (wm_files w') (whisper_file call_id) = Some audio \<and> command = ''uuid_play '' @ agent @ '' '' @ whisper_file call_id
        \<and> (fst (piper_synthesize P spoken (wm_voice w)) = Inr audio
           \<or> (\<exists>e. fst (piper_synthesize P spoken (wm_voice w)) = Inl e) \<and> get_fallback wavs ''default'' = Inr audio)
        \<and> send_api N cfg command (wm_esl w) = (Inr response, wm_esl w')"
proof -
  obtain agent where a: "get_agent_uuid call_id (wm_esl w) = Some agent \<and> agent \<noteq> []
      \<or> result = Not_Whispered ''agent_uuid not found'' \<and> w' = w"
    using assms by (cases "get_agent_uuid call_id (wm_esl w)") (auto simp: whisper_to_agent_def bindp_def split: if_splits)
  show ?thesis
  proof (cases "get_agent_uuid call_id (wm_esl w) = Some agent \<and> agent \<noteq> []")
    case False
    then show ?thesis using a by auto
  next
    case ag: True
    obtain q v where s: "synthesize_or_fallback P wavs ''default'' spoken (wm_voice w) = (q, v)" by force
    then obtain audio where q: "q = Inr audio" using assms ag by (cases q) (auto simp: whisper_to_agent_def bindp_def on_voice_def)
    have from': "fst (piper_synthesize P spoken (wm_voice w)) = Inr audio
        \<or> (\<exists>e. fst (piper_synthesize P spoken (wm_voice w)) = Inl e) \<and> get_fallback wavs ''default'' = Inr audio"
      using s q by (auto simp: synthesize_or_fallback_def catchp_def split: prod.splits sum.splits if_splits)
    show ?thesis
    proof (cases "audio = []")
      case True
      then show ?thesis using assms ag s q by (auto simp: whisper_to_agent_def bindp_def on_voice_def)
    next
      case False
      let ?c = "''uuid_play '' @ agent @ '' '' @ whisper_file call_id"
      have d: "disk = None" using assms ag s q False
        by (cases disk) (auto simp: whisper_to_agent_def bindp_def on_voice_def write_wav_def)
      obtain x c' where e: "send_api N cfg ?c (wm_esl w) = (x, c')" by force
      have "\<exists>response. x = Inr response \<and> result = Whispered ?c response \<and> wm_esl w' = c'
          \<and> wm_files w' = AList.update (whisper_file call_id) audio (wm_files w)"
        using assms ag s q False d e by (cases x) (auto simp: whisper_to_agent_def bindp_def on_voice_def write_wav_def on_esl_conn_def Let_def)
      then show ?thesis using ag from' False e by (auto simp: update_conv')
    qed
  qed
qed

definition quiet_phone :: "(unit, nat) whisper_world" where
  "quiet_phone = \<lparr>wm_voice = None, wm_files = [], wm_esl = \<lparr>ec_connected = True, ec_running = True, ec_command = True,
     ec_uuids = [(''call-1'', (''A1'', ''C1''))], ec_net = 0\<rparr>\<rparr>"

definition mute_piper :: "unit piper" where
  "mute_piper = \<lparr>pi_load = Inl (OSError ''no model''), pi_speak = (\<lambda>_ _. Inr [])\<rparr>"

theorem whisper_reports_what_happened_witness:
  "\<exists>w'. whisper_to_agent mute_piper [(''default.wav'', Inr [7, 7])] deaf_net lab_cfg None ''call-1'' ''ola'' quiet_phone
      = (Inr (Whispered ''uuid_play A1 /tmp/whisper_call-1.wav'' ''+OK accepted''), w')
    \<and> map_of (wm_files w') ''/tmp/whisper_call-1.wav'' = Some [7, 7]"
proof -
  let ?run = "whisper_to_agent mute_piper [(''default.wav'', Inr [7, 7])] deaf_net lab_cfg None ''call-1'' ''ola'' quiet_phone"
  have f: "whisper_file ''call-1'' = ''/tmp/whisper_call-1.wav''" by (simp add: whisper_file_def)
  have "fst ?run = Inr (Whispered ''uuid_play A1 /tmp/whisper_call-1.wav'' ''+OK accepted'')"
    by (simp add: whisper_to_agent_def quiet_phone_def get_agent_uuid_def bindp_def on_voice_def synthesize_or_fallback_def catchp_def
        piper_synthesize_def load_voice_def mute_piper_def get_fallback_def write_wav_def on_esl_conn_def send_api_def send_command_def
        on_net_def deaf_net_def f Let_def)
  then obtain w' where r: "?run = (Inr (Whispered ''uuid_play A1 /tmp/whisper_call-1.wav'' ''+OK accepted''), w')" by (metis prod.collapse)
  have g: "get_fallback [(''default.wav'', Inr [7, 7])] ''default'' = Inr [7, 7]" by (simp add: get_fallback_def)
  have p: "fst (piper_synthesize mute_piper ''ola'' (wm_voice quiet_phone)) = Inl (OSError ''no model'')"
    by (simp add: piper_synthesize_def load_voice_def mute_piper_def quiet_phone_def bindp_def)
  show ?thesis using whisper_reports_what_happened[OF r] r g p f by auto
qed

end
