(* ===== verification/Anomaly.thy ===== *)
theory Anomaly
  imports Agent_Assist
begin

text \<open>
  \<open>ai/anomaly_detector.py\<close>: furious words and stressed writing in what a speaker says, scored and
  reported to the agents of the call. Text is Latin-1 here, so \<open>lower\<close>, \<open>\w\<close> and \<open>\s\<close> are
  Python's on those characters. The three regular expressions are written as the scans they do:
  runs of one class of characters, and words that are said twice in a row.
\<close>

section \<open>Characters\<close>

definition code :: "char \<Rightarrow> nat" where
  "code c = of_char c"

definition latin_lower :: "char \<Rightarrow> char" where
  "latin_lower c =
     (if is_upper c \<or> (192 \<le> code c \<and> code c \<le> 222 \<and> code c \<noteq> 215) then char_of (code c + 32) else c)"

text \<open>\<open>[A-Z\<close> and the capitals of \<open>0xC0\<close> to \<open>0xDA]\<close>; the multiplication sign lies in that range.\<close>

definition caps_char :: "char \<Rightarrow> bool" where
  "caps_char c \<longleftrightarrow> is_upper c \<or> (192 \<le> code c \<and> code c \<le> 218)"

section \<open>The patterns\<close>

text \<open>\<open>p{k,}\<close> with a positive \<open>k\<close>: one match per longest run of at least \<open>k\<close>; \<open>n\<close> is the length of
  the run so far.\<close>

fun count_runs :: "(char \<Rightarrow> bool) \<Rightarrow> nat \<Rightarrow> nat \<Rightarrow> string \<Rightarrow> nat" where
  "count_runs p k n [] = (if k \<le> n then 1 else 0)"
| "count_runs p k n (c # cs) =
     (if p c then count_runs p k (Suc n) cs else (if k \<le> n then 1 else 0) + count_runs p k 0 cs)"

text \<open>
  \<open>\b(\w+)\s+\1\b\<close> without regard to case. A blank must follow the group, so the group is a whole
  word, and as a word ends behind it, what matches it is the whole next word. A match ends with
  the second word; without one the search goes on behind the first.
\<close>

function count_repeats :: "string \<Rightarrow> nat" where
  "count_repeats [] = 0"
| "count_repeats (c # cs) =
     (if \<not> rx_word c then count_repeats cs
      else
        let w = c # takeWhile rx_word cs; rest = dropWhile rx_word cs;
            next_word = dropWhile rx_space rest; v = takeWhile rx_word next_word
        in if takeWhile rx_space rest \<noteq> [] \<and> map latin_lower v = map latin_lower w
           then Suc (count_repeats (dropWhile rx_word next_word))
           else count_repeats rest)"
  by pat_completeness auto
termination
  by (relation "measure length")
    (auto simp: le_imp_less_Suc length_dropWhile_le intro!: le_imp_less_Suc order_trans[OF length_dropWhile_le])

definition FURY_KEYWORDS :: "string list" where
  "FURY_KEYWORDS =
     [''gritar'', ''berrar'', ''calar'', ''calado'', ''quieto'', ''escuta aqui'',
      ''vc sabe'', ''voce sabe'', ''presta atencao'', ''presta aten'' @ [CHR 0xE7, CHR 0xE3] @ ''o'',
      ''vou processar'', ''reclama'' @ [CHR 0xE7, CHR 0xE3] @ ''o'', ''reclamar'', ''advogado'',
      ''chefe'', ''gerente'', ''quero falar'', ''supervisor'',
      ''policia'', ''pol'' @ [CHR 0xED] @ ''cia'', ''chamar a policia'', ''boletim de ocorrencia'',
      ''amea'' @ [CHR 0xE7] @ ''a'', ''ameacar'', ''processo'', ''justi'' @ [CHR 0xE7] @ ''a'', ''justica'']"

section \<open>Scores and the report\<close>

definition score_fury :: "string \<Rightarrow> nat" where
  "score_fury s = length (filter (\<lambda>k. contains_str k (map latin_lower s)) FURY_KEYWORDS)"

definition score_stress :: "string \<Rightarrow> nat" where
  "score_stress s = count_runs caps_char 3 0 s + count_runs (\<lambda>c. c = CHR ''!'') 2 0 s + count_repeats s"

definition anomaly_threshold :: nat where "anomaly_threshold = 3"

record anomaly_report =
  an_fury :: nat
  an_stress :: nat
  an_total :: nat
  an_detected :: bool

definition alert_message :: "string \<Rightarrow> nat \<Rightarrow> string" where
  "alert_message speaker points =
     ''Poss'' @ [CHR 0xED] @ ''vel anomalia detectada no speaker '' @ speaker @ '' (score: '' @ nat_str points @ '')''"

definition alert_severity :: "nat \<Rightarrow> string" where
  "alert_severity points = (if 5 \<le> points then ''danger'' else ''warning'')"

definition analyze :: "hub_env \<Rightarrow> string \<Rightarrow> json \<Rightarrow> string \<Rightarrow> (hub, anomaly_report) prog" where
  "analyze env call_id spoken speaker =
     (case spoken of
        JStr s \<Rightarrow>
          let fury = score_fury s; stress = score_stress s; points = fury + stress
          in bindp (if anomaly_threshold \<le> points
               then handle_alert env call_id ''fury_detected'' (alert_message speaker points) (alert_severity points)
               else ret ())
             (\<lambda>_. ret \<lparr>an_fury = fury, an_stress = stress, an_total = points, an_detected = anomaly_threshold \<le> points\<rparr>)
      | _ \<Rightarrow> throw (TypeError ''text deve ser uma string''))"

section \<open>What the scores count\<close>

lemma latin_lower_idem [simp]: "latin_lower (latin_lower c) = latin_lower c"
proof -
  have "code (char_of (code c + 32)) = code c + 32" if "code c \<le> 222"
    using that by (simp add: code_def)
  then show ?thesis by (auto simp: latin_lower_def is_upper_def code_def[symmetric])
qed

text \<open>Capitals make no difference to the furious words.\<close>

lemma score_fury_any_case: "score_fury (map latin_lower s) = score_fury s"
  by (simp add: score_fury_def comp_def)

lemma score_fury_bound: "score_fury s \<le> 27"
proof -
  have "score_fury s \<le> length FURY_KEYWORDS" by (simp add: score_fury_def)
  also have "\<dots> = 27" by (simp add: FURY_KEYWORDS_def)
  finally show ?thesis .
qed

text \<open>A run is as good as its characters: text without the class of a pattern scores nothing, and
  a text of one run scores once, however long it is.\<close>

lemma no_runs: "0 < k \<Longrightarrow> \<forall>c\<in>set s. \<not> p c \<Longrightarrow> count_runs p k 0 s = 0"
  by (induction s) auto

lemma one_run: "\<forall>c\<in>set s. p c \<Longrightarrow> count_runs p k n s = (if k \<le> n + length s then 1 else 0)"
  by (induction s arbitrary: n) auto

lemma runs_apart:
  "\<not> p c \<Longrightarrow> count_runs p k n (s @ c # t) = count_runs p k n s + count_runs p k 0 t"
  by (induction s arbitrary: n) auto

declare count_repeats.simps(2) [simp del]

text \<open>On words with blanks between them the scan counts the pairs of equal neighbours, none of
  them twice.\<close>

fun said_twice :: "string list \<Rightarrow> nat" where
  "said_twice [] = 0"
| "said_twice [w] = 0"
| "said_twice (a # b # ws) =
     (if map latin_lower b = map latin_lower a then Suc (said_twice ws) else said_twice (b # ws))"

definition is_word :: "string \<Rightarrow> bool" where
  "is_word w \<longleftrightarrow> w \<noteq> [] \<and> (\<forall>c\<in>set w. rx_word c)"

lemma blank_is_no_word [simp]: "\<not> rx_word (CHR '' '')" "rx_space (CHR '' '')"
  by (simp_all add: rx_word_def py_alnum_def is_alnum_def is_alpha_def is_upper_def is_lower_def is_digit_def rx_space_def is_space_def)

lemma word_is_no_blank: "rx_word c \<Longrightarrow> \<not> rx_space c"
  by (auto simp: rx_word_def py_alnum_def is_alnum_def is_alpha_def is_upper_def is_lower_def is_digit_def rx_space_def is_space_def Let_def)

lemma count_repeats_blank [simp]: "count_repeats (CHR '' '' # s) = count_repeats s"
  by (simp add: count_repeats.simps)

lemma word_split:
  assumes "is_word w" and "t = [] \<or> (\<exists>u. t = CHR '' '' # u)"
  shows "takeWhile rx_word (w @ t) = w" and "dropWhile rx_word (w @ t) = t"
  using assms by (auto simp: is_word_def)

lemma count_repeats_step:
  assumes "is_word a" and "is_word b" and "t = [] \<or> (\<exists>u. t = CHR '' '' # u)"
  shows "count_repeats (a @ CHR '' '' # b @ t) =
    (if map latin_lower b = map latin_lower a then Suc (count_repeats t) else count_repeats (b @ t))"
proof -
  obtain c cs where a: "a = c # cs" "rx_word c" "\<forall>d\<in>set cs. rx_word d" using assms(1) by (cases a) (auto simp: is_word_def)
  then have cs: "takeWhile rx_word (cs @ CHR '' '' # b @ t) = cs" "dropWhile rx_word (cs @ CHR '' '' # b @ t) = CHR '' '' # b @ t"
    by auto
  have "takeWhile rx_space (b @ t) = [] \<and> dropWhile rx_space (b @ t) = b @ t"
    using assms(2) word_is_no_blank by (cases b) (auto simp: is_word_def)
  then have g: "takeWhile rx_space (CHR '' '' # b @ t) = '' ''" "dropWhile rx_space (CHR '' '' # b @ t) = b @ t"
    by simp_all
  have "count_repeats (a @ CHR '' '' # b @ t) = count_repeats (c # cs @ CHR '' '' # b @ t)" by (simp add: a(1))
  also have "\<dots> = (if map latin_lower b = map latin_lower (c # cs) then Suc (count_repeats t) else count_repeats (CHR '' '' # b @ t))"
    unfolding count_repeats.simps(2)[of c] Let_def cs g word_split[OF assms(2,3)] using a(2) by simp
  finally show ?thesis by (simp add: a(1))
qed

lemma count_repeats_is_said_twice:
  "\<forall>w\<in>set ws. is_word w \<Longrightarrow> count_repeats (join_str '' '' ws) = said_twice ws"
proof (induction ws rule: said_twice.induct)
  case (2 w)
  then obtain c cs where w: "w = c # cs" "rx_word c" "\<forall>d\<in>set cs. rx_word d" by (cases w) (auto simp: is_word_def)
  then have "takeWhile rx_word cs = cs" and rest: "dropWhile rx_word cs = []" by auto
  with w show ?case by (simp add: count_repeats.simps(2) Let_def rest del: dropWhile_eq_Nil_conv)
next
  case (3 a b ws)
  obtain t where t: "join_str '' '' (b # ws) = b @ t" "t = [] \<or> (\<exists>u. t = CHR '' '' # u)"
    "count_repeats t = count_repeats (join_str '' '' ws)"
    by (cases ws) auto
  have "count_repeats (join_str '' '' (a # b # ws)) = count_repeats (a @ CHR '' '' # b @ t)"
    using t(1) by simp
  also have "\<dots> = said_twice (a # b # ws)"
    using 3 t by (simp add: count_repeats_step)
  finally show ?case .
qed simp

text \<open>After any history of widgets joining, leaving and being written to, an analysis never fails;
  it reports the sum of the two scores and whether it reaches the threshold. If it does, every
  agent of the call whose socket works is sent an alert that reads back with the speaker and the
  score, dangerous from five points on; if not, nothing is sent and nothing changes.\<close>

theorem detected_anomaly_reaches_the_agents:
  assumes "h = run_ops hub_step ops \<lparr>hb_rooms = [], hb_sent = []\<rparr>"
    and "map_of (hb_rooms h) call_id = Some xs"
    and "analyze env call_id (JStr s) speaker h = (r, h')"
  shows "\<exists>rep. r = Inr rep \<and> an_total rep = score_fury s + score_stress s \<and> (an_detected rep \<longleftrightarrow> 3 \<le> an_total rep)
    \<and> (if an_detected rep
       then \<exists>sent. hb_sent h' = hb_sent h @ sent
         \<and> map (map_prod id json_loads) sent = map (\<lambda>ws. (ws, Some (JObj [(''type'', JStr ''alert''),
             (''alert_type'', JStr ''fury_detected''), (''message'', JStr (alert_message speaker (an_total rep))),
             (''severity'', JStr (if 5 \<le> an_total rep then ''danger'' else ''warning''))]))) (filter (he_up env) xs)
       else h' = h)"
proof -
  have ok: "rooms_ok h" unfolding assms(1) by (rule hubs.run_inv) (simp add: rooms_ok_def)
  define doc where "doc = JObj [(''type'', JStr ''alert''), (''alert_type'', JStr ''fury_detected''),
     (''message'', JStr (alert_message speaker (score_fury s + score_stress s))),
     (''severity'', JStr (if 5 \<le> score_fury s + score_stress s then ''danger'' else ''warning''))]"
  have "json_plain doc" by (simp add: doc_def)
  from broadcast_sends[OF ok assms(2) this, of env] obtain h1 where 1: "broadcast env call_id doc h = (Inr (), h1)"
    "\<exists>sent. hb_sent h1 = hb_sent h @ sent \<and> map (map_prod id json_loads) sent = map (\<lambda>ws. (ws, Some doc)) (filter (he_up env) xs)"
    by blast
  show ?thesis
  proof (cases "anomaly_threshold \<le> score_fury s + score_stress s")
    case True
    then have "r = Inr \<lparr>an_fury = score_fury s, an_stress = score_stress s, an_total = score_fury s + score_stress s, an_detected = True\<rparr>"
      "h' = h1"
      using assms(3) 1(1) by (simp_all add: analyze_def bindp_def handle_alert_def alert_severity_def doc_def ret_def Let_def)
    with 1(2) True show ?thesis by (simp add: doc_def anomaly_threshold_def)
  next
    case False
    with assms(3) show ?thesis by (auto simp: analyze_def bindp_def anomaly_threshold_def Let_def)
  qed
qed

theorem detected_anomaly_reaches_the_agents_witness:
  "\<exists>h' rep. analyze one_up ''call-1'' (JStr ''CHAMA o gerente, GERENTE agora!!'') ''cliente''
      (run_ops hub_step two_agents \<lparr>hb_rooms = [], hb_sent = []\<rparr>) = (Inr rep, h')
    \<and> an_total rep = 4 \<and> map (map_prod id json_loads) (hb_sent h') =
      [(2, Some (JObj [(''type'', JStr ''alert''), (''alert_type'', JStr ''fury_detected''),
         (''message'', JStr (alert_message ''cliente'' 4)), (''severity'', JStr ''warning'')]))]"
proof -
  let ?h = "run_ops hub_step two_agents \<lparr>hb_rooms = [], hb_sent = []\<rparr>"
  let ?s = "''CHAMA o gerente, GERENTE agora!!''"
  obtain r h' where run: "analyze one_up ''call-1'' (JStr ?s) ''cliente'' ?h = (r, h')" by (metis prod.collapse)
  have h: "?h = \<lparr>hb_rooms = [(''call-1'', [1, 2]), (''call-2'', [3])], hb_sent = []\<rparr>"
    by (simp add: two_agents_def join_room_def)
  have e: "score_fury ?s = 1" "score_stress ?s = 3" by code_simp+
  have "map_of (hb_rooms ?h) ''call-1'' = Some [1, 2]" by (simp add: h)
  from detected_anomaly_reaches_the_agents[OF refl this run] show ?thesis
    using run by (auto simp: e h one_up_def)
qed

end
