(* ===== verification/Pops_Cache.thy ===== *)
theory Pops_Cache
  imports Redis Json_Laws
begin

text \<open>
  \<open>ai/pops_cache.py\<close>: the operating procedures of a tenant, kept as JSON in Redis for an hour. The
  expiry of a key is a change the server makes between two calls.
\<close>

definition cache_ttl :: int where "cache_ttl = 3600"

definition pops_key :: "string \<Rightarrow> string" where
  "pops_key tenant_id = ''pops:'' @ tenant_id"

text \<open>\<open>json.loads\<close> may answer any document; an absent or empty text is no procedures.\<close>

definition get_pops :: "'r redis \<Rightarrow> string \<Rightarrow> ('r, json) prog" where
  "get_pops R tenant_id =
     bindp (rd_get R (pops_key tenant_id)) (\<lambda>cached.
       case cached of
         None \<Rightarrow> ret (JList [])
       | Some s \<Rightarrow> if s = [] then ret (JList [])
           else (case json_loads s of None \<Rightarrow> throw (ValueError ''JSONDecodeError'') | Some j \<Rightarrow> ret j))"

definition set_pops :: "'r redis \<Rightarrow> string \<Rightarrow> json list \<Rightarrow> ('r, unit) prog" where
  "set_pops R tenant_id pops = rd_setex R (pops_key tenant_id) cache_ttl (json_dumps (JList pops))"

definition pops_invalidate :: "'r redis \<Rightarrow> string \<Rightarrow> ('r, unit) prog" where
  "pops_invalidate R tenant_id = rd_delete R (pops_key tenant_id)"

lemma pops_key_inj [simp]: "pops_key t = pops_key u \<longleftrightarrow> t = u"
  by (simp add: pops_key_def)

lemma get_pops_cached:
  assumes "redis_laws R texts sets" and "get_pops R tenant w = (Inr j, w')"
  shows "w' = w"
    and "texts w (pops_key tenant) = Some s \<Longrightarrow> s \<noteq> [] \<Longrightarrow> json_loads s = Some j"
    and "texts w (pops_key tenant) = None \<Longrightarrow> j = JList []"
proof -
  obtain cached w1 where g: "rd_get R (pops_key tenant) w = (Inr cached, w1)"
    using assms(2) by (auto simp: get_pops_def bindp_def split: sum.splits prod.splits)
  have l: "w1 = w" "cached = texts w (pops_key tenant)"
    using looksD[OF get_looks[OF assms(1)] g] by simp_all
  show "w' = w"
    and "texts w (pops_key tenant) = Some s \<Longrightarrow> s \<noteq> [] \<Longrightarrow> json_loads s = Some j"
    and "texts w (pops_key tenant) = None \<Longrightarrow> j = JList []"
    using assms(2) g l by (auto simp: get_pops_def bindp_def ret_def throw_def split: option.splits if_splits)
qed

lemma json_dumps_not_Nil: "json_plain j \<Longrightarrow> json_dumps j \<noteq> []"
  using opens_dumps[of j] by (auto simp: opens_def)

text \<open>What is kept for a tenant is what is read for it, and nothing kept or dropped for another
  tenant changes it; after it is dropped there is nothing.\<close>

theorem cached_pops_read_back:
  assumes "redis_laws R texts sets" and "\<forall>x\<in>set pops. json_plain x"
    and "set_pops R tenant pops w = (Inr (), w1)"
    and "set_pops R other others w1 = (r, w2)" and "pops_invalidate R dropped w2 = (Inr (), w3)"
    and "get_pops R tenant w3 = (Inr j, w4)" and "other \<noteq> tenant"
  shows "j = (if dropped = tenant then JList [] else JList pops)"
proof -
  let ?k = "pops_key tenant"
  have 1: "texts w1 ?k = Some (json_dumps (JList pops))"
    using altersD(2)[OF setex_alters(1)[OF assms(1)] assms(3)[unfolded set_pops_def]] by simp
  have 2: "texts w2 ?k = texts w1 ?k"
    using altersD(1)[OF setex_alters(1)[OF assms(1)] assms(4)[unfolded set_pops_def], of ?k] assms(7) by simp
  note d = altersD[OF delete_alters[OF assms(1)] assms(5)[unfolded pops_invalidate_def]]
  have p: "json_plain (JList pops)" using assms(2) by simp
  show ?thesis
  proof (cases "dropped = tenant")
    case True
    with d(2) have "texts w3 ?k = None" by simp
    with get_pops_cached(3)[OF assms(1,6)] True show ?thesis by simp
  next
    case False
    then have "texts w3 ?k = Some (json_dumps (JList pops))" using d(1)[of ?k] 1 2 by simp
    from get_pops_cached(2)[OF assms(1,6) this json_dumps_not_Nil[OF p]] loads_dumps[OF p] False
    show ?thesis by simp
  qed
qed

end
