(* ===== verification/Spec2Isabelle.thy ===== *)
theory Spec2Isabelle
  imports Lease Consumers Config Capacity Cleanup Uploader Ingestor Calls Trunk_Import Smb_Sync Esl Transcript_Job Rate_Limit Admin_Laws Provision Extensions Watcher Operational Secrets Voice Anomaly Pops_Cache
begin







end
